(* ===== verification/Py_Prelude.thy ===== *)
theory Py_Prelude
  imports Main "HOL-Library.Word" "HOL-Library.AList"
begin

section \<open>Prelude: results, octets, dictionaries\<close>

text \<open>
  What every component of the model shares.
  \<^item> \<open>exn\<close> names the Python exceptions the sources raise or catch, and \<open>'a result\<close> is the
    value of a call that may raise: \<open>Inl\<close> the exception, \<open>Inr\<close> the value. \<open>bindE\<close> sequences two
    such calls; the first exception ends the sequence, as it does in Python.
  \<^item> \<open>byte\<close> is an octet (\<open>8 word\<close>) and \<open>bytes\<close> a Python byte string. \<open>be_bytes\<close> and \<open>be_int\<close> are
    \<open>struct.pack\<close> and \<open>struct.unpack\<close> in network order.
  \<^item> A Python string is a \<open>string\<close>: a character stands for a code point below 256, so that
    \<open>encode("ascii")\<close> can fail, as the code expects it to.
  \<^item> A Python dictionary is an association list in insertion order: \<open>map_of\<close> looks a key up,
    \<open>AList.update\<close> assigns (a known key keeps its place, a new one goes to the end) and
    \<open>AList.delete\<close> removes. The locale \<open>py_dict\<close> states what the clients rely on.
\<close>

unbundle bit_operations_syntax

named_theorems be_simps \<open>conversions between integers and their big-endian octets\<close>
named_theorems result_elims \<open>eliminations for successful calls\<close>

subsection \<open>Exceptions and results\<close>

datatype exn =
    DiameterError string
  | BencodeError string
  | ValueError string
  | UnicodeEncodeError
  | UnicodeDecodeError
  | JSONDecodeError
  | ConnectionError string
  | OSError
  | RuntimeError string
  | KeyError
  | AttributeError
  | TypeError
  | RecursionError
  | IndexError
  | AssertionError string
  | OverflowError
  | TimeoutExpired
  | ZeroDivisionError

type_synonym 'a result = "exn + 'a"

text \<open>The subclasses of \<open>ValueError\<close> among them, for the handlers that catch it.\<close>

fun is_value_error :: "exn \<Rightarrow> bool" where
  "is_value_error (DiameterError _) = True"
| "is_value_error (BencodeError _) = True"
| "is_value_error (ValueError _) = True"
| "is_value_error UnicodeEncodeError = True"
| "is_value_error UnicodeDecodeError = True"
| "is_value_error JSONDecodeError = True"
| "is_value_error _ = False"

text \<open>\<open>str(exc)\<close> where the text of the exception reaches an answer.\<close>

fun exn_text :: "exn \<Rightarrow> string" where
  "exn_text (DiameterError s) = s"
| "exn_text (BencodeError s) = s"
| "exn_text (ValueError s) = s"
| "exn_text (ConnectionError s) = s"
| "exn_text (RuntimeError s) = s"
| "exn_text _ = []"

definition bindE :: "'e + 'a \<Rightarrow> ('a \<Rightarrow> 'e + 'b) \<Rightarrow> 'e + 'b" where
  "bindE m f = (case m of Inl e \<Rightarrow> Inl e | Inr x \<Rightarrow> f x)"

definition guardE :: "bool \<Rightarrow> 'e \<Rightarrow> 'e + unit" where
  "guardE b e = (if b then Inr () else Inl e)"

lemma bindE_simps [simp]:
  "bindE (Inl e) f = Inl e"
  "bindE (Inr x) f = f x"
  by (simp_all add: bindE_def)

lemma bindE_cong [fundef_cong]:
  "m = m' \<Longrightarrow> (\<And>x. m' = Inr x \<Longrightarrow> f x = f' x) \<Longrightarrow> bindE m f = bindE m' f'"
  by (auto simp: bindE_def split: sum.splits)

lemma bindE_Inr_iff: "bindE m f = Inr y \<longleftrightarrow> (\<exists>x. m = Inr x \<and> f x = Inr y)"
  by (cases m) auto

lemma bindE_Inl_iff: "bindE m f = Inl e \<longleftrightarrow> m = Inl e \<or> (\<exists>x. m = Inr x \<and> f x = Inl e)"
  by (cases m) auto

lemma bindE_InrE [result_elims]:
  assumes "bindE m f = Inr y"
  obtains x where "m = Inr x" and "f x = Inr y"
  using assms by (auto simp: bindE_Inr_iff)

lemma bindE_if: "bindE (if b then m else n) f = (if b then bindE m f else bindE n f)"
  by simp

lemma guardE_simps [simp]:
  "guardE True e = Inr ()"
  "guardE False e = Inl e"
  by (simp_all add: guardE_def)

lemma guardE_Inr_iff [simp]: "guardE b e = Inr u \<longleftrightarrow> b"
  by (simp add: guardE_def)

subsection \<open>Octets\<close>

type_synonym byte = "8 word"
type_synonym bytes = "byte list"

text \<open>\<open>be_bytes n v\<close> is \<open>struct.pack\<close> of the \<open>n\<close>-octet network format, \<open>be_int\<close> reads it back.\<close>

primrec be_bytes :: "nat \<Rightarrow> int \<Rightarrow> bytes" where
  "be_bytes 0 v = []"
| "be_bytes (Suc n) v = be_bytes n (v div 256) @ [word_of_int v]"

definition be_int :: "bytes \<Rightarrow> int" where
  "be_int bs = foldl (\<lambda>a b. 256 * a + uint b) 0 bs"

lemma length_be_bytes [simp, be_simps]: "length (be_bytes n v) = n"
  by (induction n arbitrary: v) auto

lemma be_int_Nil [simp, be_simps]: "be_int [] = 0"
  by (simp add: be_int_def)

lemma be_int_snoc [simp, be_simps]: "be_int (bs @ [b]) = 256 * be_int bs + uint b"
  by (simp add: be_int_def)

lemma byte_bound [simp]: "uint (b :: byte) < 256" "0 \<le> uint (b :: byte)"
  using uint_lt2p [of b] by simp_all

lemma be_int_nonneg [simp]: "0 \<le> be_int bs"
  by (induction bs rule: rev_induct) auto

lemma be_int_bound: "be_int bs < 256 ^ length bs"
proof (induction bs rule: rev_induct)
  case Nil
  then show ?case by simp
next
  case (snoc b bs)
  then have "be_int bs + 1 \<le> 256 ^ length bs" by simp
  then have "256 * be_int bs + 256 \<le> 256 ^ length (bs @ [b])" by simp
  moreover have "uint b < 256" by simp
  ultimately show ?case by (simp only: be_int_snoc)
qed

lemma uint_word_of_int_byte: "uint (word_of_int v :: byte) = v mod 256"
  by (simp add: uint_word_of_int)

lemma be_int_be_bytes [be_simps]: "0 \<le> v \<Longrightarrow> v < 256 ^ n \<Longrightarrow> be_int (be_bytes n v) = v"
proof (induction n arbitrary: v)
  case 0
  then show ?case by simp
next
  case (Suc n)
  from Suc.prems have "v div 256 < 256 ^ n" "0 \<le> v div 256"
    by (auto simp: div_less_iff_less_mult mult.commute)
  with Suc.IH have "be_int (be_bytes n (v div 256)) = v div 256" by simp
  then show ?case
    by (simp add: uint_word_of_int_byte)
qed

lemma be_bytes_be_int [be_simps]: "length bs = n \<Longrightarrow> be_bytes n (be_int bs) = bs"
proof (induction bs arbitrary: n rule: rev_induct)
  case Nil
  then show ?case by simp
next
  case (snoc b bs)
  then obtain m where n: "n = Suc m" and m: "length bs = m" by (cases n) auto
  have "(256 * be_int bs + uint b) div 256 = be_int bs"
    using byte_bound [of b] by simp
  moreover have "word_of_int (256 * be_int bs + uint b) = b"
    by (rule word_uint_eqI, subst uint_word_of_int_byte) (simp del: of_int_add)
  ultimately show ?case
    using snoc.IH [OF m] by (simp add: n)
qed

text \<open>The slice \<open>xs[i:j]\<close> for \<open>0 \<le> i \<le> j\<close>; like Python's, it is cut at the end of the list.\<close>

definition py_slice :: "'a list \<Rightarrow> nat \<Rightarrow> nat \<Rightarrow> 'a list" where
  "py_slice xs i j = take (j - i) (drop i xs)"

lemma length_py_slice [simp]: "length (py_slice xs i j) = min (j - i) (length xs - i)"
  by (simp add: py_slice_def)

lemma drop_py_slice_split: "i \<le> j \<Longrightarrow> drop i xs = py_slice xs i j @ drop j xs"
  by (simp add: py_slice_def) (metis append_take_drop_id drop_drop le_add_diff_inverse2)

lemma nth_py_slice: "i < length xs \<Longrightarrow> [xs ! i] = py_slice xs i (Suc i)"
  by (simp add: py_slice_def take_Suc hd_drop_conv_nth)

lemma py_slice_append: "py_slice (pre @ xs) (length pre + i) (length pre + j) = py_slice xs i j"
  by (simp add: py_slice_def)

lemma py_slice_append0: "py_slice (pre @ xs) (length pre) (length pre + j) = take j xs"
  by (simp add: py_slice_def)

subsection \<open>Strings and their encodings\<close>

text \<open>\<open>bytes_of\<close> is a \<open>b"..."\<close> literal; \<open>str_of\<close> reads the octets as characters one by one.\<close>

definition bytes_of :: "string \<Rightarrow> bytes" where
  "bytes_of s = map of_char s"

definition str_of :: "bytes \<Rightarrow> string" where
  "str_of bs = map (\<lambda>b. char_of (unat b)) bs"

definition is_ascii :: "string \<Rightarrow> bool" where
  "is_ascii s \<longleftrightarrow> list_all (\<lambda>c. (of_char c :: nat) < 128) s"

text \<open>\<open>s.encode("ascii")\<close>, \<open>b.decode("ascii")\<close>, and \<open>s.encode("utf-8")\<close> for code points below 256.\<close>

definition encode_ascii :: "string \<Rightarrow> bytes result" where
  "encode_ascii s = (if is_ascii s then Inr (bytes_of s) else Inl UnicodeEncodeError)"

definition decode_ascii :: "bytes \<Rightarrow> string result" where
  "decode_ascii bs =
     (if list_all (\<lambda>b. b < 128) bs then Inr (str_of bs) else Inl UnicodeDecodeError)"

definition utf8_char :: "char \<Rightarrow> bytes" where
  "utf8_char c =
     (let n = (of_char c :: nat)
      in if n < 128 then [of_char c]
         else [word_of_nat (192 + n div 64), word_of_nat (128 + n mod 64)])"

definition encode_utf8 :: "string \<Rightarrow> bytes" where
  "encode_utf8 s = concat (map utf8_char s)"

lemma unat_of_char [simp]: "unat (of_char c :: byte) = of_char c"
proof -
  have "(of_char c :: byte) = word_of_nat (of_char c)"
    by (metis of_nat_of_char)
  moreover have "of_char c < (256 :: nat)" by simp
  ultimately show ?thesis by (simp add: unsigned_of_nat take_bit_nat_eq_self)
qed

lemma length_bytes_of [simp]: "length (bytes_of s) = length s"
  by (simp add: bytes_of_def)

lemma length_str_of [simp]: "length (str_of bs) = length bs"
  by (simp add: str_of_def)

lemma str_of_bytes_of [simp]: "str_of (bytes_of s) = s"
  by (simp add: str_of_def bytes_of_def comp_def)

lemma bytes_of_str_of [simp]: "bytes_of (str_of bs) = bs"
proof -
  have "of_char (char_of (unat b) :: char) = b" for b :: byte
    by (rule word_unat_eq_iff [THEN iffD2]) (use unsigned_less [of b, where 'a = nat] in simp)
  then show ?thesis by (simp add: str_of_def bytes_of_def comp_def)
qed

lemma bytes_of_simps [simp]:
  "bytes_of [] = []"
  "bytes_of (c # s) = of_char c # bytes_of s"
  "bytes_of (s @ t) = bytes_of s @ bytes_of t"
  by (simp_all add: bytes_of_def)

lemma bytes_of_inject [simp]: "bytes_of s = bytes_of t \<longleftrightarrow> s = t"
  by (metis str_of_bytes_of)

lemma is_ascii_simps [simp]:
  "is_ascii []"
  "is_ascii (c # s) \<longleftrightarrow> (of_char c :: nat) < 128 \<and> is_ascii s"
  "is_ascii (s @ t) \<longleftrightarrow> is_ascii s \<and> is_ascii t"
  by (simp_all add: is_ascii_def)

lemma encode_ascii_Inr_iff [simp]: "encode_ascii s = Inr bs \<longleftrightarrow> is_ascii s \<and> bs = bytes_of s"
  by (auto simp: encode_ascii_def)

lemma less_128_of_char [simp]: "(of_char c :: byte) < 128 \<longleftrightarrow> (of_char c :: nat) < 128"
  by (simp add: word_less_nat_alt)

lemma decode_bytes_of: "is_ascii s \<Longrightarrow> decode_ascii (bytes_of s) = Inr s"
  by (simp add: decode_ascii_def is_ascii_def) (simp add: bytes_of_def list_all_iff)

lemma decode_ascii_Inr_iff: "decode_ascii bs = Inr s \<longleftrightarrow> is_ascii s \<and> bs = bytes_of s"
proof
  assume h: "decode_ascii bs = Inr s"
  then have s: "s = str_of bs" and bs: "list_all (\<lambda>b. b < 128) bs"
    by (auto simp: decode_ascii_def split: if_splits)
  from s have eq: "bs = bytes_of s" by simp
  with bs have "is_ascii s"
    by (simp add: is_ascii_def bytes_of_def list_all_iff)
  with eq show "is_ascii s \<and> bs = bytes_of s" by simp
qed (auto simp: decode_bytes_of)

lemma encode_utf8_ascii: "is_ascii s \<Longrightarrow> encode_utf8 s = bytes_of s"
  by (induction s) (simp_all add: encode_utf8_def utf8_char_def Let_def)

lemma length_utf8_char: "length (utf8_char c) \<le> 2"
  by (simp add: utf8_char_def Let_def)

lemma length_encode_utf8: "length (encode_utf8 s) \<le> 2 * length s"
proof (induction s)
  case (Cons c s)
  then show ?case using length_utf8_char [of c] by (simp add: encode_utf8_def)
qed (simp add: encode_utf8_def)

subsection \<open>Dictionaries\<close>

text \<open>
  The operations of a Python dictionary that the components use, and their laws. A client only
  relies on these, never on how the entries are stored.
\<close>

locale py_dict =
  fixes get :: "'d \<Rightarrow> 'k \<Rightarrow> 'v option"
    and assign :: "'k \<Rightarrow> 'v \<Rightarrow> 'd \<Rightarrow> 'd"
    and remove :: "'k \<Rightarrow> 'd \<Rightarrow> 'd"
    and size :: "'d \<Rightarrow> nat"
    and ok :: "'d \<Rightarrow> bool"
  assumes get_assign: "get (assign k v d) = (get d)(k \<mapsto> v)"
    and get_remove: "get (remove k d) = (get d)(k := None)"
    and ok_assign: "ok d \<Longrightarrow> ok (assign k v d)"
    and ok_remove: "ok d \<Longrightarrow> ok (remove k d)"
    and size_card: "ok d \<Longrightarrow> size d = card (dom (get d)) \<and> finite (dom (get d))"
begin

lemma size_assign:
  assumes "ok d"
  shows "size (assign k v d) = (if get d k = None then Suc (size d) else size d)"
proof -
  have "ok (assign k v d)" by (rule ok_assign [OF assms])
  then have "size (assign k v d) = card (insert k (dom (get d)))"
    by (simp add: size_card get_assign)
  moreover have "finite (dom (get d))" "size d = card (dom (get d))"
    using size_card [OF assms] by auto
  ultimately show ?thesis by (auto simp: card_insert_if domIff)
qed

lemma size_assign_bound:
  "ok d \<Longrightarrow> get d k \<noteq> None \<or> size d < n \<Longrightarrow> size d \<le> n \<Longrightarrow> size (assign k v d) \<le> n"
  by (auto simp: size_assign)

lemma size_remove_le:
  assumes "ok d"
  shows "size (remove k d) \<le> size d"
proof -
  have "ok (remove k d)" by (rule ok_remove [OF assms])
  then have "size (remove k d) = card (dom (get d) - {k})"
    by (simp add: size_card get_remove)
  also have "\<dots> \<le> card (dom (get d))"
    by (rule card_mono) (use size_card [OF assms] in auto)
  also have "\<dots> = size d" using size_card [OF assms] by simp
  finally show ?thesis .
qed

end

text \<open>The association list of the model satisfies the laws as long as its keys are distinct.\<close>

definition dict_ok :: "('k \<times> 'v) list \<Rightarrow> bool" where
  "dict_ok d \<longleftrightarrow> distinct (map fst d)"

lemma length_eq_card_dom: "dict_ok d \<Longrightarrow> length d = card (dom (map_of d))"
  by (metis dict_ok_def distinct_card dom_map_of_conv_image_fst length_map set_map)

interpretation dict: py_dict map_of AList.update AList.delete length dict_ok
proof unfold_locales
  fix k :: 'a and v :: 'b and d :: "('a \<times> 'b) list"
  show "map_of (AList.update k v d) = (map_of d)(k \<mapsto> v)"
    by (rule update_conv')
  show "map_of (AList.delete k d) = (map_of d)(k := None)"
    by (rule delete_conv')
  show "dict_ok d \<Longrightarrow> dict_ok (AList.update k v d)"
    by (simp add: dict_ok_def distinct_update)
  show "dict_ok d \<Longrightarrow> dict_ok (AList.delete k d)"
    by (simp add: dict_ok_def distinct_delete)
  show "dict_ok d \<Longrightarrow> length d = card (dom (map_of d)) \<and> finite (dom (map_of d))"
    by (simp add: length_eq_card_dom finite_dom_map_of)
qed

lemma dict_ok_Nil [simp]: "dict_ok []"
  by (simp add: dict_ok_def)

end
