(* ===== verification/Diameter_Codec.thy ===== *)
theory Diameter_Codec
  imports Py_Prelude
begin

section \<open>The Diameter codec of the lab HSS\<close>

text \<open>
  \<^verbatim>\<open>lab/ims_hss.py\<close>, lines 37 to 214: the octet helpers \<open>_u24\<close>, \<open>_read_u24\<close>, \<open>_u32\<close>, the AVP
  builder \<open>_avp\<close> and its wrappers, and the parser (\<open>_parse_avps\<close>, \<open>parse_message\<close>) with the
  message builder \<open>build_message\<close>. Python integers are \<open>int\<close>; a flag octet is a \<open>byte\<close>.

  The wire format is given once more as a reference encoder (\<open>encode_avp\<close>, \<open>encode_message\<close>)
  with its well-formedness predicate, and the parser is shown to be exactly its inverse: it
  accepts the encodings of well-formed values and nothing else.
\<close>

subsection \<open>Constants\<close>

definition MAX_DIAMETER :: int where "MAX_DIAMETER = 1048576"
definition CX_APPLICATION :: int where "CX_APPLICATION = 16777216"
definition SH_APPLICATION :: int where "SH_APPLICATION = 16777217"
definition THREEGPP_VENDOR :: int where "THREEGPP_VENDOR = 10415"
definition RESULT_SUCCESS :: int where "RESULT_SUCCESS = 2001"
definition RESULT_UNKNOWN_USER :: int where "RESULT_UNKNOWN_USER = 5001"
definition RESULT_UNSUPPORTED :: int where "RESULT_UNSUPPORTED = 3001"

lemmas hss_constants = MAX_DIAMETER_def CX_APPLICATION_def SH_APPLICATION_def
  THREEGPP_VENDOR_def RESULT_SUCCESS_def RESULT_UNKNOWN_USER_def RESULT_UNSUPPORTED_def

subsection \<open>Octet helpers\<close>

definition u24 :: "int \<Rightarrow> bytes result" where
  "u24 value =
     (if \<not> (0 \<le> value \<and> value \<le> 0xFFFFFF) then Inl (DiameterError ''u24 out of range'')
      else Inr [word_of_int (drop_bit 16 value AND 0xFF), word_of_int (drop_bit 8 value AND 0xFF),
                word_of_int (value AND 0xFF)])"

definition read_u24 :: "bytes \<Rightarrow> int result" where
  "read_u24 value =
     (if length value \<noteq> 3 then Inl (DiameterError ''invalid u24'')
      else Inr (push_bit 16 (uint (value ! 0)) OR push_bit 8 (uint (value ! 1)) OR uint (value ! 2)))"

definition u32 :: "int \<Rightarrow> bytes result" where
  "u32 value =
     (if \<not> (0 \<le> value \<and> value \<le> 0xFFFFFFFF) then Inl (DiameterError ''u32 out of range'')
      else Inr (be_bytes 4 value))"

subsection \<open>Building AVPs\<close>

definition avp_raw :: "int \<Rightarrow> byte \<Rightarrow> bytes \<Rightarrow> bytes result" where
  "avp_raw code flags body =
     (let len = 8 + int (length body)
      in bindE (u24 len) (\<lambda>l.
           Inr (be_bytes 4 code @ [flags] @ l @ body @ replicate (nat ((4 - len mod 4) mod 4)) 0)))"

definition avp :: "int \<Rightarrow> bytes \<Rightarrow> byte \<Rightarrow> int option \<Rightarrow> bytes result" where
  "avp code value flags vendor =
     (if \<not> (1 \<le> code \<and> code \<le> 0xFFFFFF) \<or> length value > 65519
      then Inl (DiameterError ''invalid AVP'')
      else case vendor of
        None \<Rightarrow> avp_raw code flags value
      | Some v \<Rightarrow>
          if \<not> (1 \<le> v \<and> v \<le> 0xFFFFFFFF) then Inl (DiameterError ''invalid AVP vendor'')
          else bindE (u32 v) (\<lambda>vb. avp_raw code (flags OR 0x80) (vb @ value)))"

text \<open>The callers never pass \<open>flags\<close>, so they use its default, the mandatory bit.\<close>

definition avp_std :: "int \<Rightarrow> bytes \<Rightarrow> int option \<Rightarrow> bytes result" where
  "avp_std code value vendor = avp code value 0x40 vendor"

definition avp_text :: "int \<Rightarrow> string \<Rightarrow> int option \<Rightarrow> bytes result" where
  "avp_text code value vendor = bindE (encode_ascii value) (\<lambda>bs. avp_std code bs vendor)"

definition avp_u32 :: "int \<Rightarrow> int \<Rightarrow> int option \<Rightarrow> bytes result" where
  "avp_u32 code value vendor = bindE (u32 value) (\<lambda>bs. avp_std code bs vendor)"

definition vsa :: "int \<Rightarrow> bytes result" where
  "vsa app =
     bindE (avp_u32 266 THREEGPP_VENDOR None) (\<lambda>a.
     bindE (avp_u32 258 app None) (\<lambda>b.
     avp_std 260 (a @ b) None))"

definition vendor_text :: "int \<Rightarrow> string \<Rightarrow> bytes result" where
  "vendor_text code value = avp_text code value (Some THREEGPP_VENDOR)"

definition vendor_bytes :: "int \<Rightarrow> bytes \<Rightarrow> bytes result" where
  "vendor_bytes code value = avp_std code value (Some THREEGPP_VENDOR)"

definition vendor_grouped :: "int \<Rightarrow> bytes \<Rightarrow> bytes result" where
  "vendor_grouped code children = avp_std code children (Some THREEGPP_VENDOR)"

subsection \<open>AVPs and messages\<close>

record Avp =
  avp_code :: int
  avp_flags :: byte
  avp_vendor :: "int option"
  avp_value :: bytes

record DiameterMessage =
  msg_flags :: byte
  command :: int
  application :: int
  hop_by_hop :: int
  end_to_end :: int
  avps :: "Avp list"

primrec find_avp :: "Avp list \<Rightarrow> int \<Rightarrow> int option \<Rightarrow> bytes option" where
  "find_avp [] code vendor = None"
| "find_avp (a # as) code vendor =
     (if avp_code a = code \<and> avp_vendor a = vendor then Some (avp_value a)
      else find_avp as code vendor)"

definition find :: "DiameterMessage \<Rightarrow> int \<Rightarrow> int option \<Rightarrow> bytes option" where
  "find m code vendor = find_avp (avps m) code vendor"

subsection \<open>Parsing\<close>

text \<open>One iteration of the loop of \<open>_parse_avps\<close>: the AVP at \<open>offset\<close> and the next offset.\<close>

definition parse_avp :: "bytes \<Rightarrow> nat \<Rightarrow> (Avp \<times> nat) result" where
  "parse_avp raw offset =
     (if length raw - offset < 8 then Inl (DiameterError ''truncated AVP'')
      else
        let code = be_int (py_slice raw offset (offset + 4));
            flags = raw ! (offset + 4)
        in bindE (read_u24 (py_slice raw (offset + 5) (offset + 8))) (\<lambda>l.
          let len = nat l;
              header_length = (if flags AND 0x80 \<noteq> 0 then 12 else 8)
          in if code = 0 \<or> len < header_length \<or> offset + len > length raw
             then Inl (DiameterError ''invalid AVP length'')
             else
               let vendor = (if flags AND 0x80 \<noteq> 0
                             then Some (be_int (py_slice raw (offset + 8) (offset + 12))) else None);
                   value_start = offset + header_length;
                   padding = (4 - len mod 4) mod 4
               in if offset + len + padding > length raw
                     \<or> py_slice raw (offset + len) (offset + len + padding) \<noteq> replicate padding 0
                  then Inl (DiameterError ''invalid AVP padding'')
                  else Inr (\<lparr>avp_code = code, avp_flags = flags, avp_vendor = vendor,
                             avp_value = py_slice raw value_start (offset + len)\<rparr>,
                            offset + len + padding)))"

lemma parse_avp_advances: "parse_avp raw offset = Inr (a, next) \<Longrightarrow> offset < next"
  by (auto simp: parse_avp_def Let_def bindE_Inr_iff split: if_splits)

function parse_avps_from :: "bytes \<Rightarrow> nat \<Rightarrow> Avp list result" where
  "parse_avps_from raw offset =
     (if offset < length raw
      then bindE (parse_avp raw offset) (\<lambda>r.
           bindE (parse_avps_from raw (snd r)) (\<lambda>as.
           Inr (fst r # as)))
      else Inr [])"
  by pat_completeness auto
termination
  by (relation "measure (\<lambda>(raw, offset). length raw - offset)")
    (auto dest: parse_avp_advances)

declare parse_avps_from.simps [simp del]

definition parse_avps :: "bytes \<Rightarrow> Avp list result" where
  "parse_avps raw = parse_avps_from raw 0"

definition parse_message :: "bytes \<Rightarrow> DiameterMessage result" where
  "parse_message raw =
     (if length raw < 20 \<or> raw ! 0 \<noteq> 1 then Inl (DiameterError ''invalid Diameter header'')
      else bindE (read_u24 (py_slice raw 1 4)) (\<lambda>len.
        if len < 20 \<or> len > MAX_DIAMETER \<or> len \<noteq> int (length raw)
        then Inl (DiameterError ''invalid Diameter message length'')
        else bindE (read_u24 (py_slice raw 5 8)) (\<lambda>cmd.
          bindE (parse_avps (drop 20 raw)) (\<lambda>as.
          Inr \<lparr>msg_flags = raw ! 4, command = cmd,
               application = be_int (py_slice raw 8 12),
               hop_by_hop = be_int (py_slice raw 12 16),
               end_to_end = be_int (py_slice raw 16 20),
               avps = as\<rparr>))))"

definition build_message :: "byte \<Rightarrow> int \<Rightarrow> int \<Rightarrow> int \<Rightarrow> int \<Rightarrow> bytes \<Rightarrow> bytes result" where
  "build_message flags cmd app hop e2e body =
     (let len = 20 + int (length body)
      in if len > MAX_DIAMETER then Inl (DiameterError ''Diameter message too large'')
         else bindE (u24 len) (\<lambda>l.
              bindE (u24 cmd) (\<lambda>c.
              bindE (u32 app) (\<lambda>a.
              bindE (u32 hop) (\<lambda>h.
              bindE (u32 e2e) (\<lambda>e.
              Inr ([1] @ l @ [flags] @ c @ a @ h @ e @ body)))))))"

subsection \<open>The octet helpers are the network-order conversions\<close>

lemma bit_byte_lt: "bit (uint (b :: byte)) n \<Longrightarrow> n < 8"
  by (simp add: bit_uint_iff)

lemma or_push_bit_8: "0 \<le> x \<Longrightarrow> push_bit 8 x OR uint (b :: byte) = 256 * x + uint b"
proof -
  have "push_bit 8 x + uint b = push_bit 8 x OR uint b"
    by (rule disjunctive_add) (auto simp: bit_push_bit_iff dest: bit_byte_lt)
  then show ?thesis by (simp add: push_bit_eq_mult)
qed

lemma read_u24_be_int:
  assumes "length bs = 3"
  shows "read_u24 bs = Inr (be_int bs)"
proof -
  from assms obtain a b c where bs: "bs = [a, b, c]"
    by (auto simp: numeral_3_eq_3 length_Suc_conv)
  have "push_bit 16 (uint a) OR push_bit 8 (uint b) OR uint c
      = push_bit 8 (push_bit 8 (uint a) OR uint b) OR uint c"
    by (simp add: push_bit_or or.assoc)
  also have "\<dots> = 256 * (256 * uint a + uint b) + uint c"
    by (simp add: or_push_bit_8 del: push_bit_or)
  finally show ?thesis
    by (simp add: read_u24_def bs be_int_def)
qed

lemma u24_Inr_iff: "u24 v = Inr bs \<longleftrightarrow> 0 \<le> v \<and> v < 2 ^ 24 \<and> bs = be_bytes 3 v"
proof -
  have m: "w AND 0xFF = w mod 256" for w :: int
    using take_bit_eq_mask [of 8 w] by (simp add: take_bit_eq_mod mask_eq_exp_minus_1)
  have w: "(word_of_int (x mod 256) :: byte) = word_of_int x" for x
    by (rule word_uint_eqI) (simp add: uint_word_of_int_byte)
  have d: "v div 256 div 256 = v div 65536"
    using zdiv_zmult2_eq [of 256 v 256] by simp
  show ?thesis
    by (auto simp: u24_def m w d drop_bit_eq_div numeral_3_eq_3)
qed

lemma u32_Inr_iff: "u32 v = Inr bs \<longleftrightarrow> 0 \<le> v \<and> v < 2 ^ 32 \<and> bs = be_bytes 4 v"
  by (auto simp: u32_def)

subsection \<open>The reference wire format\<close>

text \<open>The number of padding octets that brings a length to a multiple of four.\<close>

definition pad4 :: "nat \<Rightarrow> nat" where
  "pad4 n = (4 - n mod 4) mod 4"

definition header_length :: "Avp \<Rightarrow> nat" where
  "header_length a = (if avp_vendor a = None then 8 else 12)"

definition avp_length :: "Avp \<Rightarrow> nat" where
  "avp_length a = header_length a + length (avp_value a)"

definition vendor_octets :: "int option \<Rightarrow> bytes" where
  "vendor_octets v = (case v of None \<Rightarrow> [] | Some n \<Rightarrow> be_bytes 4 n)"

definition encode_avp :: "Avp \<Rightarrow> bytes" where
  "encode_avp a =
     be_bytes 4 (avp_code a) @ [avp_flags a] @ be_bytes 3 (int (avp_length a)) @
     vendor_octets (avp_vendor a) @ avp_value a @ replicate (pad4 (avp_length a)) 0"

definition wf_avp :: "Avp \<Rightarrow> bool" where
  "wf_avp a \<longleftrightarrow>
     1 \<le> avp_code a \<and> avp_code a < 2 ^ 32
     \<and> (avp_flags a AND 0x80 \<noteq> 0 \<longleftrightarrow> avp_vendor a \<noteq> None)
     \<and> (\<forall>v \<in> set_option (avp_vendor a). 0 \<le> v \<and> v < 2 ^ 32)
     \<and> avp_length a < 2 ^ 24"

definition encode_avps :: "Avp list \<Rightarrow> bytes" where
  "encode_avps as = concat (map encode_avp as)"

definition encode_message :: "DiameterMessage \<Rightarrow> bytes" where
  "encode_message m =
     [1] @ be_bytes 3 (20 + int (length (encode_avps (avps m)))) @ [msg_flags m] @
     be_bytes 3 (command m) @ be_bytes 4 (application m) @ be_bytes 4 (hop_by_hop m) @
     be_bytes 4 (end_to_end m) @ encode_avps (avps m)"

definition wf_message :: "DiameterMessage \<Rightarrow> bool" where
  "wf_message m \<longleftrightarrow>
     0 \<le> command m \<and> command m < 2 ^ 24
     \<and> 0 \<le> application m \<and> application m < 2 ^ 32
     \<and> 0 \<le> hop_by_hop m \<and> hop_by_hop m < 2 ^ 32
     \<and> 0 \<le> end_to_end m \<and> end_to_end m < 2 ^ 32
     \<and> list_all wf_avp (avps m)
     \<and> 20 + int (length (encode_avps (avps m))) \<le> MAX_DIAMETER"

lemma length_vendor_octets [simp]: "length (vendor_octets v) = (if v = None then 0 else 4)"
  by (auto simp: vendor_octets_def split: option.splits)

lemma length_encode_avp: "length (encode_avp a) = avp_length a + pad4 (avp_length a)"
  by (auto simp: encode_avp_def avp_length_def header_length_def)

lemma length_encode_avp_pos [simp]: "0 < length (encode_avp a)"
  by (simp add: length_encode_avp avp_length_def header_length_def)

lemma encode_avps_simps [simp]:
  "encode_avps [] = []"
  "encode_avps (a # as) = encode_avp a @ encode_avps as"
  "encode_avps (as @ bs) = encode_avps as @ encode_avps bs"
  by (simp_all add: encode_avps_def)

subsection \<open>The AVP parser is the inverse of the wire format\<close>

lemma py_slice_drop: "py_slice xs (n + i) (n + j) = py_slice (drop n xs) i j"
  by (simp add: py_slice_def add.commute)

text \<open>The loop body looks at nothing before its offset.\<close>

lemma parse_avp_drop:
  "parse_avp raw offset =
     bindE (parse_avp (drop offset raw) 0) (\<lambda>r. Inr (fst r, offset + snd r))"
proof (cases "length raw - offset < 8")
  case True
  then show ?thesis by (simp add: parse_avp_def)
next
  case False
  define ys where "ys = drop offset raw"
  have len: "length raw = offset + length ys"
    using False by (simp add: ys_def)
  have nth: "raw ! (offset + 4) = ys ! 4" using False by (simp add: ys_def)
  have sl: "py_slice raw (offset + i) (offset + j) = py_slice ys i j" for i j
    by (simp add: py_slice_drop ys_def)
  have s0: "py_slice raw offset (offset + j) = py_slice ys 0 j" for j
    using sl [of 0 j] by simp
  show ?thesis
    unfolding ys_def [symmetric] parse_avp_def nth s0
    using False
    by (cases "read_u24 (py_slice ys 5 8)")
      (simp_all add: Let_def sl len add.assoc)
qed

lemma parse_avp_encode:
  assumes "wf_avp a"
  shows "parse_avp (encode_avp a @ post) 0 = Inr (a, length (encode_avp a))"
proof -
  let ?raw = "encode_avp a @ post"
  let ?vo = "vendor_octets (avp_vendor a)"
  let ?L = "avp_length a"
  have L: "?L < 2 ^ 24" and code: "1 \<le> avp_code a" "avp_code a < 2 ^ 32"
    and v: "avp_flags a AND 0x80 \<noteq> 0 \<longleftrightarrow> avp_vendor a \<noteq> None"
    using assms by (auto simp: wf_avp_def)
  have raw: "?raw = be_bytes 4 (avp_code a) @ avp_flags a # be_bytes 3 (int ?L) @
      ?vo @ avp_value a @ replicate (pad4 ?L) 0 @ post"
    by (simp add: encode_avp_def)
  have len: "length ?raw = ?L + pad4 ?L + length post"
    by (simp add: length_encode_avp)
  have L8: "8 \<le> ?L" and Lh: "?L = header_length a + length (avp_value a)"
    by (simp_all add: avp_length_def header_length_def)
  have s1: "py_slice ?raw 0 4 = be_bytes 4 (avp_code a)"
    by (simp add: raw py_slice_def)
  have s2: "?raw ! 4 = avp_flags a"
    by (simp add: raw nth_append)
  have s3: "py_slice ?raw 5 8 = be_bytes 3 (int ?L)"
    by (simp add: raw py_slice_def)
  have s4: "avp_vendor a = Some n \<Longrightarrow> py_slice ?raw 8 12 = be_bytes 4 n" for n
    by (simp add: raw py_slice_def vendor_octets_def)
  have s5: "py_slice ?raw (header_length a) ?L = avp_value a"
    by (cases "avp_vendor a") (simp_all add: raw py_slice_def Lh header_length_def vendor_octets_def)
  have s6: "py_slice ?raw ?L (?L + pad4 ?L) = replicate (pad4 ?L) 0"
  proof -
    let ?front = "be_bytes 4 (avp_code a) @ avp_flags a # be_bytes 3 (int ?L) @ ?vo @ avp_value a"
    have "?raw = ?front @ replicate (pad4 ?L) 0 @ post" by (simp add: raw)
    moreover have "length ?front = ?L" by (simp add: Lh header_length_def)
    ultimately show ?thesis
      using py_slice_append0 [of ?front "replicate (pad4 ?L) 0 @ post" "pad4 ?L"] by simp
  qed
  have l: "read_u24 (py_slice ?raw 5 8) = Inr (int ?L)"
    using L by (simp add: s3 read_u24_be_int be_int_be_bytes)
  have c: "be_int (py_slice ?raw 0 4) = avp_code a"
    using code by (simp add: s1 be_int_be_bytes)
  have vv: "(if avp_vendor a \<noteq> None then Some (be_int (py_slice ?raw 8 12)) else None) = avp_vendor a"
    using assms by (auto simp: wf_avp_def s4 be_int_be_bytes)
  have h: "(if avp_vendor a \<noteq> None then 12 else 8) = header_length a"
    by (simp add: header_length_def)
  have ge: "\<not> length ?raw < 8" "\<not> length ?raw < ?L" "\<not> length ?raw < ?L + pad4 ?L"
    using L8 by (simp_all add: length_encode_avp)
  have nl: "\<not> ?L < header_length a" by (simp add: Lh)
  have val: "avp_vendor a = None \<Longrightarrow> py_slice ?raw 8 ?L = avp_value a"
    "avp_vendor a = Some n \<Longrightarrow> py_slice ?raw 12 ?L = avp_value a" for n
    using s5 by (simp_all add: header_length_def)
  have vn: "avp_vendor a = Some n \<Longrightarrow> be_int (py_slice ?raw 8 12) = n" for n
    using vv by auto
  show ?thesis
    using code ge nl
    by (cases "avp_vendor a")
      (simp_all add: parse_avp_def Let_def l c s2 v val vn s6 pad4_def [symmetric]
        length_encode_avp header_length_def)
qed

text \<open>Conversely: what the parser accepts is the encoding of a well-formed AVP.\<close>

lemma parse_avp_canonical:
  assumes "parse_avp raw 0 = Inr (a, n)"
  shows "wf_avp a \<and> n = length (encode_avp a) \<and> raw = encode_avp a @ drop n raw"
proof -
  define len where "len = nat (be_int (py_slice raw 5 8))"
  define hl where "hl = (if raw ! 4 AND 0x80 \<noteq> 0 then 12 else 8 :: nat)"
  define p where "p = pad4 len"
  have r8: "8 \<le> length raw"
    using assms by (simp add: parse_avp_def split: if_splits)
  then have l: "read_u24 (py_slice raw 5 8) = Inr (be_int (py_slice raw 5 8))"
    by (simp add: read_u24_be_int)
  from assms r8 have code: "be_int (py_slice raw 0 4) \<noteq> 0" and h: "hl \<le> len"
    and rl: "len + p \<le> length raw" and pz: "py_slice raw len (len + p) = replicate p 0"
    and n: "n = len + p"
    and a: "a = \<lparr>avp_code = be_int (py_slice raw 0 4), avp_flags = raw ! 4,
      avp_vendor = (if raw ! 4 AND 0x80 \<noteq> 0 then Some (be_int (py_slice raw 8 12)) else None),
      avp_value = py_slice raw hl len\<rparr>"
    by (auto simp: parse_avp_def Let_def l hl_def len_def p_def pad4_def not_less split: if_splits)
  have l24: "be_int (py_slice raw 5 8) < 2 ^ 24"
    using be_int_bound [of "py_slice raw 5 8"] r8 by simp
  have c32: "be_int (py_slice raw 0 4) < 2 ^ 32"
    using be_int_bound [of "py_slice raw 0 4"] r8 by simp
  have v32: "be_int (py_slice raw 8 12) < 2 ^ 32" if "12 \<le> length raw"
    using be_int_bound [of "py_slice raw 8 12"] that by simp
  have hh: "header_length a = hl" by (simp add: header_length_def a hl_def)
  have al: "avp_length a = len"
    using h rl by (simp add: avp_length_def hh) (simp add: a)
  have h12: "raw ! 4 AND 0x80 \<noteq> 0 \<Longrightarrow> 12 \<le> length raw"
    using h rl by (simp add: hl_def)
  have code0: "1 \<le> be_int (py_slice raw 0 4)"
    using code be_int_nonneg [of "py_slice raw 0 4"] by linarith
  have wf: "wf_avp a"
    unfolding wf_avp_def al using code0 c32 l24 v32 h12
    by (auto simp: a len_def nat_less_iff)
  have vo: "vendor_octets (avp_vendor a) = py_slice raw 8 hl"
    using h12 by (auto simp: vendor_octets_def a hl_def be_bytes_be_int py_slice_def)
  have len_int: "int len = be_int (py_slice raw 5 8)" by (simp add: len_def)
  have b1: "be_bytes 4 (be_int (py_slice raw 0 4)) = py_slice raw 0 4"
    using r8 by (simp add: be_bytes_be_int)
  have b2: "be_bytes 3 (int len) = py_slice raw 5 8"
    unfolding len_int using r8 by (simp add: be_bytes_be_int)
  have b3: "[raw ! 4] = py_slice raw 4 5"
    using r8 nth_py_slice [of 4 raw] by simp
  have enc: "encode_avp a = py_slice raw 0 4 @ py_slice raw 4 5 @ py_slice raw 5 8 @ py_slice raw 8 hl @
      py_slice raw hl len @ py_slice raw len n"
    by (simp add: encode_avp_def al p_def [symmetric] vo b2 pz n) (simp add: a b1 b3 hl_def)
  have "8 \<le> hl" by (simp add: hl_def)
  then have "raw = encode_avp a @ drop n raw"
    using drop_py_slice_split [of 0 4 raw] drop_py_slice_split [of 4 5 raw] drop_py_slice_split [of 5 8 raw]
      drop_py_slice_split [of 8 hl raw] drop_py_slice_split [of hl len raw] drop_py_slice_split [of len n raw]
      h n
    by (simp add: enc)
  moreover have "n = length (encode_avp a)"
    by (simp add: length_encode_avp al n p_def)
  ultimately show ?thesis using wf by simp
qed

lemma parse_avps_from_encode:
  assumes "list_all wf_avp as"
  shows "drop offset raw = encode_avps as \<Longrightarrow> parse_avps_from raw offset = Inr as"
  using assms
proof (induction as arbitrary: offset)
  case Nil
  then show ?case by (simp add: parse_avps_from.simps)
next
  case (Cons a as)
  have lt: "offset < length raw"
    using Cons.prems(1) length_encode_avp_pos [of a]
    by (metis append_is_Nil_conv drop_eq_Nil encode_avps_simps(2) length_0_conv less_irrefl linorder_not_less)
  have "parse_avp raw offset = Inr (a, offset + length (encode_avp a))"
    using Cons.prems by (subst parse_avp_drop) (simp add: parse_avp_encode)
  moreover have "drop (offset + length (encode_avp a)) raw = encode_avps as"
    by (metis Cons.prems(1) add.commute append_eq_conv_conj drop_drop encode_avps_simps(2))
  ultimately show ?case
    using Cons.prems(2) Cons.IH lt by (subst parse_avps_from.simps) simp
qed

lemma parse_avps_from_canonical:
  "parse_avps_from raw offset = Inr as \<Longrightarrow> list_all wf_avp as \<and> drop offset raw = encode_avps as"
proof (induction raw offset arbitrary: as rule: parse_avps_from.induct)
  case (1 raw offset)
  show ?case
  proof (cases "offset < length raw")
    case False
    with "1.prems" show ?thesis by (simp add: parse_avps_from.simps)
  next
    case True
    with "1.prems" obtain a nxt as' where p: "parse_avp raw offset = Inr (a, nxt)"
      and r: "parse_avps_from raw nxt = Inr as'" and as: "as = a # as'"
      by (subst (asm) parse_avps_from.simps) (auto simp: bindE_Inr_iff)
    from p obtain n where p0: "parse_avp (drop offset raw) 0 = Inr (a, n)" and nxt: "nxt = offset + n"
      by (subst (asm) parse_avp_drop) (auto simp: bindE_Inr_iff)
    have "list_all wf_avp as' \<and> drop nxt raw = encode_avps as'"
      using "1.IH" [OF True p] r by simp
    with parse_avp_canonical [OF p0] show ?thesis
      by (simp add: as nxt add.commute)
  qed
qed

lemma parse_avps_iff: "parse_avps raw = Inr as \<longleftrightarrow> list_all wf_avp as \<and> raw = encode_avps as"
  unfolding parse_avps_def
  using parse_avps_from_encode [of as 0 raw] parse_avps_from_canonical [of raw 0 as] by auto

lemma parse_avps_append:
  "parse_avps xs = Inr as \<Longrightarrow> parse_avps ys = Inr bs \<Longrightarrow> parse_avps (xs @ ys) = Inr (as @ bs)"
  by (simp add: parse_avps_iff)

subsection \<open>The message parser is the inverse of the wire format\<close>

lemma parse_message_encode:
  assumes "wf_message m"
  shows "parse_message (encode_message m) = Inr m"
proof -
  let ?raw = "encode_message m"
  let ?body = "encode_avps (avps m)"
  have len: "length ?raw = 20 + length ?body" by (simp add: encode_message_def)
  have b: "20 + int (length ?body) \<le> MAX_DIAMETER" using assms by (simp add: wf_message_def)
  have f: "?raw ! 0 = 1" "?raw ! 4 = msg_flags m" "drop 20 ?raw = ?body"
    "py_slice ?raw 1 4 = be_bytes 3 (20 + int (length ?body))" "py_slice ?raw 5 8 = be_bytes 3 (command m)"
    "py_slice ?raw 8 12 = be_bytes 4 (application m)" "py_slice ?raw 12 16 = be_bytes 4 (hop_by_hop m)"
    "py_slice ?raw 16 20 = be_bytes 4 (end_to_end m)"
    by (simp_all add: encode_message_def py_slice_def nth_append)
  have l: "read_u24 (py_slice ?raw 1 4) = Inr (20 + int (length ?body))"
    using b unfolding f by (simp add: read_u24_be_int be_int_be_bytes MAX_DIAMETER_def)
  have c: "read_u24 (py_slice ?raw 5 8) = Inr (command m)"
    using assms by (simp add: f read_u24_be_int be_int_be_bytes wf_message_def)
  have p: "parse_avps ?body = Inr (avps m)"
    using assms by (simp add: parse_avps_iff wf_message_def)
  have g: "\<not> (length ?raw < 20 \<or> ?raw ! 0 \<noteq> 1)"
    "\<not> (20 + int (length ?body) < 20 \<or> 20 + int (length ?body) > MAX_DIAMETER
        \<or> 20 + int (length ?body) \<noteq> int (length ?raw))"
    using b by (simp_all add: len f)
  show ?thesis
    unfolding parse_message_def l c bindE_simps
    using assms g by (simp add: p f be_int_be_bytes wf_message_def)
qed

lemma parse_message_canonical:
  assumes "parse_message raw = Inr m"
  shows "wf_message m \<and> raw = encode_message m"
proof -
  from assms have r20: "20 \<le> length raw" and r0: "raw ! 0 = 1"
    by (auto simp: parse_message_def split: if_splits)
  have rd: "read_u24 (py_slice raw 1 4) = Inr (be_int (py_slice raw 1 4))"
    "read_u24 (py_slice raw 5 8) = Inr (be_int (py_slice raw 5 8))"
    using r20 by (simp_all add: read_u24_be_int)
  from assms obtain as where l: "be_int (py_slice raw 1 4) = int (length raw)"
    and mx: "int (length raw) \<le> MAX_DIAMETER"
    and p: "parse_avps (drop 20 raw) = Inr as"
    and m: "m = \<lparr>msg_flags = raw ! 4, command = be_int (py_slice raw 5 8),
      application = be_int (py_slice raw 8 12), hop_by_hop = be_int (py_slice raw 12 16),
      end_to_end = be_int (py_slice raw 16 20), avps = as\<rparr>"
    unfolding parse_message_def rd by (auto simp: bindE_Inr_iff split: if_splits)
  have body: "list_all wf_avp as" "drop 20 raw = encode_avps as"
    using p by (simp_all add: parse_avps_iff)
  have bnd: "be_int (py_slice raw 5 8) < 2 ^ 24" "be_int (py_slice raw 8 12) < 2 ^ 32"
    "be_int (py_slice raw 12 16) < 2 ^ 32" "be_int (py_slice raw 16 20) < 2 ^ 32"
    using be_int_bound [of "py_slice raw 5 8"] be_int_bound [of "py_slice raw 8 12"]
      be_int_bound [of "py_slice raw 12 16"] be_int_bound [of "py_slice raw 16 20"] r20 by simp_all
  have lb: "20 + int (length (encode_avps as)) = int (length raw)"
    using r20 by (simp flip: body(2))
  have sing: "[raw ! i] = py_slice raw i (Suc i)" if "i < length raw" for i
    using that by (rule nth_py_slice)
  have ne: "raw \<noteq> []" using r20 by auto
  have "encode_message m = py_slice raw 0 1 @ py_slice raw 1 4 @ py_slice raw 4 5 @ py_slice raw 5 8 @
      py_slice raw 8 12 @ py_slice raw 12 16 @ py_slice raw 16 20 @ drop 20 raw"
    using r20 ne sing [of 4] sing [of 0]
    by (simp add: encode_message_def m lb l [symmetric] be_bytes_be_int body(2) r0)
  also have "\<dots> = raw"
    using drop_py_slice_split [of 0 1 raw] drop_py_slice_split [of 1 4 raw] drop_py_slice_split [of 4 5 raw]
      drop_py_slice_split [of 5 8 raw] drop_py_slice_split [of 8 12 raw] drop_py_slice_split [of 12 16 raw]
      drop_py_slice_split [of 16 20 raw] by simp
  finally show ?thesis
    using bnd body(1) mx lb by (simp add: wf_message_def m)
qed

lemma parse_message_iff: "parse_message raw = Inr m \<longleftrightarrow> wf_message m \<and> raw = encode_message m"
  using parse_message_encode parse_message_canonical by blast

subsection \<open>The builders write the wire format\<close>

text \<open>The AVP that the builders encode: the mandatory bit, and the vendor bit where there is a vendor.\<close>

definition std_avp :: "int \<Rightarrow> bytes \<Rightarrow> int option \<Rightarrow> Avp" where
  "std_avp code value vendor =
     \<lparr>avp_code = code, avp_flags = (if vendor = None then 0x40 else 0xC0), avp_vendor = vendor,
      avp_value = value\<rparr>"

definition std_avp_ok :: "int \<Rightarrow> bytes \<Rightarrow> int option \<Rightarrow> bool" where
  "std_avp_ok code value vendor \<longleftrightarrow>
     1 \<le> code \<and> code \<le> 0xFFFFFF \<and> length value \<le> 65519
     \<and> (\<forall>v \<in> set_option vendor. 1 \<le> v \<and> v \<le> 0xFFFFFFFF)"

lemma std_avp_sel [simp]:
  "avp_code (std_avp c v n) = c" "avp_vendor (std_avp c v n) = n" "avp_value (std_avp c v n) = v"
  by (simp_all add: std_avp_def)

lemma wf_std_avp: "std_avp_ok code value vendor \<Longrightarrow> wf_avp (std_avp code value vendor)"
  by (cases vendor)
    (auto simp: std_avp_ok_def wf_avp_def std_avp_def avp_length_def header_length_def)

lemma pad4_int: "nat ((4 - int n mod 4) mod 4) = pad4 n"
proof -
  have "(4 - int n mod 4) mod 4 = int (pad4 n)"
    by (simp add: pad4_def of_nat_mod of_nat_diff)
  then show ?thesis by simp
qed

lemma avp_raw_Inr_iff:
  "avp_raw code flags body = Inr bs \<longleftrightarrow>
     8 + length body < 2 ^ 24
     \<and> bs = be_bytes 4 code @ [flags] @ be_bytes 3 (8 + int (length body)) @ body @
         replicate (pad4 (8 + length body)) 0"
  using pad4_int [of "8 + length body"]
  by (auto simp: avp_raw_def Let_def bindE_Inr_iff u24_Inr_iff)

lemma avp_std_Inr_iff:
  "avp_std code value vendor = Inr bs \<longleftrightarrow>
     std_avp_ok code value vendor \<and> bs = encode_avp (std_avp code value vendor)"
  by (cases vendor)
    (auto simp: avp_std_def avp_def std_avp_ok_def bindE_Inr_iff u32_Inr_iff avp_raw_Inr_iff
      encode_avp_def std_avp_def avp_length_def header_length_def vendor_octets_def)

lemma avp_text_Inr_iff:
  "avp_text code s vendor = Inr bs \<longleftrightarrow>
     is_ascii s \<and> std_avp_ok code (bytes_of s) vendor \<and> bs = encode_avp (std_avp code (bytes_of s) vendor)"
  by (auto simp: avp_text_def bindE_Inr_iff avp_std_Inr_iff)

lemma avp_u32_Inr_iff:
  "avp_u32 code v vendor = Inr bs \<longleftrightarrow>
     0 \<le> v \<and> v < 2 ^ 32 \<and> std_avp_ok code (be_bytes 4 v) vendor
     \<and> bs = encode_avp (std_avp code (be_bytes 4 v) vendor)"
  by (auto simp: avp_u32_def bindE_Inr_iff avp_std_Inr_iff u32_Inr_iff)

definition vsa_avp :: "int \<Rightarrow> Avp" where
  "vsa_avp app = std_avp 260
     (encode_avps [std_avp 266 (be_bytes 4 THREEGPP_VENDOR) None, std_avp 258 (be_bytes 4 app) None]) None"

lemma length_encode_std_avp:
  "length (encode_avp (std_avp code value vendor)) =
     (let n = (if vendor = None then 8 else 12) + length value in n + pad4 n)"
  by (simp add: length_encode_avp avp_length_def header_length_def std_avp_def Let_def)

lemma pad4_le: "pad4 n \<le> 3"
  by (simp add: pad4_def)

lemma vsa_Inr_iff: "vsa app = Inr bs \<longleftrightarrow> 0 \<le> app \<and> app < 2 ^ 32 \<and> bs = encode_avp (vsa_avp app)"
  by (auto simp: vsa_def vsa_avp_def bindE_Inr_iff avp_u32_Inr_iff avp_std_Inr_iff std_avp_ok_def
      THREEGPP_VENDOR_def length_encode_std_avp pad4_def)

lemma wf_vsa_avp: "0 \<le> app \<Longrightarrow> app < 2 ^ 32 \<Longrightarrow> wf_avp (vsa_avp app)"
  using vsa_Inr_iff [of app "encode_avp (vsa_avp app)"]
  by (auto simp: vsa_avp_def std_avp_ok_def length_encode_std_avp pad4_def intro!: wf_std_avp)

lemmas builder_iffs = avp_std_Inr_iff avp_text_Inr_iff avp_u32_Inr_iff vsa_Inr_iff

lemma parse_encode_avp: "wf_avp a \<Longrightarrow> parse_avps (encode_avp a) = Inr [a]"
  by (simp add: parse_avps_iff)

lemma avp_std_parses: "avp_std code value vendor = Inr bs \<Longrightarrow> parse_avps bs = Inr [std_avp code value vendor]"
  by (simp add: avp_std_Inr_iff parse_avps_iff wf_std_avp)

lemma build_message_Inr_iff:
  assumes "parse_avps body = Inr as"
  shows "build_message f c a h e body = Inr raw \<longleftrightarrow>
    (let m = \<lparr>msg_flags = f, command = c, application = a, hop_by_hop = h, end_to_end = e, avps = as\<rparr>
     in wf_message m \<and> raw = encode_message m)"
proof -
  have "list_all wf_avp as" and "body = encode_avps as"
    using assms by (simp_all add: parse_avps_iff)
  then show ?thesis
    by (auto simp: build_message_def Let_def bindE_Inr_iff u24_Inr_iff u32_Inr_iff
        wf_message_def encode_message_def MAX_DIAMETER_def)
qed

lemma find_avp_append:
  "find_avp (as @ bs) c v = (case find_avp as c v of None \<Rightarrow> find_avp bs c v | Some x \<Rightarrow> Some x)"
  by (induction as) auto

end
