(* ===== verification/Py_Socket.thy ===== *)
theory Py_Socket
  imports Py_Prelude
begin

section \<open>Stream sockets\<close>

text \<open>
  Reading from a stream socket. Several programs read a given number of octets with the same loop over
  \<open>sock.recv\<close>, which differ in the exception for a peer that closes: \<open>recv_loop\<close> is that loop. What it relies on
  is the locale \<open>byte_source\<close>: \<open>recv\<close> hands out a non-empty prefix of what is pending, and at the end of the
  data reports a close (\<open>b""\<close>) or raises. The locale is interpreted on a socket whose octets arrive in
  segments of any size, with a receive timeout (\<open>socket.timeout\<close> is an \<open>OSError\<close>) at any point.
\<close>

subsection \<open>The loop\<close>

function recv_loop :: "exn \<Rightarrow> ('s \<Rightarrow> nat \<Rightarrow> (bytes \<times> 's) result) \<Rightarrow> 's \<Rightarrow> nat \<Rightarrow> (bytes \<times> 's) result" where
  "recv_loop err recv sock len =
     (if len = 0 then Inr ([], sock)
      else bindE (recv sock len) (\<lambda>r.
        if fst r = [] then Inl err
        else bindE (recv_loop err recv (snd r) (len - length (fst r))) (\<lambda>q.
             Inr (fst r @ fst q, snd q))))"
  by pat_completeness auto
termination
  by (relation "measure (\<lambda>(err, recv, sock, len). len)") auto

declare recv_loop.simps [simp del]

subsection \<open>What the loop relies on\<close>

locale byte_source =
  fixes recv :: "'s \<Rightarrow> nat \<Rightarrow> (bytes \<times> 's) result"
    and pending :: "'s \<Rightarrow> bytes"
    and ending :: "'s \<Rightarrow> exn option"
  assumes recv_data: "pending s \<noteq> [] \<Longrightarrow> 0 < n \<Longrightarrow>
      \<exists>k s'. 0 < k \<and> k \<le> n \<and> k \<le> length (pending s)
        \<and> recv s n = Inr (take k (pending s), s')
        \<and> pending s' = drop k (pending s) \<and> ending s' = ending s"
    and recv_closed: "pending s = [] \<Longrightarrow> ending s = None \<Longrightarrow> 0 < n \<Longrightarrow> \<exists>s'. recv s n = Inr ([], s')"
    and recv_raises: "pending s = [] \<Longrightarrow> ending s = Some e \<Longrightarrow> 0 < n \<Longrightarrow> recv s n = Inl e"
begin

lemma recv_loop_enough:
  "n \<le> length (pending s) \<Longrightarrow>
   \<exists>s'. recv_loop err recv s n = Inr (take n (pending s), s')
      \<and> pending s' = drop n (pending s) \<and> ending s' = ending s"
proof (induction n arbitrary: s rule: less_induct)
  case (less n)
  show ?case
  proof (cases "n = 0")
    case True
    then show ?thesis by (simp add: recv_loop.simps)
  next
    case False
    with less.prems have "pending s \<noteq> []" by auto
    with False recv_data [of s n] obtain k s1 where k: "0 < k" "k \<le> n" "k \<le> length (pending s)"
      and r: "recv s n = Inr (take k (pending s), s1)"
      and p: "pending s1 = drop k (pending s)" "ending s1 = ending s" by auto
    have "n - k \<le> length (pending s1)" using less.prems k p by simp
    with less.IH [of "n - k" s1] k False obtain s2
      where q: "recv_loop err recv s1 (n - k) = Inr (take (n - k) (pending s1), s2)"
        and p2: "pending s2 = drop (n - k) (pending s1)" "ending s2 = ending s1" by auto
    have ne: "take k (pending s) \<noteq> []" using k by (metis length_greater_0_conv length_take min.absorb2)
    have lt: "length (take k (pending s)) = k" using k by simp
    have "recv_loop err recv s n = Inr (take k (pending s) @ take (n - k) (pending s1), s2)"
      using False ne lt q by (subst recv_loop.simps) (simp add: r)
    moreover have "take k (pending s) @ take (n - k) (pending s1) = take n (pending s)"
      using k by (simp add: p flip: take_add)
    ultimately show ?thesis using p p2 k by simp
  qed
qed

lemma recv_loop_short:
  "length (pending s) < n \<Longrightarrow>
   recv_loop err recv s n =
     Inl (case ending s of None \<Rightarrow> err | Some e \<Rightarrow> e)"
proof (induction n arbitrary: s rule: less_induct)
  case (less n)
  then have n: "0 < n" by simp
  show ?case
  proof (cases "pending s = []")
    case True
    then show ?thesis
      using n recv_closed [of s n] recv_raises [of s _ n]
      by (subst recv_loop.simps) (auto split: option.splits)
  next
    case False
    with n recv_data [of s n] obtain k s1 where k: "0 < k" "k \<le> n" "k \<le> length (pending s)"
      and r: "recv s n = Inr (take k (pending s), s1)"
      and p: "pending s1 = drop k (pending s)" "ending s1 = ending s" by auto
    have ne: "take k (pending s) \<noteq> []" using k by (metis length_greater_0_conv length_take min.absorb2)
    have lt: "length (take k (pending s)) = k" using k by simp
    have "length (pending s1) < n - k" using less.prems k p by simp
    with less.IH [of "n - k" s1] k show ?thesis
      using n ne lt p by (subst recv_loop.simps) (simp add: r)
  qed
qed

text \<open>What \<open>recv_loop\<close> returns is exactly the octets it took.\<close>

lemma recv_loop_sound:
  assumes "recv_loop err recv s n = Inr (bs, s')"
  shows "bs = take n (pending s) \<and> length bs = n \<and> pending s' = drop n (pending s)"
proof (cases "n \<le> length (pending s)")
  case True
  with recv_loop_enough [OF True, of err] assms show ?thesis by auto
next
  case False
  then show ?thesis using recv_loop_short [of s n err] assms by simp
qed

end

subsection \<open>A socket fed by segments\<close>

datatype segment = Segment bytes | Timeout

type_synonym socket = "segment list"

fun sock_recv :: "socket \<Rightarrow> nat \<Rightarrow> (bytes \<times> socket) result" where
  "sock_recv [] n = Inr ([], [])"
| "sock_recv (Timeout # ss) n = Inl OSError"
| "sock_recv (Segment c # ss) n =
     (if c = [] then sock_recv ss n
      else Inr (take n c, if length c \<le> n then ss else Segment (drop n c) # ss))"

fun sock_pending :: "socket \<Rightarrow> bytes" where
  "sock_pending [] = []"
| "sock_pending (Timeout # ss) = []"
| "sock_pending (Segment c # ss) = c @ sock_pending ss"

fun sock_ending :: "socket \<Rightarrow> exn option" where
  "sock_ending [] = None"
| "sock_ending (Timeout # ss) = Some OSError"
| "sock_ending (Segment c # ss) = sock_ending ss"

lemma sock_recv_data:
  "sock_pending s \<noteq> [] \<Longrightarrow> 0 < n \<Longrightarrow>
   \<exists>k s'. 0 < k \<and> k \<le> n \<and> k \<le> length (sock_pending s)
     \<and> sock_recv s n = Inr (take k (sock_pending s), s')
     \<and> sock_pending s' = drop k (sock_pending s) \<and> sock_ending s' = sock_ending s"
proof (induction s n rule: sock_recv.induct)
  case (3 c ss n)
  show ?case
  proof (cases "c = []")
    case True
    with 3 show ?thesis by simp
  next
    case False
    with "3.prems" show ?thesis
      by (intro exI [of _ "min n (length c)"]) (auto simp: min_def)
  qed
qed auto

lemma sock_recv_end:
  "sock_pending s = [] \<Longrightarrow>
   sock_recv s n = (case sock_ending s of None \<Rightarrow> Inr ([], []) | Some e \<Rightarrow> Inl e)"
  by (induction s n rule: sock_recv.induct) auto

interpretation sock: byte_source sock_recv sock_pending sock_ending
  by unfold_locales (use sock_recv_data in blast, auto simp: sock_recv_end)

end
