(* ===== verification/Diameter_Stream.thy ===== *)
theory Diameter_Stream
  imports Diameter_Codec Py_Socket
begin

section \<open>Reading Diameter frames from a stream socket\<close>

text \<open>
  \<^verbatim>\<open>lab/ims_hss.py\<close>, lines 202 to 217: \<open>_frame_read\<close> and \<open>_read_exact\<close>. Both only use \<open>sock.recv\<close>, which is their
  parameter; the lemmas about framing are proved in the locale \<open>byte_source\<close> of \<^theory_text>\<open>Py_Socket\<close>.
\<close>

definition read_exact :: "('s \<Rightarrow> nat \<Rightarrow> (bytes \<times> 's) result) \<Rightarrow> 's \<Rightarrow> nat \<Rightarrow> (bytes \<times> 's) result" where
  "read_exact recv sock len = recv_loop (ConnectionError ''Diameter peer closed'') recv sock len"

definition frame_read :: "('s \<Rightarrow> nat \<Rightarrow> (bytes \<times> 's) result) \<Rightarrow> 's \<Rightarrow> (bytes \<times> 's) result" where
  "frame_read recv sock =
     bindE (read_exact recv sock 20) (\<lambda>h.
     bindE (read_u24 (py_slice (fst h) 1 4)) (\<lambda>len.
       if len < 20 \<or> len > MAX_DIAMETER then Inl (DiameterError ''invalid Diameter frame length'')
       else bindE (read_exact recv (snd h) (nat (len - 20))) (\<lambda>b.
            Inr (fst h @ fst b, snd b))))"

subsection \<open>Frames\<close>

context byte_source
begin

lemmas read_exact_enough = recv_loop_enough [of _ _ "ConnectionError ''Diameter peer closed''", folded read_exact_def]
lemmas read_exact_short = recv_loop_short [of _ _ "ConnectionError ''Diameter peer closed''", folded read_exact_def]
lemmas read_exact_sound = recv_loop_sound [of "ConnectionError ''Diameter peer closed''", folded read_exact_def]

lemma frame_read_sound:
  assumes "frame_read recv s = Inr (f, s')"
  shows "pending s = f @ pending s' \<and> be_int (py_slice f 1 4) = int (length f)
     \<and> 20 \<le> length f \<and> int (length f) \<le> MAX_DIAMETER"
proof -
  from assms obtain h s1 b len where h: "read_exact recv s 20 = Inr (h, s1)"
    and l: "read_u24 (py_slice h 1 4) = Inr len" and len: "20 \<le> len" "len \<le> MAX_DIAMETER"
    and b: "read_exact recv s1 (nat (len - 20)) = Inr (b, s')" and f: "f = h @ b"
    by (auto simp: frame_read_def bindE_Inr_iff split: if_splits)
  note h' = read_exact_sound [OF h] and b' = read_exact_sound [OF b]
  have "py_slice f 1 4 = py_slice h 1 4" using h' by (auto simp: f py_slice_def)
  moreover have "length h = 20" using h' by blast
  then have "length (py_slice h 1 4) = 3" by simp
  with l have "len = be_int (py_slice h 1 4)" by (simp add: read_u24_be_int)
  moreover have "length h = 20" "length b = nat (len - 20)" using h' b' by blast+
  then have "length f = nat len" using len by (simp add: f nat_diff_distrib)
  moreover have "pending s = f @ pending s'"
    unfolding f using h' b' by (metis append.assoc append_take_drop_id)
  ultimately show ?thesis using len by simp
qed

text \<open>However the octets of an encoded message are cut up on the way, the frame reader returns
  exactly them and leaves what follows.\<close>

lemma frame_read_message:
  assumes "wf_message m" and "pending s = encode_message m @ rest"
  shows "\<exists>s'. frame_read recv s = Inr (encode_message m, s') \<and> pending s' = rest"
proof -
  let ?w = "encode_message m"
  let ?L = "length (encode_avps (avps m))"
  have len: "length ?w = 20 + ?L" by (simp add: encode_message_def)
  have mx: "20 + int ?L \<le> MAX_DIAMETER" using assms(1) by (simp add: wf_message_def)
  obtain s1 where h: "read_exact recv s 20 = Inr (take 20 ?w, s1)" and p1: "pending s1 = drop 20 ?w @ rest"
    using read_exact_enough [of 20 s] by (auto simp: assms(2) len)
  have "?L \<le> length (pending s1)" by (simp add: p1 len)
  then obtain s2 where b: "read_exact recv s1 ?L = Inr (drop 20 ?w, s2)" and p2: "pending s2 = rest"
    using read_exact_enough [of ?L s1] by (auto simp: p1 len)
  have sl: "py_slice (take 20 ?w) 1 4 = be_bytes 3 (20 + int ?L)"
    by (simp add: encode_message_def py_slice_def)
  have u: "read_u24 (py_slice (take 20 ?w) 1 4) = Inr (20 + int ?L)"
    unfolding sl using mx by (simp add: read_u24_be_int be_int_be_bytes MAX_DIAMETER_def)
  show ?thesis
    unfolding frame_read_def h bindE_simps fst_conv snd_conv u
    using mx b p2 by simp
qed

end

end
