(* ===== verification/Py_Text.thy ===== *)
theory Py_Text
  imports Py_Prelude
begin

section \<open>The text operations of Python that the sources use\<close>

text \<open>
  \<open>str.startswith\<close>, \<open>find\<close>, \<open>split\<close>, \<open>strip\<close>, \<open>lower\<close>, decimal \<open>str(n)\<close> and \<open>int(s)\<close> with what
  \<open>int\<close> really accepts (surrounding white space, a sign, single underscores between digits, and at
  most 4300 digits). \<open>lower\<close> covers Latin-1, \<open>upper\<close> is compared with ASCII words only and maps ASCII.
\<close>

subsection \<open>Characters\<close>

abbreviation chr_code :: "char \<Rightarrow> nat" where
  "chr_code c \<equiv> of_char c"

definition cr :: char where "cr = CHR 0x0D"
definition lf :: char where "lf = CHR 0x0A"

definition crlf :: string where "crlf = [cr, lf]"

definition is_digit :: "char \<Rightarrow> bool" where
  "is_digit c \<longleftrightarrow> 48 \<le> chr_code c \<and> chr_code c \<le> 57"

definition digit_val :: "char \<Rightarrow> nat" where
  "digit_val c = chr_code c - 48"

definition digit_char :: "nat \<Rightarrow> char" where
  "digit_char d = char_of (48 + d)"

text \<open>White space for \<open>str.strip\<close> and \<open>str.split\<close>, and the smaller set that \<open>int\<close> skips.\<close>

definition is_space :: "char \<Rightarrow> bool" where
  "is_space c \<longleftrightarrow> (9 \<le> chr_code c \<and> chr_code c \<le> 13) \<or> (28 \<le> chr_code c \<and> chr_code c \<le> 32)
     \<or> chr_code c = 0x85 \<or> chr_code c = 0xA0"

definition is_int_space :: "char \<Rightarrow> bool" where
  "is_int_space c \<longleftrightarrow> (9 \<le> chr_code c \<and> chr_code c \<le> 13) \<or> chr_code c = 32"

definition lower_char :: "char \<Rightarrow> char" where
  "lower_char c =
     (if (65 \<le> chr_code c \<and> chr_code c \<le> 90) \<or> (192 \<le> chr_code c \<and> chr_code c \<le> 222 \<and> chr_code c \<noteq> 215)
      then char_of (chr_code c + 32) else c)"

definition upper_char :: "char \<Rightarrow> char" where
  "upper_char c = (if 97 \<le> chr_code c \<and> chr_code c \<le> 122 then char_of (chr_code c - 32) else c)"

definition lower :: "string \<Rightarrow> string" where "lower s = map lower_char s"
definition upper :: "string \<Rightarrow> string" where "upper s = map upper_char s"

subsection \<open>Searching and splitting\<close>

definition starts_with :: "'a list \<Rightarrow> 'a list \<Rightarrow> bool" where
  "starts_with p s \<longleftrightarrow> take (length p) s = p"

text \<open>\<open>s.find(x, i)\<close> for a single element: the first position from \<open>i\<close> on.\<close>

fun index_of :: "'a \<Rightarrow> 'a list \<Rightarrow> nat option" where
  "index_of x [] = None"
| "index_of x (y # ys) = (if y = x then Some 0 else map_option Suc (index_of x ys))"

definition find_from :: "'a \<Rightarrow> 'a list \<Rightarrow> nat \<Rightarrow> nat option" where
  "find_from x xs i = map_option (\<lambda>k. i + k) (index_of x (drop i xs))"

definition strip_with :: "(char \<Rightarrow> bool) \<Rightarrow> string \<Rightarrow> string" where
  "strip_with p s = rev (dropWhile p (rev (dropWhile p s)))"

definition strip :: "string \<Rightarrow> string" where
  "strip s = strip_with is_space s"

text \<open>\<open>s.split(c)\<close> for one separator character, \<open>s.split("\r\n")\<close>, and \<open>s.split()\<close>.\<close>

fun split_char :: "char \<Rightarrow> string \<Rightarrow> string list" where
  "split_char c [] = [[]]"
| "split_char c (x # xs) =
     (if x = c then [] # split_char c xs
      else (case split_char c xs of [] \<Rightarrow> [[x]] | w # ws \<Rightarrow> (x # w) # ws))"

fun split_crlf :: "string \<Rightarrow> string list" where
  "split_crlf [] = [[]]"
| "split_crlf [x] = [[x]]"
| "split_crlf (x # y # xs) =
     (if x = cr \<and> y = lf then [] # split_crlf xs
      else (case split_crlf (y # xs) of [] \<Rightarrow> [[x]] | w # ws \<Rightarrow> (x # w) # ws))"

fun join :: "string \<Rightarrow> string list \<Rightarrow> string" where
  "join sep [] = []"
| "join sep [w] = w"
| "join sep (w # v # ws) = w @ sep @ join sep (v # ws)"

function split_words :: "string \<Rightarrow> string list" where
  "split_words s =
     (let t = dropWhile is_space s
      in if t = [] then []
         else takeWhile (\<lambda>c. \<not> is_space c) t # split_words (dropWhile (\<lambda>c. \<not> is_space c) t))"
  by pat_completeness auto
termination
proof (relation "measure length")
  fix s :: string and t
  assume t: "t = dropWhile is_space s" and ne: "t \<noteq> []"
  obtain c u where cu: "t = c # u" using ne by (cases t) auto
  then have "\<not> is_space c" using hd_dropWhile [of is_space s] t by simp
  then have "length (dropWhile (\<lambda>c. \<not> is_space c) t) \<le> length u"
    by (simp add: cu length_dropWhile_le)
  also have "length u < length s"
  proof -
    have "length t \<le> length s" unfolding t by (rule length_dropWhile_le)
    with cu show ?thesis by simp
  qed
  finally show "(dropWhile (\<lambda>c. \<not> is_space c) t, s) \<in> measure length" by simp
qed simp

declare split_words.simps [simp del]

subsection \<open>Integers as text\<close>

fun dec_nat :: "nat \<Rightarrow> string" where
  "dec_nat n = (if n < 10 then [digit_char n] else dec_nat (n div 10) @ [digit_char (n mod 10)])"

declare dec_nat.simps [simp del]

definition dec_str :: "int \<Rightarrow> string" where
  "dec_str v = (if v < 0 then CHR ''-'' # dec_nat (nat (- v)) else dec_nat (nat v))"

fun scan_digits :: "bool \<Rightarrow> nat \<Rightarrow> string \<Rightarrow> nat option" where
  "scan_digits after_digit acc [] = (if after_digit then Some acc else None)"
| "scan_digits after_digit acc (c # s) =
     (if is_digit c then scan_digits True (10 * acc + digit_val c) s
      else if c = CHR ''_'' \<and> after_digit then scan_digits False acc s
      else None)"

definition MAX_STR_DIGITS :: nat where "MAX_STR_DIGITS = 4300"

definition py_int :: "string \<Rightarrow> int option" where
  "py_int s =
     (let t = strip_with is_int_space s
      in if length (filter is_digit t) > MAX_STR_DIGITS then None
         else case t of
           [] \<Rightarrow> None
         | c # r \<Rightarrow>
             if c = CHR ''-'' then map_option (\<lambda>n. - int n) (scan_digits False 0 r)
             else if c = CHR ''+'' then map_option int (scan_digits False 0 r)
             else map_option int (scan_digits False 0 t))"

subsection \<open>Unicode text\<close>

text \<open>
  \<open>b.decode("utf-8")\<close> as the list of code points, \<open>None\<close> for \<open>UnicodeDecodeError\<close>: continuation
  octets, overlong forms, surrogates and the upper limit are checked as the codec checks them.
\<close>

type_synonym code_points = "nat list"

definition is_cont :: "nat \<Rightarrow> bool" where
  "is_cont b \<longleftrightarrow> 128 \<le> b \<and> b < 192"

fun utf8_points :: "nat list \<Rightarrow> code_points option" where
  "utf8_points [] = Some []"
| "utf8_points (a # rest) =
     (if a < 128 then map_option ((#) a) (utf8_points rest)
      else case rest of
        [] \<Rightarrow> None
      | b # r1 \<Rightarrow>
          if \<not> is_cont b then None
          else if 194 \<le> a \<and> a < 224
               then map_option ((#) ((a - 192) * 64 + (b - 128))) (utf8_points r1)
          else case r1 of
            [] \<Rightarrow> None
          | c # r2 \<Rightarrow>
              if \<not> is_cont c then None
              else if 224 \<le> a \<and> a < 240
                   then let n = ((a - 224) * 64 + (b - 128)) * 64 + (c - 128)
                        in if n < 0x800 \<or> 0xD800 \<le> n \<and> n \<le> 0xDFFF then None
                           else map_option ((#) n) (utf8_points r2)
              else case r2 of
                [] \<Rightarrow> None
              | d # r3 \<Rightarrow>
                  if \<not> is_cont d then None
                  else if 240 \<le> a \<and> a < 245
                       then let n = (((a - 240) * 64 + (b - 128)) * 64 + (c - 128)) * 64 + (d - 128)
                            in if n < 0x10000 \<or> 0x10FFFF < n then None
                               else map_option ((#) n) (utf8_points r3)
                  else None)"

definition decode_utf8 :: "bytes \<Rightarrow> code_points option" where
  "decode_utf8 bs = utf8_points (map unat bs)"

definition is_space_point :: "nat \<Rightarrow> bool" where
  "is_space_point n \<longleftrightarrow> (9 \<le> n \<and> n \<le> 13) \<or> (28 \<le> n \<and> n \<le> 32) \<or> n \<in> {0x85, 0xA0, 0x1680}
     \<or> (0x2000 \<le> n \<and> n \<le> 0x200A) \<or> n \<in> {0x2028, 0x2029, 0x202F, 0x205F, 0x3000}"

subsection \<open>Lemmas on decimal text\<close>

lemma is_digit_char [simp]: "d < 10 \<Longrightarrow> is_digit (digit_char d)"
  by (simp add: is_digit_def digit_char_def)

lemma digit_val_char [simp]: "d < 10 \<Longrightarrow> digit_val (digit_char d) = d"
  by (simp add: digit_val_def digit_char_def)

lemma dec_nat_digits: "list_all is_digit (dec_nat n)"
  by (induction n rule: dec_nat.induct) (subst dec_nat.simps, simp)

lemma dec_nat_not_Nil [simp]: "dec_nat n \<noteq> []"
  by (subst dec_nat.simps) simp

lemma dec_nat_hd: "is_digit (hd (dec_nat n))"
  using dec_nat_digits [of n] dec_nat_not_Nil [of n] by (cases "dec_nat n") auto

lemma dec_nat_last: "is_digit (last (dec_nat n))"
  using dec_nat_digits [of n] dec_nat_not_Nil [of n] by (auto simp: list_all_iff)

lemma scan_digits_snoc:
  "list_all is_digit s \<Longrightarrow> is_digit c \<Longrightarrow> scan_digits b acc s = Some m \<or> s = [] \<and> m = acc \<Longrightarrow>
   scan_digits b acc (s @ [c]) = Some (10 * m + digit_val c)"
  by (induction s arbitrary: b acc) (auto split: if_splits)

lemma scan_dec_nat: "scan_digits b 0 (dec_nat n) = Some n"
proof (induction n rule: dec_nat.induct)
  case (1 n)
  show ?case
  proof (cases "n < 10")
    case True
    then show ?thesis by (subst dec_nat.simps) simp
  next
    case False
    with 1 have "scan_digits b 0 (dec_nat (n div 10)) = Some (n div 10)" by simp
    then have "scan_digits b 0 (dec_nat (n div 10) @ [digit_char (n mod 10)])
        = Some (10 * (n div 10) + n mod 10)"
      using scan_digits_snoc [of "dec_nat (n div 10)" "digit_char (n mod 10)" b 0 "n div 10"]
        dec_nat_digits by simp
    with False show ?thesis by (subst dec_nat.simps) simp
  qed
qed

lemma dec_nat_length: "n < 10 ^ k \<Longrightarrow> 0 < k \<Longrightarrow> length (dec_nat n) \<le> k"
proof (induction n arbitrary: k rule: dec_nat.induct)
  case (1 n)
  show ?case
  proof (cases "n < 10")
    case True
    with "1.prems" show ?thesis by (subst dec_nat.simps) simp
  next
    case False
    obtain j where k: "k = Suc j" using "1.prems" by (cases k) auto
    have j: "0 < j" using "1.prems"(1) False k by (cases j) auto
    have "n div 10 < 10 ^ j" using "1.prems"(1) k by (auto simp: div_less_iff_less_mult mult.commute)
    with "1.IH" False j have "length (dec_nat (n div 10)) \<le> j" by blast
    with False k show ?thesis by (subst dec_nat.simps) simp
  qed
qed

lemma digit_not_int_space: "is_digit c \<Longrightarrow> \<not> is_int_space c"
  by (auto simp: is_digit_def is_int_space_def)

lemma digit_not_space: "is_digit c \<Longrightarrow> \<not> is_space c"
  by (auto simp: is_digit_def is_space_def)

lemma strip_with_id:
  "s = [] \<or> \<not> p (hd s) \<and> \<not> p (last s) \<Longrightarrow> strip_with p s = s"
proof -
  assume h: "s = [] \<or> \<not> p (hd s) \<and> \<not> p (last s)"
  then have "dropWhile p s = s" by (auto simp: dropWhile_eq_self_iff)
  moreover have "dropWhile p (rev s) = rev s"
    using h by (auto simp: dropWhile_eq_self_iff hd_rev)
  ultimately show ?thesis by (simp add: strip_with_def)
qed

lemma not_digit_sign: "\<not> is_digit (CHR ''-'')" "\<not> is_digit (CHR ''+'')" "\<not> is_digit (CHR ''_'')"
  by (simp_all add: is_digit_def)

text \<open>\<open>int(str(n)) == n\<close> for every integer of at most 4300 digits.\<close>

lemma py_int_dec_nat:
  assumes "n < 10 ^ MAX_STR_DIGITS"
  shows "py_int (dec_nat n) = Some (int n)"
proof -
  have st: "strip_with is_int_space (dec_nat n) = dec_nat n"
    by (rule strip_with_id) (simp add: dec_nat_hd dec_nat_last digit_not_int_space)
  have len: "length (filter is_digit (dec_nat n)) \<le> MAX_STR_DIGITS"
    using dec_nat_length [OF assms] by (auto simp: MAX_STR_DIGITS_def intro: order.trans [OF length_filter_le])
  obtain c r where cr: "dec_nat n = c # r" by (cases "dec_nat n") auto
  then have "is_digit c" using dec_nat_hd [of n] by simp
  then have "c \<noteq> CHR ''-''" "c \<noteq> CHR ''+''" using not_digit_sign by auto
  then show ?thesis
    using len scan_dec_nat [of False n] st by (simp add: py_int_def Let_def cr del: scan_digits.simps)
qed

lemma py_int_dec_str:
  assumes "\<bar>v\<bar> < 10 ^ MAX_STR_DIGITS"
  shows "py_int (dec_str v) = Some v"
proof (cases "v < 0")
  case False
  with assms have "nat v < 10 ^ MAX_STR_DIGITS" by (simp add: nat_less_iff)
  from py_int_dec_nat [OF this] False show ?thesis by (simp add: dec_str_def)
next
  case True
  let ?n = "nat (- v)"
  have n: "?n < 10 ^ MAX_STR_DIGITS" using assms True by (simp add: nat_less_iff)
  have st: "strip_with is_int_space (CHR ''-'' # dec_nat ?n) = CHR ''-'' # dec_nat ?n"
    using digit_not_int_space [OF dec_nat_last [of ?n]]
    by (intro strip_with_id) (simp add: is_int_space_def)
  have len: "length (filter is_digit (dec_nat ?n)) \<le> MAX_STR_DIGITS"
    using dec_nat_length [OF n] by (auto simp: MAX_STR_DIGITS_def intro: order.trans [OF length_filter_le])
  show ?thesis
    using True len scan_dec_nat [of False ?n]
    by (simp add: py_int_def Let_def dec_str_def st not_digit_sign)
qed

subsection \<open>Lemmas on splitting and joining\<close>

lemma split_char_not_Nil [simp]: "split_char c s \<noteq> []"
  by (induction s) (auto split: list.splits)

lemma split_crlf_not_Nil [simp]: "split_crlf s \<noteq> []"
  by (induction s rule: split_crlf.induct) (auto split: list.splits)

lemma join_Cons: "ws \<noteq> [] \<Longrightarrow> join sep (w # ws) = w @ sep @ join sep ws"
  by (cases ws) auto

lemma join_split_crlf: "join crlf (split_crlf s) = s"
proof (induction s rule: split_crlf.induct)
  case (3 x y xs)
  show ?case
  proof (cases "x = cr \<and> y = lf")
    case True
    with 3(1) show ?thesis by (simp add: join_Cons crlf_def)
  next
    case False
    obtain w ws where w: "split_crlf (y # xs) = w # ws"
      by (cases "split_crlf (y # xs)") auto
    with False 3(2) have "join crlf (w # ws) = y # xs" by auto
    then have "join crlf ((x # w) # ws) = x # y # xs" by (cases ws) auto
    with False w show ?thesis by auto
  qed
qed auto

text \<open>A line: text without the separator inside and without a trailing half of it.\<close>

fun no_crlf :: "string \<Rightarrow> bool" where
  "no_crlf [] = True"
| "no_crlf [x] = True"
| "no_crlf (x # y # xs) = (\<not> (x = cr \<and> y = lf) \<and> no_crlf (y # xs))"

lemma split_crlf_no_crlf: "w \<in> set (split_crlf s) \<Longrightarrow> no_crlf w"
proof (induction s arbitrary: w rule: split_crlf.induct)
  case (3 x y xs)
  show ?case
  proof (cases "x = cr \<and> y = lf")
    case True
    with 3 show ?thesis by auto
  next
    case False
    obtain v vs where v: "split_crlf (y # xs) = v # vs"
      by (cases "split_crlf (y # xs)") auto
    have first: "v = [] \<or> hd v = y"
      using v by (cases xs) (auto split: if_splits list.splits)
    have "no_crlf v" using 3(2) [OF False] v by simp
    with False first have "no_crlf (x # v)" by (cases v) auto
    with 3(2) [OF False] 3(3) v False show ?thesis by auto
  qed
qed auto

lemma dec_nat_hd_nonzero: "0 < n \<Longrightarrow> hd (dec_nat n) \<noteq> CHR ''0''"
proof (induction n rule: dec_nat.induct)
  case (1 n)
  show ?case
  proof (cases "n < 10")
    case True
    then have "n = 1 \<or> n = 2 \<or> n = 3 \<or> n = 4 \<or> n = 5 \<or> n = 6 \<or> n = 7 \<or> n = 8 \<or> n = 9"
      using "1.prems" by linarith
    then show ?thesis by (subst dec_nat.simps) (auto simp: digit_char_def char_of_eq_iff take_bit_eq_mod)
  next
    case False
    with 1 show ?thesis by (subst dec_nat.simps) (simp add: hd_append)
  qed
qed

lemma no_crlf_plain: "list_all (\<lambda>c. c \<noteq> cr) s \<Longrightarrow> no_crlf s"
  by (induction s rule: no_crlf.induct) auto

lemma split_crlf_line: "no_crlf w \<Longrightarrow> split_crlf (w @ crlf @ s) = w # split_crlf s"
proof (induction w rule: no_crlf.induct)
  case (2 x)
  then show ?case by (simp add: crlf_def cr_def lf_def)
next
  case (3 x y xs)
  then show ?case by (auto simp: crlf_def)
qed (simp add: crlf_def)

lemma split_crlf_single: "no_crlf w \<Longrightarrow> split_crlf w = [w]"
  by (induction w rule: no_crlf.induct) auto

lemma split_crlf_join: "ws \<noteq> [] \<Longrightarrow> list_all no_crlf ws \<Longrightarrow> split_crlf (join crlf ws) = ws"
proof (induction ws rule: induct_list012)
  case (2 w)
  then show ?case by (simp add: split_crlf_single)
next
  case (3 w v ws)
  then show ?case by (simp add: split_crlf_line)
qed simp

lemma no_crlf_append: "no_crlf (a @ b) \<Longrightarrow> no_crlf a \<and> no_crlf b"
proof (induction a rule: no_crlf.induct)
  case (2 x)
  then show ?case by (cases b) auto
next
  case (3 x y xs)
  then show ?case by auto
qed auto

lemma split_char_no_sep: "c \<notin> set w \<Longrightarrow> split_char c w = [w]"
  by (induction w) auto

lemma split_char_append: "c \<notin> set w \<Longrightarrow> split_char c (w @ c # s) = w # split_char c s"
  by (induction w) auto

lemma dec_str_chars: "list_all (\<lambda>c. is_digit c \<or> c = CHR ''-'') (dec_str n)"
  using dec_nat_digits [of "nat n"] dec_nat_digits [of "nat (- n)"] by (auto simp: dec_str_def list_all_iff)

subsection \<open>Stripping\<close>

lemma dropWhile_idem: "(s \<noteq> [] \<longrightarrow> \<not> p (hd s)) \<Longrightarrow> dropWhile p s = s"
  by (cases s) auto

lemma strip_with_ends:
  "strip_with p s \<noteq> [] \<Longrightarrow> \<not> p (hd (strip_with p s))" "strip_with p s \<noteq> [] \<Longrightarrow> \<not> p (last (strip_with p s))"
proof -
  let ?t = "dropWhile p s"
  let ?u = "dropWhile p (rev ?t)"
  assume ne: "strip_with p s \<noteq> []"
  have u: "strip_with p s = rev ?u" by (simp add: strip_with_def)
  then have "?u \<noteq> []" using ne by simp
  then have "\<not> p (hd ?u)" by (rule hd_dropWhile)
  then show "\<not> p (last (strip_with p s))" using u by (simp add: last_rev)
  obtain sp where "rev ?t = sp @ ?u" by (metis takeWhile_dropWhile_id)
  then have "?t = strip_with p s @ rev sp" unfolding u by (metis rev_append rev_rev_ident)
  then have "hd ?t = hd (strip_with p s)" "?t \<noteq> []" using ne by (metis hd_append2, metis append_is_Nil_conv)
  then show "\<not> p (hd (strip_with p s))" using hd_dropWhile [of p s] by simp
qed

lemma strip_with_idem [simp]: "strip_with p (strip_with p s) = strip_with p s"
  by (rule strip_with_id) (simp add: strip_with_ends disj_imp)

lemma strip_with_Nil [simp]: "strip_with p [] = []"
  by (simp add: strip_with_def)

lemma strip_with_skip: "p c \<Longrightarrow> strip_with p (c # s) = strip_with p s"
  by (simp add: strip_with_def)

lemma strip_with_infix: "\<exists>a b. s = a @ strip_with p s @ b"
proof -
  let ?t = "dropWhile p s"
  have "takeWhile p (rev ?t) @ rev (strip_with p s) = rev ?t"
    by (simp add: strip_with_def)
  then have "rev (takeWhile p (rev ?t) @ rev (strip_with p s)) = rev (rev ?t)" by (rule arg_cong)
  then have "strip_with p s @ rev (takeWhile p (rev ?t)) = ?t" by (simp only: rev_rev_ident rev_append)
  then have "takeWhile p s @ strip_with p s @ rev (takeWhile p (rev ?t)) = takeWhile p s @ ?t" by (rule arg_cong)
  also have "takeWhile p s @ ?t = s" by (rule takeWhile_dropWhile_id)
  finally have "s = takeWhile p s @ strip_with p s @ rev (takeWhile p (rev ?t))" by (rule sym)
  then show ?thesis by blast
qed

lemma no_crlf_strip: "no_crlf s \<Longrightarrow> no_crlf (strip_with p s)"
proof -
  assume "no_crlf s"
  moreover obtain a b where "s = a @ strip_with p s @ b" using strip_with_infix by blast
  ultimately show ?thesis using no_crlf_append by metis
qed

lemma no_crlf_Cons [simp]: "x \<noteq> cr \<Longrightarrow> no_crlf (x # s) = no_crlf s"
  by (cases s) (auto simp: cr_def lf_def)

lemma no_crlf_snoc: "no_crlf s \<Longrightarrow> x \<noteq> lf \<Longrightarrow> no_crlf (s @ [x])"
  by (induction s rule: no_crlf.induct) (auto simp: cr_def lf_def)

lemma no_crlf_label: "no_crlf v \<Longrightarrow> list_all (\<lambda>c. c \<noteq> cr) l \<Longrightarrow> no_crlf (l @ v)"
  by (induction l) auto

end
