(* ===== verification/Hss_Store.thy ===== *)
theory Hss_Store
  imports Py_Json
begin

section \<open>The subscriber store of the lab HSS\<close>

text \<open>
  \<^verbatim>\<open>lab/ims_hss.py\<close>, lines 234 to 394: the field validators, \<open>Subscriber\<close>, \<open>HssStore\<close> with all
  its operations, and the two renderings of a subscriber (\<open>_subscriber_json\<close>,
  \<open>_subscriber_profile_xml\<close>). The dictionary of subscribers is an association list in insertion
  order. A method that changes the store returns the new store beside its result, also when it
  raises, so that a half-done change is visible. The lock makes each method one step.
\<close>

subsection \<open>Field validators\<close>

definition MAX_PROFILE_BYTES :: nat where "MAX_PROFILE_BYTES = 16384"
definition MAX_SUBSCRIBERS :: nat where "MAX_SUBSCRIBERS = 10000"

definition printable :: "char \<Rightarrow> bool" where
  "printable c \<longleftrightarrow> \<not> (chr_code c < 0x20 \<or> chr_code c = 0x7F)"

definition safe_ascii :: "bytes option \<Rightarrow> nat \<Rightarrow> string" where
  "safe_ascii value limit =
     (case value of None \<Rightarrow> []
      | Some bs \<Rightarrow>
          if \<not> (1 \<le> length bs \<and> length bs \<le> limit) then []
          else case decode_ascii bs of Inl _ \<Rightarrow> []
               | Inr text \<Rightarrow> if list_all printable text then text else [])"

definition invalid :: "string \<Rightarrow> exn" where
  "invalid name = ValueError (''invalid '' @ name)"

definition identity_field :: "json_dict \<Rightarrow> string \<Rightarrow> nat \<Rightarrow> string result" where
  "identity_field item name limit =
     (case map_of item name of
        Some (JStr value) \<Rightarrow>
          (case encode_ascii value of Inl _ \<Rightarrow> Inl (invalid name)
           | Inr raw \<Rightarrow>
               let result = safe_ascii (Some raw) limit
               in if result = [] \<or> list_ex (\<lambda>c. c \<in> set result) [CHR ''|'', CHR 0x22, CHR 0x5C]
                  then Inl (invalid name) else Inr result)
      | _ \<Rightarrow> Inl (ValueError (name @ '' is required'')))"

definition sip_prefix :: "string \<Rightarrow> bool" where
  "sip_prefix s \<longleftrightarrow> starts_with ''sip:'' s \<or> starts_with ''sips:'' s"

definition profile_allowed :: "(string \<times> nat) list" where
  "profile_allowed = [(''associated_uris'', 8), (''initial_filter_criteria'', 4)]"

text \<open>The loop over the values of one field; \<open>validated\<close> is the list built so far.\<close>

fun profile_values :: "string \<Rightarrow> string list \<Rightarrow> json list \<Rightarrow> string list result" where
  "profile_values key validated [] = Inr validated"
| "profile_values key validated (v # vs) =
     (case v of
        JStr s \<Rightarrow>
          (case encode_ascii s of Inl _ \<Rightarrow> Inl (invalid (key @ '' value''))
           | Inr raw \<Rightarrow>
               let parsed = safe_ascii (Some raw) 2048
               in if \<not> sip_prefix parsed \<or> parsed \<in> set validated then Inl (invalid (key @ '' value''))
                  else profile_values key (validated @ [parsed]) vs)
      | _ \<Rightarrow> Inl (invalid (key @ '' value'')))"

fun profile_fields :: "(string \<times> nat) list \<Rightarrow> json_dict \<Rightarrow> json_dict result" where
  "profile_fields [] item = Inr []"
| "profile_fields ((key, limit) # rest) item =
     (case map_of item key of
        None \<Rightarrow> profile_fields rest item
      | Some (JList vs) \<Rightarrow>
          if length vs > limit then Inl (ValueError (key @ '' exceeds limit''))
          else bindE (profile_values key [] vs) (\<lambda>us.
               bindE (profile_fields rest item) (\<lambda>r. Inr ((key, JList (map JStr us)) # r)))
      | Some _ \<Rightarrow> Inl (ValueError (key @ '' exceeds limit'')))"

definition profile :: "json \<Rightarrow> json_dict result" where
  "profile item =
     (case item of
        JObj kvs \<Rightarrow>
          if list_ex (\<lambda>kv. fst kv \<notin> fst ` set profile_allowed) kvs
          then Inl (ValueError ''service_profile contains unsupported fields'')
          else bindE (profile_fields profile_allowed kvs) (\<lambda>result.
               if length (json_dumps (JObj result)) > MAX_PROFILE_BYTES
               then Inl (ValueError ''service_profile exceeds limit'') else Inr result)
      | _ \<Rightarrow> Inl (ValueError ''service_profile contains unsupported fields''))"

subsection \<open>Base64\<close>

text \<open>
  \<open>base64.b64decode(s, validate=True)\<close>: groups of four characters of the alphabet, the last one
  possibly padded; anything else is a \<open>ValueError\<close>. The bits of a padded group that do not fill an
  octet are dropped, as Python drops them.
\<close>

definition b64_val :: "char \<Rightarrow> nat option" where
  "b64_val c =
     (let n = chr_code c
      in if 65 \<le> n \<and> n \<le> 90 then Some (n - 65)
         else if 97 \<le> n \<and> n \<le> 122 then Some (n - 71)
         else if 48 \<le> n \<and> n \<le> 57 then Some (n + 4)
         else if n = 43 then Some 62 else if n = 47 then Some 63 else None)"

definition b64_quad :: "nat \<Rightarrow> nat \<Rightarrow> nat \<Rightarrow> nat \<Rightarrow> bytes" where
  "b64_quad a b c d =
     (let n = ((a * 64 + b) * 64 + c) * 64 + d
      in [word_of_nat (n div 65536), word_of_nat (n div 256 mod 256), word_of_nat (n mod 256)])"

fun b64decode :: "string \<Rightarrow> bytes option" where
  "b64decode [] = Some []"
| "b64decode (a # b # c # d # rest) =
     (case (b64_val a, b64_val b, b64_val c, b64_val d) of
        (Some va, Some vb, Some vc, Some vd) \<Rightarrow>
          map_option (\<lambda>bs. b64_quad va vb vc vd @ bs) (b64decode rest)
      | (Some va, Some vb, Some vc, None) \<Rightarrow>
          if d = CHR ''='' \<and> rest = [] then Some (take 2 (b64_quad va vb vc 0)) else None
      | (Some va, Some vb, None, None) \<Rightarrow>
          if c = CHR ''='' \<and> d = CHR ''='' \<and> rest = [] then Some (take 1 (b64_quad va vb 0 0)) else None
      | _ \<Rightarrow> None)"
| "b64decode _ = None"

subsection \<open>Subscribers and the store\<close>

record Subscriber =
  public_identity :: string
  private_identity :: string
  assigned_server_name :: string
  xres :: bytes
  service_profile :: json_dict
  enabled :: bool

type_synonym subscriber_key = "string \<times> string"

record HssStore =
  max_subscribers :: nat
  items :: "(subscriber_key \<times> Subscriber) list"

definition new_store :: "int \<Rightarrow> HssStore result" where
  "new_store limit =
     (if \<not> (1 \<le> limit \<and> limit \<le> int MAX_SUBSCRIBERS) then Inl (ValueError ''invalid subscriber limit'')
      else Inr \<lparr>max_subscribers = nat limit, items = []\<rparr>)"

definition json_bool :: "json \<Rightarrow> bool result" where
  "json_bool v = (case v of JBool b \<Rightarrow> Inr b | _ \<Rightarrow> Inl (ValueError ''enabled must be boolean''))"

definition get_or :: "json_dict \<Rightarrow> string \<Rightarrow> json \<Rightarrow> json" where
  "get_or d k v = (case map_of d k of None \<Rightarrow> v | Some x \<Rightarrow> x)"

definition parse_xres :: "json_dict \<Rightarrow> bytes result" where
  "parse_xres item =
     (case map_of item ''xres_base64'' of
        Some (JStr raw) \<Rightarrow>
          if \<not> (1 \<le> length raw \<and> length raw \<le> 1024) then Inl (ValueError ''xres_base64 is required'')
          else if \<not> is_ascii raw then Inl (ValueError ''invalid xres_base64'')
          else (case b64decode raw of
                  None \<Rightarrow> Inl (ValueError ''invalid xres_base64'')
                | Some x \<Rightarrow> if \<not> (1 \<le> length x \<and> length x \<le> 128) then Inl (ValueError ''xres exceeds limit'')
                            else Inr x)
      | _ \<Rightarrow> Inl (ValueError ''xres_base64 is required''))"

text \<open>The checks of \<open>provision\<close>, before the lock is taken.\<close>

definition parse_subscriber :: "json_dict \<Rightarrow> Subscriber result" where
  "parse_subscriber item =
     bindE (identity_field item ''public_identity'' 2048) (\<lambda>public.
     bindE (identity_field item ''private_identity'' 1024) (\<lambda>private.
     bindE (identity_field item ''assigned_server_name'' 2048) (\<lambda>server.
       if \<not> sip_prefix public \<or> private = [] \<or> server = []
       then Inl (ValueError ''invalid subscriber identity or server'')
       else
         bindE (parse_xres item) (\<lambda>x.
         bindE (profile (get_or item ''service_profile'' (JObj []))) (\<lambda>prof.
         bindE (json_bool (get_or item ''enabled'' (JBool True))) (\<lambda>en.
         Inr \<lparr>public_identity = public, private_identity = private, assigned_server_name = server,
              xres = x, service_profile = prof, enabled = en\<rparr>))))))"

definition put_item :: "HssStore \<Rightarrow> subscriber_key \<Rightarrow> Subscriber \<Rightarrow> HssStore" where
  "put_item store key sub = store\<lparr>items := AList.update key sub (items store)\<rparr>"

definition provision :: "HssStore \<Rightarrow> json_dict \<Rightarrow> Subscriber result \<times> HssStore" where
  "provision store item =
     (case parse_subscriber item of
        Inl e \<Rightarrow> (Inl e, store)
      | Inr sub \<Rightarrow>
          let key = (public_identity sub, private_identity sub)
          in if map_of (items store) key = None \<and> length (items store) \<ge> max_subscribers store
             then (Inl (ValueError ''subscriber capacity exhausted''), store)
             else (Inr sub, put_item store key sub))"

definition find_entry :: "HssStore \<Rightarrow> string \<Rightarrow> (subscriber_key \<times> Subscriber) option" where
  "find_entry store public = List.find (\<lambda>kv. fst (fst kv) = public) (items store)"

definition find_pair :: "HssStore \<Rightarrow> string \<Rightarrow> string \<Rightarrow> Subscriber option" where
  "find_pair store public private = map_of (items store) (public, private)"

definition find_public :: "HssStore \<Rightarrow> string \<Rightarrow> Subscriber option" where
  "find_public store public = map_option snd (find_entry store public)"

definition authorize :: "HssStore \<Rightarrow> string \<Rightarrow> string \<Rightarrow> Subscriber option" where
  "authorize store public private =
     (case find_pair store public private of
        None \<Rightarrow> None
      | Some sub \<Rightarrow> if enabled sub then Some sub else None)"

definition list_all_subs :: "HssStore \<Rightarrow> Subscriber list" where
  "list_all_subs store = map snd (items store)"

text \<open>
  \<open>update\<close> writes into the subscriber field by field, so the fields before a failing one stay
  changed. Each step below returns the subscriber as the next one finds it.
\<close>

definition update_server :: "json_dict \<Rightarrow> Subscriber \<Rightarrow> Subscriber result" where
  "update_server updates sub =
     (if map_of updates ''assigned_server_name'' = None then Inr sub
      else bindE (identity_field updates ''assigned_server_name'' 2048) (\<lambda>s.
           Inr (sub\<lparr>assigned_server_name := s\<rparr>)))"

definition update_profile :: "json_dict \<Rightarrow> Subscriber \<Rightarrow> Subscriber result" where
  "update_profile updates sub =
     (case map_of updates ''service_profile'' of
        None \<Rightarrow> Inr sub
      | Some v \<Rightarrow> bindE (profile v) (\<lambda>p. Inr (sub\<lparr>service_profile := p\<rparr>)))"

definition update_enabled :: "json_dict \<Rightarrow> Subscriber \<Rightarrow> Subscriber result" where
  "update_enabled updates sub =
     (case map_of updates ''enabled'' of
        None \<Rightarrow> Inr sub
      | Some v \<Rightarrow> bindE (json_bool v) (\<lambda>b. Inr (sub\<lparr>enabled := b\<rparr>)))"

fun run_updates ::
  "(Subscriber \<Rightarrow> Subscriber result) list \<Rightarrow> Subscriber \<Rightarrow> Subscriber result \<times> Subscriber" where
  "run_updates [] sub = (Inr sub, sub)"
| "run_updates (f # fs) sub =
     (case f sub of Inl e \<Rightarrow> (Inl e, sub) | Inr sub' \<Rightarrow> run_updates fs sub')"

definition update :: "HssStore \<Rightarrow> string \<Rightarrow> json_dict \<Rightarrow> Subscriber option result \<times> HssStore" where
  "update store public updates =
     (case find_entry store public of
        None \<Rightarrow> (Inr None, store)
      | Some (key, sub) \<Rightarrow>
          let (r, sub') = run_updates
                [update_server updates, update_profile updates, update_enabled updates] sub
          in (case r of Inl e \<Rightarrow> Inl e | Inr s \<Rightarrow> Inr (Some s), put_item store key sub'))"

definition remove :: "HssStore \<Rightarrow> string \<Rightarrow> bool \<times> HssStore" where
  "remove store public =
     (case find_entry store public of
        None \<Rightarrow> (False, store)
      | Some (key, _) \<Rightarrow> (True, store\<lparr>items := AList.delete key (items store)\<rparr>))"

definition set_enabled :: "HssStore \<Rightarrow> string \<Rightarrow> bool \<Rightarrow> Subscriber option \<times> HssStore" where
  "set_enabled store public en =
     (case find_entry store public of
        None \<Rightarrow> (None, store)
      | Some (key, sub) \<Rightarrow> (Some (sub\<lparr>enabled := en\<rparr>), put_item store key (sub\<lparr>enabled := en\<rparr>)))"

subsection \<open>Renderings\<close>

definition subscriber_json :: "Subscriber \<Rightarrow> json" where
  "subscriber_json sub = JObj
     [(''public_identity'', JStr (public_identity sub)),
      (''private_identity'', JStr (private_identity sub)),
      (''assigned_server_name'', JStr (assigned_server_name sub)),
      (''enabled'', JBool (enabled sub)),
      (''service_profile'', JObj (service_profile sub))]"

definition profile_list :: "json_dict \<Rightarrow> string \<Rightarrow> string list" where
  "profile_list p key = (case map_of p key of Some (JList vs) \<Rightarrow> map py_str vs | _ \<Rightarrow> [])"

definition xml_header :: string where
  "xml_header = ''<?xml version='' @ [CHR 0x22] @ ''1.0'' @ [CHR 0x22] @ '' encoding='' @ [CHR 0x22] @
     ''UTF-8'' @ [CHR 0x22] @ ''?>''"

definition identity_line :: "string \<Rightarrow> string" where
  "identity_line uri = ''<PublicIdentity><Identity>'' @ uri @ ''</Identity></PublicIdentity>''"

definition subscriber_profile_xml :: "Subscriber \<Rightarrow> string" where
  "subscriber_profile_xml sub = join [lf]
     ([xml_header, ''<IMSSubscription>'',
       ''  '' @ identity_line (public_identity sub),
       ''  <ServiceProfile>'',
       ''    '' @ identity_line (public_identity sub)] @
      map (\<lambda>uri. ''    '' @ identity_line uri) (profile_list (service_profile sub) ''associated_uris'') @
      map (\<lambda>ifc. ''    <InitialFilterCriteria>'' @ ifc @ ''</InitialFilterCriteria>'')
        (profile_list (service_profile sub) ''initial_filter_criteria'') @
      [''  </ServiceProfile>'', ''</IMSSubscription>''])"

subsection \<open>What the validators accept\<close>

definition clean_text :: "nat \<Rightarrow> string \<Rightarrow> bool" where
  "clean_text limit s \<longleftrightarrow> 1 \<le> length s \<and> length s \<le> limit \<and> is_ascii s \<and> list_all printable s"

definition wf_identity :: "nat \<Rightarrow> string \<Rightarrow> bool" where
  "wf_identity limit s \<longleftrightarrow> clean_text limit s \<and> set s \<inter> {CHR ''|'', CHR 0x22, CHR 0x5C} = {}"

definition wf_uri :: "string \<Rightarrow> bool" where
  "wf_uri s \<longleftrightarrow> clean_text 2048 s \<and> sip_prefix s"

definition wf_field :: "nat \<Rightarrow> json \<Rightarrow> bool" where
  "wf_field limit v \<longleftrightarrow>
     (\<exists>us. v = JList (map JStr us) \<and> length us \<le> limit \<and> list_all wf_uri us \<and> distinct us)"

definition wf_profile :: "json_dict \<Rightarrow> bool" where
  "wf_profile p \<longleftrightarrow> dict_ok p
     \<and> (\<forall>kv \<in> set p. \<exists>limit. (fst kv, limit) \<in> set profile_allowed \<and> wf_field limit (snd kv))"

definition profile_size :: "json_dict \<Rightarrow> nat" where
  "profile_size p = length (json_dumps (JObj p))"

definition wf_subscriber :: "Subscriber \<Rightarrow> bool" where
  "wf_subscriber sub \<longleftrightarrow>
     wf_identity 2048 (public_identity sub) \<and> sip_prefix (public_identity sub)
     \<and> wf_identity 1024 (private_identity sub) \<and> wf_identity 2048 (assigned_server_name sub)
     \<and> 1 \<le> length (xres sub) \<and> length (xres sub) \<le> 128
     \<and> wf_profile (service_profile sub)"

lemma safe_ascii_bytes_of: "clean_text limit s \<Longrightarrow> safe_ascii (Some (bytes_of s)) limit = s"
  by (simp add: safe_ascii_def clean_text_def decode_bytes_of)

lemma safe_ascii_not_Nil:
  assumes "safe_ascii v limit \<noteq> []"
  shows "clean_text limit (safe_ascii v limit) \<and> v = Some (bytes_of (safe_ascii v limit))"
  using assms
  by (auto simp: safe_ascii_def clean_text_def decode_ascii_Inr_iff decode_bytes_of
      split: option.splits sum.splits if_splits)

lemma safe_ascii_clean: "safe_ascii v limit = [] \<or> clean_text limit (safe_ascii v limit)"
  using safe_ascii_not_Nil by blast

lemma identity_field_Inr_iff:
  "identity_field item name limit = Inr s \<longleftrightarrow> map_of item name = Some (JStr s) \<and> wf_identity limit s"
proof -
  have "identity_field item name limit = Inr s \<longleftrightarrow> s = t \<and> wf_identity limit t"
    if "map_of item name = Some (JStr t)" for t
  proof (cases "is_ascii t \<and> safe_ascii (Some (bytes_of t)) limit \<noteq> []")
    case True
    then have "safe_ascii (Some (bytes_of t)) limit = t" "clean_text limit t"
      using safe_ascii_not_Nil [of "Some (bytes_of t)" limit] by auto
    with that True show ?thesis
      by (auto simp: identity_field_def wf_identity_def encode_ascii_def)
  next
    case False
    then have "\<not> clean_text limit t"
      using safe_ascii_bytes_of [of limit t] by (auto simp: clean_text_def)
    with that False show ?thesis
      by (auto simp: identity_field_def wf_identity_def encode_ascii_def)
  qed
  then show ?thesis
    by (cases "map_of item name"; (cases "the (map_of item name)")?)
      (auto simp: identity_field_def)
qed

lemma profile_values_Inr_iff:
  "profile_values key acc vs = Inr us \<longleftrightarrow>
     (\<exists>ws. vs = map JStr ws \<and> list_all wf_uri ws \<and> distinct ws \<and> set ws \<inter> set acc = {} \<and> us = acc @ ws)"
proof (induction vs arbitrary: acc)
  case Nil
  then show ?case by auto
next
  case (Cons v vs)
  show ?case
  proof (cases "\<exists>t. v = JStr t \<and> wf_uri t \<and> t \<notin> set acc")
    case True
    then obtain t where t: "v = JStr t" "wf_uri t" "t \<notin> set acc" by blast
    then have "profile_values key acc (v # vs) = profile_values key (acc @ [t]) vs"
      by (auto simp: wf_uri_def clean_text_def encode_ascii_def safe_ascii_bytes_of Let_def)
    with t show ?thesis
      by (auto simp: Cons.IH map_eq_Cons_conv Cons_eq_map_conv)
  next
    case False
    have "profile_values key acc (v # vs) \<noteq> Inr us"
    proof (cases v)
      case (JStr t)
      have ne: "safe_ascii (Some (bytes_of t)) 2048 = t \<and> clean_text 2048 t"
        if "sip_prefix (safe_ascii (Some (bytes_of t)) 2048)"
      proof -
        have "safe_ascii (Some (bytes_of t)) 2048 \<noteq> []"
          using that by (auto simp: sip_prefix_def starts_with_def)
        from safe_ascii_not_Nil [OF this] show ?thesis by (metis bytes_of_inject option.inject)
      qed
      show ?thesis
        using False JStr ne by (auto simp: encode_ascii_def wf_uri_def Let_def)
    qed auto
    moreover have "\<nexists>ws. v # vs = map JStr ws \<and> list_all wf_uri ws \<and> set ws \<inter> set acc = {}"
      using False by (auto simp: Cons_eq_map_conv)
    ultimately show ?thesis by auto
  qed
qed

lemma profile_fields_wf:
  "profile_fields allowed item = Inr p \<Longrightarrow>
   map fst p = filter (\<lambda>k. map_of item k \<noteq> None) (map fst allowed)
   \<and> (\<forall>kv \<in> set p. \<exists>limit. (fst kv, limit) \<in> set allowed \<and> wf_field limit (snd kv)
        \<and> map_of item (fst kv) = Some (snd kv))"
proof (induction allowed item arbitrary: p rule: profile_fields.induct)
  case (1 item)
  then show ?case by simp
next
  case (2 key limit rest item)
  show ?case
  proof (cases "map_of item key")
    case None
    with 2 show ?thesis by fastforce
  next
    case (Some v)
    with "2.prems" obtain vs where v: "v = JList vs"
      by (cases v) auto
    with Some "2.prems" obtain us r where len: "length vs \<le> limit"
      and us: "profile_values key [] vs = Inr us"
      and r: "profile_fields rest item = Inr r" and p: "p = (key, JList (map JStr us)) # r"
      by (auto simp: bindE_Inr_iff split: if_splits)
    from us have vs: "vs = map JStr us" and w: "wf_field limit (JList (map JStr us))"
      using len by (auto simp: profile_values_Inr_iff wf_field_def)
    have "\<not> limit < length vs" using len by simp
    from "2.IH"(2) [OF Some v this us r]
    show ?thesis using Some v vs w p by auto
  qed
qed

lemma profile_Inr:
  assumes "profile v = Inr p"
  shows "wf_profile p \<and> profile_size p \<le> MAX_PROFILE_BYTES"
proof -
  from assms obtain kvs where f: "profile_fields profile_allowed kvs = Inr p"
    and sz: "profile_size p \<le> MAX_PROFILE_BYTES"
    by (auto simp: profile_def profile_size_def bindE_Inr_iff not_less split: json.splits if_splits)
  have "distinct (map fst profile_allowed)" by (simp add: profile_allowed_def)
  then have "distinct (map fst p)"
    using profile_fields_wf [OF f] by (simp add: distinct_filter)
  then show ?thesis
    using profile_fields_wf [OF f] sz by (auto simp: wf_profile_def dict_ok_def)
qed

lemma parse_xres_Inr: "parse_xres item = Inr x \<Longrightarrow> 1 \<le> length x \<and> length x \<le> 128"
  by (auto simp: parse_xres_def split: option.splits json.splits if_splits)

lemma parse_subscriber_wf: "parse_subscriber item = Inr sub \<Longrightarrow> wf_subscriber sub"
  by (auto simp: parse_subscriber_def bindE_Inr_iff identity_field_Inr_iff wf_subscriber_def
      dest: profile_Inr parse_xres_Inr split: if_splits)

lemma profile_values_error: "profile_values key acc vs = Inl e \<Longrightarrow> is_value_error e"
  by (induction key acc vs rule: profile_values.induct)
    (auto simp: invalid_def Let_def split: json.splits sum.splits if_splits)

lemma profile_fields_error: "profile_fields allowed item = Inl e \<Longrightarrow> is_value_error e"
  by (induction allowed item rule: profile_fields.induct)
    (auto simp: bindE_def dest: profile_values_error
      split: option.splits json.splits sum.splits if_splits)

lemma identity_field_error: "identity_field item name limit = Inl e \<Longrightarrow> is_value_error e"
  by (auto simp: identity_field_def invalid_def Let_def
      split: option.splits json.splits sum.splits if_splits)

lemma parse_xres_error: "parse_xres item = Inl e \<Longrightarrow> is_value_error e"
  by (auto simp: parse_xres_def split: option.splits json.splits if_splits)

lemma profile_error: "profile v = Inl e \<Longrightarrow> is_value_error e"
  by (auto simp: profile_def bindE_Inl_iff dest: profile_fields_error split: json.splits if_splits)

lemma json_bool_error: "json_bool v = Inl e \<Longrightarrow> is_value_error e"
  by (auto simp: json_bool_def split: json.splits)

lemmas validator_errors = identity_field_error parse_xres_error profile_error json_bool_error

lemma parse_subscriber_error: "parse_subscriber item = Inl e \<Longrightarrow> is_value_error e"
  by (auto simp: parse_subscriber_def bindE_Inl_iff dest: validator_errors split: if_splits)

subsection \<open>The store invariant\<close>

definition entry_ok :: "subscriber_key \<times> Subscriber \<Rightarrow> bool" where
  "entry_ok kv \<longleftrightarrow> fst kv = (public_identity (snd kv), private_identity (snd kv))
     \<and> wf_subscriber (snd kv)"

definition store_ok :: "HssStore \<Rightarrow> bool" where
  "store_ok store \<longleftrightarrow> dict_ok (items store) \<and> length (items store) \<le> max_subscribers store
     \<and> list_all entry_ok (items store)"

lemma in_set_update: "x \<in> set (AList.update k v al) \<Longrightarrow> x = (k, v) \<or> x \<in> set al"
  by (induction al) (auto split: if_splits)

lemma in_set_delete: "x \<in> set (AList.delete k al) \<Longrightarrow> x \<in> set al"
  by (auto simp: AList.delete_eq)

lemma items_put_item [simp]:
  "items (put_item store key sub) = AList.update key sub (items store)"
  "max_subscribers (put_item store key sub) = max_subscribers store"
  by (simp_all add: put_item_def)

lemma find_entry_Some:
  assumes "find_entry store public = Some (key, sub)"
  shows "(key, sub) \<in> set (items store) \<and> fst key = public"
proof -
  from assms obtain i where "i < length (items store) \<and> fst (fst (items store ! i)) = public
    \<and> (key, sub) = items store ! i"
    unfolding find_entry_def List.find_Some_iff by blast
  then show ?thesis by (metis fst_conv nth_mem)
qed

lemma find_entry_map_of:
  assumes "store_ok store" and "find_entry store public = Some (key, sub)"
  shows "map_of (items store) key = Some sub \<and> key = (public, private_identity sub)
     \<and> public_identity sub = public \<and> wf_subscriber sub"
  using find_entry_Some [OF assms(2)] assms(1)
  by (auto simp: store_ok_def dict_ok_def list_all_iff entry_ok_def)

lemma find_entry_None: "find_entry store public = None \<longleftrightarrow> (\<forall>private. map_of (items store) (public, private) = None)"
  by (force simp: find_entry_def List.find_None_iff map_of_eq_None_iff)

lemma put_item_ok:
  assumes "store_ok store" and "entry_ok (key, sub)"
    and "map_of (items store) key \<noteq> None \<or> length (items store) < max_subscribers store"
  shows "store_ok (put_item store key sub)"
  using assms dict.size_assign_bound [of "items store" key "max_subscribers store" sub]
  by (auto simp: store_ok_def dict.ok_assign list_all_iff dest!: in_set_update)

lemma provision_ok: "store_ok store \<Longrightarrow> store_ok (snd (provision store item))"
  by (auto simp: provision_def Let_def entry_ok_def parse_subscriber_wf
      intro!: put_item_ok split: sum.splits)

lemma remove_ok:
  assumes "store_ok store"
  shows "store_ok (snd (remove store public))"
proof (cases "find_entry store public")
  case None
  with assms show ?thesis by (simp add: remove_def)
next
  case (Some kv)
  have d: "dict_ok (items store)" using assms by (simp add: store_ok_def)
  from dict.size_remove_le [OF d, of "fst kv"] dict.ok_remove [OF d, of "fst kv"] Some assms
  show ?thesis
    by (auto simp: remove_def store_ok_def list_all_iff split: prod.splits dest!: in_set_delete)
qed

lemma set_enabled_ok:
  assumes "store_ok store"
  shows "store_ok (snd (set_enabled store public en))"
proof (cases "find_entry store public")
  case None
  with assms show ?thesis by (simp add: set_enabled_def)
next
  case (Some kv)
  obtain key sub where kv: "kv = (key, sub)" by (cases kv)
  note e = find_entry_map_of [OF assms Some [unfolded kv]]
  then have "entry_ok (key, sub\<lparr>enabled := en\<rparr>)"
    by (auto simp: entry_ok_def wf_subscriber_def)
  with e Some kv assms show ?thesis
    by (auto simp: set_enabled_def intro!: put_item_ok)
qed

text \<open>Each step of \<open>update\<close> keeps the subscriber well formed, so a half-done update does too.\<close>

definition keeps_wf :: "(Subscriber \<Rightarrow> Subscriber result) \<Rightarrow> bool" where
  "keeps_wf f \<longleftrightarrow> (\<forall>sub sub'. f sub = Inr sub' \<longrightarrow> wf_subscriber sub \<longrightarrow>
     wf_subscriber sub' \<and> public_identity sub' = public_identity sub
     \<and> private_identity sub' = private_identity sub \<and> xres sub' = xres sub)"

lemma update_steps_keep_wf:
  "keeps_wf (update_server u)" "keeps_wf (update_profile u)" "keeps_wf (update_enabled u)"
  by (auto simp: keeps_wf_def update_server_def update_profile_def update_enabled_def bindE_Inr_iff
      identity_field_Inr_iff wf_subscriber_def dest: profile_Inr split: if_splits option.splits)

lemma run_updates_keep_wf:
  assumes "list_all keeps_wf fs" and "wf_subscriber sub"
  shows "wf_subscriber (snd (run_updates fs sub))
     \<and> public_identity (snd (run_updates fs sub)) = public_identity sub
     \<and> private_identity (snd (run_updates fs sub)) = private_identity sub
     \<and> xres (snd (run_updates fs sub)) = xres sub"
  using assms
proof (induction fs arbitrary: sub)
  case (Cons f fs)
  then show ?case
    by (cases "f sub") (auto simp: keeps_wf_def)
qed simp

lemma update_ok:
  assumes "store_ok store"
  shows "store_ok (snd (update store public updates))"
proof (cases "find_entry store public")
  case None
  with assms show ?thesis by (simp add: update_def)
next
  case (Some kv)
  obtain key sub where kv: "kv = (key, sub)" by (cases kv)
  let ?fs = "[update_server updates, update_profile updates, update_enabled updates]"
  note e = find_entry_map_of [OF assms Some [unfolded kv]]
  have "list_all keeps_wf ?fs" by (simp add: update_steps_keep_wf)
  from run_updates_keep_wf [OF this, of sub] e
  have "entry_ok (key, snd (run_updates ?fs sub))" by (simp add: entry_ok_def)
  then show ?thesis
    using assms e Some kv
    by (auto simp: update_def split: prod.splits intro!: put_item_ok)
qed

subsection \<open>Every reachable store is well formed\<close>

inductive store_step :: "HssStore \<Rightarrow> HssStore \<Rightarrow> bool" where
  step_provision: "store_step s (snd (provision s item))"
| step_update: "store_step s (snd (update s public updates))"
| step_remove: "store_step s (snd (remove s public))"
| step_set_enabled: "store_step s (snd (set_enabled s public en))"

inductive store_reachable :: "HssStore \<Rightarrow> bool" where
  reach_new: "new_store limit = Inr s \<Longrightarrow> store_reachable s"
| reach_step: "store_reachable s \<Longrightarrow> store_step s t \<Longrightarrow> store_reachable t"

inductive_cases store_stepE: "store_step s t"

lemma store_step_ok: "store_step s t \<Longrightarrow> store_ok s \<Longrightarrow> store_ok t"
  by (elim store_stepE) (auto intro: provision_ok update_ok remove_ok set_enabled_ok)

lemma store_step_max: "store_step s t \<Longrightarrow> max_subscribers t = max_subscribers s"
  by (elim store_stepE)
    (auto simp: provision_def update_def remove_def set_enabled_def Let_def
      split: sum.splits option.splits prod.splits)

lemma store_reachable_ok: "store_reachable s \<Longrightarrow> store_ok s"
proof (induction rule: store_reachable.induct)
  case (reach_new limit s)
  then show ?case by (auto simp: new_store_def store_ok_def split: if_splits)
next
  case (reach_step s t)
  then show ?case by (blast intro: store_step_ok)
qed

subsection \<open>The interface the HSS application relies on\<close>

text \<open>
  The client looks a subscriber up by its key (\<open>find\<close> with both identities), by its public identity
  alone, and through \<open>authorize\<close>, which hides a disabled one.
\<close>

locale subscriber_directory =
  fixes lookup :: "'s \<Rightarrow> string \<Rightarrow> string \<Rightarrow> Subscriber option"
    and first :: "'s \<Rightarrow> string \<Rightarrow> Subscriber option"
    and auth :: "'s \<Rightarrow> string \<Rightarrow> string \<Rightarrow> Subscriber option"
    and ok :: "'s \<Rightarrow> bool"
  assumes auth_iff: "auth s p q = Some sub \<longleftrightarrow> lookup s p q = Some sub \<and> enabled sub"
    and lookup_ok: "ok s \<Longrightarrow> lookup s p q = Some sub \<Longrightarrow>
      public_identity sub = p \<and> private_identity sub = q \<and> wf_subscriber sub"
    and first_lookup: "ok s \<Longrightarrow> first s p = Some sub \<Longrightarrow> lookup s p (private_identity sub) = Some sub"
    and first_None: "ok s \<Longrightarrow> first s p = None \<longleftrightarrow> (\<forall>q. lookup s p q = None)"
begin

text \<open>The choice that \<open>handle\<close> makes for a Cx request.\<close>

lemma chosen_ok:
  assumes "ok s" and "(if q \<noteq> [] then auth s p q else first s p) = Some sub"
  shows "public_identity sub = p \<and> (q \<noteq> [] \<longrightarrow> private_identity sub = q) \<and> wf_subscriber sub
     \<and> lookup s p (private_identity sub) = Some sub"
  using assms by (auto simp: auth_iff dest: lookup_ok first_lookup split: if_splits)

lemma auth_enabled: "auth s p q = Some sub \<Longrightarrow> enabled sub"
  by (simp add: auth_iff)

lemma unknown_denied: "ok s \<Longrightarrow> first s p = None \<Longrightarrow> auth s p q = None"
  using first_None [of s p] auth_iff [of s p q] by (cases "auth s p q") auto

end

lemma find_pair_ok:
  assumes "store_ok s" and "find_pair s p q = Some sub"
  shows "public_identity sub = p \<and> private_identity sub = q \<and> wf_subscriber sub"
proof -
  have "((p, q), sub) \<in> set (items s)"
    using assms(2) by (simp add: find_pair_def map_of_SomeD)
  with assms(1) show ?thesis by (auto simp: store_ok_def list_all_iff entry_ok_def)
qed

interpretation directory: subscriber_directory find_pair find_public authorize store_ok
proof unfold_locales
  fix s p q sub
  show "authorize s p q = Some sub \<longleftrightarrow> find_pair s p q = Some sub \<and> enabled sub"
    by (auto simp: authorize_def split: option.splits)
  show "store_ok s \<Longrightarrow> find_pair s p q = Some sub \<Longrightarrow>
      public_identity sub = p \<and> private_identity sub = q \<and> wf_subscriber sub"
    by (rule find_pair_ok)
  show "store_ok s \<Longrightarrow> find_public s p = Some sub \<Longrightarrow> find_pair s p (private_identity sub) = Some sub"
    by (auto simp: find_public_def find_pair_def dest: find_entry_map_of)
  show "store_ok s \<Longrightarrow> find_public s p = None \<longleftrightarrow> (\<forall>q. find_pair s p q = None)"
    by (simp add: find_public_def find_entry_None find_pair_def)
qed

subsection \<open>What the operations do to a lookup\<close>

lemma find_pair_put_item: "find_pair (put_item s key sub) p q = (if (p, q) = key then Some sub else find_pair s p q)"
  by (auto simp: find_pair_def dict.get_assign)

lemma provision_Inr:
  "provision s item = (Inr sub, t) \<longleftrightarrow>
     parse_subscriber item = Inr sub
     \<and> (find_pair s (public_identity sub) (private_identity sub) \<noteq> None
        \<or> length (items s) < max_subscribers s)
     \<and> t = put_item s (public_identity sub, private_identity sub) sub"
  by (auto simp: provision_def Let_def find_pair_def not_le split: sum.splits)

lemma provision_Inl: "provision s item = (Inl e, t) \<Longrightarrow> t = s \<and> is_value_error e"
  by (auto simp: provision_def Let_def parse_subscriber_error split: sum.splits if_splits)

end
