(* ===== verification/Hss_Application.thy ===== *)
theory Hss_Application
  imports Hss_Store Diameter_Codec
begin

section \<open>The Diameter application of the lab HSS\<close>

text \<open>
  \<^verbatim>\<open>lab/ims_hss.py\<close>, lines 397 to 678: \<open>HssApplication\<close>. Every handler takes the application
  state and returns its answer, or the exception that leaves it, with the new state.

  Two parameters stand for what the process takes from outside: \<open>rng k\<close> is what the \<open>k\<close>-th call of
  \<open>secrets.token_bytes(16)\<close> returns (the state counts the calls), and \<open>loads\<close> is \<open>json.loads\<close> on
  text, with the exception it raises: a \<open>ValueError\<close> for a text it refuses, \<open>RecursionError\<close> for one that
  nests too deeply. A string of the decoded value that is not ASCII only ever
  meets a check that refuses it, whatever its code points. The debug prints are left out.
\<close>

record HssApp =
  store :: HssStore
  origin_host :: string
  origin_realm :: string
  last_rand :: "(string \<times> bytes) list"
  hop_counter :: int
  sh_subscriptions :: "((string \<times> int) \<times> string set) list"
  drawn :: nat

definition new_app :: "HssStore \<Rightarrow> string \<Rightarrow> string \<Rightarrow> HssApp" where
  "new_app st host realm = \<lparr>store = st, origin_host = host, origin_realm = realm, last_rand = [],
     hop_counter = 0, sh_subscriptions = [], drawn = 0\<rparr>"

subsection \<open>Answers\<close>

definition common_body :: "HssApp \<Rightarrow> DiameterMessage \<Rightarrow> int \<Rightarrow> bytes result" where
  "common_body app request result =
     bindE (case find request 263 None of None \<Rightarrow> Inr [] | Some sid \<Rightarrow> avp_std 263 sid None) (\<lambda>a.
     bindE (avp_text 264 (origin_host app) None) (\<lambda>b.
     bindE (avp_text 296 (origin_realm app) None) (\<lambda>c.
     bindE (avp_u32 268 result None) (\<lambda>d.
     bindE (avp_u32 277 1 None) (\<lambda>e.
     bindE (if application request = CX_APPLICATION then vsa CX_APPLICATION else Inr []) (\<lambda>f.
     Inr (a @ b @ c @ d @ e @ f)))))))"

definition answer :: "HssApp \<Rightarrow> DiameterMessage \<Rightarrow> int \<Rightarrow> bytes \<Rightarrow> bytes result" where
  "answer app request result extra =
     bindE (common_body app request result) (\<lambda>body.
     build_message (msg_flags request AND 0x7F) (command request) (application request)
       (hop_by_hop request) (end_to_end request) (body @ extra))"

definition cea :: "HssApp \<Rightarrow> DiameterMessage \<Rightarrow> bytes result" where
  "cea app request =
     bindE (avp_text 264 (origin_host app) None) (\<lambda>a.
     bindE (avp_text 296 (origin_realm app) None) (\<lambda>b.
     bindE (avp_u32 268 RESULT_SUCCESS None) (\<lambda>c.
     bindE (avp_std 257 [0, 1, 0x7F, 0, 0, 1] None) (\<lambda>d.
     bindE (avp_u32 265 THREEGPP_VENDOR None) (\<lambda>e.
     bindE (avp_u32 266 THREEGPP_VENDOR None) (\<lambda>f.
     bindE (avp_text 269 ''madis-lab-hss'' None) (\<lambda>g.
     bindE (avp_u32 258 4 None) (\<lambda>h.
     bindE (vsa CX_APPLICATION) (\<lambda>i.
     bindE (vsa SH_APPLICATION) (\<lambda>j.
     build_message (msg_flags request AND 0x7F) 257 0 (hop_by_hop request) (end_to_end request)
       (a @ b @ c @ d @ e @ f @ g @ h @ i @ j)))))))))))"

subsection \<open>Reading a request\<close>

definition req_public :: "DiameterMessage \<Rightarrow> string" where
  "req_public request = safe_ascii (find request 601 (Some THREEGPP_VENDOR)) 2048"

definition req_private :: "DiameterMessage \<Rightarrow> string" where
  "req_private request = safe_ascii (find request 1 None) 1024"

definition req_server :: "DiameterMessage \<Rightarrow> string" where
  "req_server request = safe_ascii (find request 602 (Some THREEGPP_VENDOR)) 2048"

record mar_fields =
  mar_scheme :: string
  mar_authenticate :: "bytes option"
  mar_authorization :: "bytes option"

definition mar_scan :: "Avp \<Rightarrow> mar_fields \<Rightarrow> mar_fields" where
  "mar_scan a acc =
     (if avp_vendor a \<noteq> Some THREEGPP_VENDOR then acc
      else if avp_code a = 608 then acc\<lparr>mar_scheme := safe_ascii (Some (avp_value a)) 128\<rparr>
      else if avp_code a = 609 then acc\<lparr>mar_authenticate := Some (avp_value a)\<rparr>
      else if avp_code a = 610 then acc\<lparr>mar_authorization := Some (avp_value a)\<rparr>
      else acc)"

definition mar_item_fields :: "DiameterMessage \<Rightarrow> mar_fields" where
  "mar_item_fields request =
     (let none = \<lparr>mar_scheme = [], mar_authenticate = None, mar_authorization = None\<rparr>
      in case find request 612 (Some THREEGPP_VENDOR) of
           None \<Rightarrow> none
         | Some item \<Rightarrow> (case parse_avps item of Inl _ \<Rightarrow> none | Inr nested \<Rightarrow> fold mar_scan nested none))"

definition mar_number_of_items :: "DiameterMessage \<Rightarrow> nat" where
  "mar_number_of_items request =
     (case find request 607 (Some THREEGPP_VENDOR) of
        None \<Rightarrow> 1
      | Some raw \<Rightarrow>
          if length raw \<noteq> 4 then 1
          else let value = be_int raw in if value < 1 then 1 else if value > 5 then 5 else nat value)"

subsection \<open>Authentication vectors\<close>

definition AKA_SCHEME :: string where "AKA_SCHEME = ''Digest-AKAv1-MD5''"

text \<open>One SIP-Auth-Data-Item: RAND followed by AUTN, and the configured XRES.\<close>

definition auth_item :: "nat \<Rightarrow> bytes \<Rightarrow> bytes \<Rightarrow> bytes result" where
  "auth_item index authenticate x =
     bindE (avp_u32 613 (int index) (Some THREEGPP_VENDOR)) (\<lambda>a.
     bindE (vendor_text 608 AKA_SCHEME) (\<lambda>b.
     bindE (vendor_bytes 609 authenticate) (\<lambda>c.
     bindE (vendor_bytes 610 x) (\<lambda>d.
     vendor_grouped 612 (a @ b @ c @ d)))))"

primrec vector_items :: "(nat \<Rightarrow> bytes) \<Rightarrow> nat \<Rightarrow> nat \<Rightarrow> bytes \<Rightarrow> nat \<Rightarrow> bytes result" where
  "vector_items rng k index x 0 = Inr []"
| "vector_items rng k index x (Suc n) =
     bindE (auth_item index (rng k @ rng (Suc k)) x) (\<lambda>a.
     bindE (vector_items rng (k + 2) (Suc index) x n) (\<lambda>rest. Inr (a @ rest)))"

definition issue_vectors ::
  "(nat \<Rightarrow> bytes) \<Rightarrow> HssApp \<Rightarrow> string \<Rightarrow> bytes \<Rightarrow> nat \<Rightarrow> bytes result \<times> HssApp" where
  "issue_vectors rng app private x count =
     (let k = drawn app; app' = app\<lparr>drawn := k + 2 * count\<rparr>
      in case vector_items rng k 0 x count of
           Inl e \<Rightarrow> (Inl e, app')
         | Inr body \<Rightarrow>
             (Inr body,
              if count \<noteq> 0 \<and> private \<noteq> []
              then app'\<lparr>last_rand := AList.update private (rng k) (last_rand app)\<rparr> else app'))"

definition answer_with :: "HssApp \<Rightarrow> DiameterMessage \<Rightarrow> bytes result \<times> HssApp \<Rightarrow> bytes result \<times> HssApp" where
  "answer_with app request r =
     (bindE (fst r) (\<lambda>extra. answer app request RESULT_SUCCESS extra), snd r)"

definition handle_mar ::
  "(nat \<Rightarrow> bytes) \<Rightarrow> HssApp \<Rightarrow> DiameterMessage \<Rightarrow> Subscriber \<Rightarrow> string \<Rightarrow> bytes result \<times> HssApp" where
  "handle_mar rng app request item private =
     (let f = mar_item_fields request
      in if mar_scheme f \<noteq> AKA_SCHEME then (answer app request RESULT_UNSUPPORTED [], app)
         else
           let count = mar_number_of_items request
           in case mar_authorization f of
                Some (b # bs) \<Rightarrow>
                  if \<not> (8 \<le> length (b # bs) \<and> length (b # bs) \<le> 32)
                  then (answer app request RESULT_UNSUPPORTED [], app)
                  else (case mar_authenticate f of
                          None \<Rightarrow> (answer app request RESULT_UNSUPPORTED [], app)
                        | Some au \<Rightarrow>
                            if \<not> (8 \<le> length au \<and> length au \<le> 64)
                            then (answer app request RESULT_UNSUPPORTED [], app)
                            else
                              let rand = (if length au \<ge> 16 then take 16 au else au)
                              in if map_of (last_rand app) private \<noteq> Some rand
                                 then (answer app request RESULT_UNKNOWN_USER [], app)
                                 else answer_with app request
                                        (issue_vectors rng app private (xres item) count))
              | _ \<Rightarrow> answer_with app request (issue_vectors rng app private (xres item) count))"

subsection \<open>Pushes to the proxy\<close>

definition next_hop :: "HssApp \<Rightarrow> int \<times> HssApp" where
  "next_hop app = (hop_counter app + 1, app\<lparr>hop_counter := hop_counter app + 1\<rparr>)"

definition profile_to_xml :: "json_dict \<Rightarrow> bytes" where
  "profile_to_xml prof = encode_utf8 (concat
     ([xml_header @ ''<Sh-Data>''] @
      map (\<lambda>kv. ''<'' @ fst kv @ ''>'' @
             (case snd kv of
                JList vs \<Rightarrow> concat (map (\<lambda>v. ''<item>'' @ py_str v @ ''</item>'') vs)
              | v \<Rightarrow> py_str v) @ ''</'' @ fst kv @ ''>'') prof @
      [''</Sh-Data>'']))"

definition reason_names :: "(string \<times> int) list" where
  "reason_names = [(''PERMANENT_TERMINATION'', 0), (''NEW_SERVER_ASSIGNED'', 1),
     (''SERVER_CHANGE'', 2), (''REMOVE_SCSCF'', 3)]"

definition reason_info :: "int \<Rightarrow> string" where
  "reason_info reason =
     (case map_of (map (\<lambda>(n, v). (v, n)) reason_names) reason of
        None \<Rightarrow> ''PERMANENT_TERMINATION'' | Some n \<Rightarrow> n)"

text \<open>The head that both pushes share, up to the Public-Identity.\<close>

definition push_head :: "HssApp \<Rightarrow> string \<Rightarrow> int \<Rightarrow> string \<Rightarrow> string \<Rightarrow> bytes result" where
  "push_head app kind hop public private =
     bindE (avp_text 263 (origin_host app @ kind @ dec_str hop) None) (\<lambda>a.
     bindE (avp_u32 277 1 None) (\<lambda>b.
     bindE (avp_text 264 (origin_host app) None) (\<lambda>c.
     bindE (avp_text 296 (origin_realm app) None) (\<lambda>d.
     bindE (avp_text 1 private None) (\<lambda>e.
     bindE (vendor_text 601 public) (\<lambda>f.
     Inr (a @ b @ c @ d @ e @ f)))))))"

definition send_rtr :: "HssApp \<Rightarrow> string \<Rightarrow> string \<Rightarrow> int \<Rightarrow> bytes result \<times> HssApp" where
  "send_rtr app public private reason =
     (let (hop, app') = next_hop app
      in (bindE (avp_u32 616 reason (Some THREEGPP_VENDOR)) (\<lambda>r.
          bindE (vendor_text 617 (reason_info reason)) (\<lambda>i.
          bindE (push_head app '';rtr;'' hop public private) (\<lambda>h.
          bindE (vendor_grouped 615 (r @ i)) (\<lambda>g.
          build_message 0xC0 304 CX_APPLICATION hop hop (h @ g))))), app'))"

definition send_ppr :: "HssApp \<Rightarrow> string \<Rightarrow> string \<Rightarrow> json_dict \<Rightarrow> bytes result \<times> HssApp" where
  "send_ppr app public private prof =
     (let (hop, app') = next_hop app
      in (bindE (push_head app '';ppr;'' hop public private) (\<lambda>h.
          bindE (vendor_bytes 606 (profile_to_xml prof)) (\<lambda>g.
          build_message 0xC0 305 CX_APPLICATION hop hop (h @ g))), app'))"

subsection \<open>The Sh commands\<close>

definition dict_update :: "json_dict \<Rightarrow> json_dict \<Rightarrow> json_dict" where
  "dict_update d e = fold (\<lambda>(k, v). AList.update k v) e d"

text \<open>The change a PUR asks for: none for opaque text, an exception for a refused one.\<close>

definition pur_profile :: "(code_points \<Rightarrow> json result) \<Rightarrow> bytes \<Rightarrow> json_dict option result" where
  "pur_profile loads user_data =
     (case decode_utf8 user_data of
        None \<Rightarrow> Inl UnicodeDecodeError
      | Some text \<Rightarrow>
          if starts_with [123] (dropWhile is_space_point text)
          then (case loads text of
                  Inl e \<Rightarrow> Inl e
                | Inr v \<Rightarrow> bindE (profile v) (\<lambda>p. Inr (Some p)))
          else Inr None)"

definition sh_data_ref :: "DiameterMessage \<Rightarrow> int" where
  "sh_data_ref request =
     (case find request 703 (Some THREEGPP_VENDOR) of
        None \<Rightarrow> 0 | Some raw \<Rightarrow> if length raw = 4 then be_int raw else 0)"

definition subscribe_sh :: "HssApp \<Rightarrow> string \<times> int \<Rightarrow> string \<Rightarrow> HssApp" where
  "subscribe_sh app key svc_ind =
     (let subs = (case map_of (sh_subscriptions app) key of None \<Rightarrow> {} | Some s \<Rightarrow> s);
          subs' = (if svc_ind \<noteq> [] then insert svc_ind subs else subs)
      in app\<lparr>sh_subscriptions := AList.update key subs' (sh_subscriptions app)\<rparr>)"

definition handle_sh ::
  "(code_points \<Rightarrow> json result) \<Rightarrow> HssApp \<Rightarrow> DiameterMessage \<Rightarrow> bytes result \<times> HssApp" where
  "handle_sh loads app request =
     (let public = req_public request;
          entry = (if public \<noteq> [] then find_entry (store app) public else None)
      in if command request = 306 then
           (case entry of
              None \<Rightarrow> (answer app request RESULT_UNKNOWN_USER [], app)
            | Some (_, item) \<Rightarrow>
                (bindE (vendor_bytes 606 (profile_to_xml (service_profile item)))
                   (\<lambda>x. answer app request RESULT_SUCCESS x), app))
         else if command request = 307 then
           (case entry of
              None \<Rightarrow> (answer app request RESULT_UNKNOWN_USER [], app)
            | Some (key, item) \<Rightarrow>
                (case find request 606 (Some THREEGPP_VENDOR) of
                   None \<Rightarrow> (answer app request RESULT_UNSUPPORTED [], app)
                 | Some user_data \<Rightarrow>
                     if length user_data > MAX_PROFILE_BYTES
                     then (answer app request RESULT_UNSUPPORTED [], app)
                     else (case pur_profile loads user_data of
                             Inl e \<Rightarrow>
                               (if is_value_error e then answer app request RESULT_UNSUPPORTED [] else Inl e, app)
                           | Inr None \<Rightarrow> (answer app request RESULT_SUCCESS [], app)
                           | Inr (Some p) \<Rightarrow>
                               (answer app request RESULT_SUCCESS [],
                                app\<lparr>store := put_item (store app) key
                                  (item\<lparr>service_profile := dict_update (service_profile item) p\<rparr>)\<rparr>))))
         else if command request = 308 then
           (case entry of
              None \<Rightarrow> (answer app request RESULT_UNKNOWN_USER [], app)
            | Some _ \<Rightarrow>
                (answer app request RESULT_SUCCESS [],
                 subscribe_sh app (public, sh_data_ref request)
                   (safe_ascii (find request 704 (Some THREEGPP_VENDOR)) 256)))
         else if command request = 309 then (answer app request RESULT_SUCCESS [], app)
         else (answer app request RESULT_UNSUPPORTED [], app))"

subsection \<open>Dispatch\<close>

definition is_request :: "DiameterMessage \<Rightarrow> bool" where
  "is_request request \<longleftrightarrow> msg_flags request AND 0x80 \<noteq> 0"

text \<open>The subscriber a Cx request is about.\<close>

definition cx_subscriber :: "HssApp \<Rightarrow> DiameterMessage \<Rightarrow> Subscriber option" where
  "cx_subscriber app request =
     (if req_private request \<noteq> [] then authorize (store app) (req_public request) (req_private request)
      else find_public (store app) (req_public request))"

definition handle_cx ::
  "(nat \<Rightarrow> bytes) \<Rightarrow> HssApp \<Rightarrow> DiameterMessage \<Rightarrow> bytes result \<times> HssApp" where
  "handle_cx rng app request =
     (case cx_subscriber app request of
        None \<Rightarrow> (answer app request RESULT_UNKNOWN_USER [], app)
      | Some item \<Rightarrow>
          if \<not> enabled item then (answer app request RESULT_UNKNOWN_USER [], app)
          else if command request \<in> {300, 301} \<and> req_server request \<noteq> []
                  \<and> req_server request \<noteq> assigned_server_name item
               then (answer app request RESULT_UNKNOWN_USER [], app)
          else if command request = 300 then
            (bindE (vendor_text 602 (assigned_server_name item))
               (\<lambda>x. answer app request RESULT_SUCCESS x), app)
          else if command request = 301 then
            (bindE (vendor_text 602 (assigned_server_name item)) (\<lambda>x.
             bindE (vendor_bytes 606 (encode_utf8 (subscriber_profile_xml item))) (\<lambda>y.
             answer app request RESULT_SUCCESS (x @ y))), app)
          else if command request = 302 then
            (bindE (vendor_text 602 (assigned_server_name item))
               (\<lambda>x. answer app request RESULT_SUCCESS x), app)
          else if command request = 303 then handle_mar rng app request item (req_private request)
          else (answer app request RESULT_UNSUPPORTED [], app))"

definition handle_request ::
  "(code_points \<Rightarrow> json result) \<Rightarrow> (nat \<Rightarrow> bytes) \<Rightarrow> HssApp \<Rightarrow> DiameterMessage \<Rightarrow> bytes result \<times> HssApp" where
  "handle_request loads rng app request =
     (if command request = 257 \<and> application request = 0 \<and> is_request request
      then (cea app request, app)
      else if command request = 280 \<and> application request = 0 \<and> is_request request
      then (answer app request RESULT_SUCCESS [], app)
      else if \<not> is_request request then (answer app request RESULT_UNSUPPORTED [], app)
      else if application request = SH_APPLICATION \<and> command request \<in> {306, 307, 308, 309}
      then handle_sh loads app request
      else if application request \<noteq> CX_APPLICATION then (answer app request RESULT_UNSUPPORTED [], app)
      else handle_cx rng app request)"

definition handle ::
  "(code_points \<Rightarrow> json result) \<Rightarrow> (nat \<Rightarrow> bytes) \<Rightarrow> HssApp \<Rightarrow> bytes \<Rightarrow> bytes result \<times> HssApp" where
  "handle loads rng app raw =
     (case parse_message raw of
        Inl _ \<Rightarrow> (Inr [], app)
      | Inr request \<Rightarrow> handle_request loads rng app request)"

end
