(* ===== verification/Hss_Answers.thy ===== *)
theory Hss_Answers
  imports Hss_Application
begin

section \<open>What the HSS application answers\<close>

text \<open>
  Lemmas on \<open>Hss_Application\<close>. An answer is characterised by the message it parses back to
  (\<open>answer_message\<close>), so that the properties speak of AVPs and result codes, not of octets. The
  invariant \<open>app_ok\<close> ties the store, the remembered RANDs and the random source together.
\<close>

subsection \<open>Answers as messages\<close>

definition common_avps :: "HssApp \<Rightarrow> DiameterMessage \<Rightarrow> int \<Rightarrow> Avp list" where
  "common_avps app request result =
     (case find request 263 None of None \<Rightarrow> [] | Some sid \<Rightarrow> [std_avp 263 sid None]) @
     [std_avp 264 (bytes_of (origin_host app)) None, std_avp 296 (bytes_of (origin_realm app)) None,
      std_avp 268 (be_bytes 4 result) None, std_avp 277 (be_bytes 4 1) None] @
     (if application request = CX_APPLICATION then [vsa_avp CX_APPLICATION] else [])"

definition answer_message :: "HssApp \<Rightarrow> DiameterMessage \<Rightarrow> int \<Rightarrow> Avp list \<Rightarrow> DiameterMessage" where
  "answer_message app request result xs =
     \<lparr>msg_flags = msg_flags request AND 0x7F, command = command request,
      application = application request, hop_by_hop = hop_by_hop request,
      end_to_end = end_to_end request, avps = common_avps app request result @ xs\<rparr>"

definition common_ok :: "HssApp \<Rightarrow> DiameterMessage \<Rightarrow> int \<Rightarrow> bool" where
  "common_ok app request result \<longleftrightarrow>
     is_ascii (origin_host app) \<and> length (origin_host app) \<le> 65519
     \<and> is_ascii (origin_realm app) \<and> length (origin_realm app) \<le> 65519
     \<and> (\<forall>sid \<in> set_option (find request 263 None). length sid \<le> 65519)
     \<and> 0 \<le> result \<and> result < 2 ^ 32"

definition result_code :: "DiameterMessage \<Rightarrow> int option" where
  "result_code m = map_option be_int (find m 268 None)"

lemma common_body_Inr_iff:
  "common_body app request result = Inr body \<longleftrightarrow>
     common_ok app request result \<and> body = encode_avps (common_avps app request result)"
  by (auto simp: common_body_def common_avps_def common_ok_def bindE_Inr_iff builder_iffs
      std_avp_ok_def CX_APPLICATION_def split: option.splits)

lemma common_avps_wf: "common_ok app request result \<Longrightarrow> list_all wf_avp (common_avps app request result)"
  by (auto simp: common_avps_def common_ok_def CX_APPLICATION_def std_avp_ok_def
      intro!: wf_std_avp wf_vsa_avp split: option.splits)

lemma answer_Inr_iff:
  assumes "parse_avps extra = Inr xs"
  shows "answer app request r extra = Inr raw \<longleftrightarrow>
     common_ok app request r \<and> wf_message (answer_message app request r xs)
     \<and> raw = encode_message (answer_message app request r xs)"
proof (cases "common_ok app request r")
  case True
  then have c: "common_body app request r = Inr (encode_avps (common_avps app request r))"
    by (simp add: common_body_Inr_iff)
  have "parse_avps (encode_avps (common_avps app request r) @ extra) = Inr (common_avps app request r @ xs)"
    using True assms by (intro parse_avps_append) (simp_all add: parse_avps_iff common_avps_wf)
  from build_message_Inr_iff [OF this] True show ?thesis
    by (simp add: answer_def c answer_message_def Let_def)
next
  case False
  then have "common_body app request r \<noteq> Inr body" for body by (simp add: common_body_Inr_iff)
  with False show ?thesis by (auto simp: answer_def bindE_Inr_iff)
qed

lemma answer_parses:
  "answer app request r extra = Inr raw \<Longrightarrow> parse_avps extra = Inr xs \<Longrightarrow>
   parse_message raw = Inr (answer_message app request r xs)"
  by (simp add: answer_Inr_iff parse_message_encode)

lemma find_common_result: "find_avp (common_avps app request r @ xs) 268 None = Some (be_bytes 4 r)"
  by (simp add: common_avps_def split: option.splits)

lemma result_code_answer:
  "0 \<le> r \<Longrightarrow> r < 2 ^ 32 \<Longrightarrow> result_code (answer_message app request r xs) = Some r"
  by (simp add: result_code_def answer_message_def find_def find_common_result be_int_be_bytes)

subsection \<open>The extra AVPs of a success\<close>

definition parses :: "bytes \<Rightarrow> bool" where
  "parses bs \<longleftrightarrow> (\<exists>xs. parse_avps bs = Inr xs)"

lemma parses_Nil [simp]: "parses []"
  by (auto simp: parses_def parse_avps_iff intro: exI [of _ "[]"])

lemma parses_append [intro]: "parses xs \<Longrightarrow> parses ys \<Longrightarrow> parses (xs @ ys)"
  by (auto simp: parses_def dest: parse_avps_append)

lemma parses_builders [intro]:
  "vendor_text c s = Inr bs \<Longrightarrow> parses bs"
  "vendor_bytes c v = Inr bs \<Longrightarrow> parses bs"
  "vendor_grouped c v = Inr bs \<Longrightarrow> parses bs"
  by (auto simp: parses_def vendor_text_def vendor_bytes_def vendor_grouped_def avp_text_def
      bindE_Inr_iff dest!: avp_std_parses)

definition vector_avp :: "nat \<Rightarrow> bytes \<Rightarrow> bytes \<Rightarrow> Avp" where
  "vector_avp index authenticate x = std_avp 612 (encode_avps
     [std_avp 613 (be_bytes 4 (int index)) (Some THREEGPP_VENDOR),
      std_avp 608 (bytes_of AKA_SCHEME) (Some THREEGPP_VENDOR),
      std_avp 609 authenticate (Some THREEGPP_VENDOR),
      std_avp 610 x (Some THREEGPP_VENDOR)]) (Some THREEGPP_VENDOR)"

lemma auth_item_Inr: "auth_item index au x = Inr bs \<Longrightarrow> parse_avps bs = Inr [vector_avp index au x]"
  by (auto simp: auth_item_def vendor_text_def vendor_bytes_def vendor_grouped_def bindE_Inr_iff
      builder_iffs vector_avp_def parse_avps_iff intro!: wf_std_avp)

lemma vector_items_Inr:
  "vector_items rng k index x n = Inr body \<Longrightarrow>
   parse_avps body =
     Inr (map (\<lambda>i. vector_avp (index + i) (rng (k + 2 * i) @ rng (Suc (k + 2 * i))) x) [0..<n])"
proof (induction n arbitrary: k index body)
  case 0
  then show ?case by (simp add: parse_avps_iff)
next
  case (Suc n)
  then obtain a rest where a: "auth_item index (rng k @ rng (Suc k)) x = Inr a"
    and r: "vector_items rng (k + 2) (Suc index) x n = Inr rest" and body: "body = a @ rest"
    by (auto simp: bindE_Inr_iff)
  have "[0..<Suc n] = 0 # map Suc [0..<n]" by (simp add: upt_conv_Cons map_Suc_upt)
  with parse_avps_append [OF auth_item_Inr [OF a] Suc.IH [OF r]] show ?case
    by (simp add: body comp_def algebra_simps)
qed

lemma issue_vectors_parses: "fst (issue_vectors rng app p x n) = Inr bs \<Longrightarrow> parses bs"
  by (auto simp: issue_vectors_def Let_def parses_def dest: vector_items_Inr split: sum.splits)

subsection \<open>Every answer belongs to its request\<close>

definition same_transaction :: "DiameterMessage \<Rightarrow> DiameterMessage \<Rightarrow> bool" where
  "same_transaction request m \<longleftrightarrow>
     command m = command request \<and> application m = application request
     \<and> hop_by_hop m = hop_by_hop request \<and> end_to_end m = end_to_end request
     \<and> msg_flags m = msg_flags request AND 0x7F"

definition echoes :: "DiameterMessage \<Rightarrow> bytes \<Rightarrow> bool" where
  "echoes request raw \<longleftrightarrow> (\<exists>m. parse_message raw = Inr m \<and> same_transaction request m)"

lemma answer_echoes: "answer app request r extra = Inr raw \<Longrightarrow> parses extra \<Longrightarrow> echoes request raw"
  by (auto simp: parses_def echoes_def same_transaction_def answer_message_def dest!: answer_parses)

lemma cea_echoes:
  assumes "cea app request = Inr raw" and "command request = 257" and "application request = 0"
  shows "echoes request raw"
proof -
  have V: "0 \<le> THREEGPP_VENDOR" "0 \<le> CX_APPLICATION" "0 \<le> SH_APPLICATION"
    "CX_APPLICATION < 2 ^ 32" "SH_APPLICATION < 2 ^ 32"
    by (simp_all add: hss_constants)
  from assms obtain as where w: "list_all wf_avp as" and
    b: "build_message (msg_flags request AND 0x7F) 257 0 (hop_by_hop request) (end_to_end request)
      (encode_avps as) = Inr raw"
  proof (rule_tac that)
    let ?as = "[std_avp 264 (bytes_of (origin_host app)) None,
      std_avp 296 (bytes_of (origin_realm app)) None, std_avp 268 (be_bytes 4 RESULT_SUCCESS) None,
      std_avp 257 [0, 1, 0x7F, 0, 0, 1] None, std_avp 265 (be_bytes 4 THREEGPP_VENDOR) None,
      std_avp 266 (be_bytes 4 THREEGPP_VENDOR) None, std_avp 269 (bytes_of ''madis-lab-hss'') None,
      std_avp 258 (be_bytes 4 4) None, vsa_avp CX_APPLICATION, vsa_avp SH_APPLICATION]"
    show "list_all wf_avp ?as"
      using assms(1) V
      by (auto simp: cea_def bindE_Inr_iff builder_iffs intro!: wf_std_avp wf_vsa_avp)
    show "build_message (msg_flags request AND 0x7F) 257 0 (hop_by_hop request) (end_to_end request)
      (encode_avps ?as) = Inr raw"
      using assms(1) by (auto simp: cea_def bindE_Inr_iff builder_iffs)
  qed
  have "parse_avps (encode_avps as) = Inr as" using w by (simp add: parse_avps_iff)
  from b [unfolded build_message_Inr_iff [OF this] Let_def] assms(2,3) show ?thesis
    by (auto simp: echoes_def same_transaction_def parse_message_encode)
qed

lemma handle_mar_echoes:
  "fst (handle_mar rng app request item p) = Inr raw \<Longrightarrow> echoes request raw"
  by (auto simp: handle_mar_def answer_with_def Let_def bindE_Inr_iff
      dest: answer_echoes issue_vectors_parses split: if_splits option.splits list.splits)

lemma handle_sh_echoes:
  "fst (handle_sh loads app request) = Inr raw \<Longrightarrow> echoes request raw"
  by (auto simp: handle_sh_def Let_def bindE_Inr_iff dest: answer_echoes
      split: if_splits option.splits prod.splits sum.splits)

lemma handle_cx_echoes:
  assumes "fst (handle_cx rng app request) = Inr raw"
  shows "echoes request raw"
proof (cases "cx_subscriber app request")
  case None
  with assms show ?thesis by (auto simp: handle_cx_def dest: answer_echoes)
next
  case (Some item)
  with assms show ?thesis
    by (auto simp: handle_cx_def bindE_Inr_iff dest: answer_echoes handle_mar_echoes split: if_splits)
qed

lemma handle_request_echoes:
  assumes "fst (handle_request loads rng app request) = Inr raw"
  shows "echoes request raw"
  using assms
  by (auto simp: handle_request_def dest: answer_echoes cea_echoes handle_sh_echoes handle_cx_echoes
      split: if_splits)

lemma same_transaction_answer: "same_transaction request m \<Longrightarrow> \<not> is_request m"
proof -
  have "(w AND 0x7F) AND 0x80 = 0" for w :: byte
    by (simp add: and.assoc)
  then show "same_transaction request m \<Longrightarrow> \<not> is_request m"
    by (simp add: same_transaction_def is_request_def)
qed

lemma echoes_not_Nil: "echoes request raw \<Longrightarrow> raw \<noteq> []"
  by (auto simp: echoes_def parse_message_def)

subsection \<open>The invariant of the application\<close>

text \<open>
  Every remembered RAND belongs to a private identity and is one the random source has handed out.
  The size limit of a profile is not part of it: a PUR can exceed it.
\<close>

definition rands_ok :: "(nat \<Rightarrow> bytes) \<Rightarrow> HssApp \<Rightarrow> bool" where
  "rands_ok rng app \<longleftrightarrow>
     (\<forall>p r. map_of (last_rand app) p = Some r \<longrightarrow> p \<noteq> [] \<and> (\<exists>k < drawn app. r = rng k))"

definition app_ok :: "(nat \<Rightarrow> bytes) \<Rightarrow> HssApp \<Rightarrow> bool" where
  "app_ok rng app \<longleftrightarrow> store_ok (store app) \<and> rands_ok rng app"

lemma issue_vectors_state:
  "snd (issue_vectors rng app p x n) =
     (let app' = app\<lparr>drawn := drawn app + 2 * n\<rparr>
      in if n \<noteq> 0 \<and> p \<noteq> [] \<and> (\<exists>body. fst (issue_vectors rng app p x n) = Inr body)
         then app'\<lparr>last_rand := AList.update p (rng (drawn app)) (last_rand app)\<rparr> else app')"
  by (auto simp: issue_vectors_def Let_def split: sum.splits)

lemma rands_ok_draw: "rands_ok rng app \<Longrightarrow> rands_ok rng (app\<lparr>drawn := drawn app + n\<rparr>)"
  by (simp add: rands_ok_def) (meson trans_less_add1)

lemma rands_ok_issue:
  assumes "rands_ok rng app" and "p \<noteq> []" and "0 < n"
  shows "rands_ok rng (app\<lparr>drawn := drawn app + n, last_rand := AList.update p (rng (drawn app)) (last_rand app)\<rparr>)"
proof -
  have "\<exists>k < drawn app + n. rng (drawn app) = rng k"
    using assms(3) by (intro exI [of _ "drawn app"]) simp
  then show ?thesis
    using rands_ok_draw [OF assms(1), of n] assms(2) by (auto simp: rands_ok_def dict.get_assign)
qed

lemma issue_vectors_ok: "app_ok rng app \<Longrightarrow> app_ok rng (snd (issue_vectors rng app p x n))"
  unfolding issue_vectors_state app_ok_def Let_def
  using rands_ok_draw [of rng app "2 * n"] rands_ok_issue [of rng app p "2 * n"] by simp

lemma handle_mar_ok: "app_ok rng app \<Longrightarrow> app_ok rng (snd (handle_mar rng app request item p))"
  by (auto simp: handle_mar_def answer_with_def Let_def issue_vectors_ok split: option.splits list.splits)

lemma handle_cx_ok: "app_ok rng app \<Longrightarrow> app_ok rng (snd (handle_cx rng app request))"
  by (auto simp: handle_cx_def handle_mar_ok split: option.splits)

lemma wf_profile_assign:
  "wf_profile d \<Longrightarrow> (k, limit) \<in> set profile_allowed \<Longrightarrow> wf_field limit v \<Longrightarrow> wf_profile (AList.update k v d)"
  by (auto simp: wf_profile_def dict.ok_assign dest!: in_set_update)

lemma dict_update_wf: "wf_profile d \<Longrightarrow> wf_profile e \<Longrightarrow> wf_profile (dict_update d e)"
proof -
  have "\<forall>kv \<in> set e. \<exists>limit. (fst kv, limit) \<in> set profile_allowed \<and> wf_field limit (snd kv) \<Longrightarrow>
      wf_profile d \<Longrightarrow> wf_profile (dict_update d e)" for e d
  proof (induction e arbitrary: d)
    case (Cons kv e)
    then have "wf_profile (AList.update (fst kv) (snd kv) d)"
      by (auto intro: wf_profile_assign)
    with Cons show ?case by (simp add: dict_update_def split_beta)
  qed (simp add: dict_update_def)
  moreover assume "wf_profile d" "wf_profile e"
  ultimately show "wf_profile (dict_update d e)"
    unfolding wf_profile_def [of e] by blast
qed

lemma pur_profile_wf: "pur_profile loads data = Inr (Some p) \<Longrightarrow> wf_profile p"
  by (auto simp: pur_profile_def bindE_Inr_iff dest: profile_Inr split: option.splits sum.splits if_splits)

lemma pur_store_ok:
  assumes "store_ok s" and "find_entry s public = Some (key, item)" and "wf_profile p"
  shows "store_ok (put_item s key (item\<lparr>service_profile := dict_update (service_profile item) p\<rparr>))"
proof (rule put_item_ok [OF assms(1)])
  note e = find_entry_map_of [OF assms(1,2)]
  then have "wf_subscriber (item\<lparr>service_profile := dict_update (service_profile item) p\<rparr>)"
    using assms(3) by (auto simp: wf_subscriber_def dict_update_wf)
  with e show "entry_ok (key, item\<lparr>service_profile := dict_update (service_profile item) p\<rparr>)"
    by (simp add: entry_ok_def)
  show "map_of (items s) key \<noteq> None \<or> length (items s) < max_subscribers s" using e by auto
qed

lemma handle_sh_ok: "app_ok rng app \<Longrightarrow> app_ok rng (snd (handle_sh loads app request))"
  by (auto simp: handle_sh_def Let_def app_ok_def rands_ok_def subscribe_sh_def
      intro: pur_store_ok pur_profile_wf split: option.splits prod.splits sum.splits if_splits)

lemma handle_request_ok: "app_ok rng app \<Longrightarrow> app_ok rng (snd (handle_request loads rng app request))"
  by (simp add: handle_request_def handle_sh_ok handle_cx_ok)

lemma handle_ok: "app_ok rng app \<Longrightarrow> app_ok rng (snd (handle loads rng app raw))"
  by (auto simp: handle_def handle_request_ok split: sum.splits)

lemma new_app_ok: "store_ok st \<Longrightarrow> app_ok rng (new_app st host realm)"
  by (simp add: app_ok_def new_app_def rands_ok_def)

subsection \<open>Who gets a success on Cx\<close>

lemma answer_result:
  assumes "answer app request r extra = Inr raw" and "parses extra" and "parse_message raw = Inr m"
    and "0 \<le> r" and "r < 2 ^ 32"
  shows "result_code m = Some r"
  using assms by (auto simp: parses_def result_code_answer dest!: answer_parses)

lemma answer_failure:
  assumes "answer app request r [] = Inr raw" and "r \<in> {RESULT_UNKNOWN_USER, RESULT_UNSUPPORTED}"
    and "parse_message raw = Inr m"
  shows "result_code m \<noteq> Some RESULT_SUCCESS"
  using answer_result [OF assms(1) parses_Nil assms(3)] assms(2)
  by (auto simp: hss_constants)

lemma cx_success:
  assumes "fst (handle_cx rng app request) = Inr raw" and "parse_message raw = Inr m"
    and "result_code m = Some RESULT_SUCCESS"
  shows "\<exists>sub. cx_subscriber app request = Some sub \<and> enabled sub
    \<and> command request \<in> {300, 301, 302, 303}
    \<and> (command request \<in> {300, 301} \<longrightarrow> req_server request \<in> {[], assigned_server_name sub})
    \<and> (command request = 303 \<longrightarrow> fst (handle_mar rng app request sub (req_private request)) = Inr raw)"
proof (cases "cx_subscriber app request")
  case None
  with assms show ?thesis by (auto simp: handle_cx_def dest: answer_failure)
next
  case (Some item)
  with assms show ?thesis
    by (auto simp: handle_cx_def dest: answer_failure split: if_splits)
qed

lemma mar_success:
  assumes "fst (handle_mar rng app request item p) = Inr raw" and "parse_message raw = Inr m"
    and "result_code m = Some RESULT_SUCCESS"
  shows "let f = mar_item_fields request; n = mar_number_of_items request in
    mar_scheme f = AKA_SCHEME
    \<and> (\<forall>b bs. mar_authorization f = Some (b # bs) \<longrightarrow>
         (\<exists>au. mar_authenticate f = Some au \<and> map_of (last_rand app) p = Some (if length au \<ge> 16 then take 16 au else au)))
    \<and> (\<exists>body. fst (issue_vectors rng app p (xres item) n) = Inr body
         \<and> answer app request RESULT_SUCCESS body = Inr raw)
    \<and> snd (handle_mar rng app request item p) = snd (issue_vectors rng app p (xres item) n)"
proof -
  have no: "answer app request RESULT_UNSUPPORTED [] \<noteq> Inr raw"
    "answer app request RESULT_UNKNOWN_USER [] \<noteq> Inr raw"
    using answer_failure assms(2,3) by blast+
  have w: "fst (answer_with app request r) = Inr raw \<Longrightarrow>
      \<exists>body. fst r = Inr body \<and> answer app request RESULT_SUCCESS body = Inr raw" for r
    by (auto simp: answer_with_def bindE_Inr_iff)
  show ?thesis
    using assms(1) unfolding handle_mar_def Let_def
    by (auto simp: no answer_with_def [of _ _ "issue_vectors _ _ _ _ _"] bindE_Inr_iff
        split: if_split_asm option.split_asm list.split_asm)
qed

end
