(* ===== verification/Hss_Confidentiality.thy ===== *)
theory Hss_Confidentiality
  imports Hss_Answers
begin

section \<open>Where the XRES values can go\<close>

text \<open>
  \<open>blank_app\<close> is the application with every XRES removed. Each operation but the MAR handler
  commutes with it, so its answer and the rest of its new state are the same whatever the XRES
  values are: they leave the process in MAR answers only.
\<close>

definition blank :: "Subscriber \<Rightarrow> Subscriber" where
  "blank sub = sub\<lparr>xres := []\<rparr>"

definition blank_store :: "HssStore \<Rightarrow> HssStore" where
  "blank_store s = s\<lparr>items := map (\<lambda>(k, sub). (k, blank sub)) (items s)\<rparr>"

definition blank_app :: "HssApp \<Rightarrow> HssApp" where
  "blank_app app = app\<lparr>store := blank_store (store app)\<rparr>"

lemma blank_sel [simp]:
  "public_identity (blank sub) = public_identity sub" "private_identity (blank sub) = private_identity sub"
  "assigned_server_name (blank sub) = assigned_server_name sub"
  "service_profile (blank sub) = service_profile sub" "enabled (blank sub) = enabled sub"
  by (simp_all add: blank_def)

lemma blank_upd [simp]:
  "(blank sub)\<lparr>service_profile := p\<rparr> = blank (sub\<lparr>service_profile := p\<rparr>)"
  "(blank sub)\<lparr>enabled := b\<rparr> = blank (sub\<lparr>enabled := b\<rparr>)"
  "(blank sub)\<lparr>assigned_server_name := s\<rparr> = blank (sub\<lparr>assigned_server_name := s\<rparr>)"
  by (simp_all add: blank_def)

lemma blank_app_sel [simp]:
  "store (blank_app app) = blank_store (store app)" "origin_host (blank_app app) = origin_host app"
  "origin_realm (blank_app app) = origin_realm app" "last_rand (blank_app app) = last_rand app"
  "sh_subscriptions (blank_app app) = sh_subscriptions app" "drawn (blank_app app) = drawn app"
  "hop_counter (blank_app app) = hop_counter app"
  by (simp_all add: blank_app_def)

lemma map_of_blank [simp]: "map_of (items (blank_store s)) key = map_option blank (map_of (items s) key)"
  by (simp add: blank_store_def map_of_map)

lemma length_items_blank [simp]:
  "length (items (blank_store s)) = length (items s)"
  "max_subscribers (blank_store s) = max_subscribers s"
  by (simp_all add: blank_store_def)

lemma find_entry_blank [simp]:
  "find_entry (blank_store s) public = map_option (\<lambda>(k, sub). (k, blank sub)) (find_entry s public)"
proof -
  have "List.find (\<lambda>kv. fst (fst kv) = public) (map (\<lambda>(k, sub). (k, blank sub)) xs)
      = map_option (\<lambda>(k, sub). (k, blank sub)) (List.find (\<lambda>kv. fst (fst kv) = public) xs)"
    for xs :: "(subscriber_key \<times> Subscriber) list"
    by (induction xs) auto
  then show ?thesis by (simp add: find_entry_def blank_store_def)
qed

lemma find_public_blank [simp]: "find_public (blank_store s) p = map_option blank (find_public s p)"
  by (simp add: find_public_def option.map_comp comp_def split_beta)

lemma authorize_blank [simp]: "authorize (blank_store s) p q = map_option blank (authorize s p q)"
  by (simp add: authorize_def find_pair_def split: option.splits)

lemma put_item_blank: "put_item (blank_store s) key (blank sub) = blank_store (put_item s key sub)"
proof -
  have "AList.update key (blank sub) (map (\<lambda>(k, sub). (k, blank sub)) xs)
      = map (\<lambda>(k, sub). (k, blank sub)) (AList.update key sub xs)" for xs
    by (induction xs) auto
  then show ?thesis by (simp add: put_item_def blank_store_def)
qed

lemma delete_blank:
  "blank_store s\<lparr>items := AList.delete key (items (blank_store s))\<rparr>
     = blank_store (s\<lparr>items := AList.delete key (items s)\<rparr>)"
proof -
  have "AList.delete key (map (\<lambda>(k, sub). (k, blank sub)) xs)
      = map (\<lambda>(k, sub). (k, blank sub)) (AList.delete key xs)" for xs
    by (induction xs) auto
  then show ?thesis by (simp add: blank_store_def)
qed

subsection \<open>Diameter\<close>

lemma answer_blank [simp]: "answer (blank_app app) request r extra = answer app request r extra"
  by (simp add: answer_def common_body_def)

lemma answer_blank_fun [simp]: "answer (blank_app app) request r = answer app request r"
  by (rule ext) simp

lemma cea_blank [simp]: "cea (blank_app app) request = cea app request"
  by (simp add: cea_def)

lemma xml_blank [simp]: "subscriber_profile_xml (blank sub) = subscriber_profile_xml sub"
  by (simp add: subscriber_profile_xml_def)

lemma subscribe_sh_blank [simp]: "subscribe_sh (blank_app app) key i = blank_app (subscribe_sh app key i)"
  by (simp add: subscribe_sh_def blank_app_def Let_def)

lemma store_upd_blank: "(blank_app app)\<lparr>store := blank_store s\<rparr> = blank_app (app\<lparr>store := s\<rparr>)"
  by (simp add: blank_app_def)

lemma handle_sh_blank:
  "handle_sh loads (blank_app app) request =
     (fst (handle_sh loads app request), blank_app (snd (handle_sh loads app request)))"
proof (cases "if req_public request \<noteq> [] then find_entry (store app) (req_public request) else None")
  case None
  then have "(if req_public request \<noteq> [] then find_entry (store (blank_app app)) (req_public request) else None) = None"
    by (auto split: if_splits)
  with None show ?thesis unfolding handle_sh_def Let_def by simp
next
  case (Some kv)
  obtain k1 k2 item where kv': "kv = ((k1, k2), item)" by (metis surj_pair)
  define key where "key = (k1, k2)"
  from kv' have kv: "kv = (key, item)" by (simp add: key_def)
  with Some have b: "(if req_public request \<noteq> [] then find_entry (store (blank_app app)) (req_public request) else None)
      = Some (key, blank item)"
    by (auto split: if_splits simp: key_def)
  show ?thesis
    unfolding handle_sh_def Let_def b Some kv
    by (simp add: put_item_blank store_upd_blank split: option.split sum.split)
qed

lemma cx_subscriber_blank [simp]: "cx_subscriber (blank_app app) request = map_option blank (cx_subscriber app request)"
  by (simp add: cx_subscriber_def)

lemma handle_cx_blank:
  "command request \<noteq> 303 \<Longrightarrow>
   handle_cx rng (blank_app app) request =
     (fst (handle_cx rng app request), blank_app (snd (handle_cx rng app request)))"
  by (cases "cx_subscriber app request") (auto simp: handle_cx_def)

lemma handle_request_blank:
  assumes "\<not> (command request = 303 \<and> application request = CX_APPLICATION)"
  shows "handle_request loads rng (blank_app app) request =
     (fst (handle_request loads rng app request), blank_app (snd (handle_request loads rng app request)))"
proof -
  have d: "(fst (if b then x else y), blank_app (snd (if b then x else y)))
      = (if b then (fst x, blank_app (snd x)) else (fst y, blank_app (snd y)))"
    for b and x y :: "bytes result \<times> HssApp"
    by simp
  have cx: "(if application request \<noteq> CX_APPLICATION then r else handle_cx rng (blank_app app) request)
      = (if application request \<noteq> CX_APPLICATION then r
         else (fst (handle_cx rng app request), blank_app (snd (handle_cx rng app request))))" for r
    using assms by (cases "application request = CX_APPLICATION") (simp_all add: handle_cx_blank)
  show ?thesis
    unfolding handle_request_def cx handle_sh_blank d fst_conv snd_conv cea_blank answer_blank ..
qed

subsection \<open>The store operations and the admin rendering\<close>

lemma subscriber_json_blank [simp]: "subscriber_json (blank sub) = subscriber_json sub"
  by (simp add: subscriber_json_def)

lemma list_all_blank: "map subscriber_json (list_all_subs (blank_store s)) = map subscriber_json (list_all_subs s)"
  by (simp add: list_all_subs_def blank_store_def comp_def split_beta)

lemma set_enabled_blank:
  "set_enabled (blank_store s) p b =
     (map_option blank (fst (set_enabled s p b)), blank_store (snd (set_enabled s p b)))"
  by (cases "find_entry s p") (auto simp: set_enabled_def put_item_blank)

lemma remove_blank: "remove (blank_store s) p = (fst (remove s p), blank_store (snd (remove s p)))"
  by (cases "find_entry s p") (auto simp: remove_def delete_blank)

definition map_sum_opt :: "('a \<Rightarrow> 'b) \<Rightarrow> 'e + 'a option \<Rightarrow> 'e + 'b option" where
  "map_sum_opt f r = (case r of Inl e \<Rightarrow> Inl e | Inr x \<Rightarrow> Inr (map_option f x))"

definition commutes :: "(Subscriber \<Rightarrow> Subscriber result) \<Rightarrow> bool" where
  "commutes f \<longleftrightarrow> (\<forall>sub. f (blank sub) = (case f sub of Inl e \<Rightarrow> Inl e | Inr s \<Rightarrow> Inr (blank s)))"

lemma update_steps_commute:
  "commutes (update_server u)" "commutes (update_profile u)" "commutes (update_enabled u)"
  by (auto simp: commutes_def update_server_def update_profile_def update_enabled_def bindE_def
      split: sum.splits option.splits)

lemma run_updates_blank:
  "list_all commutes fs \<Longrightarrow>
   run_updates fs (blank sub) =
     (case fst (run_updates fs sub) of Inl e \<Rightarrow> Inl e | Inr s \<Rightarrow> Inr (blank s), blank (snd (run_updates fs sub)))"
proof (induction fs arbitrary: sub)
  case (Cons f fs)
  then have "f (blank sub) = (case f sub of Inl e \<Rightarrow> Inl e | Inr s \<Rightarrow> Inr (blank s))"
    by (simp add: commutes_def)
  with Cons show ?case by (cases "f sub") auto
qed simp

lemma update_blank:
  "update (blank_store s) p u =
     (map_sum_opt blank (fst (update s p u)), blank_store (snd (update s p u)))"
proof (cases "find_entry s p")
  case None
  then show ?thesis by (simp add: update_def map_sum_opt_def)
next
  case (Some kv)
  obtain key sub where kv: "kv = (key, sub)" by (cases kv)
  have "list_all commutes [update_server u, update_profile u, update_enabled u]"
    by (simp add: update_steps_commute)
  from run_updates_blank [OF this, of sub] Some kv show ?thesis
    by (auto simp: update_def map_sum_opt_def put_item_blank split_beta
        simp del: run_updates.simps split: sum.splits)
qed

end
