(* ===== verification/Hss_Totality.thy ===== *)
theory Hss_Totality
  imports Hss_Answers
begin

section \<open>When the HSS application raises\<close>

text \<open>
  A size argument: with a configured host and realm that fit an AVP, every AVP and message the
  application writes stays within the limits of the encoder, whatever the subscriber data, so
  \<open>handle\<close> answers every message that parses. The one exception is a request whose Session-Id is
  longer than the encoder's AVP limit, since it has to be copied into the answer.
\<close>

subsection \<open>Sizes of the rendered documents\<close>

definition config_ok :: "HssApp \<Rightarrow> bool" where
  "config_ok app \<longleftrightarrow> is_ascii (origin_host app) \<and> length (origin_host app) \<le> 65519
     \<and> is_ascii (origin_realm app) \<and> length (origin_realm app) \<le> 65519"

lemma length_join: "length (join sep ws) \<le> sum_list (map (\<lambda>w. length sep + length w) ws)"
  by (induction sep ws rule: join.induct) auto

lemma sum_list_map_le: "(\<And>x. x \<in> set xs \<Longrightarrow> f x \<le> b) \<Longrightarrow> sum_list (map f xs) \<le> length xs * (b::nat)"
  by (induction xs) (auto simp: add_mono)

lemma length_concat_map_le:
  "(\<And>x. x \<in> set xs \<Longrightarrow> length (f x) \<le> b) \<Longrightarrow> length (concat (map f xs)) \<le> length xs * b"
  by (simp add: length_concat comp_def sum_list_map_le)

lemma wf_field_strings:
  assumes "wf_field limit v"
  obtains us where "v = JList (map JStr us)" "length us \<le> limit" "\<And>u. u \<in> set us \<Longrightarrow> length u \<le> 2048"
  using assms unfolding wf_field_def by (metis list_all_iff wf_uri_def clean_text_def)

lemma wf_profile_field:
  "wf_profile p \<Longrightarrow> map_of p k = Some v \<Longrightarrow> \<exists>limit. (k, limit) \<in> set profile_allowed \<and> wf_field limit v"
  by (force simp: wf_profile_def dest: map_of_SomeD)

lemma profile_list_bound:
  assumes "wf_profile p" and "(k, limit) \<in> set profile_allowed"
  shows "length (profile_list p k) \<le> limit \<and> (\<forall>u \<in> set (profile_list p k). length u \<le> 2048)"
proof (cases "map_of p k")
  case None
  then show ?thesis by (simp add: profile_list_def)
next
  case (Some v)
  from wf_profile_field [OF assms(1) Some] assms(2) have "wf_field limit v"
    by (auto simp: profile_allowed_def)
  then obtain us where "v = JList (map JStr us)" "length us \<le> limit" "\<And>u. u \<in> set us \<Longrightarrow> length u \<le> 2048"
    using wf_field_strings by blast
  with Some show ?thesis by (simp add: profile_list_def py_str_def comp_def)
qed

lemma subscriber_profile_xml_bound:
  assumes "wf_subscriber sub"
  shows "length (subscriber_profile_xml sub) \<le> 32000"
proof -
  note p = profile_list_bound [of "service_profile sub"]
  have wp: "wf_profile (service_profile sub)" and pi: "length (public_identity sub) \<le> 2048"
    using assms by (auto simp: wf_subscriber_def wf_identity_def clean_text_def)
  have a: "length (profile_list (service_profile sub) ''associated_uris'') \<le> 8"
      "\<And>u. u \<in> set (profile_list (service_profile sub) ''associated_uris'') \<Longrightarrow> length u \<le> 2048"
    and i: "length (profile_list (service_profile sub) ''initial_filter_criteria'') \<le> 4"
      "\<And>u. u \<in> set (profile_list (service_profile sub) ''initial_filter_criteria'') \<Longrightarrow> length u \<le> 2048"
    using p [OF wp, of "''associated_uris''" 8] p [OF wp, of "''initial_filter_criteria''" 4]
    by (auto simp: profile_allowed_def)
  have sa: "sum_list (map (\<lambda>w. length [lf] + length w)
      (map (\<lambda>uri. ''    '' @ identity_line uri) (profile_list (service_profile sub) ''associated_uris''))) \<le> 8 * 2120"
    using a(1) by (intro order_trans [OF sum_list_map_le [where b = 2120]])
      (auto simp: identity_line_def dest: a(2))
  have si: "sum_list (map (\<lambda>w. length [lf] + length w)
      (map (\<lambda>ifc. ''    <InitialFilterCriteria>'' @ ifc @ ''</InitialFilterCriteria>'')
        (profile_list (service_profile sub) ''initial_filter_criteria''))) \<le> 4 * 2120"
    using i(1) by (intro order_trans [OF sum_list_map_le [where b = 2120]])
      (auto dest: i(2))
  show ?thesis
    unfolding subscriber_profile_xml_def
    using order_trans [OF length_join] sa si pi
    by (intro order_trans [OF length_join]) (simp add: identity_line_def xml_header_def comp_def)
qed

lemma wf_profile_length: "wf_profile p \<Longrightarrow> length p \<le> 2"
proof -
  assume w: "wf_profile p"
  then have "length p = card (fst ` set p)"
    by (metis dict_ok_def distinct_card length_map list.set_map wf_profile_def)
  also have "\<dots> \<le> card (fst ` set profile_allowed)"
    using w by (intro card_mono) (force simp: wf_profile_def)+
  also have "\<dots> = 2" by (simp add: profile_allowed_def)
  finally show ?thesis .
qed

lemma profile_to_xml_bound:
  assumes "wf_profile p"
  shows "length (profile_to_xml p) \<le> 65519"
proof -
  let ?f = "\<lambda>kv. ''<'' @ fst kv @ ''>'' @
             (case snd kv of
                JList vs \<Rightarrow> concat (map (\<lambda>v. ''<item>'' @ py_str v @ ''</item>'') vs)
              | v \<Rightarrow> py_str v) @ ''</'' @ fst kv @ ''>''"
  have "length (?f kv) \<le> (if fst kv = ''associated_uris'' then 16600 else 8400)"
    if kv: "kv \<in> set p" for kv
  proof -
    from assms kv obtain limit where l: "(fst kv, limit) \<in> set profile_allowed" "wf_field limit (snd kv)"
      by (auto simp: wf_profile_def)
    from wf_field_strings [OF l(2)] obtain us where us: "snd kv = JList (map JStr us)" "length us \<le> limit"
      "\<And>u. u \<in> set us \<Longrightarrow> length u \<le> 2048" by blast
    have "length (concat (map (\<lambda>v. ''<item>'' @ py_str v @ ''</item>'') (map JStr us))) \<le> length us * 2061"
      using length_concat_map_le [of us "\<lambda>u. ''<item>'' @ u @ ''</item>''" 2061] us(3)
      by (simp add: py_str_def comp_def)
    also have "\<dots> \<le> limit * 2061" using us(2) by simp
    finally show ?thesis using l(1) us(1) by (auto simp: profile_allowed_def)
  qed
  then have one: "\<forall>kv \<in> set p. length (?f kv) \<le> (if fst kv = ''associated_uris'' then 16600 else 8400)"
    by blast
  have d: "distinct (map fst p)" using assms by (simp add: wf_profile_def dict_ok_def)
  have "sum_list (map (\<lambda>kv. length (?f kv)) p) \<le> 25000"
  proof -
    have "sum_list (map (\<lambda>kv. length (?f kv)) p)
        \<le> sum_list (map (\<lambda>kv. if fst kv = ''associated_uris'' then 16600 else 8400) p)"
      using one by (intro sum_list_mono) blast
    also have "\<dots> \<le> 25000"
      using wf_profile_length [OF assms] d
      by (cases p; cases "tl p") (auto simp: numeral_2_eq_2)
    finally show ?thesis .
  qed
  then have "length (concat (map ?f p)) \<le> 25000"
    by (simp only: length_concat map_map comp_def)
  then have "length (concat ([xml_header @ ''<Sh-Data>''] @ map ?f p @ [''</Sh-Data>''])) \<le> 25070"
    by (simp add: xml_header_def)
  then show ?thesis
    unfolding profile_to_xml_def by (rule_tac order_trans [OF length_encode_utf8]) linarith
qed

subsection \<open>Every answer fits\<close>

lemma length_std_avp_le: "length (encode_avp (std_avp c v n)) \<le> 15 + length v"
  using pad4_le [of "8 + length v"] pad4_le [of "12 + length v"]
  by (auto simp: length_encode_std_avp Let_def)

lemma length_vsa_avp: "length (encode_avp (vsa_avp a)) \<le> 70"
proof -
  note l = length_std_avp_le [of 266 "be_bytes 4 THREEGPP_VENDOR" None]
    length_std_avp_le [of 258 "be_bytes 4 a" None]
  then have "length (encode_avps [std_avp 266 (be_bytes 4 THREEGPP_VENDOR) None,
      std_avp 258 (be_bytes 4 a) None]) \<le> 38"
    by (simp add: encode_avps_simps)
  then show ?thesis
    unfolding vsa_avp_def by (intro order_trans [OF length_std_avp_le]) linarith
qed

lemma length_common_avps:
  assumes "common_ok app request r"
  shows "length (encode_avps (common_avps app request r)) \<le> 200000"
proof -
  note l = length_std_avp_le [of 264 "bytes_of (origin_host app)" None]
    length_std_avp_le [of 296 "bytes_of (origin_realm app)" None]
    length_std_avp_le [of 268 "be_bytes 4 r" None] length_std_avp_le [of 277 "be_bytes 4 1" None]
    length_vsa_avp [of CX_APPLICATION]
  have s: "length (encode_avp (std_avp 263 sid None)) \<le> 65534" if "find request 263 None = Some sid" for sid
    using that assms length_std_avp_le [of 263 sid None] by (simp add: common_ok_def)
  show ?thesis
    using assms l s by (auto simp: common_avps_def common_ok_def split: option.splits)
qed

lemma answer_total:
  assumes "common_ok app request r" and "wf_message request" and "parse_avps extra = Inr xs"
    and "length extra \<le> 200000"
  shows "\<exists>raw. answer app request r extra = Inr raw"
proof -
  have x: "list_all wf_avp xs" "extra = encode_avps xs" using assms(3) by (simp_all add: parse_avps_iff)
  have "wf_message (answer_message app request r xs)"
    using assms(2,4) x length_common_avps [OF assms(1)] common_avps_wf [OF assms(1)]
    by (simp add: wf_message_def answer_message_def MAX_DIAMETER_def)
  with answer_Inr_iff [OF assms(3)] assms(1) show ?thesis by blast
qed

lemma answer_total_Nil:
  "common_ok app request r \<Longrightarrow> wf_message request \<Longrightarrow> \<exists>raw. answer app request r [] = Inr raw"
  by (rule answer_total [where xs = "[]"]) (simp_all add: parse_avps_iff)

text \<open>The extras are one or two short AVPs, or a run of vectors.\<close>

definition short_extra :: "bytes result \<Rightarrow> bool" where
  "short_extra r \<longleftrightarrow> (\<exists>extra xs. r = Inr extra \<and> parse_avps extra = Inr xs \<and> length extra \<le> 70000)"

lemma short_vendor_bytes: "1 \<le> c \<Longrightarrow> c \<le> 0xFFFFFF \<Longrightarrow> length v \<le> 65519 \<Longrightarrow> short_extra (vendor_bytes c v)"
  using length_std_avp_le [of c v "Some THREEGPP_VENDOR"]
  by (auto simp: short_extra_def vendor_bytes_def avp_std_Inr_iff std_avp_ok_def THREEGPP_VENDOR_def
      parse_avps_iff wf_std_avp intro!: exI [of _ "[std_avp c v (Some 10415)]"])

lemma short_vendor_text:
  "1 \<le> c \<Longrightarrow> c \<le> 0xFFFFFF \<Longrightarrow> is_ascii t \<Longrightarrow> length t \<le> 65519 \<Longrightarrow> short_extra (vendor_text c t)"
  using short_vendor_bytes [of c "bytes_of t"]
  by (simp add: vendor_text_def avp_text_def encode_ascii_def vendor_bytes_def)

lemma short_answer:
  assumes "common_ok app request r" and "wf_message request" and "short_extra x"
  shows "\<exists>raw. bindE x (\<lambda>e. answer app request r e) = Inr raw"
  using assms answer_total [OF assms(1,2)] by (auto simp: short_extra_def)

lemma short_answer2:
  assumes "common_ok app request r" and "wf_message request" and "short_extra x" and "short_extra y"
  shows "\<exists>raw. bindE x (\<lambda>e. bindE y (\<lambda>f. answer app request r (e @ f))) = Inr raw"
proof -
  from assms(3,4) obtain e f where x: "x = Inr e" "y = Inr f" and "\<exists>as. parse_avps e = Inr as"
    "\<exists>bs. parse_avps f = Inr bs" and "length (e @ f) \<le> 200000"
    by (auto simp: short_extra_def)
  then show ?thesis using answer_total [OF assms(1,2), of "e @ f"] parse_avps_append by fastforce
qed

subsection \<open>The vectors fit\<close>

definition rng_ok :: "(nat \<Rightarrow> bytes) \<Rightarrow> bool" where
  "rng_ok rng \<longleftrightarrow> (\<forall>k. length (rng k) = 16)"

lemma auth_item_total:
  assumes "index \<le> 1000" and "length au \<le> 32" and "length x \<le> 128"
  shows "\<exists>bs. auth_item index au x = Inr bs \<and> length bs \<le> 260"
proof -
  let ?V = "Some THREEGPP_VENDOR"
  let ?as = "[std_avp 613 (be_bytes 4 (int index)) ?V, std_avp 608 (bytes_of AKA_SCHEME) ?V,
    std_avp 609 au ?V, std_avp 610 x ?V]"
  note l = length_std_avp_le [of 613 "be_bytes 4 (int index)" ?V]
    length_std_avp_le [of 608 "bytes_of AKA_SCHEME" ?V] length_std_avp_le [of 609 au ?V]
    length_std_avp_le [of 610 x ?V]
  have len: "length (encode_avps ?as) \<le> 245"
    using l assms(2,3) by (simp add: AKA_SCHEME_def)
  have "auth_item index au x = Inr (encode_avp (std_avp 612 (encode_avps ?as) ?V))"
    unfolding auth_item_def
    using assms len by (auto simp: bindE_Inr_iff vendor_text_def vendor_bytes_def vendor_grouped_def
        builder_iffs std_avp_ok_def THREEGPP_VENDOR_def AKA_SCHEME_def)
  moreover have "length (encode_avp (std_avp 612 (encode_avps ?as) ?V)) \<le> 260"
    using len by (intro order_trans [OF length_std_avp_le]) linarith
  ultimately show ?thesis by blast
qed

lemma vector_items_total:
  assumes "rng_ok rng" and "length x \<le> 128"
  shows "index + n \<le> 1000 \<Longrightarrow> \<exists>body. vector_items rng k index x n = Inr body \<and> length body \<le> n * 260"
proof (induction n arbitrary: k index)
  case (Suc n)
  from auth_item_total [of index "rng k @ rng (Suc k)" x] assms Suc.prems obtain a
    where a: "auth_item index (rng k @ rng (Suc k)) x = Inr a" "length a \<le> 260"
    by (auto simp: rng_ok_def)
  from Suc.IH [of "Suc index" "k + 2"] Suc.prems obtain rest
    where "vector_items rng (k + 2) (Suc index) x n = Inr rest" "length rest \<le> n * 260" by auto
  with a show ?case by simp
qed simp

lemma number_of_items_range: "1 \<le> mar_number_of_items request \<and> mar_number_of_items request \<le> 5"
  by (auto simp: mar_number_of_items_def Let_def not_less split: option.splits)

lemma issue_vectors_total:
  assumes "rng_ok rng" and "length x \<le> 128" and "n \<le> 5"
  shows "short_extra (fst (issue_vectors rng app p x n))"
proof -
  from vector_items_total [OF assms(1,2), of 0 n "drawn app"] assms(3) obtain body
    where "vector_items rng (drawn app) 0 x n = Inr body" "length body \<le> n * 260" by auto
  with assms(3) vector_items_Inr [of rng "drawn app" 0 x n body] show ?thesis
    by (auto simp: issue_vectors_def Let_def short_extra_def)
qed

subsection \<open>The handlers\<close>

definition session_fits :: "DiameterMessage \<Rightarrow> bool" where
  "session_fits request \<longleftrightarrow> (\<forall>sid \<in> set_option (find request 263 None). length sid \<le> 65519)"

definition is_result :: "int \<Rightarrow> bool" where
  "is_result r \<longleftrightarrow> r \<in> {RESULT_SUCCESS, RESULT_UNKNOWN_USER, RESULT_UNSUPPORTED}"

lemma is_result_simps [simp]:
  "is_result RESULT_SUCCESS" "is_result RESULT_UNKNOWN_USER" "is_result RESULT_UNSUPPORTED"
  by (simp_all add: is_result_def)

lemma common_ok_iff: "config_ok app \<Longrightarrow> is_result r \<Longrightarrow> common_ok app request r \<longleftrightarrow> session_fits request"
  by (auto simp: config_ok_def common_ok_def session_fits_def is_result_def hss_constants)

definition succeeds :: "bytes result \<Rightarrow> bool" where
  "succeeds r \<longleftrightarrow> (\<exists>raw. r = Inr raw)"

definition fits :: "HssApp \<Rightarrow> DiameterMessage \<Rightarrow> bool" where
  "fits app request \<longleftrightarrow> config_ok app \<and> session_fits request \<and> wf_message request"

lemma plain_answer: "fits app request \<Longrightarrow> is_result r \<Longrightarrow> succeeds (answer app request r [])"
  unfolding succeeds_def fits_def by (simp add: answer_total_Nil common_ok_iff)

lemma extra_answer:
  "fits app request \<Longrightarrow> is_result r \<Longrightarrow> short_extra x \<Longrightarrow> succeeds (bindE x (\<lambda>e. answer app request r e))"
  unfolding succeeds_def fits_def by (simp add: short_answer common_ok_iff)

lemma extra_answer2:
  "fits app request \<Longrightarrow> is_result r \<Longrightarrow> short_extra x \<Longrightarrow> short_extra y \<Longrightarrow>
   succeeds (bindE x (\<lambda>e. bindE y (\<lambda>f. answer app request r (e @ f))))"
  unfolding succeeds_def fits_def by (simp add: short_answer2 common_ok_iff)

lemma vectors_answer:
  "fits app request \<Longrightarrow> rng_ok rng \<Longrightarrow> length x \<le> 128 \<Longrightarrow>
   succeeds (fst (answer_with app request (issue_vectors rng app p x (mar_number_of_items request))))"
  unfolding answer_with_def fst_conv using number_of_items_range
  by (intro extra_answer issue_vectors_total) simp_all

lemma handle_mar_succeeds:
  assumes "fits app request" and "rng_ok rng" and "wf_subscriber item"
  shows "succeeds (fst (handle_mar rng app request item p))"
proof -
  have "length (xres item) \<le> 128" using assms(3) by (simp add: wf_subscriber_def)
  then show ?thesis
    using plain_answer [OF assms(1)] vectors_answer [OF assms(1,2)]
    by (auto simp: handle_mar_def Let_def split: option.split list.split)
qed

lemma short_server: "wf_subscriber item \<Longrightarrow> short_extra (vendor_text 602 (assigned_server_name item))"
  by (rule short_vendor_text) (auto simp: wf_subscriber_def wf_identity_def clean_text_def)

lemma short_sp_xml: "wf_subscriber item \<Longrightarrow> short_extra (vendor_bytes 606 (encode_utf8 (subscriber_profile_xml item)))"
  using subscriber_profile_xml_bound [of item] length_encode_utf8 [of "subscriber_profile_xml item"]
  by (intro short_vendor_bytes) linarith+

lemma short_sh_xml: "wf_subscriber item \<Longrightarrow> short_extra (vendor_bytes 606 (profile_to_xml (service_profile item)))"
  by (rule short_vendor_bytes) (simp_all add: profile_to_xml_bound wf_subscriber_def)

lemma cx_subscriber_wf: "store_ok (store app) \<Longrightarrow> cx_subscriber app request = Some item \<Longrightarrow> wf_subscriber item"
  using directory.chosen_ok by (simp add: cx_subscriber_def)

lemma handle_cx_succeeds:
  assumes "fits app request" and "rng_ok rng" and "store_ok (store app)"
  shows "succeeds (fst (handle_cx rng app request))"
proof (cases "cx_subscriber app request")
  case None
  then show ?thesis by (simp add: handle_cx_def plain_answer assms(1))
next
  case (Some item)
  note wf = cx_subscriber_wf [OF assms(3) Some]
  note facts = plain_answer [OF assms(1)] extra_answer [OF assms(1) _ short_server [OF wf]]
    extra_answer2 [OF assms(1) _ short_server [OF wf] short_sp_xml [OF wf]]
    handle_mar_succeeds [OF assms(1,2) wf]
  show ?thesis by (simp add: handle_cx_def Some facts)
qed

text \<open>
  The one exception of the JSON decoder that no clause takes: a profile update for a known subscriber
  whose user data make it raise something else than a \<open>ValueError\<close>.
\<close>

definition pur_escapes :: "(code_points \<Rightarrow> json result) \<Rightarrow> HssApp \<Rightarrow> DiameterMessage \<Rightarrow> bool" where
  "pur_escapes loads app request \<longleftrightarrow>
     is_request request \<and> application request = SH_APPLICATION \<and> command request = 307
     \<and> req_public request \<noteq> [] \<and> find_entry (store app) (req_public request) \<noteq> None
     \<and> (case find request 606 (Some THREEGPP_VENDOR) of
          None \<Rightarrow> False
        | Some d \<Rightarrow> length d \<le> MAX_PROFILE_BYTES
            \<and> (case pur_profile loads d of Inl e \<Rightarrow> \<not> is_value_error e | Inr _ \<Rightarrow> False))"

text \<open>A message that no state makes escape: the decoder raises nothing else for it.\<close>

definition profile_readable :: "(code_points \<Rightarrow> json result) \<Rightarrow> DiameterMessage \<Rightarrow> bool" where
  "profile_readable loads request =
     (case find request 606 (Some THREEGPP_VENDOR) of
        None \<Rightarrow> True
      | Some d \<Rightarrow> (case pur_profile loads d of Inl e \<Rightarrow> is_value_error e | Inr _ \<Rightarrow> True))"

lemma profile_readable_stays: "profile_readable loads request \<Longrightarrow> \<not> pur_escapes loads app request"
  by (auto simp: profile_readable_def pur_escapes_def split: option.splits sum.splits)

lemma handle_sh_escapes:
  assumes "application request = SH_APPLICATION" and "is_request request" and "pur_escapes loads app request"
  shows "\<exists>e. fst (handle_sh loads app request) = Inl e \<and> \<not> is_value_error e"
  using assms by (auto simp: pur_escapes_def handle_sh_def Let_def split: option.splits sum.splits)

lemma handle_sh_succeeds:
  assumes "fits app request" and "store_ok (store app)"
    and "application request = SH_APPLICATION" and "is_request request" and "\<not> pur_escapes loads app request"
  shows "succeeds (fst (handle_sh loads app request))"
proof (cases "if req_public request \<noteq> [] then find_entry (store app) (req_public request) else None")
  case None
  then show ?thesis unfolding handle_sh_def Let_def by (simp add: plain_answer assms(1))
next
  case (Some kv)
  obtain key item where kv: "kv = (key, item)" by (cases kv)
  with Some have "find_entry (store app) (req_public request) = Some (key, item)" by (simp split: if_splits)
  then have "wf_subscriber item" using find_entry_map_of [OF assms(2)] by blast
  note facts = plain_answer [OF assms(1)] extra_answer [OF assms(1) _ short_sh_xml [OF this]]
  have caught: "is_value_error e" if "command request = 307" "find request 606 (Some THREEGPP_VENDOR) = Some d"
      "length d \<le> MAX_PROFILE_BYTES" "pur_profile loads d = Inl e" for d e
  proof (rule ccontr)
    assume "\<not> is_value_error e"
    moreover have "req_public request \<noteq> []" "find_entry (store app) (req_public request) \<noteq> None"
      using Some kv by (simp_all split: if_splits)
    ultimately have "pur_escapes loads app request" using assms(3,4) that by (simp add: pur_escapes_def)
    with assms(5) show False ..
  qed
  show ?thesis
    unfolding handle_sh_def Let_def Some kv
    by (auto simp: facts split: option.split sum.split dest: caught)
qed

lemma cea_succeeds:
  assumes "config_ok app" and "wf_message request"
  shows "succeeds (cea app request)"
proof -
  let ?as = "[std_avp 264 (bytes_of (origin_host app)) None,
      std_avp 296 (bytes_of (origin_realm app)) None, std_avp 268 (be_bytes 4 RESULT_SUCCESS) None,
      std_avp 257 [0, 1, 0x7F, 0, 0, 1] None, std_avp 265 (be_bytes 4 THREEGPP_VENDOR) None,
      std_avp 266 (be_bytes 4 THREEGPP_VENDOR) None, std_avp 269 (bytes_of ''madis-lab-hss'') None,
      std_avp 258 (be_bytes 4 4) None, vsa_avp CX_APPLICATION, vsa_avp SH_APPLICATION]"
  note V = THREEGPP_VENDOR_def CX_APPLICATION_def SH_APPLICATION_def RESULT_SUCCESS_def
  have w: "list_all wf_avp ?as"
    using assms(1) by (auto simp: config_ok_def V std_avp_ok_def intro!: wf_std_avp wf_vsa_avp)
  note l = length_std_avp_le [of 264 "bytes_of (origin_host app)" None]
    length_std_avp_le [of 296 "bytes_of (origin_realm app)" None]
    length_std_avp_le [of 268 "be_bytes 4 RESULT_SUCCESS" None] length_std_avp_le [of 257 "[0, 1, 0x7F, 0, 0, 1]" None]
    length_std_avp_le [of 265 "be_bytes 4 THREEGPP_VENDOR" None]
    length_std_avp_le [of 266 "be_bytes 4 THREEGPP_VENDOR" None]
    length_std_avp_le [of 269 "bytes_of ''madis-lab-hss''" None]
    length_std_avp_le [of 258 "be_bytes 4 4" None] length_vsa_avp [of CX_APPLICATION] length_vsa_avp [of SH_APPLICATION]
  have len: "length (encode_avps ?as) \<le> 140000"
    using l assms(1) by (simp add: config_ok_def)
  let ?m = "\<lparr>msg_flags = msg_flags request AND 0x7F, command = 257, application = 0,
    hop_by_hop = hop_by_hop request, end_to_end = end_to_end request, avps = ?as\<rparr>"
  have "wf_message ?m" using w len assms(2) by (simp add: wf_message_def MAX_DIAMETER_def)
  moreover have "parse_avps (encode_avps ?as) = Inr ?as" using w by (simp add: parse_avps_iff)
  ultimately have "build_message (msg_flags request AND 0x7F) 257 0 (hop_by_hop request) (end_to_end request)
      (encode_avps ?as) = Inr (encode_message ?m)"
    by (simp add: build_message_Inr_iff)
  then have "cea app request = Inr (encode_message ?m)"
    using assms(1) by (simp add: cea_def bindE_Inr_iff builder_iffs config_ok_def std_avp_ok_def V)
  then show ?thesis by (simp add: succeeds_def)
qed

definition is_cer :: "DiameterMessage \<Rightarrow> bool" where
  "is_cer request \<longleftrightarrow> command request = 257 \<and> application request = 0 \<and> is_request request"

lemma handle_request_succeeds:
  assumes "config_ok app" and "wf_message request" and "rng_ok rng" and "store_ok (store app)"
    and "is_cer request \<or> session_fits request" and "\<not> pur_escapes loads app request"
  shows "succeeds (fst (handle_request loads rng app request))"
proof (cases "is_cer request")
  case True
  then show ?thesis using cea_succeeds [OF assms(1,2)] by (simp add: handle_request_def is_cer_def)
next
  case False
  with assms have f: "fits app request" by (simp add: fits_def)
  have n: "\<not> (command request = 257 \<and> application request = 0 \<and> is_request request)"
    using False by (simp add: is_cer_def)
  show ?thesis
    unfolding handle_request_def if_not_P [OF n]
    using plain_answer [OF f] handle_sh_succeeds [OF f assms(4) _ _ assms(6)] handle_cx_succeeds [OF f assms(3,4)]
    by simp
qed

text \<open>Conversely an oversized Session-Id leaves no way to answer.\<close>

lemma answer_needs_session: "answer app request r extra = Inr raw \<Longrightarrow> session_fits request"
  by (auto simp: answer_def bindE_Inr_iff common_body_Inr_iff common_ok_def session_fits_def)

lemma handle_mar_needs_session: "fst (handle_mar rng app request item p) = Inr raw \<Longrightarrow> session_fits request"
  by (auto simp: handle_mar_def answer_with_def Let_def bindE_Inr_iff
      dest: answer_needs_session split: if_splits option.splits list.splits)

lemma handle_sh_needs_session: "fst (handle_sh loads app request) = Inr raw \<Longrightarrow> session_fits request"
  by (auto simp: handle_sh_def Let_def bindE_Inr_iff dest: answer_needs_session
      split: if_splits option.splits prod.splits sum.splits)

lemma handle_cx_needs_session: "fst (handle_cx rng app request) = Inr raw \<Longrightarrow> session_fits request"
  by (cases "cx_subscriber app request")
    (auto simp: handle_cx_def bindE_Inr_iff dest: answer_needs_session handle_mar_needs_session split: if_splits)

lemma handle_request_escapes:
  "pur_escapes loads app request \<Longrightarrow> \<exists>e. fst (handle_request loads rng app request) = Inl e"
  using handle_sh_escapes [of request loads app]
  by (auto simp: pur_escapes_def handle_request_def SH_APPLICATION_def)

lemma handle_request_needs_session:
  "fst (handle_request loads rng app request) = Inr raw \<Longrightarrow> is_cer request \<or> session_fits request"
  by (auto simp: handle_request_def is_cer_def
      dest: answer_needs_session handle_sh_needs_session handle_cx_needs_session split: if_splits)

end
