(* ===== verification/Hss_Cx.thy ===== *)
theory Hss_Cx
  imports Hss_Totality
begin

section \<open>Which Cx requests are granted\<close>

text \<open>
  The access rule of the Cx commands as a predicate on the request and the store (\<open>cx_granted\<close>),
  and the lemmas that the handler answers 2001 exactly for it, that the vectors of a granted MAR
  are fresh, and that a RAND opens one resynchronisation only.
\<close>

text \<open>The RAND a resynchronisation quotes: the first 16 octets of the authenticate AVP.\<close>

definition quoted_rand :: "bytes \<Rightarrow> bytes" where
  "quoted_rand au = (if length au \<ge> 16 then take 16 au else au)"

definition is_resync :: "DiameterMessage \<Rightarrow> bool" where
  "is_resync request \<longleftrightarrow> (\<exists>b bs. mar_authorization (mar_item_fields request) = Some (b # bs))"

definition mar_granted :: "HssApp \<Rightarrow> DiameterMessage \<Rightarrow> bool" where
  "mar_granted app request \<longleftrightarrow>
     (let f = mar_item_fields request
      in mar_scheme f = AKA_SCHEME
         \<and> (is_resync request \<longrightarrow>
              (\<exists>auts au. mar_authorization f = Some auts \<and> 8 \<le> length auts \<and> length auts \<le> 32
                 \<and> mar_authenticate f = Some au \<and> 8 \<le> length au \<and> length au \<le> 64
                 \<and> map_of (last_rand app) (req_private request) = Some (quoted_rand au))))"

definition cx_granted :: "HssApp \<Rightarrow> DiameterMessage \<Rightarrow> bool" where
  "cx_granted app request \<longleftrightarrow>
     (\<exists>sub. (if req_private request \<noteq> [] then find_pair (store app) (req_public request) (req_private request)
             else find_public (store app) (req_public request)) = Some sub
        \<and> enabled sub
        \<and> (command request \<in> {300, 301} \<and> req_server request \<in> {[], assigned_server_name sub}
           \<or> command request = 302
           \<or> command request = 303 \<and> mar_granted app request))"

definition answered :: "DiameterMessage \<Rightarrow> int \<Rightarrow> bytes result \<Rightarrow> bool" where
  "answered request code r \<longleftrightarrow>
     (\<exists>raw m. r = Inr raw \<and> parse_message raw = Inr m \<and> same_transaction request m
        \<and> result_code m = Some code)"

lemma is_result_range: "is_result r \<Longrightarrow> 0 \<le> r \<and> r < 2 ^ 32"
  by (auto simp: is_result_def hss_constants)

lemma answered_answer:
  assumes "fits app request" and "is_result r" and "short_extra x"
  shows "answered request r (bindE x (\<lambda>e. answer app request r e))"
proof -
  from extra_answer [OF assms] obtain raw where raw: "bindE x (\<lambda>e. answer app request r e) = Inr raw"
    by (auto simp: succeeds_def)
  from assms(3) obtain e xs where x: "x = Inr e" "parse_avps e = Inr xs" by (auto simp: short_extra_def)
  with raw have a: "answer app request r e = Inr raw" by simp
  from answer_parses [OF a x(2)] result_code_answer [of r app request xs] is_result_range [OF assms(2)] raw
  show ?thesis by (auto simp: answered_def same_transaction_def answer_message_def)
qed

lemma short_extra_Nil: "short_extra (Inr [])"
  by (auto simp: short_extra_def parse_avps_iff intro: exI [of _ "[]"])

lemma answered_plain:
  "fits app request \<Longrightarrow> is_result r \<Longrightarrow> answered request r (answer app request r [])"
  using answered_answer [OF _ _ short_extra_Nil] by simp

lemma answered_inject: "answered request r x \<Longrightarrow> answered request s x \<Longrightarrow> r = s"
  by (auto simp: answered_def)

lemma short_extra_append:
  assumes "short_extra x" and "short_extra y" and "\<And>e f. x = Inr e \<Longrightarrow> y = Inr f \<Longrightarrow> length e + length f \<le> 70000"
  shows "short_extra (bindE x (\<lambda>e. bindE y (\<lambda>f. Inr (e @ f))))"
  using assms by (auto simp: short_extra_def dest: parse_avps_append)

lemma short_saa:
  assumes "wf_subscriber item"
  shows "short_extra (bindE (vendor_text 602 (assigned_server_name item)) (\<lambda>x.
    bindE (vendor_bytes 606 (encode_utf8 (subscriber_profile_xml item))) (\<lambda>y. Inr (x @ y))))"
proof (rule short_extra_append [OF short_server short_sp_xml, OF assms assms])
  fix e f
  assume "vendor_text 602 (assigned_server_name item) = Inr e"
    and "vendor_bytes 606 (encode_utf8 (subscriber_profile_xml item)) = Inr f"
  then have "e = encode_avp (std_avp 602 (bytes_of (assigned_server_name item)) (Some THREEGPP_VENDOR))"
    "f = encode_avp (std_avp 606 (encode_utf8 (subscriber_profile_xml item)) (Some THREEGPP_VENDOR))"
    by (auto simp: vendor_text_def vendor_bytes_def builder_iffs)
  moreover have "length (assigned_server_name item) \<le> 2048"
    using assms by (auto simp: wf_subscriber_def wf_identity_def clean_text_def)
  ultimately show "length e + length f \<le> 70000"
    using subscriber_profile_xml_bound [OF assms] length_encode_utf8 [of "subscriber_profile_xml item"]
      length_std_avp_le [of 602 "bytes_of (assigned_server_name item)" "Some THREEGPP_VENDOR"]
      length_std_avp_le [of 606 "encode_utf8 (subscriber_profile_xml item)" "Some THREEGPP_VENDOR"]
    by simp
qed

lemma bindE_assoc2:
  "bindE x (\<lambda>e. bindE y (\<lambda>f. g (e @ f))) = bindE (bindE x (\<lambda>e. bindE y (\<lambda>f. Inr (e @ f)))) g"
  by (cases x; cases y) simp_all

lemma handle_mar_answered:
  assumes "fits app request" and "rng_ok rng" and "wf_subscriber item" and "p = req_private request"
  shows "if mar_granted app request
         then answered request RESULT_SUCCESS (fst (handle_mar rng app request item p))
         else \<exists>r \<in> {RESULT_UNSUPPORTED, RESULT_UNKNOWN_USER}. answered request r (fst (handle_mar rng app request item p))"
proof -
  have x: "length (xres item) \<le> 128" using assms(3) by (simp add: wf_subscriber_def)
  have v: "answered request RESULT_SUCCESS
      (fst (answer_with app request (issue_vectors rng app p (xres item) (mar_number_of_items request))))"
    unfolding answer_with_def fst_conv using number_of_items_range x assms(1,2)
    by (intro answered_answer issue_vectors_total) simp_all
  note pl = answered_plain [OF assms(1)]
  show ?thesis
    using v pl [of RESULT_UNSUPPORTED] pl [of RESULT_UNKNOWN_USER] assms(4)
    unfolding handle_mar_def mar_granted_def is_resync_def quoted_rand_def Let_def
    by (auto split: option.splits list.splits)
qed

lemma handle_cx_answered:
  assumes f: "fits app request" and r: "rng_ok rng" and s: "store_ok (store app)"
  shows "if cx_granted app request
         then answered request RESULT_SUCCESS (fst (handle_cx rng app request))
         else \<exists>c \<in> {RESULT_UNSUPPORTED, RESULT_UNKNOWN_USER}. answered request c (fst (handle_cx rng app request))"
proof (cases "cx_subscriber app request")
  case None
  then have "\<not> cx_granted app request"
    by (auto simp: cx_granted_def cx_subscriber_def directory.auth_iff split: if_splits)
      (metis directory.auth_iff not_None_eq)+
  then show ?thesis using answered_plain [OF f, of RESULT_UNKNOWN_USER] by (simp add: handle_cx_def None)
next
  case (Some item)
  have g: "cx_granted app request \<longleftrightarrow> enabled item
      \<and> (command request \<in> {300, 301} \<and> req_server request \<in> {[], assigned_server_name item}
         \<or> command request = 302 \<or> command request = 303 \<and> mar_granted app request)"
    using Some by (auto simp: cx_granted_def cx_subscriber_def directory.auth_iff split: if_splits)
  note wf = cx_subscriber_wf [OF s Some]
  note facts = answered_plain [OF f] answered_answer [OF f _ short_server [OF wf]]
    answered_answer [OF f _ short_saa [OF wf], unfolded bindE_assoc2 [symmetric]]
  show ?thesis
    unfolding g using handle_mar_answered [OF f r wf refl] facts
    by (auto simp: handle_cx_def Some split: if_splits)
qed

subsection \<open>The vectors of a granted MAR\<close>

definition fresh_vectors :: "(nat \<Rightarrow> bytes) \<Rightarrow> HssApp \<Rightarrow> bytes \<Rightarrow> nat \<Rightarrow> Avp list" where
  "fresh_vectors rng app x n =
     map (\<lambda>i. vector_avp i (rng (drawn app + 2 * i) @ rng (Suc (drawn app + 2 * i))) x) [0..<n]"

lemma mar_vectors:
  assumes "fst (handle_mar rng app request item p) = Inr raw" and "parse_message raw = Inr m"
    and "result_code m = Some RESULT_SUCCESS"
  shows "avps m = common_avps app request RESULT_SUCCESS
      @ fresh_vectors rng app (xres item) (mar_number_of_items request)
    \<and> drawn (snd (handle_mar rng app request item p)) = drawn app + 2 * mar_number_of_items request
    \<and> store (snd (handle_mar rng app request item p)) = store app
    \<and> (p \<noteq> [] \<longrightarrow> map_of (last_rand (snd (handle_mar rng app request item p))) p = Some (rng (drawn app)))"
proof -
  let ?n = "mar_number_of_items request"
  from mar_success [OF assms] obtain body
    where b: "fst (issue_vectors rng app p (xres item) ?n) = Inr body"
      and a: "answer app request RESULT_SUCCESS body = Inr raw"
      and st: "snd (handle_mar rng app request item p) = snd (issue_vectors rng app p (xres item) ?n)"
    by (auto simp: Let_def)
  from b have "parse_avps body = Inr (fresh_vectors rng app (xres item) ?n)"
    by (auto simp: issue_vectors_def Let_def fresh_vectors_def dest: vector_items_Inr split: sum.splits)
  from answer_parses [OF a this] assms(2) have "avps m = common_avps app request RESULT_SUCCESS
      @ fresh_vectors rng app (xres item) ?n" by (simp add: answer_message_def)
  moreover have "?n \<noteq> 0" using number_of_items_range [of request] by simp
  ultimately show ?thesis
    unfolding st issue_vectors_state Let_def using b by (simp add: dict.get_assign)
qed

lemma mar_needs_rand:
  assumes "fst (handle_mar rng app request item p) = Inr raw" and "parse_message raw = Inr m"
    and "result_code m = Some RESULT_SUCCESS" and "is_resync request"
  shows "\<exists>au. mar_authenticate (mar_item_fields request) = Some au
    \<and> map_of (last_rand app) p = Some (quoted_rand au)"
  using mar_success [OF assms(1-3)] assms(4) by (auto simp: Let_def is_resync_def quoted_rand_def)

lemma resync_once:
  assumes fresh: "\<forall>k < drawn app. rng k \<noteq> rng (drawn app)" and ok: "rands_ok rng app" and rs: "is_resync request"
    and 1: "answered request RESULT_SUCCESS (fst (handle_mar rng app request item p))"
  shows "\<not> answered request' RESULT_SUCCESS (fst (handle_mar rng (snd (handle_mar rng app request item p)) request' item' p))
     \<or> \<not> is_resync request'
     \<or> mar_authenticate (mar_item_fields request') \<noteq> mar_authenticate (mar_item_fields request)"
proof (rule ccontr)
  assume "\<not> ?thesis"
  then have 2: "answered request' RESULT_SUCCESS
      (fst (handle_mar rng (snd (handle_mar rng app request item p)) request' item' p))"
    and rs': "is_resync request'"
    and same: "mar_authenticate (mar_item_fields request') = mar_authenticate (mar_item_fields request)"
    by auto
  from 1 obtain raw m where a: "fst (handle_mar rng app request item p) = Inr raw"
    "parse_message raw = Inr m" "result_code m = Some RESULT_SUCCESS" by (auto simp: answered_def)
  from 2 obtain raw' m' where b: "fst (handle_mar rng (snd (handle_mar rng app request item p)) request' item' p) = Inr raw'"
    "parse_message raw' = Inr m'" "result_code m' = Some RESULT_SUCCESS" by (auto simp: answered_def)
  from mar_needs_rand [OF a rs] obtain au where au: "mar_authenticate (mar_item_fields request) = Some au"
    "map_of (last_rand app) p = Some (quoted_rand au)" by blast
  then obtain k where k: "quoted_rand au = rng k" "k < drawn app" and p: "p \<noteq> []"
    using ok unfolding rands_ok_def by blast
  from mar_needs_rand [OF b rs'] same au
  have "map_of (last_rand (snd (handle_mar rng app request item p))) p = Some (quoted_rand au)" by auto
  with mar_vectors [OF a] p have "rng (drawn app) = rng k" by (simp add: k)
  with fresh k(2) show False by auto
qed

end
