(* ===== verification/Hss_Properties.thy ===== *)
theory Hss_Properties
  imports Diameter_Stream Hss_Confidentiality Hss_Cx
begin

section \<open>Properties of the lab HSS\<close>

text \<open>
  The properties of \<^verbatim>\<open>lab/ims_hss.py\<close> that rest on the Diameter codec, the stream reader, the
  store and the application, each with a witness on a small lab configuration.
\<close>

subsection \<open>A lab configuration\<close>

definition lab_subscriber :: Subscriber where
  "lab_subscriber = \<lparr>public_identity = ''sip:alice@lab'', private_identity = ''alice'',
     assigned_server_name = ''sip:scscf'', xres = [1, 2, 3, 4, 5, 6, 7, 8], service_profile = [],
     enabled = True\<rparr>"

definition lab_store :: HssStore where
  "lab_store = \<lparr>max_subscribers = 2, items = [((''sip:alice@lab'', ''alice''), lab_subscriber)]\<rparr>"

definition lab_app :: HssApp where
  "lab_app = new_app lab_store ''hss'' ''lab''"

definition lab_rng :: "nat \<Rightarrow> bytes" where
  "lab_rng k = replicate 15 7 @ [word_of_nat k]"

definition lab_request :: "int \<Rightarrow> int \<Rightarrow> Avp list \<Rightarrow> DiameterMessage" where
  "lab_request cmd app_id xs = \<lparr>msg_flags = 0xC0, command = cmd, application = app_id,
     hop_by_hop = 7, end_to_end = 9, avps = xs\<rparr>"

definition lab_identity :: "Avp list" where
  "lab_identity = [std_avp 263 (bytes_of ''s1'') None,
     std_avp 601 (bytes_of ''sip:alice@lab'') (Some THREEGPP_VENDOR), std_avp 1 (bytes_of ''alice'') None]"

definition lab_saa :: DiameterMessage where "lab_saa = lab_request 301 CX_APPLICATION lab_identity"

definition lab_item :: "Avp list \<Rightarrow> Avp" where
  "lab_item xs = std_avp 612 (encode_avps (std_avp 608 (bytes_of AKA_SCHEME) (Some THREEGPP_VENDOR) # xs))
     (Some THREEGPP_VENDOR)"

definition lab_mar :: DiameterMessage where
  "lab_mar = lab_request 303 CX_APPLICATION (lab_identity @ [lab_item []])"

definition lab_resync :: DiameterMessage where
  "lab_resync = lab_request 303 CX_APPLICATION (lab_identity @
     [lab_item [std_avp 609 (lab_rng 0) (Some THREEGPP_VENDOR),
                std_avp 610 (replicate 14 1) (Some THREEGPP_VENDOR)]])"

lemmas lab_defs = lab_request_def lab_identity_def lab_saa_def lab_item_def lab_mar_def lab_resync_def
  lab_rng_def

lemma lab_is_ascii [simp]:
  "is_ascii ''sip:alice@lab''" "is_ascii ''alice''" "is_ascii ''sip:scscf''" "is_ascii ''hss''" "is_ascii ''lab''"
  by (simp_all add: is_ascii_def)

lemma lab_wf_subscriber [simp]: "wf_subscriber lab_subscriber"
  by (simp add: lab_subscriber_def wf_subscriber_def wf_identity_def clean_text_def printable_def
      sip_prefix_def starts_with_def wf_profile_def)

lemma lab_store_ok [simp]: "store_ok lab_store"
  by (simp add: lab_store_def store_ok_def dict_ok_def entry_ok_def) (simp add: lab_subscriber_def)

lemma lab_app_sel [simp]:
  "store lab_app = lab_store" "origin_host lab_app = ''hss''" "origin_realm lab_app = ''lab''"
  "last_rand lab_app = []" "drawn lab_app = 0"
  by (simp_all add: lab_app_def new_app_def)

lemma lab_app_ok [simp]: "app_ok rng lab_app" "config_ok lab_app" "rng_ok lab_rng"
  by (simp_all add: app_ok_def rands_ok_def config_ok_def rng_ok_def lab_rng_def)

lemma wf_lab [simp]: "wf_message lab_saa" "wf_message lab_mar" "wf_message lab_resync"
  by (simp_all add: lab_defs wf_message_def hss_constants length_encode_std_avp pad4_def AKA_SCHEME_def
      std_avp_ok_def wf_std_avp)

lemma lab_session [simp]: "session_fits lab_saa" "session_fits lab_mar" "session_fits lab_resync"
  by (simp_all add: lab_defs session_fits_def find_def)

lemma parse_lab [simp]:
  "parse_message (encode_message lab_saa) = Inr lab_saa"
  "parse_message (encode_message lab_mar) = Inr lab_mar"
  "parse_message (encode_message lab_resync) = Inr lab_resync"
  by (simp_all add: parse_message_encode)

lemma lab_fields [simp]:
  "req_public lab_saa = ''sip:alice@lab''" "req_private lab_saa = ''alice''" "req_server lab_saa = []"
  "req_public lab_mar = ''sip:alice@lab''" "req_private lab_mar = ''alice''"
  "req_public lab_resync = ''sip:alice@lab''" "req_private lab_resync = ''alice''"
  by (simp_all add: lab_defs req_public_def req_private_def req_server_def find_def hss_constants
      safe_ascii_bytes_of clean_text_def printable_def del: bytes_of_simps)
    (simp add: safe_ascii_def)

lemma lab_is_request [simp]: "is_request lab_saa" "is_request lab_mar" "is_request lab_resync"
  "application lab_saa = CX_APPLICATION" "application lab_mar = CX_APPLICATION"
  "application lab_resync = CX_APPLICATION" "command lab_saa = 301" "command lab_mar = 303"
  "command lab_resync = 303"
  by (simp_all add: lab_defs is_request_def)

lemma lab_mar_fields [simp]:
  "mar_item_fields lab_mar = \<lparr>mar_scheme = AKA_SCHEME, mar_authenticate = None, mar_authorization = None\<rparr>"
  "mar_item_fields lab_resync =
     \<lparr>mar_scheme = AKA_SCHEME, mar_authenticate = Some (lab_rng 0), mar_authorization = Some (replicate 14 1)\<rparr>"
proof -
  have p: "parse_avps (encode_avps as) = Inr as" if "list_all wf_avp as" for as
    using that by (simp add: parse_avps_iff)
  have s: "safe_ascii (Some (bytes_of AKA_SCHEME)) 128 = AKA_SCHEME"
    by (rule safe_ascii_bytes_of) (simp add: AKA_SCHEME_def clean_text_def is_ascii_def printable_def)
  have f: "find lab_mar 612 (Some THREEGPP_VENDOR) = Some (avp_value (lab_item []))"
    "find lab_resync 612 (Some THREEGPP_VENDOR) = Some (avp_value (lab_item [std_avp 609 (lab_rng 0) (Some THREEGPP_VENDOR),
                std_avp 610 (replicate 14 1) (Some THREEGPP_VENDOR)]))"
    by (simp_all add: lab_mar_def lab_resync_def lab_request_def lab_identity_def lab_item_def find_def)
  have w: "std_avp_ok 608 (bytes_of AKA_SCHEME) (Some THREEGPP_VENDOR)"
    "std_avp_ok 609 (lab_rng 0) (Some THREEGPP_VENDOR)" "std_avp_ok 610 (replicate 14 1) (Some THREEGPP_VENDOR)"
    by (simp_all add: std_avp_ok_def AKA_SCHEME_def THREEGPP_VENDOR_def lab_rng_def)
  show "mar_item_fields lab_mar = \<lparr>mar_scheme = AKA_SCHEME, mar_authenticate = None, mar_authorization = None\<rparr>"
    by (simp add: mar_item_fields_def f lab_item_def p wf_std_avp w mar_scan_def s del: encode_avps_simps)
  show "mar_item_fields lab_resync =
     \<lparr>mar_scheme = AKA_SCHEME, mar_authenticate = Some (lab_rng 0), mar_authorization = Some (replicate 14 1)\<rparr>"
    by (simp add: mar_item_fields_def f lab_item_def p wf_std_avp w mar_scan_def s
        del: encode_avps_simps)
qed

lemma lab_lookup [simp]:
  "find_pair lab_store ''sip:alice@lab'' ''alice'' = Some lab_subscriber" "enabled lab_subscriber"
  by (simp_all add: find_pair_def lab_store_def lab_subscriber_def)

lemma lab_granted [simp]: "cx_granted lab_app lab_saa" "cx_granted lab_app lab_mar"
  by (simp_all add: cx_granted_def mar_granted_def is_resync_def)

lemma handle_cx_request:
  assumes "parse_message raw = Inr request" and "is_request request" and "application request = CX_APPLICATION"
  shows "handle loads rng app raw = handle_cx rng app request"
  using assms by (simp add: handle_def handle_request_def CX_APPLICATION_def SH_APPLICATION_def)

lemma lab_fits [simp]: "fits lab_app lab_saa" "fits lab_app lab_mar"
  by (simp_all add: fits_def)

lemma lab_mar_answered:
  "answered lab_mar RESULT_SUCCESS (fst (handle loads lab_rng lab_app (encode_message lab_mar)))"
  using handle_cx_answered [of lab_app lab_mar lab_rng]
  by (simp add: handle_cx_request [of _ lab_mar])

subsection \<open>The wire format\<close>

text \<open>C2: \<open>parse_message\<close> accepts exactly the encodings of well-formed messages, and returns the
  message that was encoded: no two octet strings mean the same message, and nothing that has a wrong
  version, length, padding, code or vendor is accepted.\<close>

theorem diameter_wire_format_exact:
  "parse_message raw = Inr m \<longleftrightarrow> wf_message m \<and> raw = encode_message m"
  by (rule parse_message_iff)

text \<open>What \<open>build_message\<close> writes around a list of well-formed AVPs, \<open>parse_message\<close> reads back
  to the same header fields and AVPs.\<close>

theorem build_parse_roundtrip:
  assumes "list_all wf_avp as" and "build_message f c a h e (encode_avps as) = Inr raw"
  shows "parse_message raw = Inr \<lparr>msg_flags = f, command = c, application = a, hop_by_hop = h,
    end_to_end = e, avps = as\<rparr>"
proof -
  from assms(1) have "parse_avps (encode_avps as) = Inr as" by (simp add: parse_avps_iff)
  from assms(2) [unfolded build_message_Inr_iff [OF this] Let_def] show ?thesis
    by (auto simp: parse_message_encode)
qed

text \<open>C6: the frame reader is independent of how the stream is cut into segments: when the octets of
  an encoded message are pending, whatever follows them, it returns exactly that message and leaves
  exactly what follows.\<close>

theorem frame_read_any_segmentation:
  assumes "wf_message m" and "sock_pending s = encode_message m @ rest"
  shows "\<exists>s'. frame_read sock_recv s = Inr (encode_message m, s') \<and> sock_pending s' = rest"
  using assms by (rule sock.frame_read_message)

theorem frame_read_any_segmentation_witness:
  "\<exists>s'. frame_read sock_recv [Segment (take 5 (encode_message lab_saa)), Segment [],
       Segment (drop 5 (encode_message lab_saa) @ [1, 2]), Timeout] = Inr (encode_message lab_saa, s')
     \<and> sock_pending s' = [1, 2]"
  by (rule frame_read_any_segmentation) simp_all

text \<open>A frame the reader returns is a prefix of the stream whose length is the one its header
  declares, between 20 octets and 1 MiB, and the rest of the stream is untouched; so a hostile length
  field can neither desynchronise the stream nor exceed the limit.\<close>

theorem frame_read_exact:
  assumes "frame_read sock_recv s = Inr (f, s')"
  shows "sock_pending s = f @ sock_pending s' \<and> be_int (py_slice f 1 4) = int (length f)
     \<and> 20 \<le> length f \<and> int (length f) \<le> 1048576"
  using sock.frame_read_sound [OF assms] by (simp add: MAX_DIAMETER_def)

subsection \<open>The store\<close>

text \<open>C7: every store that any sequence of \<open>provision\<close>, \<open>update\<close>, \<open>remove\<close> and \<open>set_enabled\<close>
  calls reaches holds at most its configured number of subscribers, each under the key of its own
  two identities, and each with identities, server name, XRES and profile that pass the validators,
  also when a call raised half-way.\<close>

theorem reachable_store_well_formed: "store_reachable s \<Longrightarrow> store_ok s"
  by (rule store_reachable_ok)

definition lab_json :: json_dict where
  "lab_json = [(''public_identity'', JStr ''sip:alice@lab''), (''private_identity'', JStr ''alice''),
     (''assigned_server_name'', JStr ''sip:scscf''), (''xres_base64'', JStr ''AQIDBAUGBwg='')]"

definition empty_store :: HssStore where "empty_store = \<lparr>max_subscribers = 2, items = []\<rparr>"

lemma lab_provision: "provision empty_store lab_json = (Inr lab_subscriber, lab_store)"
proof -
  have i: "wf_identity 2048 ''sip:alice@lab''" "wf_identity 1024 ''alice''" "wf_identity 2048 ''sip:scscf''"
    using lab_wf_subscriber by (simp_all add: wf_subscriber_def lab_subscriber_def)
  have x: "parse_xres lab_json = Inr [1, 2, 3, 4, 5, 6, 7, 8]"
    by (simp add: lab_json_def parse_xres_def is_ascii_def b64_val_def b64_quad_def)
  have f: "identity_field lab_json ''public_identity'' 2048 = Inr ''sip:alice@lab''"
    "identity_field lab_json ''private_identity'' 1024 = Inr ''alice''"
    "identity_field lab_json ''assigned_server_name'' 2048 = Inr ''sip:scscf''"
    using i by (simp_all add: identity_field_Inr_iff lab_json_def)
  have "parse_subscriber lab_json = Inr lab_subscriber"
    by (simp add: parse_subscriber_def f x)
      (simp add: lab_json_def lab_subscriber_def get_or_def profile_def profile_allowed_def json_bool_def
        sip_prefix_def starts_with_def MAX_PROFILE_BYTES_def)
  then show ?thesis
    by (simp add: provision_def empty_store_def put_item_def lab_store_def) (simp add: lab_subscriber_def)
qed

theorem reachable_store_well_formed_witness: "store_reachable lab_store \<and> store_ok lab_store"
proof -
  have "new_store 2 = Inr empty_store" by (simp add: new_store_def MAX_SUBSCRIBERS_def empty_store_def)
  from reach_step [OF reach_new [OF this] step_provision, of lab_json]
  have "store_reachable lab_store" by (simp add: lab_provision)
  with reachable_store_well_formed [OF this] show ?thesis by simp
qed

text \<open>A \<open>provision\<close> that returns a subscriber has stored it under its two identities and left
  every other entry as it was; from then on \<open>authorize\<close> finds it exactly when it is enabled. One
  that raises has changed nothing.\<close>

theorem provision_stores_one_entry:
  assumes "provision s item = (r, t)"
  shows "case r of
      Inl e \<Rightarrow> t = s
    | Inr sub \<Rightarrow> find_pair t p q =
          (if (p, q) = (public_identity sub, private_identity sub) then Some sub else find_pair s p q)
        \<and> authorize t (public_identity sub) (private_identity sub) = (if enabled sub then Some sub else None)"
  using assms
  by (cases r) (auto dest: provision_Inl simp: provision_Inr authorize_def find_pair_put_item)

theorem provision_stores_one_entry_witness:
  "provision empty_store lab_json = (Inr lab_subscriber, lab_store)
   \<and> authorize lab_store ''sip:alice@lab'' ''alice'' = Some lab_subscriber"
  using provision_stores_one_entry [OF lab_provision, of "[]" "[]"] lab_provision
  by (simp add: lab_subscriber_def)

text \<open>\<open>update\<close> is not atomic: when the server name is valid and the profile is refused, the
  call raises and yet the stored subscriber has the new server name.\<close>

theorem update_half_done:
  assumes "find_entry s public = Some (key, sub)"
    and "identity_field updates ''assigned_server_name'' 2048 = Inr name"
    and "map_of updates ''service_profile'' = Some v" and "profile v = Inl e"
  shows "update s public updates = (Inl e, put_item s key (sub\<lparr>assigned_server_name := name\<rparr>))"
proof -
  have "map_of updates ''assigned_server_name'' \<noteq> None"
    using assms(2) by (simp add: identity_field_Inr_iff)
  then have "update_server updates sub = Inr (sub\<lparr>assigned_server_name := name\<rparr>)"
    using assms(2) by (auto simp: update_server_def)
  moreover have "update_profile updates x = Inl e" for x
    using assms(3,4) by (simp add: update_profile_def)
  ultimately show ?thesis using assms(1) by (simp add: update_def)
qed

theorem update_half_done_witness:
  "\<exists>e t. update lab_store ''sip:alice@lab''
      [(''assigned_server_name'', JStr ''sip:new''), (''service_profile'', JBool True)] = (Inl e, t)
    \<and> map_option assigned_server_name (find_pair t ''sip:alice@lab'' ''alice'') = Some ''sip:new''"
proof -
  let ?u = "[(''assigned_server_name'', JStr ''sip:new''), (''service_profile'', JBool True)]"
  have e: "find_entry lab_store ''sip:alice@lab'' = Some ((''sip:alice@lab'', ''alice''), lab_subscriber)"
    by (simp add: find_entry_def lab_store_def)
  have i: "identity_field ?u ''assigned_server_name'' 2048 = Inr ''sip:new''"
    by (simp add: identity_field_Inr_iff wf_identity_def clean_text_def is_ascii_def printable_def)
  have p: "profile (JBool True) = Inl (ValueError ''service_profile contains unsupported fields'')"
    by (simp add: profile_def)
  show ?thesis
    using update_half_done [OF e i _ p] by (simp add: find_pair_put_item)
qed

text \<open>After disabling a public identity its first entry is no longer authorised, whatever the
  private identity it is asked with, while every other entry answers as before; the other fields of
  the disabled subscriber are kept.\<close>

theorem disable_revokes:
  assumes "store_ok s" and "find_entry s public = Some (key, sub)"
  shows "authorize (snd (set_enabled s public False)) (fst key) (snd key) = None
    \<and> find_pair (snd (set_enabled s public False)) (fst key) (snd key) = Some (sub\<lparr>enabled := False\<rparr>)
    \<and> find_pair (snd (set_enabled s public False)) p q =
        (if (p, q) = key then Some (sub\<lparr>enabled := False\<rparr>) else find_pair s p q)"
  using assms by (simp add: set_enabled_def authorize_def find_pair_put_item)

theorem disable_revokes_witness:
  "authorize lab_store ''sip:alice@lab'' ''alice'' = Some lab_subscriber
   \<and> authorize (snd (set_enabled lab_store ''sip:alice@lab'' False)) ''sip:alice@lab'' ''alice'' = None"
proof -
  have e: "find_entry lab_store ''sip:alice@lab'' = Some ((''sip:alice@lab'', ''alice''), lab_subscriber)"
    by (simp add: find_entry_def lab_store_def)
  from disable_revokes [OF lab_store_ok e] show ?thesis by (simp add: authorize_def)
qed

text \<open>\<open>remove\<close> deletes the first entry of the public identity and no other entry, and reports
  whether there was one; a second entry of the same public identity survives it.\<close>

theorem remove_deletes_first:
  assumes "store_ok s"
  shows "remove s public =
      (case find_entry s public of None \<Rightarrow> (False, s)
       | Some (key, _) \<Rightarrow> (True, s\<lparr>items := filter (\<lambda>kv. fst kv \<noteq> key) (items s)\<rparr>))
    \<and> find_pair (snd (remove s public)) p q =
      (if Some (p, q) = map_option fst (find_entry s public) then None else find_pair s p q)"
proof -
  have d: "AList.delete k al = filter (\<lambda>kv. fst kv \<noteq> k) al" for k and al :: "(subscriber_key \<times> Subscriber) list"
    by (induction al) auto
  have m: "map_of (filter (\<lambda>kv. fst kv \<noteq> k) (items s)) = (map_of (items s))(k := None)" for k
    by (simp add: d [symmetric] delete_conv')
  show ?thesis
    by (cases "find_entry s public") (auto simp: remove_def find_pair_def d m)
qed

subsection \<open>The Diameter application\<close>

text \<open>C9: whatever is answered belongs to its request: it parses, has the same command, application
  and hop-by-hop and end-to-end identifiers, and the request bit is cleared, so an answer is never
  itself a request.\<close>

theorem answers_belong_to_requests:
  assumes "fst (handle loads rng app raw) = Inr ans" and "ans \<noteq> []"
  shows "\<exists>request m. parse_message raw = Inr request \<and> parse_message ans = Inr m
    \<and> same_transaction request m \<and> \<not> is_request m"
proof -
  from assms obtain request where p: "parse_message raw = Inr request"
    and a: "fst (handle_request loads rng app request) = Inr ans"
    by (auto simp: handle_def split: sum.splits)
  from handle_request_echoes [OF a] p show ?thesis
    by (auto simp: echoes_def dest: same_transaction_answer)
qed

theorem answers_belong_to_requests_witness:
  "\<exists>ans m. fst (handle (\<lambda>_. Inl JSONDecodeError) lab_rng lab_app (encode_message lab_mar)) = Inr ans
     \<and> parse_message ans = Inr m \<and> same_transaction lab_mar m \<and> \<not> is_request m"
proof -
  obtain ans m where a: "fst (handle (\<lambda>_. Inl JSONDecodeError) lab_rng lab_app (encode_message lab_mar)) = Inr ans"
    and m: "parse_message ans = Inr m"
    using lab_mar_answered [of "\<lambda>_. Inl JSONDecodeError"] unfolding answered_def by blast
  then have "ans \<noteq> []" by (auto simp: parse_message_def)
  from answers_belong_to_requests [OF a this] a show ?thesis by auto
qed

text \<open>The application stays silent (an empty answer) exactly for octets that are not a Diameter
  message; the state is then unchanged.\<close>

theorem silent_iff_malformed:
  "fst (handle loads rng app raw) = Inr []
     \<longleftrightarrow> (\<exists>e. parse_message raw = Inl e) \<and> snd (handle loads rng app raw) = app"
  using handle_request_echoes [of loads rng app _ "[]"]
  by (auto simp: handle_def dest: echoes_not_Nil split: sum.splits)



text \<open>C8: a granted MAR is answered with as many authentication vectors as it asked for, one to five,
  in order; each carries the configured XRES and its own pair of fresh random values, the same
  numbers are drawn and no others, and the first RAND becomes the one a resynchronisation of that
  private identity must quote.\<close>

theorem mar_issues_fresh_vectors:
  assumes "parse_message raw = Inr request" and "is_request request"
    and "application request = CX_APPLICATION" and "command request = 303"
    and "fst (handle loads rng app raw) = Inr ans" and "parse_message ans = Inr m"
    and "result_code m = Some RESULT_SUCCESS"
  shows "\<exists>sub. cx_subscriber app request = Some sub
    \<and> avps m = common_avps app request RESULT_SUCCESS
         @ fresh_vectors rng app (xres sub) (mar_number_of_items request)
    \<and> 1 \<le> mar_number_of_items request \<and> mar_number_of_items request \<le> 5
    \<and> drawn (snd (handle loads rng app raw)) = drawn app + 2 * mar_number_of_items request
    \<and> map_of (last_rand (snd (handle loads rng app raw))) (req_private request)
        = (if req_private request = [] then map_of (last_rand app) [] else Some (rng (drawn app)))"
proof -
  note h = handle_cx_request [OF assms(1-3)]
  from assms(5) have a: "fst (handle_cx rng app request) = Inr ans" by (simp add: h)
  from cx_success [OF a assms(6,7)] assms(4) obtain sub
    where s: "cx_subscriber app request = Some sub" "enabled sub"
      and mar: "fst (handle_mar rng app request sub (req_private request)) = Inr ans" by auto
  have st: "handle loads rng app raw = handle_mar rng app request sub (req_private request)"
    unfolding h by (simp add: handle_cx_def s assms(4))
  have "req_private request = [] \<Longrightarrow> last_rand (snd (handle_mar rng app request sub (req_private request))) = last_rand app"
    using mar_success [OF mar assms(6,7)] by (auto simp: Let_def issue_vectors_state)
  with mar_vectors [OF mar assms(6,7)] number_of_items_range [of request] s(1) show ?thesis
    unfolding st by auto
qed

theorem mar_issues_fresh_vectors_witness:
  "\<exists>ans m. fst (handle (\<lambda>_. Inl JSONDecodeError) lab_rng lab_app (encode_message lab_mar)) = Inr ans
     \<and> parse_message ans = Inr m
     \<and> drawn (snd (handle (\<lambda>_. Inl JSONDecodeError) lab_rng lab_app (encode_message lab_mar))) = 2"
proof -
  obtain ans m where a: "fst (handle (\<lambda>_. Inl JSONDecodeError) lab_rng lab_app (encode_message lab_mar)) = Inr ans"
    and m: "parse_message ans = Inr m" "result_code m = Some RESULT_SUCCESS"
    using lab_mar_answered [of "\<lambda>_. Inl JSONDecodeError"] unfolding answered_def by blast
  have "mar_number_of_items lab_mar = 1" by (simp add: mar_number_of_items_def find_def lab_defs)
  with mar_issues_fresh_vectors [OF _ _ _ _ a m] a m show ?thesis by auto
qed


definition issued_app :: HssApp where
  "issued_app = lab_app\<lparr>last_rand := [(''alice'', lab_rng 0)], drawn := 2\<rparr>"

lemma lab_rng_fresh: "\<forall>k < 2. lab_rng k \<noteq> lab_rng 2"
  by (auto simp: lab_rng_def less_2_cases_iff)

lemma issued_app_ok: "app_ok lab_rng issued_app" "config_ok issued_app" "drawn issued_app = 2"
proof -
  have "rands_ok lab_rng issued_app" by (auto simp: rands_ok_def issued_app_def intro: exI [of _ 0] split: if_splits)
  then show "app_ok lab_rng issued_app" by (simp add: app_ok_def issued_app_def)
  show "config_ok issued_app" by (simp add: config_ok_def issued_app_def)
  show "drawn issued_app = 2" by (simp add: issued_app_def)
qed

lemma issued_granted: "cx_granted issued_app lab_resync"
  by (simp add: cx_granted_def mar_granted_def issued_app_def is_resync_def quoted_rand_def)
    (simp add: lab_rng_def numeral_eq_Suc)

lemma issued_answered:
  "answered lab_resync RESULT_SUCCESS (fst (handle loads lab_rng issued_app (encode_message lab_resync)))"
  using handle_cx_answered [of issued_app lab_resync lab_rng] issued_granted issued_app_ok
  by (simp add: handle_cx_request [of _ lab_resync] fits_def app_ok_def)

lemma lab_resync_is_resync: "is_resync lab_resync"
  by (simp add: is_resync_def numeral_eq_Suc)


text \<open>C4: the XRES values leave the process in MAR answers only: for any other request, two
  applications that differ at most in the XRES of their subscribers give the same answer and stay
  equal up to XRES.\<close>

theorem xres_noninterference:
  assumes "blank_app a = blank_app b" and "parse_message raw = Inr request"
    and "\<not> (command request = 303 \<and> application request = CX_APPLICATION)"
  shows "fst (handle loads rng a raw) = fst (handle loads rng b raw)
     \<and> blank_app (snd (handle loads rng a raw)) = blank_app (snd (handle loads rng b raw))"
proof -
  have "handle loads rng (blank_app x) raw = (fst (handle loads rng x raw), blank_app (snd (handle loads rng x raw)))" for x
    using assms(2) handle_request_blank [OF assms(3)] by (simp add: handle_def)
  from this [of a] this [of b] assms(1) show ?thesis by simp
qed

definition other_app :: HssApp where
  "other_app = lab_app\<lparr>store := lab_store\<lparr>items := [((''sip:alice@lab'', ''alice''), lab_subscriber\<lparr>xres := [0]\<rparr>)]\<rparr>\<rparr>"

theorem xres_noninterference_witness:
  "fst (handle (\<lambda>_. Inl JSONDecodeError) lab_rng lab_app (encode_message lab_saa))
     = fst (handle (\<lambda>_. Inl JSONDecodeError) lab_rng other_app (encode_message lab_saa)) \<and> lab_app \<noteq> other_app"
proof -
  have "blank_app lab_app = blank_app other_app" "lab_app \<noteq> other_app"
    by (simp_all add: other_app_def lab_app_def new_app_def lab_store_def lab_subscriber_def
        blank_app_def blank_store_def blank_def)
  moreover have "\<not> (command lab_saa = 303 \<and> application lab_saa = CX_APPLICATION)" by simp
  ultimately show ?thesis using xres_noninterference [OF _ parse_lab(1)] by blast
qed

text \<open>C5: with a configuration that fits an AVP, \<open>handle\<close> raises for no message that parses, except in two
  cases. One is a Session-Id longer than the encoder's limit of 65519 octets: it raises for every
  such message but a capabilities exchange, whose answer copies no Session-Id. The other is a profile update
  for a known subscriber with user data for which the JSON decoder raises no \<open>ValueError\<close> but \<open>RecursionError\<close>, or the like.\<close>

theorem handle_raises_exactly:
  assumes "app_ok rng app" and "config_ok app" and "rng_ok rng" and "parse_message raw = Inr request"
  shows "(\<exists>e. fst (handle loads rng app raw) = Inl e) \<longleftrightarrow>
    \<not> (is_cer request \<or> session_fits request) \<or> pur_escapes loads app request"
proof -
  have "wf_message request" "store_ok (store app)"
    using assms(1,4) parse_message_canonical by (auto simp: app_ok_def)
  from handle_request_succeeds [OF assms(2) this(1) assms(3) this(2), of loads]
    handle_request_needs_session [of loads rng app request] handle_request_escapes [of loads app request rng]
  show ?thesis using assms(4) by (cases "fst (handle_request loads rng app request)") (auto simp: handle_def succeeds_def)
qed

theorem handle_raises_exactly_witness:
  "\<not> (\<exists>e. fst (handle (\<lambda>_. Inl JSONDecodeError) lab_rng lab_app (encode_message lab_mar)) = Inl e)"
  using handle_raises_exactly [of lab_rng lab_app "encode_message lab_mar" lab_mar "\<lambda>_. Inl JSONDecodeError"]
  by (simp add: pur_escapes_def)

text \<open>Handling any octets keeps the invariant of the application: a well-formed store, and every
  remembered RAND one that was handed out, under a non-empty private identity.\<close>

theorem handle_keeps_invariant: "app_ok rng app \<Longrightarrow> app_ok rng (snd (handle loads rng app raw))"
  by (rule handle_ok)

theorem handle_keeps_invariant_witness:
  "app_ok lab_rng (snd (handle (\<lambda>_. Inl JSONDecodeError) lab_rng lab_app (encode_message lab_mar)))"
  by (rule handle_keeps_invariant) simp

end
