(* ===== verification/Hss_Server.thy ===== *)
theory Hss_Server
  imports Hss_Totality Diameter_Stream
begin

section \<open>The Diameter server of the lab HSS\<close>

text \<open>
  \<^verbatim>\<open>lab/ims_hss.py\<close>, lines 680 to 778: \<open>DiameterServer\<close>. A connection is a number. The thread of a
  connection (\<open>_client\<close>) is split where other threads can run: it takes a slot, is registered as a
  peer, serves one frame after the other, and ends through its \<open>finally\<close> block. \<open>client_loop\<close> is
  the loop of one thread alone over the socket model. Listening and accepting are socket calls and
  are left out: an accepted connection is a \<open>client_start\<close>.
\<close>

type_synonym conn = nat

subsection \<open>State\<close>

definition MAX_DIAMETER_CONNECTIONS :: int where "MAX_DIAMETER_CONNECTIONS = 256"

text \<open>\<open>clients\<close> are the connections whose thread holds a slot.\<close>

record DiameterServer =
  max_connections :: nat
  slots :: nat
  peers :: "conn list"
  clients :: "conn list"
  stopped :: bool

definition new_diameter_server :: "int \<Rightarrow> DiameterServer result" where
  "new_diameter_server n =
     (if \<not> (1 \<le> n \<and> n \<le> MAX_DIAMETER_CONNECTIONS)
      then Inl (ValueError ''invalid Diameter connection limit'')
      else Inr \<lparr>max_connections = nat n, slots = nat n, peers = [], clients = [], stopped = False\<rparr>)"

subsection \<open>The thread of a connection\<close>

text \<open>The non-blocking acquire: with no slot left the connection is closed at once.\<close>

definition client_start :: "DiameterServer \<Rightarrow> conn \<Rightarrow> bool \<times> DiameterServer" where
  "client_start srv c =
     (if slots srv = 0 then (False, srv)
      else (True, srv\<lparr>slots := slots srv - 1, clients := clients srv @ [c]\<rparr>))"

definition client_register :: "DiameterServer \<Rightarrow> conn \<Rightarrow> DiameterServer" where
  "client_register srv c = srv\<lparr>peers := peers srv @ [c]\<rparr>"

text \<open>The \<open>finally\<close> block; the connection may not be a peer yet.\<close>

definition client_finally :: "DiameterServer \<Rightarrow> conn \<Rightarrow> DiameterServer" where
  "client_finally srv c =
     srv\<lparr>peers := remove1 c (peers srv), clients := remove1 c (clients srv), slots := slots srv + 1\<rparr>"

definition server_close :: "DiameterServer \<Rightarrow> DiameterServer" where
  "server_close srv = srv\<lparr>stopped := True\<rparr>"

datatype outcome = Continue | Return | Raised exn

fun caught :: "exn \<Rightarrow> bool" where
  "caught (ConnectionError _) = True"
| "caught OSError = True"
| "caught (DiameterError _) = True"
| "caught _ = False"

text \<open>One turn of the loop, on what \<open>_frame_read\<close> gave; \<open>accepts\<close> says whether \<open>sendall\<close> succeeds.\<close>

definition client_turn ::
  "(code_points \<Rightarrow> json result) \<Rightarrow> (nat \<Rightarrow> bytes) \<Rightarrow> (bytes \<Rightarrow> bool) \<Rightarrow> HssApp \<Rightarrow> bytes result
     \<Rightarrow> outcome \<times> bytes list \<times> HssApp" where
  "client_turn loads rng accepts app frame =
     (case frame of
        Inl e \<Rightarrow> (if caught e then Return else Raised e, [], app)
      | Inr request \<Rightarrow>
          (case handle loads rng app request of
             (Inl e, app') \<Rightarrow> (Raised e, [], app')
           | (Inr response, app') \<Rightarrow>
               if response = [] then (Continue, [], app')
               else if accepts response then (Continue, [response], app')
               else (Return, [], app')))"

function client_loop ::
  "(code_points \<Rightarrow> json result) \<Rightarrow> (nat \<Rightarrow> bytes) \<Rightarrow> (bytes \<Rightarrow> bool) \<Rightarrow> HssApp \<Rightarrow> socket
     \<Rightarrow> outcome \<times> bytes list \<times> HssApp" where
  "client_loop loads rng accepts app sock =
     (case frame_read sock_recv sock of
        Inl e \<Rightarrow> client_turn loads rng accepts app (Inl e)
      | Inr (request, sock') \<Rightarrow>
          (case client_turn loads rng accepts app (Inr request) of
             (Continue, out, app') \<Rightarrow>
               (let (r, outs, app'') = client_loop loads rng accepts app' sock' in (r, out @ outs, app''))
           | (Return, out, app') \<Rightarrow> (Return, out, app')
           | (Raised e, out, app') \<Rightarrow> (Raised e, out, app')))"
  by pat_completeness auto
termination
proof (relation "measure (\<lambda>(loads, rng, accepts, app, sock). length (sock_pending sock))", simp, clarsimp)
  fix sock request sock'
  assume "frame_read sock_recv sock = Inr (request, sock')"
  from sock.frame_read_sound [OF this] show "length (sock_pending sock') < length (sock_pending sock)"
    by auto
qed

declare client_loop.simps [simp del]

subsection \<open>Pushes\<close>

text \<open>
  The loop of \<open>push_rtr\<close> and \<open>push_ppr\<close>: \<open>send\<close> builds the message for one peer, \<open>accepts\<close> says
  which peers take it; only an \<open>OSError\<close> is skipped. The list is what was sent, in order.
\<close>

fun push_loop ::
  "(HssApp \<Rightarrow> bytes result \<times> HssApp) \<Rightarrow> (conn \<Rightarrow> bool) \<Rightarrow> conn list \<Rightarrow> HssApp \<Rightarrow> int
     \<Rightarrow> int result \<times> (conn \<times> bytes) list \<times> HssApp" where
  "push_loop send accepts [] app sent = (Inr sent, [], app)"
| "push_loop send accepts (p # ps) app sent =
     (case send app of
        (Inl e, app') \<Rightarrow>
          if e = OSError then push_loop send accepts ps app' sent else (Inl e, [], app')
      | (Inr msg, app') \<Rightarrow>
          if accepts p
          then (let (r, log, app'') = push_loop send accepts ps app' (sent + 1) in (r, (p, msg) # log, app''))
          else push_loop send accepts ps app' sent)"

definition push_rtr ::
  "(conn \<Rightarrow> bool) \<Rightarrow> DiameterServer \<Rightarrow> HssApp \<Rightarrow> string \<Rightarrow> string \<Rightarrow> int
     \<Rightarrow> int result \<times> (conn \<times> bytes) list \<times> HssApp" where
  "push_rtr accepts srv app public private reason =
     push_loop (\<lambda>a. send_rtr a public private reason) accepts (peers srv) app 0"

definition push_ppr ::
  "(conn \<Rightarrow> bool) \<Rightarrow> DiameterServer \<Rightarrow> HssApp \<Rightarrow> string \<Rightarrow> string \<Rightarrow> json_dict
     \<Rightarrow> int result \<times> (conn \<times> bytes) list \<times> HssApp" where
  "push_ppr accepts srv app public private prof =
     push_loop (\<lambda>a. send_ppr a public private prof) accepts (peers srv) app 0"

subsection \<open>Slots and peers\<close>

definition server_ok :: "DiameterServer \<Rightarrow> bool" where
  "server_ok srv \<longleftrightarrow> slots srv + length (clients srv) = max_connections srv
     \<and> distinct (clients srv) \<and> distinct (peers srv) \<and> set (peers srv) \<subseteq> set (clients srv)"

inductive server_step :: "DiameterServer \<Rightarrow> DiameterServer \<Rightarrow> bool" where
  step_start: "c \<notin> set (clients srv) \<Longrightarrow> server_step srv (snd (client_start srv c))"
| step_register: "c \<in> set (clients srv) \<Longrightarrow> c \<notin> set (peers srv) \<Longrightarrow> server_step srv (client_register srv c)"
| step_finally: "c \<in> set (clients srv) \<Longrightarrow> server_step srv (client_finally srv c)"
| step_close: "server_step srv (server_close srv)"

inductive server_reachable :: "nat \<Rightarrow> DiameterServer \<Rightarrow> bool" where
  start: "new_diameter_server (int n) = Inr srv \<Longrightarrow> server_reachable n srv"
| step: "server_reachable n srv \<Longrightarrow> server_step srv srv' \<Longrightarrow> server_reachable n srv'"

inductive_cases server_stepE: "server_step srv srv'"

lemma client_finally_ok:
  assumes "server_ok srv" and "c \<in> set (clients srv)"
  shows "server_ok (client_finally srv c)"
proof -
  have l: "length (clients srv) = Suc (length (remove1 c (clients srv)))"
    using assms(2) by (simp add: length_remove1) (metis Suc_pred length_pos_if_in_set)
  have p: "set (remove1 c (peers srv)) \<subseteq> set (remove1 c (clients srv))"
    using assms(1) by (auto simp: server_ok_def set_remove1_eq)
  show ?thesis
    using assms(1) l p by (simp add: server_ok_def client_finally_def distinct_remove1)
qed

lemma server_step_ok: "server_step srv srv' \<Longrightarrow> server_ok srv \<Longrightarrow> server_ok srv'"
  by (erule server_stepE)
    (auto simp: client_finally_ok, auto simp: server_ok_def client_start_def client_register_def server_close_def)

lemma server_step_max: "server_step srv srv' \<Longrightarrow> max_connections srv' = max_connections srv"
  by (erule server_stepE)
    (auto simp: client_start_def client_register_def client_finally_def server_close_def)

lemma server_reachable_ok: "server_reachable n srv \<Longrightarrow> server_ok srv \<and> max_connections srv = n"
proof (induction rule: server_reachable.induct)
  case (start n srv)
  then show ?case by (auto simp: new_diameter_server_def server_ok_def split: if_splits)
next
  case (step n srv srv')
  then show ?case using server_step_ok server_step_max by metis
qed

lemma peers_bounded: "server_ok srv \<Longrightarrow> length (peers srv) \<le> max_connections srv"
proof -
  assume ok: "server_ok srv"
  then have "length (peers srv) \<le> length (clients srv)"
    unfolding server_ok_def by (metis card_mono distinct_card finite_set)
  with ok show ?thesis by (simp add: server_ok_def)
qed

subsection \<open>A connection served alone\<close>

text \<open>What the messages of a stream are answered with, one after the other.\<close>

fun serve_all ::
  "(code_points \<Rightarrow> json result) \<Rightarrow> (nat \<Rightarrow> bytes) \<Rightarrow> HssApp \<Rightarrow> DiameterMessage list \<Rightarrow> bytes list \<times> HssApp" where
  "serve_all loads rng app [] = ([], app)"
| "serve_all loads rng app (m # ms) =
     (case handle_request loads rng app m of
        (Inl e, app') \<Rightarrow> ([], app')
      | (Inr r, app') \<Rightarrow> (let (rs, app'') = serve_all loads rng app' ms in (r # rs, app'')))"

lemma issue_vectors_config:
  "origin_host (snd (issue_vectors rng app p x n)) = origin_host app
   \<and> origin_realm (snd (issue_vectors rng app p x n)) = origin_realm app"
  by (simp add: issue_vectors_state Let_def)

lemma handle_sh_config:
  "origin_host (snd (handle_sh loads app request)) = origin_host app
   \<and> origin_realm (snd (handle_sh loads app request)) = origin_realm app"
  by (auto simp: handle_sh_def Let_def subscribe_sh_def split: option.splits sum.splits prod.splits)

lemma handle_cx_config:
  "origin_host (snd (handle_cx rng app request)) = origin_host app
   \<and> origin_realm (snd (handle_cx rng app request)) = origin_realm app"
  by (auto simp: handle_cx_def handle_mar_def answer_with_def Let_def issue_vectors_config
      split: option.splits list.splits)

lemma handle_request_config: "config_ok (snd (handle_request loads rng app request)) = config_ok app"
  by (simp add: handle_request_def config_ok_def handle_sh_config handle_cx_config)

lemma sock_ending_timeout: "sock_ending s = Some e \<Longrightarrow> e = OSError"
  by (induction s rule: sock_ending.induct) auto

lemma frame_read_end: "sock_pending s = [] \<Longrightarrow> \<exists>e. frame_read sock_recv s = Inl e \<and> caught e"
  using sock.read_exact_short [of s 20] sock_ending_timeout [of s]
  by (cases "sock_ending s") (auto simp: frame_read_def)

definition serviceable :: "(code_points \<Rightarrow> json result) \<Rightarrow> DiameterMessage \<Rightarrow> bool" where
  "serviceable loads m \<longleftrightarrow> wf_message m \<and> (is_cer m \<or> session_fits m) \<and> profile_readable loads m"

lemma client_loop_serves:
  assumes "rng_ok rng" and "list_all (serviceable loads) ms"
  shows "app_ok rng app \<Longrightarrow> config_ok app \<Longrightarrow> sock_pending s = concat (map encode_message ms) \<Longrightarrow>
    client_loop loads rng (\<lambda>_. True) app s
      = (Return, fst (serve_all loads rng app ms), snd (serve_all loads rng app ms))"
  using assms(2)
proof (induction ms arbitrary: app s)
  case Nil
  from frame_read_end [of s] Nil.prems(3) obtain e where "frame_read sock_recv s = Inl e" "caught e" by auto
  then show ?case by (subst client_loop.simps) (simp add: client_turn_def)
next
  case (Cons m ms)
  have wf: "wf_message m" and sv: "is_cer m \<or> session_fits m" and pr: "profile_readable loads m"
    using Cons.prems(4) by (auto simp: serviceable_def)
  obtain s' where f: "frame_read sock_recv s = Inr (encode_message m, s')"
    and s': "sock_pending s' = concat (map encode_message ms)"
    using sock.frame_read_message [OF wf, of s "concat (map encode_message ms)"] Cons.prems(3) by auto
  have st: "store_ok (store app)" using Cons.prems(1) by (simp add: app_ok_def)
  obtain r app' where h: "handle_request loads rng app m = (r, app')" by (cases "handle_request loads rng app m")
  from handle_request_succeeds [OF Cons.prems(2) wf assms(1) st sv profile_readable_stays [OF pr]] h
  obtain raw where r: "r = Inr raw" by (auto simp: succeeds_def)
  have "handle_request loads rng app m = (Inr raw, app')" using h r by simp
  moreover from this have ne: "raw \<noteq> []"
    using handle_request_echoes [of loads rng app m raw] by (simp add: echoes_not_Nil)
  ultimately have t: "client_turn loads rng (\<lambda>_. True) app (Inr (encode_message m)) = (Continue, [raw], app')"
    by (simp add: client_turn_def handle_def parse_message_encode wf)
  have "app_ok rng app'" "config_ok app'"
    using handle_request_ok [OF Cons.prems(1), of loads m] handle_request_config [of loads rng app m] h Cons.prems(2)
    by simp_all
  from Cons.IH [OF this s'] Cons.prems(4)
  show ?case
    by (subst client_loop.simps) (simp add: f t h r split_beta)
qed

subsection \<open>What a push sends\<close>

lemma push_loop_log:
  assumes "push_loop send accepts ps app n = (Inr sent, log, app')"
  shows "sent = n + int (length log) \<and> set (map fst log) \<subseteq> {p \<in> set ps. accepts p}"
  using assms
proof (induction ps arbitrary: app n log)
  case (Cons p ps)
  obtain r a where s: "send app = (r, a)" by (cases "send app")
  show ?case
  proof (cases "(\<exists>msg. r = Inr msg) \<and> accepts p")
    case True
    with s Cons.prems obtain msg log1 where "push_loop send accepts ps a (n + 1) = (Inr sent, log1, app')"
      "log = (p, msg) # log1" by (auto split: prod.splits)
    with Cons.IH True show ?thesis by fastforce
  next
    case False
    with s Cons.prems have "push_loop send accepts ps a n = (Inr sent, log, app')"
      by (auto split: sum.splits if_splits)
    with Cons.IH show ?thesis by fastforce
  qed
qed simp

text \<open>The messages that a sender with a success for every peer produces: one per peer, numbered.\<close>

lemma push_loop_all:
  assumes "\<And>i. i < length ps \<Longrightarrow> send (app\<lparr>hop_counter := hop_counter app + int i\<rparr>) =
      (Inr (msg (hop_counter app + int i + 1)), app\<lparr>hop_counter := hop_counter app + int i + 1\<rparr>)"
  shows "push_loop send accepts ps app n =
    (Inr (n + int (length (filter accepts ps))),
     map (\<lambda>i. (ps ! i, msg (hop_counter app + int i + 1))) (filter (\<lambda>i. accepts (ps ! i)) [0..<length ps]),
     app\<lparr>hop_counter := hop_counter app + int (length ps)\<rparr>)"
  using assms
proof (induction ps arbitrary: app n)
  case (Cons p ps)
  let ?app = "app\<lparr>hop_counter := hop_counter app + 1\<rparr>"
  have u: "[0..<length (p # ps)] = 0 # map Suc [0..<length ps]"
    by (simp add: upt_conv_Cons map_Suc_upt del: upt_Suc)
  have s: "send app = (Inr (msg (hop_counter app + 1)), ?app)"
    using Cons.prems [of 0] by simp
  have "send (?app\<lparr>hop_counter := hop_counter ?app + int i\<rparr>) =
      (Inr (msg (hop_counter ?app + int i + 1)), ?app\<lparr>hop_counter := hop_counter ?app + int i + 1\<rparr>)"
    if "i < length ps" for i
    using Cons.prems [of "Suc i"] that by (simp add: algebra_simps)
  from Cons.IH [OF this] show ?case
    unfolding push_loop.simps s u by (simp add: filter_map comp_def algebra_simps)
qed simp

text \<open>What an RTR says.\<close>

definition push_avps :: "HssApp \<Rightarrow> string \<Rightarrow> int \<Rightarrow> string \<Rightarrow> string \<Rightarrow> Avp list" where
  "push_avps app kind hop public private =
     [std_avp 263 (bytes_of (origin_host app @ kind @ dec_str hop)) None, std_avp 277 (be_bytes 4 1) None,
      std_avp 264 (bytes_of (origin_host app)) None, std_avp 296 (bytes_of (origin_realm app)) None,
      std_avp 1 (bytes_of private) None, std_avp 601 (bytes_of public) (Some THREEGPP_VENDOR)]"

definition rtr_message :: "HssApp \<Rightarrow> string \<Rightarrow> string \<Rightarrow> int \<Rightarrow> int \<Rightarrow> DiameterMessage" where
  "rtr_message app public private reason hop =
     \<lparr>msg_flags = 0xC0, command = 304, application = CX_APPLICATION, hop_by_hop = hop, end_to_end = hop,
      avps = push_avps app '';rtr;'' hop public private @
        [std_avp 615 (encode_avps [std_avp 616 (be_bytes 4 reason) (Some THREEGPP_VENDOR),
           std_avp 617 (bytes_of (reason_info reason)) (Some THREEGPP_VENDOR)]) (Some THREEGPP_VENDOR)]\<rparr>"

definition push_ok :: "HssApp \<Rightarrow> string \<Rightarrow> string \<Rightarrow> bool" where
  "push_ok app public private \<longleftrightarrow> config_ok app \<and> length (origin_host app) \<le> 65000
     \<and> is_ascii public \<and> length public \<le> 65519 \<and> is_ascii private \<and> length private \<le> 65519
     \<and> 0 \<le> hop_counter app"

lemma dec_str_short: "0 \<le> h \<Longrightarrow> h < 2 ^ 32 \<Longrightarrow> is_ascii (dec_str h) \<and> length (dec_str h) \<le> 10"
proof -
  assume h: "0 \<le> h" "h < 2 ^ 32"
  have "is_ascii (dec_nat n)" for n
    using dec_nat_digits [of n] by (auto simp: is_ascii_def list_all_iff is_digit_def)
  moreover have "length (dec_nat (nat h)) \<le> 10"
    using h by (intro dec_nat_length) (simp_all add: nat_less_iff)
  ultimately show ?thesis using h by (simp add: dec_str_def)
qed

lemma push_head_Inr:
  assumes "push_ok app public private" and "0 \<le> hop" and "hop < 2 ^ 32"
    and "is_ascii kind" and "length kind \<le> 10"
  shows "push_head app kind hop public private = Inr (encode_avps (push_avps app kind hop public private))
     \<and> list_all wf_avp (push_avps app kind hop public private)
     \<and> length (encode_avps (push_avps app kind hop public private)) \<le> 350000"
proof -
  note d = dec_str_short [OF assms(2,3)]
  have A: "is_ascii (s @ t) \<longleftrightarrow> is_ascii s \<and> is_ascii t" for s t by (simp add: is_ascii_def)
  let ?sid = "origin_host app @ kind @ dec_str hop"
  have sid: "is_ascii ?sid" "length ?sid \<le> 65519"
    using assms d by (simp_all add: push_ok_def config_ok_def A)
  note l = length_std_avp_le [of 263 "bytes_of ?sid" None] length_std_avp_le [of 277 "be_bytes 4 1" None]
    length_std_avp_le [of 264 "bytes_of (origin_host app)" None]
    length_std_avp_le [of 296 "bytes_of (origin_realm app)" None]
    length_std_avp_le [of 1 "bytes_of private" None]
    length_std_avp_le [of 601 "bytes_of public" "Some THREEGPP_VENDOR"]
  have ok: "std_avp_ok 263 (bytes_of ?sid) None" "std_avp_ok 277 (be_bytes 4 1) None"
    "std_avp_ok 264 (bytes_of (origin_host app)) None" "std_avp_ok 296 (bytes_of (origin_realm app)) None"
    "std_avp_ok 1 (bytes_of private) None" "std_avp_ok 601 (bytes_of public) (Some THREEGPP_VENDOR)"
    using assms(1) sid by (simp_all only: std_avp_ok_def push_ok_def config_ok_def length_bytes_of)
      (simp_all add: THREEGPP_VENDOR_def)
  have asc: "is_ascii (origin_host app)" "is_ascii (origin_realm app)" "is_ascii private" "is_ascii public"
    and len: "length (origin_host app) \<le> 65519" "length (origin_realm app) \<le> 65519"
      "length private \<le> 65519" "length public \<le> 65519"
    using assms(1) by (simp_all add: push_ok_def config_ok_def)
  have "push_head app kind hop public private = Inr (encode_avps (push_avps app kind hop public private))"
    unfolding push_head_def push_avps_def vendor_text_def
    by (simp only: bindE_Inr_iff builder_iffs encode_avps_simps ok sid asc) (simp add: ok asc)
  moreover have "list_all wf_avp (push_avps app kind hop public private)"
    unfolding push_avps_def by (simp add: wf_std_avp ok del: bytes_of_simps)
  moreover have "length (encode_avps (push_avps app kind hop public private)) \<le> 350000"
    unfolding push_avps_def encode_avps_simps length_append using l sid(2) len
    unfolding length_bytes_of length_be_bytes by simp
  ultimately show ?thesis by blast
qed

lemma push_message_Inr:
  assumes "push_ok app public private" and "0 < hop" and "hop < 2 ^ 32"
    and "is_ascii kind" and "length kind \<le> 10" and "0 \<le> cmd" and "cmd < 2 ^ 24"
    and "std_avp_ok code v (Some THREEGPP_VENDOR)"
  shows "bindE (push_head app kind hop public private) (\<lambda>h.
      bindE (avp_std code v (Some THREEGPP_VENDOR)) (\<lambda>g. build_message 0xC0 cmd CX_APPLICATION hop hop (h @ g)))
    = Inr (encode_message \<lparr>msg_flags = 0xC0, command = cmd, application = CX_APPLICATION, hop_by_hop = hop,
        end_to_end = hop, avps = push_avps app kind hop public private @ [std_avp code v (Some THREEGPP_VENDOR)]\<rparr>)
    \<and> wf_message \<lparr>msg_flags = 0xC0, command = cmd, application = CX_APPLICATION, hop_by_hop = hop,
        end_to_end = hop, avps = push_avps app kind hop public private @ [std_avp code v (Some THREEGPP_VENDOR)]\<rparr>"
proof -
  let ?a = "std_avp code v (Some THREEGPP_VENDOR)" and ?h = "push_avps app kind hop public private"
  have "0 \<le> hop" using assms(2) by simp
  note h = push_head_Inr [OF assms(1) this assms(3-5)]
  have g: "avp_std code v (Some THREEGPP_VENDOR) = Inr (encode_avp ?a)" "wf_avp ?a"
    using assms(8) by (simp_all add: avp_std_Inr_iff wf_std_avp)
  have "length (encode_avp ?a) \<le> 65534"
    using assms(8) length_std_avp_le [of code v "Some THREEGPP_VENDOR"] by (simp add: std_avp_ok_def)
  then have w: "wf_message \<lparr>msg_flags = 0xC0, command = cmd, application = CX_APPLICATION, hop_by_hop = hop,
        end_to_end = hop, avps = ?h @ [?a]\<rparr>"
    using h g assms by (simp add: wf_message_def CX_APPLICATION_def MAX_DIAMETER_def)
  have "parse_avps (encode_avps (?h @ [?a])) = Inr (?h @ [?a])"
    using h g by (simp add: parse_avps_iff del: encode_avps_simps)
  from build_message_Inr_iff [OF this, of "0xC0" cmd CX_APPLICATION hop hop] w
  have "build_message 0xC0 cmd CX_APPLICATION hop hop (encode_avps (?h @ [?a]))
      = Inr (encode_message \<lparr>msg_flags = 0xC0, command = cmd, application = CX_APPLICATION, hop_by_hop = hop,
        end_to_end = hop, avps = ?h @ [?a]\<rparr>)"
    by (simp add: Let_def)
  then show ?thesis using h g w by simp
qed

lemma send_rtr_Inr:
  assumes "push_ok app public private" and "hop_counter app + 1 < 2 ^ 32" and "0 \<le> reason" and "reason \<le> 3"
  shows "send_rtr app public private reason =
      (Inr (encode_message (rtr_message app public private reason (hop_counter app + 1))),
       app\<lparr>hop_counter := hop_counter app + 1\<rparr>)
    \<and> wf_message (rtr_message app public private reason (hop_counter app + 1))"
proof -
  let ?hop = "hop_counter app + 1" and ?V = "Some THREEGPP_VENDOR"
  let ?r = "std_avp 616 (be_bytes 4 reason) ?V" and ?i = "std_avp 617 (bytes_of (reason_info reason)) ?V"
  have info: "is_ascii (reason_info reason)" "length (reason_info reason) \<le> 30"
    using assms(3,4) by (auto simp: reason_info_def reason_names_def is_ascii_def split: option.splits if_splits)
  note l = length_std_avp_le [of 616 "be_bytes 4 reason" ?V] length_std_avp_le [of 617 "bytes_of (reason_info reason)" ?V]
  have r: "avp_u32 616 reason ?V = Inr (encode_avp ?r)"
    using assms(3,4) by (simp add: avp_u32_Inr_iff std_avp_ok_def THREEGPP_VENDOR_def)
  have i: "vendor_text 617 (reason_info reason) = Inr (encode_avp ?i)"
    using info by (simp add: vendor_text_def avp_text_Inr_iff std_avp_ok_def THREEGPP_VENDOR_def)
  have g: "std_avp_ok 615 (encode_avps [?r, ?i]) ?V"
    using l info(2) by (simp add: std_avp_ok_def THREEGPP_VENDOR_def)
  have hop: "0 < ?hop" using assms(1) by (simp add: push_ok_def)
  have k: "is_ascii '';rtr;''" by (simp add: is_ascii_def)
  from push_message_Inr [OF assms(1) hop assms(2) k _ _ _ g, of 304]
  show ?thesis
    by (simp add: send_rtr_def next_hop_def r i rtr_message_def vendor_grouped_def push_head_def)
qed

lemma push_avps_hop [simp]: "push_avps (app\<lparr>hop_counter := h\<rparr>) = push_avps app"
  by (simp add: push_avps_def fun_eq_iff)

lemma rtr_message_hop [simp]: "rtr_message (app\<lparr>hop_counter := h\<rparr>) = rtr_message app"
  by (simp add: rtr_message_def fun_eq_iff)

lemma push_rtr_sends:
  assumes "push_ok app public private" and "hop_counter app + int (length (peers srv)) < 2 ^ 32"
    and "0 \<le> reason" and "reason \<le> 3"
  shows "push_rtr accepts srv app public private reason =
    (Inr (int (length (filter accepts (peers srv)))),
     map (\<lambda>i. (peers srv ! i, encode_message (rtr_message app public private reason (hop_counter app + int i + 1))))
       (filter (\<lambda>i. accepts (peers srv ! i)) [0..<length (peers srv)]),
     app\<lparr>hop_counter := hop_counter app + int (length (peers srv))\<rparr>)"
proof -
  have one: "send_rtr (app\<lparr>hop_counter := hop_counter app + int i\<rparr>) public private reason =
      (Inr (encode_message (rtr_message app public private reason (hop_counter app + int i + 1))),
       app\<lparr>hop_counter := hop_counter app + int i + 1\<rparr>)" if i: "i < length (peers srv)" for i
  proof -
    let ?a = "app\<lparr>hop_counter := hop_counter app + int i\<rparr>"
    have "push_ok ?a public private" using assms(1) by (simp add: push_ok_def config_ok_def)
    moreover have "hop_counter ?a + 1 < 2 ^ 32" using assms(2) i by simp
    ultimately show ?thesis
      using send_rtr_Inr [of ?a public "private" reason] assms(3,4) by simp
  qed
  note all = push_loop_all [OF one, of _ accepts 0]
  show ?thesis unfolding push_rtr_def by (rule trans [OF all]) simp_all
qed

end
