(* ===== verification/Py_Url.thy ===== *)
theory Py_Url
  imports Py_Json
begin

section \<open>Percent encoding\<close>

text \<open>
  \<open>urllib.parse\<close>: \<open>unquote\<close>, \<open>quote(s, safe="")\<close>, \<open>quote_plus\<close> and \<open>urlencode\<close> of a dictionary, on strings
  of code points below 256. The lemmas give what the clients rely on: a quoted text has no character
  that means something in a path or a query, and decoding gives the text back.
\<close>

definition hex_val :: "char \<Rightarrow> nat option" where
  "hex_val c =
     (let n = chr_code c
      in if 48 \<le> n \<and> n \<le> 57 then Some (n - 48)
         else if 65 \<le> n \<and> n \<le> 70 then Some (n - 55)
         else if 97 \<le> n \<and> n \<le> 102 then Some (n - 87) else None)"

fun percent_decode :: "string \<Rightarrow> bytes" where
  "percent_decode [] = []"
| "percent_decode (c # a # b # r) =
     (if c = CHR 0x25 \<and> hex_val a \<noteq> None \<and> hex_val b \<noteq> None
      then word_of_nat (16 * the (hex_val a) + the (hex_val b)) # percent_decode r
      else of_char c # percent_decode (a # b # r))"
| "percent_decode (c # s) = of_char c # percent_decode s"

text \<open>\<open>unquote\<close>; a text that is not ASCII is \<open>None\<close>, as no stored identity is equal to it.\<close>

definition unquote :: "string \<Rightarrow> string option" where
  "unquote s = (case decode_ascii (percent_decode s) of Inl _ \<Rightarrow> None | Inr t \<Rightarrow> Some t)"

subsection \<open>Encoding\<close>

definition unreserved :: "byte \<Rightarrow> bool" where
  "unreserved b \<longleftrightarrow>
     (let n = unat b
      in (48 \<le> n \<and> n \<le> 57) \<or> (65 \<le> n \<and> n \<le> 90) \<or> (97 \<le> n \<and> n \<le> 122) \<or> n \<in> {95, 46, 45, 126})"

definition upper_hex :: "nat \<Rightarrow> char" where
  "upper_hex d = (if d < 10 then char_of (48 + d) else char_of (55 + d))"

definition quote_byte :: "byte \<Rightarrow> string" where
  "quote_byte b =
     (if unreserved b then [char_of (unat b)]
      else [CHR 0x25, upper_hex (unat b div 16), upper_hex (unat b mod 16)])"

definition quote :: "string \<Rightarrow> string" where
  "quote s = concat (map quote_byte (encode_utf8 s))"

definition quote_plus :: "string \<Rightarrow> string" where
  "quote_plus s = concat (map (\<lambda>b. if b = 32 then ''+'' else quote_byte b) (encode_utf8 s))"

definition urlencode :: "(string \<times> json) list \<Rightarrow> string" where
  "urlencode query = join ''&'' (map (\<lambda>(k, v). quote_plus k @ ''='' @ quote_plus (py_str v)) query)"

subsection \<open>What quoting guarantees\<close>

definition url_char :: "char \<Rightarrow> bool" where
  "url_char c \<longleftrightarrow> unreserved (of_char c) \<or> c = CHR 0x25"

lemma chr_upper_hex: "d < 16 \<Longrightarrow> chr_code (upper_hex d) = (if d < 10 then 48 + d else 55 + d)"
  by (simp add: upper_hex_def)

lemma hex_val_upper: "d < 16 \<Longrightarrow> hex_val (upper_hex d) = Some d"
  by (simp add: hex_val_def chr_upper_hex)

lemma url_char_upper_hex: "d < 16 \<Longrightarrow> url_char (upper_hex d)"
  using chr_upper_hex [of d] by (auto simp: url_char_def unreserved_def split: if_splits)

lemma byte_nibbles: "unat (b :: byte) div 16 < 16" "unat b mod 16 < 16"
  using unsigned_less [of b, where 'a = nat] by (simp_all add: less_mult_imp_div_less)

lemma of_char_of_byte: "of_char (char_of (unat b) :: char) = (b :: byte)"
  using unsigned_less [of b, where 'a = nat] by (intro word_unat_eq_iff [THEN iffD2]) simp

lemma quote_byte_chars: "list_all url_char (quote_byte b)"
  using byte_nibbles [of b] url_char_upper_hex by (auto simp: quote_byte_def url_char_def of_char_of_byte)

lemma quote_chars: "list_all url_char (quote s)"
  using quote_byte_chars by (auto simp: quote_def list_all_iff)

lemma reserved_chars:
  "\<not> url_char CHR ''/''" "\<not> url_char CHR ''?''" "\<not> url_char CHR ''&''" "\<not> url_char CHR ''=''" "\<not> url_char CHR ''#''"
  "\<not> url_char CHR '' ''" "\<not> url_char CHR ''+''" "\<not> url_char CHR '':''" "\<not> url_char cr" "\<not> url_char lf"
  by (simp_all add: url_char_def unreserved_def cr_def lf_def)

lemma percent_decode_plain: "c \<noteq> CHR 0x25 \<Longrightarrow> percent_decode (c # s) = of_char c # percent_decode s"
  by (cases s; cases "tl s") auto

lemma percent_decode_quote_byte: "percent_decode (quote_byte b @ s) = b # percent_decode s"
proof (cases "unreserved b")
  case True
  then have "(char_of (unat b) :: char) \<noteq> CHR 0x25"
  proof -
    have "of_char (CHR 0x25) \<noteq> b" using True by (auto simp: unreserved_def)
    then show ?thesis using of_char_of_byte [of b] by metis
  qed
  then show ?thesis using True by (simp add: quote_byte_def percent_decode_plain of_char_of_byte)
next
  case False
  have "word_of_nat (16 * (unat b div 16) + unat b mod 16) = b" by (simp add: mult.commute [of 16])
  then show ?thesis using False hex_val_upper byte_nibbles [of b] by (simp add: quote_byte_def)
qed

lemma percent_decode_quote: "percent_decode (quote s @ t) = encode_utf8 s @ percent_decode t"
proof -
  have "percent_decode (concat (map quote_byte bs) @ t) = bs @ percent_decode t" for bs
    by (induction bs) (simp_all add: percent_decode_quote_byte)
  then show ?thesis by (simp add: quote_def)
qed

lemma unquote_quote: "is_ascii s \<Longrightarrow> unquote (quote s) = Some s"
  using percent_decode_quote [of s "[]"] by (simp add: unquote_def encode_utf8_ascii decode_bytes_of)

lemma unat_byte: "n < 256 \<Longrightarrow> unat (word_of_nat n :: byte) = n"
  by (simp add: unsigned_of_nat take_bit_nat_eq_self)

text \<open>The value of the first octet, and of the second if there is one.\<close>

lemma utf8_char_octets:
  "map unat (utf8_char c) =
    (if chr_code c < 128 then [chr_code c] else [192 + chr_code c div 64, 128 + chr_code c mod 64])"
proof -
  have b: "chr_code c < 256" by simp
  have "192 + chr_code c div 64 < 256" "128 + chr_code c mod 64 < 256"
    using b by linarith+
  then show ?thesis by (simp add: utf8_char_def Let_def unat_byte del: of_nat_add)
qed

lemma utf8_char_inj: "utf8_char c @ s = utf8_char d @ t \<Longrightarrow> c = d"
proof -
  assume h: "utf8_char c @ s = utf8_char d @ t"
  have "map unat (utf8_char c) @ map unat s = map unat (utf8_char d) @ map unat t"
    using arg_cong [OF h, of "map unat"] by simp
  then have "chr_code c = chr_code d"
    unfolding utf8_char_octets by (auto split: if_splits) (metis div_mult_mod_eq of_char_eq_iff)
  then show ?thesis by simp
qed

lemma encode_utf8_inj: "encode_utf8 s = encode_utf8 t \<Longrightarrow> s = t"
proof (induction s arbitrary: t)
  case Nil
  then show ?case by (cases t) (auto simp: encode_utf8_def utf8_char_def Let_def split: if_splits)
next
  case (Cons c s)
  show ?case
  proof (cases t)
    case Nil
    then show ?thesis using Cons.prems by (auto simp: encode_utf8_def utf8_char_def Let_def split: if_splits)
  next
    case t: (Cons d u)
    have h: "utf8_char c @ encode_utf8 s = utf8_char d @ encode_utf8 u"
      using Cons.prems t by (simp add: encode_utf8_def)
    then have "c = d" by (rule utf8_char_inj)
    then show ?thesis using h t Cons.IH [of u] by simp
  qed
qed

lemma quote_inj: "quote s = quote t \<Longrightarrow> s = t"
  using percent_decode_quote [of s "[]"] percent_decode_quote [of t "[]"] encode_utf8_inj [of s t] by simp

end
