(* ===== verification/Hss_Http.thy ===== *)
theory Hss_Http
  imports Hss_Server Py_Url
begin

section \<open>The HTTP interface of the lab HSS\<close>

text \<open>
  \<^verbatim>\<open>lab/ims_hss.py\<close>, lines 781 to 1051: \<open>authorization_document\<close>, \<open>SubscriberHandler\<close>,
  \<open>SubscriberHTTPServer\<close>, the seed file and the token check. A handler takes the server and the
  request as \<open>http.server\<close> has read it (the path, the headers, the octets that follow) and returns
  the response it writes, or the exception that ends the connection without one, the pushes it makes
  to Diameter peers, and the new server.

  Parameters: \<open>sha256\<close> is \<open>hashlib.sha256(...).hexdigest()\<close>, \<open>loads\<close> is \<open>json.loads\<close> on octets, an
  exception included, and \<open>accepts\<close> says which Diameter peers take a message. JSON strings are
  modelled with the code points below 256. The request path has no line break.
\<close>

subsection \<open>Requests and responses\<close>

record http_request =
  path :: string
  headers :: "(string \<times> string) list"
  rfile :: bytes

record http_response =
  status :: int
  response_headers :: "(string \<times> string) list"
  response_body :: bytes

record HttpServer =
  http_app :: HssApp
  http_token :: string
  provision_token :: string
  diameter_server :: "DiameterServer option"

type_synonym http_result = "http_response result \<times> (conn \<times> bytes) list \<times> HttpServer"

definition MAX_HTTP_BODY :: int where "MAX_HTTP_BODY = 65536"

definition header :: "http_request \<Rightarrow> string \<Rightarrow> string option" where
  "header rq name = map_option snd (List.find (\<lambda>kv. lower (fst kv) = lower name) (headers rq))"

definition send_json :: "int \<Rightarrow> json \<Rightarrow> http_response" where
  "send_json code value =
     (let body = bytes_of (json_dumps value) @ [10]
      in \<lparr>status = code,
          response_headers = [(''Content-Type'', ''application/json''), (''Cache-Control'', ''no-store''),
            (''Content-Length'', dec_str (int (length body)))],
          response_body = body\<rparr>)"

definition failure :: "string \<Rightarrow> json" where
  "failure text = JObj [(''ok'', JBool False), (''error'', JStr text)]"

definition error_response :: "int \<Rightarrow> string \<Rightarrow> http_response" where
  "error_response code text = send_json code (failure text)"

subsection \<open>Guards\<close>

text \<open>\<open>hmac.compare_digest\<close> refuses a string that is not ASCII with a \<open>TypeError\<close>.\<close>

definition compare_digest :: "string \<Rightarrow> string \<Rightarrow> bool result" where
  "compare_digest a b = (if is_ascii a \<and> is_ascii b then Inr (a = b) else Inl TypeError)"

definition authorized :: "HttpServer \<Rightarrow> http_request \<Rightarrow> bool \<Rightarrow> bool result" where
  "authorized srv rq provisioning =
     (let expected = (if provisioning then provision_token srv else http_token srv)
      in if expected = [] then Inr (\<not> provisioning)
         else compare_digest (case header rq ''Authorization'' of None \<Rightarrow> [] | Some v \<Rightarrow> v) (''Bearer '' @ expected))"

definition json_body :: "(bytes \<Rightarrow> json result) \<Rightarrow> http_request \<Rightarrow> json_dict option result" where
  "json_body loads rq =
     (if (case header rq ''Transfer-Encoding'' of None \<Rightarrow> False | Some v \<Rightarrow> v \<noteq> []) then Inr None
      else case py_int (case header rq ''Content-Length'' of None \<Rightarrow> [] | Some v \<Rightarrow> v) of
        None \<Rightarrow> Inr None
      | Some len \<Rightarrow>
          if len < 1 \<or> len > MAX_HTTP_BODY then Inr None
          else let body = take (nat len) (rfile rq)
               in if int (length body) \<noteq> len then Inr None
                  else (case loads body of
                          Inl e \<Rightarrow> if e \<in> {UnicodeDecodeError, JSONDecodeError} then Inr None else Inl e
                        | Inr (JObj d) \<Rightarrow> Inr (Some d)
                        | Inr _ \<Rightarrow> Inr None))"

subsection \<open>Paths\<close>

definition ends_with :: "string \<Rightarrow> string \<Rightarrow> bool" where
  "ends_with suffix s \<longleftrightarrow> starts_with (rev suffix) (rev s)"

definition admin_prefix :: string where "admin_prefix = ''/admin/subscribers/''"

text \<open>The regular expression takes the shortest identity, so a final action is split off once.\<close>

definition admin_split :: "string \<Rightarrow> string \<times> string" where
  "admin_split rest =
     (if ends_with ''/enable'' rest \<and> length rest > 7 then (take (length rest - 7) rest, ''enable'')
      else if ends_with ''/disable'' rest \<and> length rest > 8 then (take (length rest - 8) rest, ''disable'')
      else (rest, []))"

definition admin_match :: "http_request \<Rightarrow> (string option \<times> string) option" where
  "admin_match rq =
     (let rest = drop (length admin_prefix) (path rq)
      in if starts_with admin_prefix (path rq) \<and> rest \<noteq> []
         then Some (unquote (fst (admin_split rest)), snd (admin_split rest)) else None)"

subsection \<open>The authorization document\<close>

definition text_field :: "json_dict \<Rightarrow> string \<Rightarrow> string option" where
  "text_field d k =
     (case map_of d k of
        Some (JStr s) \<Rightarrow> if 1 \<le> length s \<and> length s \<le> 2048 then Some s else None
      | _ \<Rightarrow> None)"

definition request_id :: "(bytes \<Rightarrow> string) \<Rightarrow> string \<Rightarrow> string \<Rightarrow> string \<Rightarrow> string \<Rightarrow> string" where
  "request_id sha256 public private visited server =
     take 32 (sha256 (encode_utf8 (''madis.ims.subscriber|register|'' @ public @ ''|'' @ private @ ''|'' @
       visited @ ''|'' @ server)))"

definition authorization_document ::
  "(bytes \<Rightarrow> string) \<Rightarrow> HssStore \<Rightarrow> json_dict \<Rightarrow> int \<times> json_dict" where
  "authorization_document sha256 st request =
     (if map_of request ''schema'' \<noteq> Some (JStr ''madis.ims.subscriber.authorization.v1'')
         \<or> map_of request ''operation'' \<noteq> Some (JStr ''authorize-register'')
      then (400, [(''ok'', JBool False), (''error'', JStr ''invalid authorization request'')])
      else
        case (text_field request ''public_identity'', text_field request ''private_identity'',
              text_field request ''visited_network'', text_field request ''server_name'') of
          (Some public, Some private, Some visited, Some server) \<Rightarrow>
            (let response =
               [(''schema'', JStr ''madis.ims.subscriber.authorization.v1''),
                (''operation'', JStr ''authorize-register''),
                (''request_id'', JStr (request_id sha256 public private visited server)),
                (''public_identity'', JStr public),
                (''private_identity'', JStr private)]
             in case authorize st public private of
                  None \<Rightarrow> (200, response @ [(''decision'', JStr ''deny''), (''reason'', JStr ''subscriber-not-found'')])
                | Some item \<Rightarrow>
                    if assigned_server_name item \<noteq> server
                    then (200, response @
                      [(''decision'', JStr ''deny''), (''reason'', JStr ''server-assignment-mismatch'')])
                    else (200, response @
                      [(''decision'', JStr ''allow''), (''assigned_server_name'', JStr (assigned_server_name item)),
                       (''service_profile'', JObj (service_profile item))]))
        | _ \<Rightarrow> (400, [(''ok'', JBool False), (''error'', JStr ''invalid authorization fields'')]))"

subsection \<open>The methods\<close>

definition respond :: "HttpServer \<Rightarrow> int \<Rightarrow> json \<Rightarrow> http_result" where
  "respond srv code value = (Inr (send_json code value), [], srv)"

definition respond_error :: "HttpServer \<Rightarrow> int \<Rightarrow> string \<Rightarrow> http_result" where
  "respond_error srv code text = (Inr (error_response code text), [], srv)"

definition with_store :: "HttpServer \<Rightarrow> HssStore \<Rightarrow> HttpServer" where
  "with_store srv st = srv\<lparr>http_app := (http_app srv)\<lparr>store := st\<rparr>\<rparr>"

definition http_store :: "HttpServer \<Rightarrow> HssStore" where
  "http_store srv = store (http_app srv)"

text \<open>The two guards every protected path starts with.\<close>

definition protected :: "HttpServer \<Rightarrow> http_request \<Rightarrow> bool \<Rightarrow> http_result \<Rightarrow> http_result" where
  "protected srv rq provisioning k =
     (case authorized srv rq provisioning of
        Inl e \<Rightarrow> (Inl e, [], srv)
      | Inr True \<Rightarrow> k
      | Inr False \<Rightarrow> respond_error srv 401
          (if provisioning then ''provisioning token required'' else ''authorization token required''))"

definition with_body ::
  "(bytes \<Rightarrow> json result) \<Rightarrow> HttpServer \<Rightarrow> http_request \<Rightarrow> (json_dict \<Rightarrow> http_result) \<Rightarrow> http_result" where
  "with_body loads srv rq k =
     (case json_body loads rq of
        Inl e \<Rightarrow> (Inl e, [], srv)
      | Inr None \<Rightarrow> respond_error srv 400 ''bounded JSON body required''
      | Inr (Some request) \<Rightarrow> k request)"

text \<open>The answer to a store operation that may raise; only a \<open>ValueError\<close> is caught.\<close>

definition answer_store ::
  "HttpServer \<Rightarrow> 'a result \<times> HssStore \<Rightarrow> ('a \<Rightarrow> http_response) \<Rightarrow> http_result" where
  "answer_store srv r f =
     (let srv' = with_store srv (snd r)
      in case fst r of
           Inl e \<Rightarrow> if is_value_error e then respond_error srv' 400 (exn_text e) else (Inl e, [], srv')
         | Inr x \<Rightarrow> (Inr (f x), [], srv'))"

definition do_GET :: "HttpServer \<Rightarrow> http_request \<Rightarrow> http_result" where
  "do_GET srv rq =
     (if path rq \<in> {''/healthz'', ''/readyz''} then respond srv 200 (JObj [(''ready'', JBool True)])
      else if path rq = ''/admin/subscribers'' then
        protected srv rq False
          (respond srv 200 (JList (map subscriber_json (list_all_subs (http_store srv)))))
      else case admin_match rq of
        Some (identity, []) \<Rightarrow>
          protected srv rq False
            (case Option.bind identity (find_public (http_store srv)) of
               None \<Rightarrow> respond_error srv 404 ''not found''
             | Some sub \<Rightarrow> respond srv 200 (subscriber_json sub))
      | _ \<Rightarrow> respond_error srv 404 ''not found'')"

definition do_PUT :: "(bytes \<Rightarrow> json result) \<Rightarrow> HttpServer \<Rightarrow> http_request \<Rightarrow> http_result" where
  "do_PUT loads srv rq =
     (case admin_match rq of
        Some (identity, []) \<Rightarrow>
          protected srv rq False (with_body loads srv rq (\<lambda>request.
            answer_store srv
              (case identity of None \<Rightarrow> (Inr None, http_store srv)
               | Some public \<Rightarrow> update (http_store srv) public request)
              (\<lambda>sub. case sub of None \<Rightarrow> error_response 404 ''not found''
                 | Some sub \<Rightarrow> send_json 200 (subscriber_json sub))))
      | _ \<Rightarrow> respond_error srv 404 ''not found'')"

definition do_DELETE :: "HttpServer \<Rightarrow> http_request \<Rightarrow> http_result" where
  "do_DELETE srv rq =
     (case admin_match rq of
        Some (identity, []) \<Rightarrow>
          protected srv rq False
            (let r = (case identity of None \<Rightarrow> (False, http_store srv) | Some public \<Rightarrow> remove (http_store srv) public)
             in if \<not> fst r then respond_error srv 404 ''not found''
                else (Inr (send_json 200 (JObj [(''ok'', JBool True), (''deleted'', JBool True)])), [],
                      with_store srv (snd r)))
      | _ \<Rightarrow> respond_error srv 404 ''not found'')"

text \<open>The branches of \<open>do_POST\<close>, in its order.\<close>

definition post_authorize :: "(bytes \<Rightarrow> string) \<Rightarrow> (bytes \<Rightarrow> json result) \<Rightarrow> HttpServer \<Rightarrow> http_request \<Rightarrow> http_result" where
  "post_authorize sha256 loads srv rq =
     protected srv rq False (with_body loads srv rq (\<lambda>request.
       let (code, response) = authorization_document sha256 (http_store srv) request
       in respond srv code (JObj response)))"

definition post_provision :: "(bytes \<Rightarrow> json result) \<Rightarrow> HttpServer \<Rightarrow> http_request \<Rightarrow> http_result" where
  "post_provision loads srv rq =
     protected srv rq True
       (case json_body loads rq of
          Inl e \<Rightarrow> (Inl e, [], srv)
        | Inr None \<Rightarrow> respond_error srv 400 ''invalid provisioning request''
        | Inr (Some request) \<Rightarrow>
            if map_of request ''schema'' \<noteq> Some (JStr ''madis.ims.subscriber.provision.v1'')
               \<or> map_of request ''operation'' \<noteq> Some (JStr ''provision'')
            then respond_error srv 400 ''invalid provisioning request''
            else answer_store srv (provision (http_store srv) request)
              (\<lambda>_. send_json 201 (JObj [(''ok'', JBool True), (''provisioned'', JBool True)])))"

definition post_subscribers :: "(bytes \<Rightarrow> json result) \<Rightarrow> HttpServer \<Rightarrow> http_request \<Rightarrow> http_result" where
  "post_subscribers loads srv rq =
     protected srv rq False (with_body loads srv rq (\<lambda>request.
       answer_store srv (provision (http_store srv) request) (\<lambda>sub. send_json 201 (subscriber_json sub))))"

definition post_enable :: "HttpServer \<Rightarrow> http_request \<Rightarrow> string option \<Rightarrow> bool \<Rightarrow> http_result" where
  "post_enable srv rq identity en =
     protected srv rq False
       (let r = (case identity of None \<Rightarrow> (None, http_store srv) | Some public \<Rightarrow> set_enabled (http_store srv) public en)
        in case fst r of
             None \<Rightarrow> respond_error srv 404 ''not found''
           | Some sub \<Rightarrow> (Inr (send_json 200 (subscriber_json sub)), [], with_store srv (snd r)))"

definition answer_push ::
  "HttpServer \<Rightarrow> int result \<times> (conn \<times> bytes) list \<times> HssApp \<Rightarrow> http_result" where
  "answer_push srv r =
     (case r of (res, log, app) \<Rightarrow>
        (bindE res (\<lambda>sent. Inr (send_json 200 (JObj [(''ok'', JBool True), (''peers_notified'', JInt sent)]))),
         log, srv\<lparr>http_app := app\<rparr>))"

definition post_rtr :: "(bytes \<Rightarrow> json result) \<Rightarrow> (conn \<Rightarrow> bool) \<Rightarrow> HttpServer \<Rightarrow> http_request \<Rightarrow> http_result" where
  "post_rtr loads accepts srv rq =
     protected srv rq True (with_body loads srv rq (\<lambda>request.
       case (map_of request ''public_identity'', get_or request ''private_identity'' (JStr []),
             get_or request ''reason'' (JStr ''PERMANENT_TERMINATION'')) of
         (Some (JStr public), JStr private, JStr reason_name) \<Rightarrow>
           (case map_of reason_names reason_name of
              None \<Rightarrow> respond_error srv 400 ''invalid reason code''
            | Some reason \<Rightarrow>
                (case diameter_server srv of
                   None \<Rightarrow> respond_error srv 503 ''no diameter server''
                 | Some ds \<Rightarrow> answer_push srv (push_rtr accepts ds (http_app srv) public private reason)))
       | _ \<Rightarrow> respond_error srv 400 ''invalid RTR fields''))"

definition post_ppr :: "(bytes \<Rightarrow> json result) \<Rightarrow> (conn \<Rightarrow> bool) \<Rightarrow> HttpServer \<Rightarrow> http_request \<Rightarrow> http_result" where
  "post_ppr loads accepts srv rq =
     protected srv rq True (with_body loads srv rq (\<lambda>request.
       case (map_of request ''public_identity'', get_or request ''private_identity'' (JStr []),
             map_of request ''profile'') of
         (Some (JStr public), JStr private, Some (JObj prof)) \<Rightarrow>
           (case diameter_server srv of
              None \<Rightarrow> respond_error srv 503 ''no diameter server''
            | Some ds \<Rightarrow> answer_push srv (push_ppr accepts ds (http_app srv) public private prof))
       | _ \<Rightarrow> respond_error srv 400 ''invalid PPR fields''))"

definition do_POST ::
  "(bytes \<Rightarrow> string) \<Rightarrow> (bytes \<Rightarrow> json result) \<Rightarrow> (conn \<Rightarrow> bool) \<Rightarrow> HttpServer \<Rightarrow> http_request \<Rightarrow> http_result" where
  "do_POST sha256 loads accepts srv rq =
     (if path rq = ''/ims/authorize'' then post_authorize sha256 loads srv rq
      else if path rq = ''/ims/provision'' then post_provision loads srv rq
      else if path rq = ''/admin/subscribers'' then post_subscribers loads srv rq
      else case admin_match rq of
        Some (identity, a # as) \<Rightarrow> post_enable srv rq identity (a # as = ''enable'')
      | _ \<Rightarrow>
          if path rq = ''/admin/rtr'' then post_rtr loads accepts srv rq
          else if path rq = ''/admin/ppr'' then post_ppr loads accepts srv rq
          else respond_error srv 404 ''not found'')"

subsection \<open>The seed file and the start-up checks\<close>

fun seed_items :: "HssStore \<Rightarrow> json list \<Rightarrow> unit result \<times> HssStore" where
  "seed_items st [] = (Inr (), st)"
| "seed_items st (v # vs) =
     (case v of
        JObj item \<Rightarrow>
          (case provision st item of (Inl e, st') \<Rightarrow> (Inl e, st') | (Inr _, st') \<Rightarrow> seed_items st' vs)
      | _ \<Rightarrow> (Inl (ValueError ''seed subscriber must be an object''), st))"

text \<open>\<open>document\<close> is what \<open>json.load\<close> gives for the file, if one is configured.\<close>

definition load_seed :: "HssStore \<Rightarrow> json result option \<Rightarrow> unit result \<times> HssStore" where
  "load_seed st document =
     (case document of
        None \<Rightarrow> (Inr (), st)
      | Some (Inl e) \<Rightarrow> (Inl e, st)
      | Some (Inr (JObj d)) \<Rightarrow>
          (case map_of d ''subscribers'' of
             Some (JList vs) \<Rightarrow> seed_items st vs
           | _ \<Rightarrow> (Inl (ValueError ''seed file must contain a subscribers array''), st))
      | Some (Inr _) \<Rightarrow> (Inl (ValueError ''seed file must contain a subscribers array''), st))"

definition check_token :: "string \<Rightarrow> string \<Rightarrow> string result" where
  "check_token value name =
     (if value \<noteq> [] \<and> length value < 16 then Inl (ValueError (name @ '' must be at least 16 characters''))
      else Inr value)"

end
