(* ===== verification/Py_Ip.thy ===== *)
theory Py_Ip
  imports Py_Text
begin

section \<open>IP addresses as Python's \<open>ipaddress\<close> reads and writes them\<close>

text \<open>
  \<open>ipaddress.ip_address\<close> on text and \<open>str\<close> of its result, with \<open>version\<close>, \<open>is_unspecified\<close> and
  \<open>is_loopback\<close>, for IPv4 and IPv6 (scopes included), as in the Python 3.12 of the lab images. The
  media module and the HSS use them; the round trip is what a rewritten SDP rests on.
\<close>

datatype ip_address = V4 nat | V6 nat "string option"

subsection \<open>Reading\<close>

definition octet_of :: "string \<Rightarrow> nat option" where
  "octet_of s =
     (if s \<noteq> [] \<and> list_all is_digit s \<and> length s \<le> 3 \<and> (s = ''0'' \<or> hd s \<noteq> CHR ''0'')
      then let n = foldl (\<lambda>a c. 10 * a + digit_val c) 0 s in if n \<le> 255 then Some n else None
      else None)"

definition parse_ipv4 :: "string \<Rightarrow> nat option" where
  "parse_ipv4 s =
     (case map octet_of (split_char CHR ''.'' s) of
        [Some a, Some b, Some c, Some d] \<Rightarrow> Some (((a * 256 + b) * 256 + c) * 256 + d)
      | _ \<Rightarrow> None)"

definition hex_value :: "char \<Rightarrow> nat option" where
  "hex_value c =
     (let n = chr_code c
      in if 48 \<le> n \<and> n \<le> 57 then Some (n - 48)
         else if 65 \<le> n \<and> n \<le> 70 then Some (n - 55)
         else if 97 \<le> n \<and> n \<le> 102 then Some (n - 87) else None)"

definition hextet_of :: "string \<Rightarrow> nat option" where
  "hextet_of s =
     (if s \<noteq> [] \<and> length s \<le> 4 \<and> list_all (\<lambda>c. hex_value c \<noteq> None) s
      then Some (foldl (\<lambda>a c. 16 * a + the (hex_value c)) 0 s) else None)"

definition hextets_of :: "string list \<Rightarrow> nat list option" where
  "hextets_of ps = (if list_all (\<lambda>p. hextet_of p \<noteq> None) ps then Some (map (the \<circ> hextet_of) ps) else None)"

definition hex_char :: "nat \<Rightarrow> char" where
  "hex_char d = (if d < 10 then char_of (48 + d) else char_of (87 + d))"

text \<open>\<open>"%x" % n\<close>\<close>

fun hex_str :: "nat \<Rightarrow> string" where
  "hex_str n = (if n < 16 then [hex_char n] else hex_str (n div 16) @ [hex_char (n mod 16)])"

declare hex_str.simps [simp del]

definition ipv6_value :: "nat list \<Rightarrow> nat" where
  "ipv6_value hs = foldl (\<lambda>a h. 65536 * a + h) 0 hs"

text \<open>The parts between the colons, the embedded IPv4 address already turned into two hextets.\<close>

definition ipv6_of_parts :: "string list \<Rightarrow> nat option" where
  "ipv6_of_parts parts =
     (let n = length parts
      in if n > 9 then None
         else case filter (\<lambda>i. parts ! i = []) [1..<n - 1] of
           [] \<Rightarrow>
             if n \<noteq> 8 \<or> hd parts = [] \<or> last parts = [] then None
             else map_option ipv6_value (hextets_of parts)
         | [i] \<Rightarrow>
             let hi = (if hd parts = [] then i - 1 else i);
                 lo = (if last parts = [] then n - i - 2 else n - i - 1)
             in if (hd parts = [] \<and> hi \<noteq> 0) \<or> (last parts = [] \<and> lo \<noteq> 0) \<or> hi + lo \<ge> 8 then None
                else (case (hextets_of (take hi parts), hextets_of (drop (n - lo) parts)) of
                        (Some hs, Some ls) \<Rightarrow> Some (ipv6_value (hs @ replicate (8 - (hi + lo)) 0 @ ls))
                      | _ \<Rightarrow> None)
         | _ \<Rightarrow> None)"

definition parse_ipv6_int :: "string \<Rightarrow> nat option" where
  "parse_ipv6_int s =
     (let parts = split_char CHR '':'' s
      in if length parts < 3 then None
         else if CHR ''.'' \<in> set (last parts) then
           (case parse_ipv4 (last parts) of
              None \<Rightarrow> None
            | Some v \<Rightarrow> ipv6_of_parts (butlast parts @ [hex_str (v div 65536 mod 65536), hex_str (v mod 65536)]))
         else ipv6_of_parts parts)"

definition parse_ipv6 :: "string \<Rightarrow> (nat \<times> string option) option" where
  "parse_ipv6 s =
     (let addr = takeWhile (\<lambda>c. c \<noteq> CHR 0x25) s; rest = dropWhile (\<lambda>c. c \<noteq> CHR 0x25) s
      in if CHR ''/'' \<in> set s then None
         else case rest of
           [] \<Rightarrow> map_option (\<lambda>v. (v, None)) (parse_ipv6_int addr)
         | _ # scope \<Rightarrow>
             if scope = [] \<or> CHR 0x25 \<in> set scope then None
             else map_option (\<lambda>v. (v, Some scope)) (parse_ipv6_int addr))"

definition parse_ip :: "string \<Rightarrow> ip_address option" where
  "parse_ip s =
     (case parse_ipv4 s of
        Some v \<Rightarrow> Some (V4 v)
      | None \<Rightarrow> map_option (\<lambda>(v, scope). V6 v scope) (parse_ipv6 s))"

subsection \<open>Writing\<close>

definition ipv4_str :: "nat \<Rightarrow> string" where
  "ipv4_str v = join ''.'' (map dec_nat [v div 16777216 mod 256, v div 65536 mod 256, v div 256 mod 256, v mod 256])"

definition ipv6_hextets :: "nat \<Rightarrow> nat list" where
  "ipv6_hextets v = map (\<lambda>i. v div 65536 ^ (7 - i) mod 65536) [0..<8]"

text \<open>
  The loop that finds the longest run of zero hextets; \<open>run\<close> is the run that ends at \<open>index\<close>, whose
  start is \<open>index - run\<close>.
\<close>

fun best_zeros :: "nat list \<Rightarrow> nat \<Rightarrow> nat \<Rightarrow> nat \<Rightarrow> nat \<Rightarrow> nat \<times> nat" where
  "best_zeros [] index run start len = (start, len)"
| "best_zeros (h # hs) index run start len =
     (if h = 0 then
        (if run + 1 > len then best_zeros hs (index + 1) (run + 1) (index - run) (run + 1)
         else best_zeros hs (index + 1) (run + 1) start len)
      else best_zeros hs (index + 1) 0 start len)"

definition compress :: "nat list \<Rightarrow> string list" where
  "compress hs =
     (let (start, len) = best_zeros hs 0 0 0 0; ps = map hex_str hs
      in if len > 1 then
           (if start = 0 then [[]] else []) @ take start ps @ [[]] @ drop (start + len) ps
             @ (if start + len = length hs then [[]] else [])
         else ps)"

definition ipv6_str :: "nat \<Rightarrow> string" where
  "ipv6_str v = join '':'' (compress (ipv6_hextets v))"

fun ip_str :: "ip_address \<Rightarrow> string" where
  "ip_str (V4 v) = ipv4_str v"
| "ip_str (V6 v scope) = ipv6_str v @ (case scope of None \<Rightarrow> [] | Some s \<Rightarrow> CHR 0x25 # s)"

fun ip_version :: "ip_address \<Rightarrow> nat" where
  "ip_version (V4 v) = 4"
| "ip_version (V6 v scope) = 6"

text \<open>An IPv4-mapped IPv6 address counts as the IPv4 address.\<close>

definition mapped_ipv4 :: "nat \<Rightarrow> nat option" where
  "mapped_ipv4 v = (if v div 4294967296 = 0xFFFF then Some (v mod 4294967296) else None)"

fun is_unspecified :: "ip_address \<Rightarrow> bool" where
  "is_unspecified (V4 v) = (v = 0)"
| "is_unspecified (V6 v scope) = (case mapped_ipv4 v of None \<Rightarrow> v = 0 | Some w \<Rightarrow> w = 0)"

fun is_loopback :: "ip_address \<Rightarrow> bool" where
  "is_loopback (V4 v) = (v div 16777216 = 127)"
| "is_loopback (V6 v scope) = (case mapped_ipv4 v of None \<Rightarrow> v = 1 | Some w \<Rightarrow> w div 16777216 = 127)"

subsection \<open>Reading back what was written\<close>

lemma split_char_join: "ws \<noteq> [] \<Longrightarrow> \<forall>w \<in> set ws. c \<notin> set w \<Longrightarrow> split_char c (join [c] ws) = ws"
proof (induction ws rule: induct_list012)
  case (3 w v ws)
  then show ?case by (simp add: split_char_append)
qed (simp_all add: split_char_no_sep)

lemma set_join: "set (join sep ws) \<subseteq> set sep \<union> \<Union> (set ` set ws)"
  by (induction sep ws rule: join.induct) auto

lemma scan_digits_foldl:
  "list_all is_digit s \<Longrightarrow> s \<noteq> [] \<or> b \<Longrightarrow> scan_digits b acc s = Some (foldl (\<lambda>a c. 10 * a + digit_val c) acc s)"
  by (induction s arbitrary: b acc) auto

lemma dec_nat_value: "foldl (\<lambda>a c. 10 * a + digit_val c) 0 (dec_nat n) = n"
  using scan_digits_foldl [OF dec_nat_digits, of n False 0] scan_dec_nat [of False n] by simp

lemma octet_of_dec: "n \<le> 255 \<Longrightarrow> octet_of (dec_nat n) = Some n"
proof -
  assume n: "n \<le> 255"
  then have "length (dec_nat n) \<le> 3" by (intro dec_nat_length) simp_all
  moreover have "dec_nat 0 = ''0''"
    by (subst dec_nat.simps) (simp add: digit_char_def char_of_eq_iff take_bit_eq_mod)
  then have "dec_nat n = ''0'' \<or> hd (dec_nat n) \<noteq> CHR ''0''"
    using dec_nat_hd_nonzero [of n] by (cases "n = 0") auto
  ultimately show ?thesis
    using n dec_nat_digits [of n] by (simp add: octet_of_def dec_nat_value)
qed

lemma dec_nat_chars: "c \<in> set (dec_nat n) \<Longrightarrow> 48 \<le> chr_code c \<and> chr_code c \<le> 57"
  using dec_nat_digits [of n] by (auto simp: list_all_iff is_digit_def)

lemma div_mod_256: "v < 4294967296 \<Longrightarrow>
  ((v div 16777216 mod 256 * 256 + v div 65536 mod 256) * 256 + v div 256 mod 256) * 256 + v mod 256 = (v::nat)"
proof -
  assume "v < 4294967296"
  then have "v div 16777216 < 256" by (simp add: less_mult_imp_div_less)
  moreover have "v div 65536 div 256 = v div 16777216" "v div 256 div 256 = v div 65536"
    using div_mult2_eq [of v 65536 256] div_mult2_eq [of v 256 256] by simp_all
  moreover have "x div 256 * 256 + x mod 256 = x" for x :: nat by simp
  ultimately show ?thesis by (metis mod_less)
qed

lemma parse_ipv4_str: "v < 4294967296 \<Longrightarrow> parse_ipv4 (ipv4_str v) = Some v"
proof -
  assume v: "v < 4294967296"
  let ?ps = "map dec_nat [v div 16777216 mod 256, v div 65536 mod 256, v div 256 mod 256, v mod 256]"
  have "CHR ''.'' \<notin> set p" if "p \<in> set ?ps" for p
    using that dec_nat_chars [of "CHR ''.''"] by fastforce
  then have "split_char CHR ''.'' (join ''.'' ?ps) = ?ps"
    by (intro split_char_join) simp_all
  moreover have "octet_of (dec_nat (x mod 256)) = Some (x mod 256)" for x
    by (rule octet_of_dec) (use mod_less_divisor [of 256 x] in simp)
  moreover have "v div 16777216 < 256" using v by (simp add: less_mult_imp_div_less)
  then have "v div 16777216 mod 256 = v div 16777216" "octet_of (dec_nat (v div 16777216)) = Some (v div 16777216)"
    using octet_of_dec [of "v div 16777216"] by simp_all
  ultimately show ?thesis
    using div_mod_256 [OF v] by (simp add: parse_ipv4_def ipv4_str_def del: join.simps)
qed

text \<open>IPv6: the hextets.\<close>

lemma hex_char_value: "d < 16 \<Longrightarrow> hex_value (hex_char d) = Some d"
proof -
  assume "d < 16"
  then have "d = 0 \<or> d = 1 \<or> d = 2 \<or> d = 3 \<or> d = 4 \<or> d = 5 \<or> d = 6 \<or> d = 7
      \<or> d = 8 \<or> d = 9 \<or> d = 10 \<or> d = 11 \<or> d = 12 \<or> d = 13 \<or> d = 14 \<or> d = 15" by presburger
  then show ?thesis by (auto simp: hex_value_def hex_char_def)
qed

lemma hex_str_digits: "list_all (\<lambda>c. hex_value c \<noteq> None) (hex_str n)"
  by (induction n rule: hex_str.induct) (subst hex_str.simps, simp add: hex_char_value)

lemma hex_str_not_Nil [simp]: "hex_str n \<noteq> []"
  by (subst hex_str.simps) simp

lemma Nil_not_hex_str [simp]: "[] \<noteq> hex_str n"
  using hex_str_not_Nil [of n] by metis

lemma hex_str_value: "foldl (\<lambda>a c. 16 * a + the (hex_value c)) 0 (hex_str n) = n"
proof (induction n rule: hex_str.induct)
  case (1 n)
  then show ?case by (subst hex_str.simps) (simp add: hex_char_value)
qed

lemma hex_str_length: "n < 16 ^ k \<Longrightarrow> 0 < k \<Longrightarrow> length (hex_str n) \<le> k"
proof (induction n arbitrary: k rule: hex_str.induct)
  case (1 n)
  show ?case
  proof (cases "n < 16")
    case True
    with 1 show ?thesis by (subst hex_str.simps) simp
  next
    case False
    then obtain k' where k: "k = Suc k'" "0 < k'"
      using "1.prems" by (cases k; cases "k - 1") auto
    then have "n div 16 < 16 ^ k'" using "1.prems" by (simp add: less_mult_imp_div_less mult.commute)
    from "1.IH" [OF False this k(2)] False show ?thesis by (subst hex_str.simps) (simp add: k)
  qed
qed

lemma hextet_of_hex: "n < 65536 \<Longrightarrow> hextet_of (hex_str n) = Some n"
  using hex_str_length [of n 4] hex_str_digits [of n] by (simp add: hextet_of_def hex_str_value)

lemma hex_str_chars: "c \<in> set (hex_str n) \<Longrightarrow> c \<notin> {CHR '':'', CHR ''.'', CHR ''/'', CHR 0x25}"
  using hex_str_digits [of n] by (auto simp: list_all_iff hex_value_def)

lemma hextets_of_hex: "\<forall>h \<in> set hs. h < 65536 \<Longrightarrow> hextets_of (map hex_str hs) = Some hs"
  by (auto simp: hextets_of_def list_all_iff hextet_of_hex comp_def intro: map_idI)

definition zeros_at :: "nat list \<Rightarrow> nat \<Rightarrow> nat \<Rightarrow> bool" where
  "zeros_at hs start len \<longleftrightarrow> start + len \<le> length hs \<and> (\<forall>i. start \<le> i \<and> i < start + len \<longrightarrow> hs ! i = 0)"

lemma zeros_at_append: "zeros_at hs a n \<Longrightarrow> zeros_at (hs @ ys) a n"
  by (auto simp: zeros_at_def nth_append)

lemma best_zeros_run:
  assumes "best_zeros hs (length pre) run start len = (s, n)"
    and "run \<le> length pre" and "zeros_at pre (length pre - run) run" and "zeros_at pre start len"
  shows "zeros_at (pre @ hs) s n"
  using assms
proof (induction hs arbitrary: pre run start len)
  case Nil
  then show ?case by simp
next
  case (Cons h hs)
  have st: "zeros_at (pre @ [h]) start len" using Cons.prems(4) by (rule zeros_at_append)
  show ?case
  proof (cases "h = 0")
    case True
    have run: "zeros_at (pre @ [h]) (length (pre @ [h]) - (run + 1)) (run + 1)"
      using Cons.prems(2,3) True by (auto simp: zeros_at_def nth_append less_Suc_eq)
    show ?thesis
    proof (cases "run + 1 > len")
      case True
      have "zeros_at (pre @ [h]) (length pre - run) (run + 1)" using run by simp
      with Cons.IH [of "pre @ [h]" "run + 1" "length pre - run" "run + 1"] Cons.prems(1,2) run True \<open>h = 0\<close>
      show ?thesis by simp
    next
      case False
      with Cons.IH [of "pre @ [h]" "run + 1" start len] Cons.prems(1,2) run st \<open>h = 0\<close>
      show ?thesis by simp
    qed
  next
    case False
    with Cons.IH [of "pre @ [h]" 0 start len] Cons.prems(1) st show ?thesis
      by (simp add: zeros_at_def)
  qed
qed

lemma best_zeros_at: "best_zeros hs 0 0 0 0 = (s, n) \<Longrightarrow> zeros_at hs s n"
  using best_zeros_run [of hs "[]" 0 0 0 s n] by (simp add: zeros_at_def)

lemma zeros_at_split:
  assumes "zeros_at hs s n"
  shows "hs = take s hs @ replicate n 0 @ drop (s + n) hs"
proof (rule nth_equalityI)
  show "length hs = length (take s hs @ replicate n 0 @ drop (s + n) hs)"
    using assms by (simp add: zeros_at_def)
  fix i
  assume "i < length hs"
  then show "hs ! i = (take s hs @ replicate n 0 @ drop (s + n) hs) ! i"
    using assms by (auto simp: zeros_at_def nth_append)
qed

text \<open>Parts with one gap: what the reader makes of them.\<close>

lemma no_gap: "\<forall>p \<in> set ps. p \<noteq> [] \<Longrightarrow> filter (\<lambda>i. ps ! i = []) [1..<length ps - 1] = []"
  by (auto simp: filter_empty_conv)

lemma ipv6_of_hex:
  assumes "length hs = 8" and "\<forall>h \<in> set hs. h < 65536"
  shows "ipv6_of_parts (map hex_str hs) = Some (ipv6_value hs)"
proof -
  have "filter (\<lambda>i. map hex_str hs ! i = []) [1..<length (map hex_str hs) - 1] = []"
    by (rule no_gap) auto
  moreover have "hs \<noteq> []" using assms(1) by auto
  then have "hd (map hex_str hs) \<noteq> []" "last (map hex_str hs) \<noteq> []"
    by (simp_all add: hd_map last_map)
  ultimately show ?thesis
    using assms hextets_of_hex [OF assms(2)] by (simp add: ipv6_of_parts_def Let_def del: length_map) simp
qed

lemma ipv6_of_gap:
  assumes "length hs = 8" and "\<forall>h \<in> set hs. h < 65536" and z: "zeros_at hs s n" and "1 < n"
  shows "ipv6_of_parts ((if s = 0 then [[]] else []) @ take s (map hex_str hs) @ [[]] @ drop (s + n) (map hex_str hs)
    @ (if s + n = length hs then [[]] else [])) = Some (ipv6_value hs)"
proof -
  define hi where "hi = (if s = 0 then [[]] else take s (map hex_str hs))"
  define lo where "lo = (if s + n = 8 then [[]] else drop (s + n) (map hex_str hs))"
  let ?ps = "hi @ [[]] @ lo"
  have sn: "s + n \<le> 8" using z assms(1) by (simp add: zeros_at_def)
  have ps: "(if s = 0 then [[]] else []) @ take s (map hex_str hs) @ [[]] @ drop (s + n) (map hex_str hs)
    @ (if s + n = length hs then [[]] else []) = ?ps"
    using assms(1) by (simp add: hi_def lo_def)
  have lens: "length hi = (if s = 0 then 1 else s)" "length lo = (if s + n = 8 then 1 else 8 - (s + n))"
    using sn assms(1) by (simp_all add: hi_def lo_def)
  let ?hi = "take s (map hex_str hs)" and ?lo = "drop (s + n) (map hex_str hs)"
  have ne: "\<forall>p \<in> set ?hi. p \<noteq> []" "\<forall>p \<in> set ?lo. p \<noteq> []"
    by (auto dest!: in_set_takeD in_set_dropD dest: sym)
  have inner: "filter (\<lambda>i. ?ps ! i = []) [1..<length ?ps - 1] = [length hi]"
  proof -
    have i1: "?ps ! i \<noteq> []" if "1 \<le> i" "i < length ?ps - 1" "i \<noteq> length hi" for i
    proof (cases "i < length hi")
      case True
      with that(1) lens(1) have "s \<noteq> 0" by (auto split: if_splits)
      with True have "?ps ! i = ?hi ! i" "i < length ?hi" using lens(1) sn assms(1) by (simp_all add: nth_append hi_def)
      with ne(1) show ?thesis by (metis nth_mem)
    next
      case False
      with that(2,3) lens(2) have "s + n \<noteq> 8" "length hi < i" by (auto split: if_splits)
      then have "?ps ! i = ?lo ! (i - length hi - 1)" "i - length hi - 1 < length ?lo"
        using that(2) lens(2) assms(1) by (auto simp: nth_append lo_def nth_Cons')
      with ne(2) show ?thesis by (metis nth_mem)
    qed
    have "1 \<le> length hi" "length hi < length ?ps - 1" "?ps ! length hi = []"
      using lens sn assms(4) by (auto simp: nth_append)
    then obtain k where "length ?ps - 1 = length hi + Suc k"
      by (metis less_iff_Suc_add add_Suc_right)
    with \<open>1 \<le> length hi\<close> upt_add_eq_append [of 1 "length hi" "Suc k"]
    have "[1..<length ?ps - 1] = [1..<length hi] @ length hi # [Suc (length hi)..<length ?ps - 1]"
      by (simp add: upt_conv_Cons [of "length hi"] del: upt_Suc)
    moreover have "filter (\<lambda>i. ?ps ! i = []) [1..<length hi] = []"
      "filter (\<lambda>i. ?ps ! i = []) [Suc (length hi)..<length ?ps - 1] = []"
      using i1 lens by (auto simp: filter_empty_conv split: if_splits)
    ultimately show ?thesis using \<open>?ps ! length hi = []\<close> by simp
  qed
  have hd: "hd ?ps = [] \<longleftrightarrow> s = 0" and la: "last ?ps = [] \<longleftrightarrow> s + n = 8"
    using ne sn assms(1) by (auto simp: hi_def lo_def hd_append last_append hd_map last_map take_map drop_map)
  have nn: "length ?ps = length hi + 1 + length lo" by simp
  have tk: "take s ?ps = ?hi" "drop (length ?ps - (8 - (s + n))) ?ps = ?lo"
    using lens sn assms(1) by (auto simp: hi_def lo_def)
  have h: "hextets_of ?hi = Some (take s hs)" "hextets_of ?lo = Some (drop (s + n) hs)"
    using assms(2) hextets_of_hex [of "take s hs"] hextets_of_hex [of "drop (s + n) hs"]
    by (auto simp: take_map drop_map dest: in_set_takeD in_set_dropD)
  have v: "take s hs @ replicate (8 - (s + (8 - (s + n)))) 0 @ drop (s + n) hs = hs"
    using zeros_at_split [OF z] sn by simp
  have H: "(if hd ?ps = [] then length hi - 1 else length hi) = s" using hd lens(1) by simp
  have L: "(if last ?ps = [] then length ?ps - length hi - 2 else length ?ps - length hi - 1) = 8 - (s + n)"
    using la lens(2) sn by simp
  have c1: "\<not> length ?ps > 9"
    using lens sn assms(4) by (auto split: if_splits)
  have c2: "\<not> ((hd ?ps = [] \<and> s \<noteq> 0) \<or> (last ?ps = [] \<and> 8 - (s + n) \<noteq> 0) \<or> s + (8 - (s + n)) \<ge> 8)"
    using hd la sn assms(4) by auto
  show ?thesis
    unfolding ps ipv6_of_parts_def Let_def inner list.case H L
    by (simp only: c1 c2 if_False tk h option.case prod.case v)
qed

lemma compress_parts: "length hs = 8 \<Longrightarrow> \<forall>h \<in> set hs. h < 65536 \<Longrightarrow> ipv6_of_parts (compress hs) = Some (ipv6_value hs)"
  using ipv6_of_hex [of hs] ipv6_of_gap [of hs] best_zeros_at [of hs]
  by (cases "best_zeros hs 0 0 0 0") (simp add: compress_def Let_def)

lemma compress_chars: "p \<in> set (compress hs) \<Longrightarrow> c \<in> set p \<Longrightarrow> c \<notin> {CHR '':'', CHR ''.'', CHR ''/'', CHR 0x25}"
proof -
  assume p: "p \<in> set (compress hs)" and c: "c \<in> set p"
  have "p = [] \<or> (\<exists>h. p = hex_str h)"
    using p by (auto simp: compress_def Let_def split: prod.splits if_splits dest!: in_set_takeD in_set_dropD)
  with c show ?thesis using hex_str_chars by auto
qed

lemma compress_length: "length hs = 8 \<Longrightarrow> 3 \<le> length (compress hs)"
proof -
  assume l: "length hs = 8"
  obtain s n where b: "best_zeros hs 0 0 0 0 = (s, n)" by (cases "best_zeros hs 0 0 0 0")
  from best_zeros_at [OF b] l have "s + n \<le> 8" by (simp add: zeros_at_def)
  then show ?thesis using l by (auto simp: compress_def b Let_def)
qed

lemma length_hextets [simp]: "length (ipv6_hextets v) = 8"
  by (simp add: ipv6_hextets_def)

lemma hextets_bound: "\<forall>h \<in> set (ipv6_hextets v). h < 65536"
  by (simp add: ipv6_hextets_def)

lemma foldl_hextets:
  "foldl (\<lambda>a h. 65536 * a + h) 0 (map (\<lambda>i. v div 65536 ^ (n - Suc i) mod 65536) [0..<n]) = v mod (65536::nat) ^ n"
proof (induction n arbitrary: v)
  case (Suc n)
  define A where "A i = v div 65536 ^ (Suc n - Suc i) mod 65536" for i
  have "A i = v div 65536 div 65536 ^ (n - Suc i) mod 65536" if "i < n" for i
  proof -
    have "Suc n - Suc i = Suc (n - Suc i)" using that by simp
    then show ?thesis unfolding A_def by (simp only: power_Suc div_mult2_eq)
  qed
  then have m: "map A [0..<n] = map (\<lambda>i. v div 65536 div 65536 ^ (n - Suc i) mod 65536) [0..<n]"
    by (intro map_cong) simp_all
  have "map A [0..<Suc n] = map A [0..<n] @ [v mod 65536]" by (simp add: A_def)
  then have "foldl (\<lambda>a h. 65536 * a + h) 0 (map A [0..<Suc n]) = 65536 * (v div 65536 mod 65536 ^ n) + v mod 65536"
    using Suc [of "v div 65536"] unfolding m by (simp only: foldl_append foldl.simps)
  then have "foldl (\<lambda>a h. 65536 * a + h) 0 (map (\<lambda>i. v div 65536 ^ (Suc n - Suc i) mod 65536) [0..<Suc n])
      = 65536 * (v div 65536 mod 65536 ^ n) + v mod 65536"
    unfolding A_def .
  also have "\<dots> = v mod 65536 ^ Suc n"
    by (simp only: power_Suc mod_mult2_eq)
  finally show ?case .
qed simp

lemma ipv6_value_hextets: "v < 2 ^ 128 \<Longrightarrow> ipv6_value (ipv6_hextets v) = v"
  using foldl_hextets [of v 8] by (simp add: ipv6_value_def ipv6_hextets_def)

lemma split_char_covers: "x \<in> set s \<Longrightarrow> x \<noteq> c \<Longrightarrow> \<exists>w \<in> set (split_char c s). x \<in> set w"
proof (induction s)
  case (Cons y s)
  show ?case
  proof (cases "x = y")
    case True
    with Cons.prems show ?thesis by (auto split: list.splits)
  next
    case False
    with Cons obtain w where "w \<in> set (split_char c s)" "x \<in> set w" by auto
    then show ?thesis by (cases "split_char c s") auto
  qed
qed simp

lemma octet_of_digits: "octet_of w = Some n \<Longrightarrow> x \<in> set w \<Longrightarrow> is_digit x"
  by (auto simp: octet_of_def list_all_iff split: if_splits)

lemma parse_ipv4_colon: "CHR '':'' \<in> set s \<Longrightarrow> parse_ipv4 s = None"
proof (rule ccontr)
  assume c: "CHR '':'' \<in> set s" and "parse_ipv4 s \<noteq> None"
  then obtain a b d e where "map octet_of (split_char CHR ''.'' s) = [Some a, Some b, Some d, Some e]"
    by (auto simp: parse_ipv4_def split: list.splits option.splits)
  then have "octet_of w \<noteq> None" if "w \<in> set (split_char CHR ''.'' s)" for w
    using that by (auto simp: map_eq_Cons_conv)
  moreover from split_char_covers [OF c] obtain w where "w \<in> set (split_char CHR ''.'' s)" "CHR '':'' \<in> set w"
    by auto
  ultimately show False using octet_of_digits [of w _ "CHR '':''"] by (auto simp: is_digit_def)
qed

definition wf_ip :: "ip_address \<Rightarrow> bool" where
  "wf_ip a \<longleftrightarrow>
     (case a of
        V4 v \<Rightarrow> v < 2 ^ 32
      | V6 v scope \<Rightarrow> v < 2 ^ 128
          \<and> (\<forall>s \<in> set_option scope. s \<noteq> [] \<and> CHR 0x25 \<notin> set s \<and> CHR ''/'' \<notin> set s))"

lemma ipv6_str_chars: "c \<in> set (ipv6_str v) \<Longrightarrow> c \<notin> {CHR ''.'', CHR ''/'', CHR 0x25}"
  using set_join [of "'':''" "compress (ipv6_hextets v)"] compress_chars [of _ "ipv6_hextets v" c]
  by (fastforce simp: ipv6_str_def)

lemma parse_ipv6_int_str: "v < 2 ^ 128 \<Longrightarrow> parse_ipv6_int (ipv6_str v) = Some v"
proof -
  assume v: "v < 2 ^ 128"
  let ?ps = "compress (ipv6_hextets v)"
  have len: "3 \<le> length ?ps" by (rule compress_length) simp
  then have ne: "?ps \<noteq> []" by auto
  have sp: "split_char CHR '':'' (ipv6_str v) = ?ps"
    unfolding ipv6_str_def using compress_chars [of _ "ipv6_hextets v" "CHR '':''"] by (intro split_char_join ne) auto
  have "CHR ''.'' \<notin> set (last ?ps)" using compress_chars [of "last ?ps" "ipv6_hextets v" "CHR ''.''"] ne by auto
  then show ?thesis
    using len compress_parts [OF length_hextets hextets_bound] ipv6_value_hextets [OF v]
    by (simp add: parse_ipv6_int_def sp Let_def)
qed

lemma ipv6_str_colon: "CHR '':'' \<in> set (ipv6_str v)"
proof -
  have "3 \<le> length (compress (ipv6_hextets v))" by (rule compress_length) simp
  then show ?thesis by (cases "compress (ipv6_hextets v)" rule: remdups_adj.cases) (auto simp: ipv6_str_def)
qed

lemma parse_ip_str: "wf_ip a \<Longrightarrow> parse_ip (ip_str a) = Some a"
proof (cases a)
  case (V4 v)
  assume "wf_ip a"
  with V4 show ?thesis by (simp add: parse_ip_def parse_ipv4_str wf_ip_def)
next
  case (V6 v scope)
  assume w: "wf_ip a"
  then have v: "v < 2 ^ 128" by (simp add: V6 wf_ip_def)
  have no: "\<forall>c \<in> set (ipv6_str v). c \<noteq> CHR 0x25" "CHR ''/'' \<notin> set (ipv6_str v)"
    using ipv6_str_chars by auto
  have "parse_ipv6 (ip_str a) = Some (v, scope)"
    using w no parse_ipv6_int_str [OF v]
    by (cases scope) (auto simp: V6 parse_ipv6_def Let_def wf_ip_def takeWhile_append2 dropWhile_append2
        takeWhile_eq_all_conv [THEN iffD2] dropWhile_eq_Nil_conv [THEN iffD2])
  moreover have "parse_ipv4 (ip_str a) = None"
    by (rule parse_ipv4_colon) (simp add: V6 ipv6_str_colon)
  ultimately show ?thesis by (simp add: parse_ip_def V6)
qed

lemma octet_of_bound: "octet_of w = Some n \<Longrightarrow> n \<le> 255"
  by (auto simp: octet_of_def Let_def split: if_splits)

lemma parse_ipv4_bound: "parse_ipv4 s = Some v \<Longrightarrow> v < 2 ^ 32"
proof -
  assume "parse_ipv4 s = Some v"
  then obtain a b c d where m: "map octet_of (split_char CHR ''.'' s) = [Some a, Some b, Some c, Some d]"
    and v: "v = ((a * 256 + b) * 256 + c) * 256 + d"
    by (auto simp: parse_ipv4_def split: list.splits option.splits)
  from m have "a \<le> 255 \<and> b \<le> 255 \<and> c \<le> 255 \<and> d \<le> 255"
    by (auto simp: map_eq_Cons_conv dest!: octet_of_bound)
  then show ?thesis by (simp add: v)
qed

lemma hex_value_bound: "hex_value c = Some n \<Longrightarrow> n < 16"
  by (auto simp: hex_value_def Let_def split: if_splits)

lemma foldl_base_bound:
  "\<forall>x \<in> set xs. f x < b \<Longrightarrow> foldl (\<lambda>a x. b * a + f x) 0 xs < (b::nat) ^ length xs"
proof (induction xs rule: rev_induct)
  case (snoc x xs)
  let ?v = "foldl (\<lambda>a x. b * a + f x) 0 xs"
  from snoc have "?v + 1 \<le> b ^ length xs" "f x < b" by auto
  then have "b * ?v + f x < b * ?v + b" "b * (?v + 1) \<le> b * b ^ length xs"
    by (simp_all only: add_less_cancel_left mult_le_mono2)
  then have "b * ?v + f x < b * b ^ length xs" by (simp add: distrib_left)
  then show ?case by simp
qed simp

lemma hextet_of_bound: "hextet_of s = Some n \<Longrightarrow> n < 65536"
proof -
  assume h: "hextet_of s = Some n"
  then have l: "length s \<le> 4" and n: "n = foldl (\<lambda>a c. 16 * a + the (hex_value c)) 0 s"
    and d: "\<forall>x \<in> set s. \<exists>y. hex_value x = Some y"
    by (auto simp: hextet_of_def list_all_iff split: if_splits)
  have c: "\<forall>x \<in> set s. the (hex_value x) < 16" using d hex_value_bound by fastforce
  have "n < 16 ^ length s" unfolding n by (rule foldl_base_bound) (rule c)
  also have "\<dots> \<le> 16 ^ 4" by (rule power_increasing) (use l in simp_all)
  finally show ?thesis by simp
qed

lemma hextets_of_bound: "hextets_of ps = Some hs \<Longrightarrow> length hs = length ps \<and> (\<forall>h \<in> set hs. h < 65536)"
  using hextet_of_bound by (fastforce simp: hextets_of_def list_all_iff split: if_splits)

lemma ipv6_value_bound: "\<forall>h \<in> set hs. h < 65536 \<Longrightarrow> length hs = 8 \<Longrightarrow> ipv6_value hs < 2 ^ 128"
  using foldl_base_bound [of hs "\<lambda>h. h" 65536] by (simp add: ipv6_value_def)

lemma ipv6_of_parts_bound:
  assumes "ipv6_of_parts parts = Some v"
  shows "v < 2 ^ 128"
proof -
  let ?n = "length parts"
  show ?thesis
  proof (cases "filter (\<lambda>i. parts ! i = []) [1..<?n - 1]" rule: remdups_adj.cases)
    case 1
    with assms obtain hs where "hextets_of parts = Some hs" "v = ipv6_value hs" "?n = 8"
      by (auto simp: ipv6_of_parts_def Let_def split: if_splits)
    then show ?thesis using hextets_of_bound ipv6_value_bound by fastforce
  next
    case (2 i)
    define hi where "hi = (if hd parts = [] then i - 1 else i)"
    define lo where "lo = (if last parts = [] then ?n - i - 2 else ?n - i - 1)"
    have "i \<in> set (filter (\<lambda>i. parts ! i = []) [1..<?n - 1])" by (simp only: 2 list.set_intros)
    then have i: "i < ?n - 1" by simp
    from assms [unfolded ipv6_of_parts_def Let_def 2 list.case, folded hi_def lo_def] obtain hs ls
      where h: "hextets_of (take hi parts) = Some hs" "hextets_of (drop (?n - lo) parts) = Some ls"
      and v: "v = ipv6_value (hs @ replicate (8 - (hi + lo)) 0 @ ls)" and le: "\<not> hi + lo \<ge> 8"
      by (simp split: if_split_asm option.split_asm)
    have "i \<le> ?n" "i - 1 \<le> ?n" using i by linarith+
    then have "hi \<le> ?n" "lo \<le> ?n" by (simp_all add: hi_def lo_def)
    with hextets_of_bound [OF h(1)] hextets_of_bound [OF h(2)] le
    have "length (hs @ replicate (8 - (hi + lo)) 0 @ ls) = 8" "\<forall>x \<in> set (hs @ replicate (8 - (hi + lo)) 0 @ ls). x < 65536"
      by auto
    with v ipv6_value_bound show ?thesis by blast
  next
    case (3 i j ks)
    with assms show ?thesis by (simp add: ipv6_of_parts_def Let_def split: if_splits)
  qed
qed

lemma parse_ip_wf: "parse_ip s = Some a \<Longrightarrow> wf_ip a"
proof -
  assume p: "parse_ip s = Some a"
  show ?thesis
  proof (cases "parse_ipv4 s")
    case (Some v)
    with p parse_ipv4_bound [OF Some] show ?thesis by (auto simp: parse_ip_def wf_ip_def)
  next
    case None
    with p obtain v scope where v: "parse_ipv6 s = Some (v, scope)" "a = V6 v scope"
      by (auto simp: parse_ip_def)
    have b: "parse_ipv6_int t = Some w \<Longrightarrow> w < 2 ^ 128" for t w
      by (auto simp: parse_ipv6_int_def Let_def dest: ipv6_of_parts_bound split: if_splits option.splits)
    let ?addr = "takeWhile (\<lambda>c. c \<noteq> CHR 0x25) s" and ?rest = "dropWhile (\<lambda>c. c \<noteq> CHR 0x25) s"
    have sl: "CHR ''/'' \<notin> set s" using v(1) by (auto simp: parse_ipv6_def Let_def)
    show ?thesis
    proof (cases ?rest)
      case Nil
      from v(1) [unfolded parse_ipv6_def Let_def Nil if_not_P [OF sl] list.case] v(2) show ?thesis
        by (auto simp: wf_ip_def dest: b)
    next
      case (Cons c t)
      have "set ?rest \<subseteq> set s" by (auto dest: set_dropWhileD)
      then have "set t \<subseteq> set s" unfolding Cons by simp
      with v(1) [unfolded parse_ipv6_def Let_def Cons if_not_P [OF sl] list.case] v(2) sl show ?thesis
        by (auto simp: wf_ip_def dest: b split: if_split_asm)
    qed
  qed
qed

end
