(* ===== verification/Hss_System.thy ===== *)
theory Hss_System
  imports Hss_Http Hss_Properties Py_Ip
begin

section \<open>The lab HSS as one system\<close>

text \<open>
  The HTTP handlers, the Diameter connections and the store put together: \<open>http_serve\<close> is one HTTP
  request, \<open>hss_step\<close> any one step of any thread. The lemmas show what a step keeps, who may cause
  a change, and that no response depends on an XRES value.
\<close>

datatype http_method = GET | POST | PUT | DELETE

definition http_serve ::
  "(bytes \<Rightarrow> string) \<Rightarrow> (bytes \<Rightarrow> json result) \<Rightarrow> (conn \<Rightarrow> bool) \<Rightarrow> HttpServer \<Rightarrow> http_method \<Rightarrow> http_request
     \<Rightarrow> http_result" where
  "http_serve sha256 loads accepts srv m rq =
     (case m of
        GET \<Rightarrow> do_GET srv rq
      | POST \<Rightarrow> do_POST sha256 loads accepts srv rq
      | PUT \<Rightarrow> do_PUT loads srv rq
      | DELETE \<Rightarrow> do_DELETE srv rq)"

abbreviation http_after :: "http_result \<Rightarrow> HttpServer" where
  "http_after r \<equiv> snd (snd r)"

abbreviation http_pushes :: "http_result \<Rightarrow> (conn \<times> bytes) list" where
  "http_pushes r \<equiv> fst (snd r)"

subsection \<open>Who may change anything\<close>

definition bearer :: "http_request \<Rightarrow> string \<Rightarrow> bool" where
  "bearer rq token \<longleftrightarrow> token \<noteq> [] \<and> header rq ''Authorization'' = Some (''Bearer '' @ token)"

lemma authorized_True:
  "authorized srv rq provisioning = Inr True \<longleftrightarrow>
     (if provisioning then bearer rq (provision_token srv) \<and> is_ascii (provision_token srv)
      else http_token srv = [] \<or> (bearer rq (http_token srv) \<and> is_ascii (http_token srv)))"
  by (auto simp: authorized_def bearer_def compare_digest_def Let_def is_ascii_def split: option.splits)

definition harmless :: "HttpServer \<Rightarrow> http_result \<Rightarrow> bool" where
  "harmless srv r \<longleftrightarrow> http_after r = srv \<and> http_pushes r = []"

lemma harmless_simps [simp]:
  "harmless srv (respond srv code v)" "harmless srv (respond_error srv code t)" "harmless srv (Inl e, [], srv)"
  "harmless srv (Inr x, [], srv)"
  by (simp_all add: harmless_def respond_def respond_error_def)

lemma harmless_protected [intro]:
  "authorized srv rq p \<noteq> Inr True \<or> harmless srv k \<Longrightarrow> harmless srv (protected srv rq p k)"
  by (auto simp: protected_def split: sum.splits bool.splits)

lemma harmless_with_body: "(\<And>d. harmless srv (k d)) \<Longrightarrow> harmless srv (with_body loads srv rq k)"
  by (auto simp: with_body_def split: sum.splits option.splits)

lemma do_GET_harmless: "harmless srv (do_GET srv rq)"
  by (auto simp: do_GET_def split: option.splits list.splits prod.splits)

lemma post_authorize_harmless: "harmless srv (post_authorize sha256 loads srv rq)"
  unfolding post_authorize_def
  by (rule harmless_protected) (auto intro: harmless_with_body split: prod.splits)

lemma unauthorized_harmless:
  assumes "authorized srv rq False \<noteq> Inr True" and "authorized srv rq True \<noteq> Inr True"
  shows "harmless srv (http_serve sha256 loads accepts srv m rq)"
proof (cases m)
  case GET
  then show ?thesis by (simp add: http_serve_def do_GET_harmless)
next
  case POST
  then show ?thesis
    using assms
    by (auto simp: http_serve_def do_POST_def post_authorize_harmless post_provision_def post_subscribers_def
        post_enable_def post_rtr_def post_ppr_def split: option.splits list.splits prod.splits)
next
  case PUT
  then show ?thesis
    using assms by (auto simp: http_serve_def do_PUT_def split: option.splits list.splits prod.splits)
next
  case DELETE
  then show ?thesis
    using assms by (auto simp: http_serve_def do_DELETE_def split: option.splits list.splits prod.splits)
qed

lemma no_pushes [simp]:
  "http_pushes (respond srv code v) = []" "http_pushes (respond_error srv code t) = []"
  "http_pushes (answer_store srv r f) = []"
  by (simp_all add: respond_def respond_error_def answer_store_def Let_def split: sum.splits)

lemma no_pushes_protected: "http_pushes k = [] \<Longrightarrow> http_pushes (protected srv rq p k) = []"
  by (auto simp: protected_def split: sum.splits bool.splits)

lemma no_pushes_with_body: "(\<And>d. http_pushes (k d) = []) \<Longrightarrow> http_pushes (with_body loads srv rq k) = []"
  by (auto simp: with_body_def split: sum.splits option.splits)

lemma pushes_need_provisioning:
  assumes "http_pushes (http_serve sha256 loads accepts srv m rq) \<noteq> []"
  shows "authorized srv rq True = Inr True \<and> m = POST \<and> path rq \<in> {''/admin/rtr'', ''/admin/ppr''}"
proof -
  note np = no_pushes_protected no_pushes_with_body
  have get: "http_pushes (do_GET srv rq) = []" using do_GET_harmless by (simp add: harmless_def)
  have put: "http_pushes (do_PUT loads srv rq) = []"
    by (auto simp: do_PUT_def intro!: np split: option.splits list.splits prod.splits)
  have del: "http_pushes (do_DELETE srv rq) = []"
    by (auto simp: do_DELETE_def Let_def intro!: np split: option.splits list.splits prod.splits)
  have pa: "http_pushes (post_authorize sha256 loads srv rq) = []"
    using post_authorize_harmless by (simp add: harmless_def)
  have pp: "http_pushes (post_provision loads srv rq) = []" "http_pushes (post_subscribers loads srv rq) = []"
    "http_pushes (post_enable srv rq i b) = []" for i b
    by (auto simp: post_provision_def post_subscribers_def post_enable_def Let_def intro!: np
        split: option.splits sum.splits)
  have pr: "authorized srv rq True = Inr True"
    if "http_pushes (post_rtr loads accepts srv rq) \<noteq> [] \<or> http_pushes (post_ppr loads accepts srv rq) \<noteq> []"
  proof (rule ccontr)
    assume "authorized srv rq True \<noteq> Inr True"
    then have "harmless srv (post_rtr loads accepts srv rq)" "harmless srv (post_ppr loads accepts srv rq)"
      by (auto simp: post_rtr_def post_ppr_def)
    with that show False by (simp add: harmless_def)
  qed
  show ?thesis
    using assms pr
    by (cases m) (auto simp: http_serve_def get put del do_POST_def pa pp
        split: if_splits option.splits list.splits prod.splits)
qed

subsection \<open>The invariant of the application\<close>

definition http_ok :: "(nat \<Rightarrow> bytes) \<Rightarrow> HttpServer \<Rightarrow> bool" where
  "http_ok rng srv \<longleftrightarrow> app_ok rng (http_app srv)"

lemma with_store_ok: "http_ok rng srv \<Longrightarrow> store_ok st \<Longrightarrow> http_ok rng (with_store srv st)"
  by (simp add: http_ok_def app_ok_def with_store_def rands_ok_def)

lemma respond_ok [simp]:
  "http_after (respond srv code v) = srv" "http_after (respond_error srv code t) = srv"
  by (simp_all add: respond_def respond_error_def)

lemma protected_ok: "http_ok rng srv \<Longrightarrow> http_ok rng (http_after k) \<Longrightarrow> http_ok rng (http_after (protected srv rq p k))"
  by (auto simp: protected_def split: sum.splits bool.splits)

lemma with_body_ok:
  "http_ok rng srv \<Longrightarrow> (\<And>d. http_ok rng (http_after (k d))) \<Longrightarrow> http_ok rng (http_after (with_body loads srv rq k))"
  by (auto simp: with_body_def split: sum.splits option.splits)

lemma answer_store_after: "http_after (answer_store srv r f) = with_store srv (snd r)"
  by (simp add: answer_store_def Let_def split: sum.splits)

lemma answer_store_ok: "http_ok rng srv \<Longrightarrow> store_ok (snd r) \<Longrightarrow> http_ok rng (http_after (answer_store srv r f))"
  by (simp add: answer_store_after with_store_ok)

lemma push_loop_ok:
  assumes "\<And>a. app_ok rng a \<Longrightarrow> app_ok rng (snd (send a))"
  shows "app_ok rng app \<Longrightarrow> app_ok rng (snd (snd (push_loop send accepts ps app n)))"
proof (induction ps arbitrary: app n)
  case (Cons p ps)
  obtain r a where s: "send app = (r, a)" by (cases "send app")
  with assms [OF Cons.prems] have "app_ok rng a" by simp
  with Cons.IH show ?case by (auto simp: s split: sum.splits prod.splits) (metis snd_conv)
qed simp

lemma app_ok_hop [simp]: "app_ok rng (app\<lparr>hop_counter := h\<rparr>) = app_ok rng app"
  by (simp add: app_ok_def rands_ok_def)

lemma send_ok:
  "app_ok rng a \<Longrightarrow> app_ok rng (snd (send_rtr a public private reason))"
  "app_ok rng a \<Longrightarrow> app_ok rng (snd (send_ppr a public private prof))"
  by (simp_all add: send_rtr_def send_ppr_def next_hop_def)

lemma answer_push_ok:
  "http_ok rng srv \<Longrightarrow> http_ok rng (http_after (answer_push srv (push_rtr accepts ds (http_app srv) public private reason)))"
  "http_ok rng srv \<Longrightarrow> http_ok rng (http_after (answer_push srv (push_ppr accepts ds (http_app srv) public private prof)))"
  using push_loop_ok [of rng "\<lambda>a. send_rtr a public private reason", OF send_ok(1)]
    push_loop_ok [of rng "\<lambda>a. send_ppr a public private prof", OF send_ok(2)]
  by (simp_all add: http_ok_def answer_push_def push_rtr_def push_ppr_def split_beta)

lemma http_store_ok: "http_ok rng srv \<Longrightarrow> store_ok (http_store srv)"
  by (simp add: http_ok_def app_ok_def http_store_def)

lemmas store_ops_ok = provision_ok remove_ok set_enabled_ok update_ok http_store_ok

lemma post_ok:
  assumes "http_ok rng srv"
  shows "http_ok rng (http_after (post_authorize sha256 loads srv rq))"
    and "http_ok rng (http_after (post_provision loads srv rq))"
    and "http_ok rng (http_after (post_subscribers loads srv rq))"
    and "http_ok rng (http_after (post_enable srv rq identity en))"
    and "http_ok rng (http_after (post_rtr loads accepts srv rq))"
    and "http_ok rng (http_after (post_ppr loads accepts srv rq))"
  using post_authorize_harmless [of srv sha256 loads rq] assms
  by (auto simp: harmless_def post_provision_def post_subscribers_def post_enable_def post_rtr_def post_ppr_def
      Let_def intro!: protected_ok with_body_ok answer_store_ok answer_push_ok with_store_ok store_ops_ok
      split: sum.splits option.splits json.splits)

lemma http_serve_ok:
  assumes "http_ok rng srv"
  shows "http_ok rng (http_after (http_serve sha256 loads accepts srv m rq))"
proof (cases m)
  case GET
  then show ?thesis using assms do_GET_harmless [of srv rq] by (simp add: http_serve_def harmless_def)
next
  case POST
  then show ?thesis using assms
    by (simp add: http_serve_def do_POST_def post_ok split: option.splits list.splits prod.splits)
next
  case PUT
  then show ?thesis using assms
    by (auto simp: http_serve_def do_PUT_def intro!: protected_ok with_body_ok answer_store_ok store_ops_ok
        split: option.splits list.splits prod.splits)
next
  case DELETE
  then show ?thesis using assms
    by (auto simp: http_serve_def do_DELETE_def Let_def intro!: protected_ok with_store_ok store_ops_ok
        split: option.splits list.splits prod.splits)
qed

subsection \<open>No response depends on an XRES value\<close>

definition blank_http :: "HttpServer \<Rightarrow> HttpServer" where
  "blank_http srv = srv\<lparr>http_app := blank_app (http_app srv)\<rparr>"

definition same_output :: "http_result \<Rightarrow> http_result \<Rightarrow> bool" where
  "same_output r s \<longleftrightarrow> fst r = fst s \<and> http_pushes r = http_pushes s
     \<and> blank_http (http_after r) = blank_http (http_after s)"

lemma blank_idem [simp]:
  "blank (blank sub) = blank sub" "blank_store (blank_store s) = blank_store s"
  "blank_app (blank_app app) = blank_app app" "blank_http (blank_http srv) = blank_http srv"
  by (simp_all add: blank_def blank_store_def blank_app_def blank_http_def comp_def split_beta)

lemma blank_http_sel [simp]:
  "http_store (blank_http srv) = blank_store (http_store srv)" "http_token (blank_http srv) = http_token srv"
  "provision_token (blank_http srv) = provision_token srv"
  "diameter_server (blank_http srv) = diameter_server srv" "http_app (blank_http srv) = blank_app (http_app srv)"
  by (simp_all add: blank_http_def http_store_def)

lemma authorized_blank [simp]: "authorized (blank_http srv) rq p = authorized srv rq p"
  by (simp add: authorized_def)

lemma same_respond [simp]:
  "same_output (respond (blank_http srv) code v) (respond srv code v)"
  "same_output (respond_error (blank_http srv) code t) (respond_error srv code t)"
  "same_output (Inl e, [], blank_http srv) (Inl e, [], srv)"
  by (simp_all add: same_output_def respond_def respond_error_def)

lemma blank_with_store: "blank_store st = blank_store st' \<Longrightarrow> blank_http (with_store (blank_http srv) st) = blank_http (with_store srv st')"
  by (simp add: blank_http_def with_store_def blank_app_def)

lemma same_protected: "same_output k k' \<Longrightarrow> same_output (protected (blank_http srv) rq p k) (protected srv rq p k')"
  by (auto simp: protected_def split: sum.splits bool.splits)

lemma same_with_body:
  "(\<And>d. same_output (k d) (k' d)) \<Longrightarrow> same_output (with_body loads (blank_http srv) rq k) (with_body loads srv rq k')"
  by (auto simp: with_body_def split: sum.splits option.splits)

lemma same_answer_store:
  assumes "map_sum id f (fst r) = map_sum id f' (fst r')" and "blank_store (snd r) = blank_store (snd r')"
  shows "same_output (answer_store (blank_http srv) r f) (answer_store srv r' f')"
  using assms blank_with_store [OF assms(2), of srv]
  by (cases "fst r"; cases "fst r'") (auto simp: answer_store_def same_output_def respond_error_def Let_def)

lemma provision_blank:
  "fst (provision (blank_store s) item) = fst (provision s item)
   \<and> blank_store (snd (provision (blank_store s) item)) = blank_store (snd (provision s item))"
proof -
  have "blank_store (put_item (blank_store s) k sub) = blank_store (put_item s k sub)" for k sub
    using put_item_blank [of "blank_store s" k sub] put_item_blank [of s k sub] by simp
  then show ?thesis
    by (auto simp: provision_def Let_def option.map_disc_iff split: sum.splits)
qed

lemma send_blank:
  "send_rtr (blank_app a) public private reason =
     (fst (send_rtr a public private reason), blank_app (snd (send_rtr a public private reason)))"
  "send_ppr (blank_app a) public private prof =
     (fst (send_ppr a public private prof), blank_app (snd (send_ppr a public private prof)))"
  by (simp_all add: send_rtr_def send_ppr_def next_hop_def push_head_def blank_app_def)

lemma push_loop_blank:
  assumes "\<And>a. send (blank_app a) = (fst (send a), blank_app (snd (send a)))"
  shows "push_loop send accepts ps (blank_app app) n =
    (fst (push_loop send accepts ps app n), fst (snd (push_loop send accepts ps app n)),
     blank_app (snd (snd (push_loop send accepts ps app n))))"
proof (induction ps arbitrary: app n)
  case (Cons p ps)
  obtain r a where s: "send app = (r, a)" by (cases "send app")
  with assms [of app] have "send (blank_app app) = (r, blank_app a)" by simp
  with Cons.IH show ?case by (cases r) (simp_all add: s split_beta)
qed simp

lemma same_push:
  "same_output (answer_push (blank_http srv) (push_rtr accepts ds (blank_app (http_app srv)) public private reason))
     (answer_push srv (push_rtr accepts ds (http_app srv) public private reason))"
  "same_output (answer_push (blank_http srv) (push_ppr accepts ds (blank_app (http_app srv)) public private prof))
     (answer_push srv (push_ppr accepts ds (http_app srv) public private prof))"
  using push_loop_blank [of "\<lambda>a. send_rtr a public private reason", OF send_blank(1)]
    push_loop_blank [of "\<lambda>a. send_ppr a public private prof", OF send_blank(2)]
  by (simp_all add: same_output_def answer_push_def push_rtr_def push_ppr_def split_beta blank_http_def)

lemma authorization_document_blank:
  "authorization_document sha256 (blank_store st) request = authorization_document sha256 st request"
  by (auto simp: authorization_document_def Let_def split: option.splits)

lemma do_GET_blank: "same_output (do_GET (blank_http srv) rq) (do_GET srv rq)"
proof -
  have f: "Option.bind i (find_public (blank_store s)) = map_option blank (Option.bind i (find_public s))" for i s
    by (cases i) simp_all
  show ?thesis
    unfolding do_GET_def
    by (auto simp: f list_all_blank intro!: same_protected split: option.splits list.splits)
qed

lemma do_PUT_blank: "same_output (do_PUT loads (blank_http srv) rq) (do_PUT loads srv rq)"
proof -
  let ?f = "\<lambda>sub. case sub of None \<Rightarrow> error_response 404 ''not found'' | Some sub \<Rightarrow> send_json 200 (subscriber_json sub)"
  have u: "map_sum id ?f (map_sum_opt blank r) = map_sum id ?f r" for r :: "exn + Subscriber option"
    by (cases r) (auto simp: map_sum_opt_def split: option.splits)
  have "same_output (answer_store (blank_http srv) (update (http_store (blank_http srv)) p d) ?f)
      (answer_store srv (update (http_store srv) p d) ?f)" for p d
    by (rule same_answer_store) (simp_all add: update_blank u)
  moreover have "same_output (answer_store (blank_http srv) (Inr None, http_store (blank_http srv)) ?f)
      (answer_store srv (Inr None, http_store srv) ?f)"
    by (rule same_answer_store) simp_all
  ultimately show ?thesis
    unfolding do_PUT_def
    by (auto intro!: same_protected same_with_body split: option.splits list.splits prod.splits
        simp del: blank_http_sel)
qed

lemma do_DELETE_blank: "same_output (do_DELETE (blank_http srv) rq) (do_DELETE srv rq)"
proof -
  have "same_output (Inr x, [], with_store (blank_http srv) (snd (remove (blank_store (http_store srv)) p)))
      (Inr x, [], with_store srv (snd (remove (http_store srv) p)))" for x p
    by (simp add: same_output_def blank_with_store remove_blank)
  then show ?thesis
    unfolding do_DELETE_def Let_def
    by (auto intro!: same_protected simp: remove_blank split: option.splits list.splits prod.splits)
qed

lemma post_enable_blank: "same_output (post_enable (blank_http srv) rq i b) (post_enable srv rq i b)"
proof -
  have "same_output (Inr x, [], with_store (blank_http srv) (snd (set_enabled (blank_store (http_store srv)) p b)))
      (Inr x, [], with_store srv (snd (set_enabled (http_store srv) p b)))" for x p
    by (simp add: same_output_def blank_with_store set_enabled_blank)
  then show ?thesis
    unfolding post_enable_def Let_def
    by (auto intro!: same_protected simp: set_enabled_blank split: option.splits)
qed

lemma do_POST_blank: "same_output (do_POST sha256 loads accepts (blank_http srv) rq) (do_POST sha256 loads accepts srv rq)"
proof -
  have pa: "same_output (post_authorize sha256 loads (blank_http srv) rq) (post_authorize sha256 loads srv rq)"
    unfolding post_authorize_def
    by (rule same_protected, rule same_with_body) (auto simp: authorization_document_blank split: prod.splits)
  have st: "same_output (answer_store (blank_http srv) (provision (http_store (blank_http srv)) d) f)
      (answer_store srv (provision (http_store srv) d) f)" for d f
    by (rule same_answer_store) (simp_all add: provision_blank)
  have pp: "same_output (post_provision loads (blank_http srv) rq) (post_provision loads srv rq)"
    unfolding post_provision_def
    by (rule same_protected) (auto split: sum.splits option.splits intro: st simp del: blank_http_sel)
  have ps: "same_output (post_subscribers loads (blank_http srv) rq) (post_subscribers loads srv rq)"
    unfolding post_subscribers_def
    by (rule same_protected, rule same_with_body) (rule st)
  have pr: "same_output (post_rtr loads accepts (blank_http srv) rq) (post_rtr loads accepts srv rq)"
    unfolding post_rtr_def
    by (rule same_protected, rule same_with_body) (auto split: option.splits json.splits simp: same_push)
  have pq: "same_output (post_ppr loads accepts (blank_http srv) rq) (post_ppr loads accepts srv rq)"
    unfolding post_ppr_def
    by (rule same_protected, rule same_with_body) (auto split: option.splits json.splits simp: same_push)
  show ?thesis
    unfolding do_POST_def
    by (auto simp: pa pp ps pr pq post_enable_blank split: option.splits list.splits)
qed

lemma http_serve_blank:
  "same_output (http_serve sha256 loads accepts (blank_http srv) m rq) (http_serve sha256 loads accepts srv m rq)"
  by (cases m) (simp_all add: http_serve_def do_GET_blank do_POST_blank do_PUT_blank do_DELETE_blank)

subsection \<open>All threads together\<close>

text \<open>
  One step is one HTTP request, one frame of one registered Diameter connection, or a step in the
  life of a connection; the locks of the code make each of its accesses to the store atomic, and
  \<open>pur\<close>, \<open>loads\<close> are \<open>json.loads\<close> on text and on octets.
\<close>

inductive hss_step ::
  "(code_points \<Rightarrow> json result) \<Rightarrow> (nat \<Rightarrow> bytes) \<Rightarrow> HttpServer \<Rightarrow> HttpServer \<Rightarrow> bool"
  for pur :: "code_points \<Rightarrow> json result" and rng :: "nat \<Rightarrow> bytes"
where
  http_request: "hss_step pur rng srv (http_after (http_serve sha256 loads accepts srv m rq))"
| diameter_frame: "diameter_server srv = Some ds \<Longrightarrow> c \<in> set (peers ds) \<Longrightarrow>
    hss_step pur rng srv (srv\<lparr>http_app := snd (snd (client_turn pur rng accepts' (http_app srv) frame))\<rparr>)"
| connection: "diameter_server srv = Some ds \<Longrightarrow> server_step ds ds' \<Longrightarrow>
    hss_step pur rng srv (srv\<lparr>diameter_server := Some ds'\<rparr>)"

inductive hss_reachable ::
  "(code_points \<Rightarrow> json result) \<Rightarrow> (nat \<Rightarrow> bytes) \<Rightarrow> HttpServer \<Rightarrow> HttpServer \<Rightarrow> bool"
  for pur :: "code_points \<Rightarrow> json result" and rng :: "nat \<Rightarrow> bytes" and start :: HttpServer
where
  reach_start: "hss_reachable pur rng start start"
| reach_more: "hss_reachable pur rng start srv \<Longrightarrow> hss_step pur rng srv srv' \<Longrightarrow> hss_reachable pur rng start srv'"

definition system_ok :: "(nat \<Rightarrow> bytes) \<Rightarrow> HttpServer \<Rightarrow> bool" where
  "system_ok rng srv \<longleftrightarrow> http_ok rng srv \<and> (\<forall>ds \<in> set_option (diameter_server srv). server_ok ds)"

text \<open>What the command line gives to the parts, before any thread runs.\<close>

definition is_loopback_host :: "string \<Rightarrow> bool" where
  "is_loopback_host host \<longleftrightarrow>
     host = ''localhost'' \<or> (case parse_ip host of None \<Rightarrow> False | Some a \<Rightarrow> is_loopback a)"

definition hss_start ::
  "json result option \<Rightarrow> string \<Rightarrow> string \<Rightarrow> string \<Rightarrow> int \<Rightarrow> string \<Rightarrow> string \<Rightarrow> HttpServer result" where
  "hss_start seed http_host host realm connections http_tok provision_tok =
     bindE (check_token http_tok ''http-token'') (\<lambda>t.
     bindE (check_token provision_tok ''provision-token'') (\<lambda>p.
       if \<not> is_loopback_host http_host \<and> t = []
       then Inl (ValueError ''non-loopback HTTP requires --http-token'')
       else
         bindE (new_store (int MAX_SUBSCRIBERS)) (\<lambda>st.
         bindE (fst (load_seed st seed)) (\<lambda>_.
         bindE (new_diameter_server connections) (\<lambda>ds.
         Inr \<lparr>http_app = new_app (snd (load_seed st seed)) host realm, http_token = t, provision_token = p,
              diameter_server = Some ds\<rparr>)))))"

definition same_config :: "HttpServer \<Rightarrow> HttpServer \<Rightarrow> bool" where
  "same_config a b \<longleftrightarrow> diameter_server a = diameter_server b \<and> http_token a = http_token b
     \<and> provision_token a = provision_token b"

lemma http_serve_config: "same_config (http_after (http_serve sha256 loads accepts srv m rq)) srv"
proof -
  have r [simp]: "same_config srv srv" by (simp add: same_config_def)
  have p: "same_config (http_after k) srv \<Longrightarrow> same_config (http_after (protected srv rq b k)) srv" for b k
    by (auto simp: protected_def split: sum.splits bool.splits)
  have w: "(\<And>d. same_config (http_after (k d)) srv) \<Longrightarrow> same_config (http_after (with_body loads srv rq k)) srv" for k
    by (auto simp: with_body_def split: sum.splits option.splits)
  have s: "same_config (with_store srv st) srv" for st by (simp add: with_store_def same_config_def)
  have a: "same_config (http_after (answer_push srv r)) srv" for r
    by (simp add: answer_push_def same_config_def split: prod.splits)
  have get: "http_after (do_GET srv rq) = srv" using do_GET_harmless by (simp add: harmless_def)
  have pa: "http_after (post_authorize sha256 loads srv rq) = srv" using post_authorize_harmless by (simp add: harmless_def)
  have post: "same_config (http_after (post_provision loads srv rq)) srv"
    "same_config (http_after (post_subscribers loads srv rq)) srv"
    "same_config (http_after (post_enable srv rq i en)) srv"
    "same_config (http_after (post_rtr loads accepts srv rq)) srv"
    "same_config (http_after (post_ppr loads accepts srv rq)) srv" for i en
    by (auto simp: post_provision_def post_subscribers_def post_enable_def post_rtr_def post_ppr_def Let_def
        answer_store_after s a intro!: p w split: sum.splits option.splits json.splits)
  have put: "same_config (http_after (do_PUT loads srv rq)) srv"
    by (auto simp: do_PUT_def answer_store_after s intro!: p w split: option.splits list.splits prod.splits)
  have del: "same_config (http_after (do_DELETE srv rq)) srv"
    by (auto simp: do_DELETE_def Let_def s intro!: p split: option.splits list.splits prod.splits)
  show ?thesis
    by (cases m) (auto simp: http_serve_def get put del do_POST_def pa post split: option.splits list.splits prod.splits)
qed

lemma http_serve_diameter: "diameter_server (http_after (http_serve sha256 loads accepts srv m rq)) = diameter_server srv"
  using http_serve_config [of sha256 loads accepts srv m rq] by (simp add: same_config_def)

lemma hss_step_token: "hss_step pur rng srv srv' \<Longrightarrow> http_token srv' = http_token srv"
proof (induction rule: hss_step.induct)
  case (http_request srv sha256 loads accepts m rq)
  then show ?case using http_serve_config [of sha256 loads accepts srv m rq] by (simp add: same_config_def)
qed simp_all

lemma hss_reachable_token: "hss_reachable pur rng start srv \<Longrightarrow> http_token srv = http_token start"
  by (induction rule: hss_reachable.induct) (auto dest: hss_step_token)

lemma client_turn_ok: "app_ok rng app \<Longrightarrow> app_ok rng (snd (snd (client_turn pur rng accepts app frame)))"
  using handle_ok [of rng app pur]
  by (auto simp: client_turn_def split: sum.splits prod.splits) (metis snd_conv)+

lemma hss_step_ok: "hss_step pur rng srv srv' \<Longrightarrow> system_ok rng srv \<Longrightarrow> system_ok rng srv'"
proof (induction rule: hss_step.induct)
  case (http_request srv sha256 loads accepts m rq)
  then show ?case by (simp add: system_ok_def http_serve_ok http_serve_diameter)
next
  case (diameter_frame srv ds c accepts' frame)
  then show ?case by (simp add: system_ok_def http_ok_def client_turn_ok)
next
  case (connection srv ds ds')
  then show ?case by (simp add: system_ok_def http_ok_def server_step_ok)
qed

lemma hss_reachable_ok: "hss_reachable pur rng start srv \<Longrightarrow> system_ok rng start \<Longrightarrow> system_ok rng srv"
  by (induction rule: hss_reachable.induct) (auto dest: hss_step_ok)

lemma seed_items_ok: "store_ok st \<Longrightarrow> store_ok (snd (seed_items st vs))"
proof (induction st vs rule: seed_items.induct)
  case (2 st v vs)
  then show ?case
    using provision_ok [of st] by (auto split: json.splits prod.splits sum.splits) (metis snd_conv)+
qed simp

lemma hss_start_ok:
  assumes "hss_start seed http_host host realm connections t p = Inr srv"
  shows "system_ok rng srv \<and> (http_token srv \<noteq> [] \<or> is_loopback_host http_host)"
proof -
  from assms obtain st ds where st: "new_store (int MAX_SUBSCRIBERS) = Inr st"
    and ds: "new_diameter_server connections = Inr ds"
    and srv: "http_app srv = new_app (snd (load_seed st seed)) host realm" "diameter_server srv = Some ds"
    and tok: "http_token srv \<noteq> [] \<or> is_loopback_host http_host"
    by (auto simp: hss_start_def bindE_Inr_iff split: if_splits)
  have "store_ok st" using st by (intro store_reachable_ok reach_new)
  then have "store_ok (snd (load_seed st seed))"
    by (auto simp: load_seed_def seed_items_ok split: option.splits sum.splits json.splits)
  moreover have "server_ok ds" using ds by (auto simp: new_diameter_server_def server_ok_def split: if_splits)
  ultimately show ?thesis using tok by (simp add: system_ok_def http_ok_def srv new_app_ok)
qed

subsection \<open>Properties\<close>

definition lab_server :: HttpServer where
  "lab_server = \<lparr>http_app = lab_app, http_token = ''lab-http-token-1'', provision_token = ''lab-prov-token-1'',
     diameter_server = None\<rparr>"

definition lab_disable :: http_request where
  "lab_disable = \<lparr>path = ''/admin/subscribers/sip%3Aalice@lab/disable'',
     headers = [(''authorization'', ''Bearer lab-http-token-1'')], rfile = []\<rparr>"

definition lab_get :: http_request where
  "lab_get = \<lparr>path = ''/admin/subscribers'', headers = [], rfile = []\<rparr>"

text \<open>C10: in every state that the started process reaches by HTTP requests, Diameter frames and
  connections coming and going in any order, the store is well formed and bounded, the remembered
  RANDs are issued ones, no slot is lost or released twice, and the peers are distinct open
  connections, at most as many as configured; and a process that serves HTTP without a token listens
  on a loopback address.\<close>

theorem hss_system_invariant:
  assumes "hss_start seed http_host host realm connections t p = Inr start" and "hss_reachable pur rng start srv"
  shows "store_ok (http_store srv) \<and> rands_ok rng (http_app srv)
    \<and> (case diameter_server srv of None \<Rightarrow> True
       | Some ds \<Rightarrow> slots ds + length (clients ds) = max_connections ds \<and> distinct (peers ds)
           \<and> set (peers ds) \<subseteq> set (clients ds) \<and> length (peers ds) \<le> max_connections ds)
    \<and> (http_token srv = [] \<longrightarrow> is_loopback_host http_host)"
proof -
  have "system_ok rng srv" using hss_reachable_ok [OF assms(2)] hss_start_ok [OF assms(1)] by blast
  then show ?thesis
    using peers_bounded hss_reachable_token [OF assms(2)] hss_start_ok [OF assms(1), of rng]
    by (auto simp: system_ok_def http_ok_def app_ok_def http_store_def server_ok_def split: option.splits)
qed

theorem hss_system_invariant_witness:
  "\<exists>start. hss_start None ''localhost'' ''hss'' ''lab'' 2 [] [] = Inr start
     \<and> store_ok (http_store (http_after (http_serve (\<lambda>_. []) (\<lambda>_. Inl JSONDecodeError) (\<lambda>_. True) start GET lab_get)))"
proof -
  have "\<exists>start. hss_start None ''localhost'' ''hss'' ''lab'' 2 [] [] = Inr start"
    by (simp add: hss_start_def is_loopback_host_def check_token_def new_store_def MAX_SUBSCRIBERS_def load_seed_def
        new_diameter_server_def MAX_DIAMETER_CONNECTIONS_def)
  then obtain start where s: "hss_start None ''localhost'' ''hss'' ''lab'' 2 [] [] = Inr start" by blast
  have "hss_reachable (\<lambda>_. Inl JSONDecodeError) (\<lambda>_. []) start
      (http_after (http_serve (\<lambda>_. []) (\<lambda>_. Inl JSONDecodeError) (\<lambda>_. True) start GET lab_get))"
    by (rule reach_more [OF reach_start http_request])
  from hss_system_invariant [OF s this] s show ?thesis by blast
qed

text \<open>C11: nothing changes without a token: an HTTP request that changes the server or makes it send
  to a Diameter peer carries a configured bearer token, unless no HTTP token is configured at all;
  and what reaches the peers always takes the provisioning token.\<close>

theorem http_changes_need_token:
  assumes "http_serve sha256 loads accepts srv m rq = (r, pushes, srv')" and "srv' \<noteq> srv \<or> pushes \<noteq> []"
  shows "(bearer rq (provision_token srv) \<or> bearer rq (http_token srv) \<or> http_token srv = [])
    \<and> (pushes = [] \<or> bearer rq (provision_token srv) \<and> m = POST)"
  using unauthorized_harmless [of srv rq sha256 loads accepts m] assms
    pushes_need_provisioning [of sha256 loads accepts srv m rq]
  by (auto simp: authorized_True harmless_def)

lemma lab_disable_works:
  "authorized lab_server lab_disable False = Inr True"
  "admin_match lab_disable = Some (Some ''sip:alice@lab'', ''disable'')"
  "set_enabled lab_store ''sip:alice@lab'' False = (Some (lab_subscriber\<lparr>enabled := False\<rparr>),
     put_item lab_store (''sip:alice@lab'', ''alice'') (lab_subscriber\<lparr>enabled := False\<rparr>))"
proof -
  show "authorized lab_server lab_disable False = Inr True" by code_simp
  have "percent_decode ''sip%3Aalice@lab'' = bytes_of ''sip:alice@lab''"
    by (simp add: hex_val_def)
  then have "unquote ''sip%3Aalice@lab'' = Some ''sip:alice@lab''"
    by (simp add: unquote_def decode_bytes_of del: bytes_of_simps)
  then show "admin_match lab_disable = Some (Some ''sip:alice@lab'', ''disable'')"
    by (simp add: admin_match_def lab_disable_def admin_prefix_def admin_split_def ends_with_def starts_with_def)
  show "set_enabled lab_store ''sip:alice@lab'' False = (Some (lab_subscriber\<lparr>enabled := False\<rparr>),
     put_item lab_store (''sip:alice@lab'', ''alice'') (lab_subscriber\<lparr>enabled := False\<rparr>))"
    by (simp add: set_enabled_def find_entry_def lab_store_def)
qed

theorem http_changes_need_token_witness:
  "http_after (http_serve (\<lambda>_. []) (\<lambda>_. Inl JSONDecodeError) (\<lambda>_. True) lab_server POST lab_disable) \<noteq> lab_server
   \<and> (bearer lab_disable (provision_token lab_server) \<or> bearer lab_disable (http_token lab_server))"
proof -
  let ?r = "http_serve (\<lambda>_. []) (\<lambda>_. Inl JSONDecodeError) (\<lambda>_. True) lab_server POST lab_disable"
  have st: "http_store lab_server = lab_store" by (simp add: http_store_def lab_server_def)
  have "path lab_disable \<notin> {''/ims/authorize'', ''/ims/provision'', ''/admin/subscribers''}"
    by (simp add: lab_disable_def)
  then have "http_after ?r = with_store lab_server
      (put_item lab_store (''sip:alice@lab'', ''alice'') (lab_subscriber\<lparr>enabled := False\<rparr>))"
    by (simp add: http_serve_def do_POST_def post_enable_def protected_def lab_disable_works st)
  moreover have "put_item lab_store (''sip:alice@lab'', ''alice'') (lab_subscriber\<lparr>enabled := False\<rparr>) \<noteq> lab_store"
    by (simp add: put_item_def lab_store_def lab_subscriber_def)
  moreover have "http_store (with_store lab_server x) = x" for x
    by (simp add: http_store_def with_store_def)
  ultimately have "http_store (http_after ?r) \<noteq> http_store lab_server"
    by (simp only: st not_False_eq_True)
  then have c: "http_after ?r \<noteq> lab_server" by metis
  obtain r l s where e: "?r = (r, l, s)" by (cases ?r) auto
  with c have "s \<noteq> lab_server \<or> l \<noteq> []" by simp
  from http_changes_need_token [OF e this] c show ?thesis by (simp add: lab_server_def)
qed

text \<open>The authorization document says \<open>allow\<close> exactly for a request of the right schema and
  operation, with four non-empty fields of at most 2048 characters, whose identities are those of an
  enabled subscriber assigned to the named server.\<close>

theorem authorization_allows_exactly:
  "map_of (snd (authorization_document sha256 st d)) ''decision'' = Some (JStr ''allow'') \<longleftrightarrow>
     map_of d ''schema'' = Some (JStr ''madis.ims.subscriber.authorization.v1'')
     \<and> map_of d ''operation'' = Some (JStr ''authorize-register'')
     \<and> (\<exists>public private visited server sub.
          text_field d ''public_identity'' = Some public \<and> text_field d ''private_identity'' = Some private
          \<and> text_field d ''visited_network'' = Some visited \<and> text_field d ''server_name'' = Some server
          \<and> find_pair st public private = Some sub \<and> enabled sub \<and> assigned_server_name sub = server)"
  by (auto simp: authorization_document_def Let_def directory.auth_iff authorize_def split: option.splits if_splits)

text \<open>C12: no HTTP response, status or push depends on an XRES value: two servers that differ at most
  in the XRES of their subscribers respond alike to every request and stay equal up to XRES.\<close>

theorem http_xres_noninterference:
  assumes "blank_http a = blank_http b"
  shows "same_output (http_serve sha256 loads accepts a m rq) (http_serve sha256 loads accepts b m rq)"
  using http_serve_blank [of sha256 loads accepts a m rq] http_serve_blank [of sha256 loads accepts b m rq] assms
  by (simp add: same_output_def)

theorem http_xres_noninterference_witness:
  "same_output (http_serve (\<lambda>_. []) (\<lambda>_. Inl JSONDecodeError) (\<lambda>_. True) lab_server POST lab_disable)
     (http_serve (\<lambda>_. []) (\<lambda>_. Inl JSONDecodeError) (\<lambda>_. True) (lab_server\<lparr>http_app := other_app\<rparr>) POST lab_disable)
   \<and> lab_app \<noteq> other_app"
proof -
  have "blank_app lab_app = blank_app other_app" "lab_app \<noteq> other_app"
    by (simp_all add: other_app_def lab_app_def new_app_def lab_store_def lab_subscriber_def
        blank_app_def blank_store_def blank_def)
  then have "blank_http lab_server = blank_http (lab_server\<lparr>http_app := other_app\<rparr>)"
    by (simp add: blank_http_def lab_server_def)
  from http_xres_noninterference [OF this] \<open>lab_app \<noteq> other_app\<close> show ?thesis by simp
qed



text \<open>\<open>push_rtr\<close> numbers its messages: every peer gets its own hop-by-hop identifier, consecutive
  from the counter and hence distinct, the peers that take their message are exactly the ones counted,
  in order, and each message parses as an RTR request for the identity with the reason given.\<close>

theorem push_rtr_numbers_peers:
  assumes "push_ok app public private" and "hop_counter app + int (length (peers srv)) < 2 ^ 32"
    and "0 \<le> reason" and "reason \<le> 3"
    and "push_rtr accepts srv app public private reason = (r, log, app')"
  shows "r = Inr (int (length log)) \<and> map fst log = filter accepts (peers srv)
    \<and> hop_counter app' = hop_counter app + int (length (peers srv))
    \<and> list_all (\<lambda>(p, raw). \<exists>hop. hop_counter app < hop \<and> hop \<le> hop_counter app'
        \<and> p = peers srv ! nat (hop - hop_counter app - 1)
        \<and> parse_message raw = Inr (rtr_message app public private reason hop)) log"
proof -
  let ?is = "filter (\<lambda>i. accepts (peers srv ! i)) [0..<length (peers srv)]"
  from push_rtr_sends [OF assms(1-4), of accepts] assms(5)
  have r: "r = Inr (int (length (filter accepts (peers srv))))"
    and log: "log = map (\<lambda>i. (peers srv ! i, encode_message (rtr_message app public private reason (hop_counter app + int i + 1)))) ?is"
    and app': "hop_counter app' = hop_counter app + int (length (peers srv))" by auto
  have f: "map fst log = filter accepts (peers srv)"
  proof -
    have "filter accepts (peers srv) = filter accepts (map ((!) (peers srv)) [0..<length (peers srv)])"
      by (simp only: map_nth)
    then show ?thesis by (simp add: log comp_def filter_map del: map_nth)
  qed
  then have "length log = length (filter accepts (peers srv))" by (metis length_map)
  moreover have "\<exists>hop. hop_counter app < hop \<and> hop \<le> hop_counter app'
        \<and> peers srv ! i = peers srv ! nat (hop - hop_counter app - 1)
        \<and> parse_message (encode_message (rtr_message app public private reason (hop_counter app + int i + 1)))
          = Inr (rtr_message app public private reason hop)"
    if "i < length (peers srv)" for i
  proof (intro exI conjI)
    have "push_ok (app\<lparr>hop_counter := hop_counter app + int i\<rparr>) public private"
      using assms(1) by (simp add: push_ok_def config_ok_def)
    then have "wf_message (rtr_message app public private reason (hop_counter app + int i + 1))"
      using send_rtr_Inr [of "app\<lparr>hop_counter := hop_counter app + int i\<rparr>" public "private" reason] assms(2-4) that
      by simp
    then show "parse_message (encode_message (rtr_message app public private reason (hop_counter app + int i + 1)))
        = Inr (rtr_message app public private reason (hop_counter app + int i + 1))"
      by (rule parse_message_encode)
  qed (use that app' in simp_all)
  ultimately show ?thesis using r f app' by (auto simp: log list_all_iff)
qed

theorem push_rtr_numbers_peers_witness:
  "\<exists>log app'. push_rtr (\<lambda>p. p \<noteq> 4) \<lparr>max_connections = 3, slots = 0, peers = [3, 4, 5], clients = [3, 4, 5], stopped = False\<rparr>
      lab_app ''sip:alice@lab'' ''alice'' 0 = (Inr 2, log, app') \<and> map fst log = [3, 5] \<and> hop_counter app' = 3"
proof -
  let ?srv = "\<lparr>max_connections = 3, slots = 0, peers = [3, 4, 5], clients = [3, 4, 5], stopped = False\<rparr>"
  have h: "hop_counter lab_app = 0" by (simp add: lab_app_def new_app_def)
  have ok: "push_ok lab_app ''sip:alice@lab'' ''alice''" by (simp add: push_ok_def h)
  obtain r log app' where e: "push_rtr (\<lambda>p. p \<noteq> 4) ?srv lab_app ''sip:alice@lab'' ''alice'' 0 = (r, log, app')"
    by (cases "push_rtr (\<lambda>p. p \<noteq> 4) ?srv lab_app ''sip:alice@lab'' ''alice'' 0") auto
  from push_rtr_numbers_peers [OF ok _ _ _ e] have "r = Inr (int (length log))" "map fst log = [3, 5]" "hop_counter app' = 3"
    by (simp_all add: h)
  moreover from this(2) have "length log = 2" by (metis length_map length_Cons list.size(3) One_nat_def Suc_1)
  ultimately show ?thesis using e by auto
qed

end
