(* ===== verification/Sip_Text.thy ===== *)
theory Sip_Text
  imports Py_Text
begin

section \<open>Header lines of SIP messages\<close>

text \<open>
  The telephony application server and the SIP peers of the test matrices read and write headers in the
  same way, the one on \<open>str\<close> and the others on \<open>bytes\<close>: \<open>line.lower().startswith(name + ":")\<close> and
  \<open>line.split(":", 1)[1].strip()\<close> on the lines between \<open>"\r\n"\<close>. They differ in what \<open>lower\<close> and \<open>strip\<close> do to a
  character, which is the interface \<open>header_text\<close>; its lemma says what is read back from a message that is
  written line by line. Octets are written as the characters of the same number.
\<close>

text \<open>\<open>bytes.lower()\<close> and \<open>bytes.strip()\<close>\<close>

definition lower_octet :: "char \<Rightarrow> char" where
  "lower_octet c = (if 65 \<le> chr_code c \<and> chr_code c \<le> 90 then char_of (chr_code c + 32) else c)"

definition octet_space :: "char \<Rightarrow> bool" where
  "octet_space c \<longleftrightarrow> (9 \<le> chr_code c \<and> chr_code c \<le> 13) \<or> chr_code c = 32"

text \<open>\<open>line.split(":", 1)[1]\<close>, and what stands before the colon.\<close>

definition after_colon :: "string \<Rightarrow> string" where
  "after_colon line = tl (dropWhile (\<lambda>c. c \<noteq> CHR '':'') line)"

definition before_colon :: "string \<Rightarrow> string" where
  "before_colon line = takeWhile (\<lambda>c. c \<noteq> CHR '':'') line"

definition header_values :: "(char \<Rightarrow> char) \<Rightarrow> (char \<Rightarrow> bool) \<Rightarrow> string \<Rightarrow> string \<Rightarrow> string list" where
  "header_values low space msg name =
     map (\<lambda>line. strip_with space (after_colon line))
       (filter (\<lambda>line. starts_with (map low name @ '':'') (map low line)) (split_crlf msg))"

definition contains :: "string \<Rightarrow> string \<Rightarrow> bool" where
  "contains w s \<longleftrightarrow> list_ex (\<lambda>i. starts_with w (drop i s)) [0..<Suc (length s)]"

lemma contains_iff: "contains w s \<longleftrightarrow> (\<exists>a b. s = a @ w @ b)"
proof
  assume "contains w s"
  then obtain i where "starts_with w (drop i s)" by (auto simp: contains_def list_ex_iff simp del: upt_Suc)
  then have "drop i s = w @ drop (length w) (drop i s)"
    by (metis append_take_drop_id starts_with_def)
  then have "s = take i s @ w @ drop (length w) (drop i s)" by (metis append_take_drop_id)
  then show "\<exists>a b. s = a @ w @ b" by blast
next
  assume "\<exists>a b. s = a @ w @ b"
  then obtain a b where s: "s = a @ w @ b" by blast
  then have "starts_with w (drop (length a) s)" "length a < Suc (length s)" by (simp_all add: starts_with_def)
  then show "contains w s"
    by (auto simp: contains_def list_ex_iff simp del: upt_Suc intro!: bexI [of _ "length a"])
qed

lemma after_colon_suffix: "\<exists>a. line = a @ after_colon line"
proof (cases "dropWhile (\<lambda>c. c \<noteq> CHR '':'') line")
  case Nil
  then have "line @ after_colon line = line" by (simp only: after_colon_def list.sel append_Nil2)
  then have "line = line @ after_colon line" by (rule sym)
  then show ?thesis by (rule exI)
next
  case (Cons c r)
  have "takeWhile (\<lambda>c. c \<noteq> CHR '':'') line @ c # r = line" by (metis Cons takeWhile_dropWhile_id)
  then have "(takeWhile (\<lambda>c. c \<noteq> CHR '':'') line @ [c]) @ after_colon line = line"
    by (simp only: after_colon_def Cons list.sel append.assoc append.simps)
  then have "line = (takeWhile (\<lambda>c. c \<noteq> CHR '':'') line @ [c]) @ after_colon line" by (rule sym)
  then show ?thesis by (rule exI)
qed

lemma header_value_no_crlf: "v \<in> set (header_values low space msg name) \<Longrightarrow> no_crlf v"
proof -
  assume "v \<in> set (header_values low space msg name)"
  then obtain line where l: "line \<in> set (split_crlf msg)" and v: "v = strip_with space (after_colon line)"
    by (auto simp: header_values_def)
  obtain a where "line = a @ after_colon line" using after_colon_suffix by blast
  then have "no_crlf (after_colon line)" using split_crlf_no_crlf [OF l] no_crlf_append by metis
  then show ?thesis unfolding v by (rule no_crlf_strip)
qed

lemma header_value_stripped: "v \<in> set (header_values low space msg name) \<Longrightarrow> strip_with space v = v"
  by (auto simp: header_values_def)

subsection \<open>Writing and reading back\<close>

definition labelled :: "string \<times> string \<Rightarrow> string" where
  "labelled f = fst f @ '': '' @ snd f"

definition field_ok :: "string \<times> string \<Rightarrow> bool" where
  "field_ok f \<longleftrightarrow> list_all (\<lambda>c. c \<noteq> cr \<and> c \<noteq> CHR '':'') (fst f) \<and> no_crlf (snd f)"

text \<open>The lines of a message without a body.\<close>

definition message_lines :: "string \<Rightarrow> (string \<times> string) list \<Rightarrow> string list" where
  "message_lines start fs = start # map labelled fs @ [[], []]"

lemma message_lines_no_crlf: "no_crlf start \<Longrightarrow> list_all field_ok fs \<Longrightarrow> list_all no_crlf (message_lines start fs)"
proof -
  have "no_crlf (labelled f)" if "field_ok f" for f
    using that unfolding labelled_def field_ok_def
    by (intro no_crlf_label) (auto simp: list_all_iff cr_def)
  then show "no_crlf start \<Longrightarrow> list_all field_ok fs \<Longrightarrow> ?thesis"
    by (auto simp: message_lines_def list_all_iff)
qed

lemma split_message: "no_crlf start \<Longrightarrow> list_all field_ok fs \<Longrightarrow>
    split_crlf (join crlf (message_lines start fs)) = message_lines start fs"
  by (rule split_crlf_join [OF _ message_lines_no_crlf]) (simp_all add: message_lines_def)

locale header_text =
  fixes low :: "char \<Rightarrow> char" and space :: "char \<Rightarrow> bool"
  assumes low_colon: "low c = CHR '':'' \<longleftrightarrow> c = CHR '':''"
    and space_blank: "space CHR '' ''"
begin

lemma takeWhile_low: "takeWhile (\<lambda>c. c \<noteq> CHR '':'') (map low s) = map low (before_colon s)"
  by (simp add: before_colon_def takeWhile_map comp_def low_colon)

lemma line_matches:
  assumes "CHR '':'' \<notin> set name"
  shows "starts_with (map low name @ '':'') (map low line) \<longleftrightarrow>
    CHR '':'' \<in> set line \<and> map low (before_colon line) = map low name"
proof
  have nc: "takeWhile (\<lambda>c. c \<noteq> CHR '':'') (map low name) = map low name"
    using assms by (auto simp: takeWhile_eq_all_conv low_colon)
  assume "starts_with (map low name @ '':'') (map low line)"
  then have "take (length (map low name @ '':'')) (map low line) = map low name @ '':''"
    by (simp only: starts_with_def)
  then obtain r where l: "map low line = (map low name @ '':'') @ r"
    by (metis append_take_drop_id)
  have "takeWhile (\<lambda>c. c \<noteq> CHR '':'') (map low line) = map low name"
    unfolding l using nc by (simp add: takeWhile_append takeWhile_eq_all_conv)
  then have "map low (before_colon line) = map low name" by (simp only: takeWhile_low)
  moreover have "CHR '':'' \<in> set (map low line)" unfolding l by simp
  then have "CHR '':'' \<in> set line" using low_colon by (metis imageE set_map)
  ultimately show "CHR '':'' \<in> set line \<and> map low (before_colon line) = map low name" by blast
next
  assume r: "CHR '':'' \<in> set line \<and> map low (before_colon line) = map low name"
  then obtain a d where line: "line = a @ CHR '':'' # d" "CHR '':'' \<notin> set a" by (meson split_list_first)
  then have "before_colon line = a" by (auto simp: before_colon_def takeWhile_append takeWhile_eq_all_conv)
  then have "map low line = map low name @ CHR '':'' # map low d"
    using r line(1) low_colon [of "CHR '':''"] by simp
  then show "starts_with (map low name @ '':'') (map low line)" by (simp add: starts_with_def)
qed

lemma labelled_parts:
  assumes "field_ok f"
  shows "before_colon (labelled f) = fst f" "strip_with space (after_colon (labelled f)) = strip_with space (snd f)"
    "CHR '':'' \<in> set (labelled f)"
proof -
  have c: "\<forall>c \<in> set (fst f). c \<noteq> CHR '':''" using assms by (auto simp: field_ok_def list_all_iff)
  then show "before_colon (labelled f) = fst f"
    by (simp add: before_colon_def labelled_def takeWhile_append2)
  have "dropWhile (\<lambda>c. c \<noteq> CHR '':'') (labelled f) = '': '' @ snd f"
    using c by (simp add: labelled_def dropWhile_append2)
  then show "strip_with space (after_colon (labelled f)) = strip_with space (snd f)"
    by (simp add: after_colon_def strip_with_skip space_blank)
qed (simp add: labelled_def)

text \<open>What is read back under a name: the values that were written under it, in order.\<close>

lemma read_back:
  assumes "no_crlf start" and "list_all field_ok fs" and "CHR '':'' \<notin> set name"
    and "map low (before_colon start) \<noteq> map low name"
  shows "header_values low space (join crlf (message_lines start fs)) name =
    map (\<lambda>f. strip_with space (snd f)) (filter (\<lambda>f. map low (fst f) = map low name) fs)"
proof -
  have fields: "map (\<lambda>line. strip_with space (after_colon line))
      (filter (\<lambda>line. starts_with (map low name @ '':'') (map low line)) (map labelled fs)) =
    map (\<lambda>f. strip_with space (snd f)) (filter (\<lambda>f. map low (fst f) = map low name) fs)"
    using assms(2) by (induction fs) (simp_all add: line_matches [OF assms(3)] labelled_parts)
  show ?thesis
    unfolding header_values_def split_message [OF assms(1,2)]
    using fields assms(4) by (simp add: message_lines_def line_matches [OF assms(3)])
qed

end

lemma lower_char_colon: "lower_char c = CHR '':'' \<longleftrightarrow> c = CHR '':''"
  by (auto simp: lower_char_def char_of_eq_iff take_bit_eq_mod)

lemma lower_octet_colon: "lower_octet c = CHR '':'' \<longleftrightarrow> c = CHR '':''"
  by (auto simp: lower_octet_def char_of_eq_iff take_bit_eq_mod)

interpretation str_header: header_text lower_char is_space
  by unfold_locales (simp_all add: lower_char_colon is_space_def)

interpretation octet_header: header_text lower_octet octet_space
  by unfold_locales (simp_all add: lower_octet_colon octet_space_def)

end
