(* ===== verification/Ws_Frame.thy ===== *)
theory Ws_Frame
  imports Py_Socket
begin

section \<open>WebSocket frames\<close>

text \<open>
  The WebSocket ends of the test matrices: \<^verbatim>\<open>bench/wss_outbound_matrix.py\<close> (\<open>read_exact\<close>, \<open>read_text_frame\<close>,
  \<open>send_text_frame\<close>: the server side), \<^verbatim>\<open>bench/transport_matrix.py\<close> and \<^verbatim>\<open>bench/transport_options_load.py\<close> (\<open>ws_frame\<close>
  and their two readers: the client side). Each reader is shown to be the decoder \<open>decode_frame\<close> on
  the octets of the stream, however they are cut up. The mask is what \<open>os.urandom(4)\<close> gave.
\<close>

unbundle bit_operations_syntax

subsection \<open>Writing\<close>

definition mask_octets :: "bytes \<Rightarrow> bytes \<Rightarrow> bytes" where
  "mask_octets key payload = map (\<lambda>(i, b). b XOR key ! (i mod 4)) (enumerate 0 payload)"

definition ws_frame :: "bytes \<Rightarrow> bytes \<Rightarrow> bytes" where
  "ws_frame key payload =
     (let len = length payload;
          header = (if len < 126 then [0x81, 0x80 OR word_of_nat len]
                    else if len \<le> 0xFFFF then [0x81, 0x80 OR 126] @ be_bytes 2 (int len)
                    else [0x81, 0x80 OR 127] @ be_bytes 8 (int len))
      in header @ key @ mask_octets key payload)"

definition send_text_frame :: "bytes \<Rightarrow> bytes" where
  "send_text_frame payload =
     (let len = length payload;
          header = (if len < 126 then [0x81, word_of_nat len]
                    else if len < 65536 then [0x81, 126] @ be_bytes 2 (int len)
                    else [0x81, 127] @ be_bytes 8 (int len))
      in header @ payload)"

subsection \<open>Reading\<close>

definition WSS_CLOSED :: exn where "WSS_CLOSED = RuntimeError ''WSS peer closed before the complete frame arrived''"

text \<open>The length field: seven bits, or two or eight octets.\<close>

definition read_length :: "exn \<Rightarrow> ('s \<Rightarrow> nat \<Rightarrow> (bytes \<times> 's) result) \<Rightarrow> 's \<Rightarrow> byte \<Rightarrow> (nat \<times> 's) result" where
  "read_length err recv sock second =
     (let len = second AND 0x7F
      in if len = 126 then bindE (recv_loop err recv sock 2) (\<lambda>(bs, s). Inr (nat (be_int bs), s))
         else if len = 127 then bindE (recv_loop err recv sock 8) (\<lambda>(bs, s). Inr (nat (be_int bs), s))
         else Inr (unat len, sock))"

definition read_text_frame :: "('s \<Rightarrow> nat \<Rightarrow> (bytes \<times> 's) result) \<Rightarrow> 's \<Rightarrow> (bytes \<times> 's) result" where
  "read_text_frame recv sock =
     bindE (recv_loop WSS_CLOSED recv sock 2) (\<lambda>(h, s1).
     if h ! 0 AND 0x0F \<noteq> 1 then Inl (RuntimeError ''outbound WSS payload was not a text frame'')
     else if h ! 1 AND 0x80 = 0 then Inl (RuntimeError ''client WebSocket frame was not masked'')
     else bindE (read_length WSS_CLOSED recv s1 (h ! 1)) (\<lambda>(len, s2).
     if len > 1048576 then Inl (RuntimeError ''outbound WSS frame exceeded the test limit'')
     else bindE (recv_loop WSS_CLOSED recv s2 4) (\<lambda>(key, s3).
     bindE (recv_loop WSS_CLOSED recv s3 len) (\<lambda>(payload, s4).
     Inr (mask_octets key payload, s4)))))"

definition read_ws_message :: "('s \<Rightarrow> nat \<Rightarrow> (bytes \<times> 's) result) \<Rightarrow> 's \<Rightarrow> (bytes \<times> 's) result" where
  "read_ws_message recv sock =
     (let err = RuntimeError ''WSS closed before complete frame''
      in bindE (recv_loop err recv sock 2) (\<lambda>(h, s1).
         bindE (read_length err recv s1 (h ! 1)) (\<lambda>(len, s2).
         bindE (if h ! 1 AND 0x80 \<noteq> 0 then recv_loop err recv s2 4 else Inr ([], s2)) (\<lambda>(key, s3).
         bindE (recv_loop err recv s3 len) (\<lambda>(payload, s4).
         Inr (if key \<noteq> [] then mask_octets key payload else payload, s4))))))"

text \<open>The reader of the load generator gives \<open>b""\<close> for everything that is cut short by a close.\<close>

function read_or_empty ::
  "('s \<Rightarrow> nat \<Rightarrow> (bytes \<times> 's) result) \<Rightarrow> 's \<Rightarrow> nat \<Rightarrow> bytes \<Rightarrow> (bytes \<times> 's) result" where
  "read_or_empty recv sock count data =
     (if count \<le> length data then Inr (data, sock)
      else bindE (recv sock (count - length data)) (\<lambda>r.
        if fst r = [] then Inr ([], snd r) else read_or_empty recv (snd r) count (data @ fst r)))"
  by pat_completeness auto
termination
  by (relation "measure (\<lambda>(recv, sock, count, data). count - length data)")
    (auto intro!: diff_less_mono2 simp: length_greater_0_conv)

declare read_or_empty.simps [simp del]

definition ws_read_message :: "('s \<Rightarrow> nat \<Rightarrow> (bytes \<times> 's) result) \<Rightarrow> 's \<Rightarrow> (bytes \<times> 's) result" where
  "ws_read_message recv sock =
     bindE (read_or_empty recv sock 2 []) (\<lambda>(h, s1).
     if length h < 2 then Inr ([], s1)
     else
       let len7 = h ! 1 AND 0x7F; ext = (if len7 = 126 then 2 else if len7 = 127 then 8 else 0)
       in bindE (if ext = 0 then Inr ([], s1) else read_or_empty recv s1 ext []) (\<lambda>(lb, s2).
     if length lb < ext then Inr ([], s2)
     else
       let len = (if ext = 0 then unat len7 else nat (be_int lb))
       in bindE (if h ! 1 AND 0x80 \<noteq> 0 then read_or_empty recv s2 4 [] else Inr ([], s2)) (\<lambda>(key, s3).
     if h ! 1 AND 0x80 \<noteq> 0 \<and> length key < 4 then Inr ([], s3)
     else bindE (read_or_empty recv s3 len []) (\<lambda>(payload, s4).
     if length payload < len then Inr ([], s4)
     else Inr (if key \<noteq> [] then mask_octets key payload else payload, s4)))))"

subsection \<open>The frame at the front of a text of octets\<close>

text \<open>The decoder works in the stages of the readers; each stage takes a prefix.\<close>

definition split_off :: "nat \<Rightarrow> bytes \<Rightarrow> (bytes \<times> bytes) option" where
  "split_off n bs = (if n \<le> length bs then Some (take n bs, drop n bs) else None)"

definition ext_octets :: "byte \<Rightarrow> nat" where
  "ext_octets second = (if second AND 0x7F = 126 then 2 else if second AND 0x7F = 127 then 8 else 0)"

definition decode_length :: "byte \<Rightarrow> bytes \<Rightarrow> (nat \<times> bytes) option" where
  "decode_length second bs =
     Option.bind (split_off (ext_octets second) bs) (\<lambda>(lb, r).
     Some (if ext_octets second = 0 then unat (second AND 0x7F) else nat (be_int lb), r))"

definition decode_frame :: "bytes \<Rightarrow> (bytes \<times> bytes) option" where
  "decode_frame bs =
     Option.bind (split_off 2 bs) (\<lambda>(h, r1).
     Option.bind (decode_length (h ! 1) r1) (\<lambda>(len, r2).
     Option.bind (split_off (if h ! 1 AND 0x80 \<noteq> 0 then 4 else 0) r2) (\<lambda>(key, r3).
     Option.bind (split_off len r3) (\<lambda>(payload, r4).
     Some (if key \<noteq> [] then mask_octets key payload else payload, r4)))))"

text \<open>The server's reader decodes the same frames, with its own conditions on them.\<close>

definition decode_text :: "bytes \<Rightarrow> (bytes result \<times> bytes) option" where
  "decode_text bs =
     Option.bind (split_off 2 bs) (\<lambda>(h, r1).
     if h ! 0 AND 0x0F \<noteq> 1 then Some (Inl (RuntimeError ''outbound WSS payload was not a text frame''), r1)
     else if h ! 1 AND 0x80 = 0 then Some (Inl (RuntimeError ''client WebSocket frame was not masked''), r1)
     else Option.bind (decode_length (h ! 1) r1) (\<lambda>(len, r2).
     if len > 1048576 then Some (Inl (RuntimeError ''outbound WSS frame exceeded the test limit''), r2)
     else Option.bind (split_off 4 r2) (\<lambda>(key, r3).
     Option.bind (split_off len r3) (\<lambda>(payload, r4). Some (Inr (mask_octets key payload), r4)))))"

subsection \<open>The readers are the decoder\<close>

lemma split_off_Some: "split_off n bs = Some (a, b) \<longleftrightarrow> n \<le> length bs \<and> a = take n bs \<and> b = drop n bs"
  by (auto simp: split_off_def)

context byte_source
begin

text \<open>The outcome of a strict stage: the octets split off, or the exception.\<close>

lemma recv_loop_split:
  "case split_off n (pending s) of
     Some (a, b) \<Rightarrow> \<exists>s'. recv_loop err recv s n = Inr (a, s') \<and> pending s' = b \<and> ending s' = ending s
   | None \<Rightarrow> recv_loop err recv s n = Inl (case ending s of None \<Rightarrow> err | Some e \<Rightarrow> e)"
  using recv_loop_enough [of n s err] recv_loop_short [of s n err] by (simp add: split_off_def)

lemma read_or_empty_enough:
  "count - length data \<le> length (pending s) \<Longrightarrow> length data \<le> count \<Longrightarrow>
   \<exists>s'. read_or_empty recv s count data = Inr (data @ take (count - length data) (pending s), s')
      \<and> pending s' = drop (count - length data) (pending s) \<and> ending s' = ending s"
proof (induction "count - length data" arbitrary: s data rule: less_induct)
  case less
  show ?case
  proof (cases "count \<le> length data")
    case True
    then show ?thesis using less.prems by (simp add: read_or_empty.simps)
  next
    case False
    let ?n = "count - length data"
    have "pending s \<noteq> []" "0 < ?n" using False less.prems by auto
    with recv_data [of s ?n] obtain k s1 where k: "0 < k" "k \<le> ?n" "k \<le> length (pending s)"
      and r: "recv s ?n = Inr (take k (pending s), s1)"
      and p: "pending s1 = drop k (pending s)" "ending s1 = ending s" by auto
    let ?d = "data @ take k (pending s)"
    have ld: "length ?d = length data + k" using k by simp
    have "count - length ?d < ?n" "count - length ?d \<le> length (pending s1)" "length ?d \<le> count"
      using k less.prems False by (simp_all add: ld p)
    from less.hyps [OF this] obtain s2 where
      q: "read_or_empty recv s1 count ?d = Inr (?d @ take (count - length ?d) (pending s1), s2)"
      and p2: "pending s2 = drop (count - length ?d) (pending s1)" "ending s2 = ending s1" by blast
    have ne: "take k (pending s) \<noteq> []" using k by (metis length_greater_0_conv length_take min.absorb2)
    have rest: "count - length ?d = ?n - k" unfolding ld by simp
    have "read_or_empty recv s count data = read_or_empty recv s1 count ?d"
      using False ne by (subst read_or_empty.simps) (simp add: r)
    moreover have "take k (pending s) @ take (?n - k) (drop k (pending s)) = take ?n (pending s)"
      using k by (simp flip: take_add)
    moreover have "drop (?n - k) (drop k (pending s)) = drop ?n (pending s)" using k by simp
    ultimately show ?thesis using q p p2 unfolding rest by simp
  qed
qed

lemma read_or_empty_short:
  "length (pending s) < count - length data \<Longrightarrow> ending s = None \<Longrightarrow>
   \<exists>s'. read_or_empty recv s count data = Inr ([], s')"
proof (induction "count - length data" arbitrary: s data rule: less_induct)
  case less
  let ?n = "count - length data"
  have n: "0 < ?n" "\<not> count \<le> length data" using less.prems by auto
  show ?case
  proof (cases "pending s = []")
    case True
    then show ?thesis using n less.prems recv_closed [of s ?n]
      by (subst read_or_empty.simps) auto
  next
    case False
    with n recv_data [of s ?n] obtain k s1 where k: "0 < k" "k \<le> ?n" "k \<le> length (pending s)"
      and r: "recv s ?n = Inr (take k (pending s), s1)"
      and p: "pending s1 = drop k (pending s)" "ending s1 = ending s" by auto
    let ?d = "data @ take k (pending s)"
    have "count - length ?d < ?n" "length (pending s1) < count - length ?d"
      using k n less.prems by (simp_all add: p)
    from less.hyps [OF this] have "\<exists>s'. read_or_empty recv s1 count ?d = Inr ([], s')"
      using less.prems p by simp
    moreover have "take k (pending s) \<noteq> []" using k by (metis length_greater_0_conv length_take min.absorb2)
    ultimately show ?thesis using n by (subst read_or_empty.simps) (simp add: r)
  qed
qed

lemma read_or_empty_split:
  "case split_off n (pending s) of
     Some (a, b) \<Rightarrow> \<exists>s'. read_or_empty recv s n [] = Inr (a, s') \<and> pending s' = b \<and> ending s' = ending s
   | None \<Rightarrow> ending s = None \<longrightarrow> (\<exists>s'. read_or_empty recv s n [] = Inr ([], s'))"
  using read_or_empty_enough [of n "[]" s] read_or_empty_short [of s n "[]"] by (simp add: split_off_def)

text \<open>
  A read that is the decoding \<open>d\<close> of what is pending: the value and the rest, or the exception of a read that
  is cut short. Reads in sequence are decodings in sequence.
\<close>

definition reads :: "exn \<Rightarrow> 's \<Rightarrow> ('a \<times> 's) result \<Rightarrow> ('a \<times> bytes) option \<Rightarrow> bool" where
  "reads err s r d \<longleftrightarrow>
     (case d of
        Some (a, b) \<Rightarrow> \<exists>s'. r = Inr (a, s') \<and> pending s' = b \<and> ending s' = ending s
      | None \<Rightarrow> r = Inl (case ending s of None \<Rightarrow> err | Some e \<Rightarrow> e))"

lemma reads_bind:
  assumes "reads err s r d" and "\<And>a s'. d = Some (a, pending s') \<Longrightarrow> reads err s' (f a s') (g a (pending s'))"
  shows "reads err s (bindE r (\<lambda>(a, s'). f a s')) (Option.bind d (\<lambda>(a, b). g a b))"
proof (cases d)
  case None
  then show ?thesis using assms(1) by (simp add: reads_def)
next
  case (Some ab)
  then obtain a s' where a: "r = Inr (a, s')" "ab = (a, pending s')" "ending s' = ending s"
    using assms(1) by (cases ab) (auto simp: reads_def)
  with Some assms(2) [of a s'] show ?thesis
    by (cases "g a (pending s')") (auto simp: reads_def)
qed

lemma reads_loop: "reads err s (recv_loop err recv s n) (split_off n (pending s))"
  using recv_loop_split [of err s n] by (simp add: reads_def)

lemma reads_return: "reads err s (Inr (a, s)) (Some (a, pending s))"
  by (simp add: reads_def)

lemma reads_length: "reads err s (read_length err recv s second) (decode_length second (pending s))"
proof -
  have loop: "reads err s (bindE (recv_loop err recv s n) (\<lambda>(bs, s). Inr (nat (be_int bs), s)))
      (Option.bind (split_off n (pending s)) (\<lambda>(lb, r). Some (nat (be_int lb), r)))" for n
    by (rule reads_bind [OF reads_loop]) (auto simp: reads_def)
  show ?thesis
    using loop [of 2] loop [of 8] reads_return [of err s "unat (second AND 0x7F)"]
    by (auto simp: read_length_def decode_length_def ext_octets_def Let_def split_off_def)
qed

lemma reads_cond: "reads err s (if c then recv_loop err recv s n else Inr ([], s)) (split_off (if c then n else 0) (pending s))"
  using reads_loop [of err s n] reads_return [of err s "[]"] by (cases c) (simp_all add: split_off_def)

lemma read_ws_message_decode:
  "reads (RuntimeError ''WSS closed before complete frame'') s (read_ws_message recv s) (decode_frame (pending s))"
  unfolding read_ws_message_def decode_frame_def Let_def
  by (intro reads_bind reads_loop reads_length reads_cond reads_return)

definition checked :: "exn \<Rightarrow> 's \<Rightarrow> ('a \<times> 's) result \<Rightarrow> ('a result \<times> bytes) option \<Rightarrow> bool" where
  "checked err s r d \<longleftrightarrow>
     (case d of
        Some (Inr a, b) \<Rightarrow> \<exists>s'. r = Inr (a, s') \<and> pending s' = b \<and> ending s' = ending s
      | Some (Inl e, b) \<Rightarrow> r = Inl e
      | None \<Rightarrow> r = Inl (case ending s of None \<Rightarrow> err | Some e \<Rightarrow> e))"

lemma checked_bind:
  assumes "reads err s r d" and "\<And>a s'. d = Some (a, pending s') \<Longrightarrow> checked err s' (f a s') (g a (pending s'))"
  shows "checked err s (bindE r (\<lambda>(a, s'). f a s')) (Option.bind d (\<lambda>(a, b). g a b))"
proof (cases d)
  case None
  then show ?thesis using assms(1) by (simp add: reads_def checked_def)
next
  case (Some ab)
  then obtain a s' where a: "r = Inr (a, s')" "ab = (a, pending s')" "ending s' = ending s"
    using assms(1) by (cases ab) (auto simp: reads_def)
  with Some assms(2) [of a s'] show ?thesis
    by (cases "g a (pending s')"; cases "fst (the (g a (pending s')))") (auto simp: checked_def)
qed

lemma checked_if: "(c \<Longrightarrow> checked err s r d) \<Longrightarrow> (\<not> c \<Longrightarrow> checked err s r' d') \<Longrightarrow>
    checked err s (if c then r else r') (if c then d else d')"
  by simp

lemma checked_simps: "checked err s (Inl e) (Some (Inl e, b))" "checked err s (Inr (a, s)) (Some (Inr a, pending s))"
  by (simp_all add: checked_def)

lemma read_text_frame_decode: "checked WSS_CLOSED s (read_text_frame recv s) (decode_text (pending s))"
  unfolding read_text_frame_def decode_text_def
  by (intro checked_bind reads_loop reads_length checked_if checked_simps)

text \<open>The reader of the load generator: as the decoder, and \<open>b""\<close> for a frame that a close cuts short.\<close>

definition lenient :: "'s \<Rightarrow> (bytes \<times> 's) result \<Rightarrow> (bytes \<times> bytes) option \<Rightarrow> bool" where
  "lenient s r d \<longleftrightarrow>
     (case d of
        Some (a, b) \<Rightarrow> \<exists>s'. r = Inr (a, s') \<and> pending s' = b \<and> ending s' = ending s
      | None \<Rightarrow> ending s = None \<longrightarrow> (\<exists>s'. r = Inr ([], s')))"

lemma lenient_stage:
  assumes "\<And>a s'. length a = n \<Longrightarrow> lenient s' (f a s') (g a (pending s'))"
  shows "lenient s (bindE (read_or_empty recv s n []) (\<lambda>(a, s'). if length a < n then Inr ([], s') else f a s'))
    (Option.bind (split_off n (pending s)) (\<lambda>(a, b). g a b))"
proof (cases "n \<le> length (pending s)")
  case True
  then obtain s' where r: "read_or_empty recv s n [] = Inr (take n (pending s), s')" "pending s' = drop n (pending s)" "ending s' = ending s"
    using read_or_empty_split [of s n] by (auto simp: split_off_def)
  have "length (take n (pending s)) = n" using True by simp
  with assms [of "take n (pending s)" s'] r True show ?thesis
    by (cases "g (take n (pending s)) (pending s')") (auto simp: lenient_def split_off_def)
next
  case False
  then have "split_off n (pending s) = None" "0 < n" by (auto simp: split_off_def)
  then show ?thesis using read_or_empty_split [of s n] by (auto simp: lenient_def)
qed

lemma read_or_empty_stages:
  "(if n = 0 then Inr ([], s) else read_or_empty recv s n []) = read_or_empty recv s n []"
  "(if c then read_or_empty recv s n [] else Inr ([], s)) = read_or_empty recv s (if c then n else 0) []"
  "(c \<and> m < n) = (m < (if c then n else (0 :: nat)))"
  by (simp_all add: read_or_empty.simps [of recv s 0])

lemma ws_read_message_stages:
  "ws_read_message recv s =
     bindE (read_or_empty recv s 2 []) (\<lambda>(h, s1). if length h < 2 then Inr ([], s1)
     else bindE (read_or_empty recv s1 (ext_octets (h ! 1)) []) (\<lambda>(lb, s2). if length lb < ext_octets (h ! 1) then Inr ([], s2)
     else bindE (read_or_empty recv s2 (if h ! 1 AND 0x80 \<noteq> 0 then 4 else 0) []) (\<lambda>(key, s3).
       if length key < (if h ! 1 AND 0x80 \<noteq> 0 then 4 else 0) then Inr ([], s3)
     else bindE (read_or_empty recv s3 (if ext_octets (h ! 1) = 0 then unat (h ! 1 AND 0x7F) else nat (be_int lb)) []) (\<lambda>(payload, s4).
       if length payload < (if ext_octets (h ! 1) = 0 then unat (h ! 1 AND 0x7F) else nat (be_int lb)) then Inr ([], s4)
     else Inr (if key \<noteq> [] then mask_octets key payload else payload, s4)))))"
  unfolding ws_read_message_def Let_def ext_octets_def [symmetric] read_or_empty_stages ..

lemma decode_frame_flat:
  "decode_frame bs =
     Option.bind (split_off 2 bs) (\<lambda>(h, r1).
     Option.bind (split_off (ext_octets (h ! 1)) r1) (\<lambda>(lb, r2).
     Option.bind (split_off (if h ! 1 AND 0x80 \<noteq> 0 then 4 else 0) r2) (\<lambda>(key, r3).
     Option.bind (split_off (if ext_octets (h ! 1) = 0 then unat (h ! 1 AND 0x7F) else nat (be_int lb)) r3) (\<lambda>(payload, r4).
     Some (if key \<noteq> [] then mask_octets key payload else payload, r4)))))"
  by (simp add: decode_frame_def decode_length_def bind_assoc case_prod_unfold del: One_nat_def)

lemma ws_read_message_decode: "lenient s (ws_read_message recv s) (decode_frame (pending s))"
  unfolding ws_read_message_stages decode_frame_flat
  by (intro lenient_stage) (simp add: lenient_def)

end

subsection \<open>Frames that are written are read\<close>

lemma enumerate_Cons: "enumerate n (x # xs) = (n, x) # enumerate (Suc n) xs"
  by simp

lemma length_mask_octets [simp]: "length (mask_octets key p) = length p"
  by (simp add: mask_octets_def)

lemma mask_twice [simp]: "mask_octets key (mask_octets key p) = p"
  by (rule nth_equalityI) (simp_all add: mask_octets_def nth_enumerate_eq xor.assoc)

lemma split_off_append [simp]: "split_off (length a) (a @ b) = Some (a, b)" "split_off 0 b = Some ([], b)"
  by (simp_all add: split_off_def)

lemma small_octet:
  assumes "n < 128"
  shows "(word_of_nat n :: byte) AND 0x7F = word_of_nat n" "(word_of_nat n :: byte) AND 0x80 = 0"
proof -
  have "(word_of_nat n :: byte) AND 0x7F = take_bit 7 (word_of_nat n)"
    by (simp add: take_bit_eq_mask mask_eq_exp_minus_1)
  also have "\<dots> = word_of_nat n"
    using assms by (simp add: word_unat_eq_iff unsigned_take_bit_eq unsigned_of_nat take_bit_nat_eq_self)
  finally show a: "(word_of_nat n :: byte) AND 0x7F = word_of_nat n" .
  have "(word_of_nat n :: byte) AND 0x80 = (word_of_nat n AND 0x7F) AND 0x80" unfolding a ..
  also have "\<dots> = 0" by (simp add: and.assoc)
  finally show "(word_of_nat n :: byte) AND 0x80 = 0" .
qed

lemma masked_octet:
  assumes "n < 128"
  shows "((0x80 :: byte) OR word_of_nat n) AND 0x7F = word_of_nat n" "((0x80 :: byte) OR word_of_nat n) AND 0x80 \<noteq> 0"
  using small_octet [OF assms] by (simp_all add: bit.conj_disj_distrib2)

text \<open>The stages of the decoder on a header with each of the three length fields.\<close>

lemma unat_small: "n < 256 \<Longrightarrow> unat (word_of_nat n :: byte) = n"
  by (simp add: unsigned_of_nat take_bit_nat_eq_self)

lemma small_not_ext: "n < 126 \<Longrightarrow> (word_of_nat n :: byte) \<noteq> 126 \<and> (word_of_nat n :: byte) \<noteq> 127"
  using unat_small [of n] by (auto simp: word_unat_eq_iff)

definition length_field :: "nat \<Rightarrow> bytes" where
  "length_field n = (if n < 126 then [] else if n \<le> 0xFFFF then be_bytes 2 (int n) else be_bytes 8 (int n))"

definition length_octet :: "nat \<Rightarrow> byte" where
  "length_octet n = (if n < 126 then word_of_nat n else if n \<le> 0xFFFF then 126 else 127)"

lemma length_octet_cases: "length_octet n = word_of_nat (if n < 126 then n else if n \<le> 0xFFFF then 126 else 127)"
  by (simp add: length_octet_def)

lemma length_octet_bits:
  "length_octet n AND 0x7F = length_octet n" "length_octet n AND 0x80 = 0"
  "(0x80 OR length_octet n) AND 0x7F = length_octet n" "(0x80 OR length_octet n) AND 0x80 \<noteq> 0"
  unfolding length_octet_cases by (rule small_octet masked_octet, simp)+

lemma decode_length_field:
  assumes "second AND 0x7F = length_octet n" and "n < 2 ^ 63"
  shows "decode_length second (length_field n @ r) = Some (n, r)"
proof -
  consider "n < 126" | "126 \<le> n" "n \<le> 0xFFFF" | "0xFFFF < n" by linarith
  then show ?thesis
  proof cases
    case 1
    then show ?thesis using assms(1) small_not_ext [of n] unat_small [of n]
      by (simp add: decode_length_def ext_octets_def length_field_def length_octet_def)
  next
    case 2
    then have "be_int (be_bytes 2 (int n)) = int n" by (intro be_int_be_bytes) simp_all
    then show ?thesis using 2 assms(1)
      by (simp add: decode_length_def ext_octets_def length_field_def length_octet_def split_off_def)
  next
    case 3
    then have "be_int (be_bytes 8 (int n)) = int n" using assms(2) by (intro be_int_be_bytes) simp_all
    then show ?thesis using 3 assms(1)
      by (simp add: decode_length_def ext_octets_def length_field_def length_octet_def split_off_def)
  qed
qed

lemma ws_frame_form: "ws_frame key p = [0x81, 0x80 OR length_octet (length p)] @ length_field (length p) @ key @ mask_octets key p"
  by (simp add: ws_frame_def length_octet_def length_field_def Let_def)

lemma send_text_frame_form: "send_text_frame p = [0x81, length_octet (length p)] @ length_field (length p) @ p"
  by (simp add: send_text_frame_def length_octet_def length_field_def Let_def)

lemma split_two: "split_off 2 (a # b # r) = Some ([a, b], r)"
  by (simp add: split_off_def)

lemma decode_ws_frame:
  assumes "length key = 4" and "length p < 2 ^ 63"
  shows "decode_frame (ws_frame key p @ rest) = Some (p, rest)"
    "length p \<le> 1048576 \<Longrightarrow> decode_text (ws_frame key p @ rest) = Some (Inr p, rest)"
    "\<not> length p \<le> 1048576 \<Longrightarrow> \<exists>r. decode_text (ws_frame key p @ rest) =
       Some (Inl (RuntimeError ''outbound WSS frame exceeded the test limit''), r)"
proof -
  note len = decode_length_field [OF length_octet_bits(3) assms(2), of "key @ mask_octets key p @ rest"]
  have key: "split_off 4 (key @ r) = Some (key, r)" for r using assms(1) split_off_append(1) [of key r] by simp
  have pay: "split_off (length p) (mask_octets key p @ rest) = Some (mask_octets key p, rest)"
    using split_off_append(1) [of "mask_octets key p" rest] by simp
  have ne: "key \<noteq> []" using assms(1) by auto
  show "decode_frame (ws_frame key p @ rest) = Some (p, rest)"
    using len key pay ne by (simp add: decode_frame_def ws_frame_form split_two length_octet_bits)
  show "length p \<le> 1048576 \<Longrightarrow> decode_text (ws_frame key p @ rest) = Some (Inr p, rest)"
    using len key pay by (simp add: decode_text_def ws_frame_form split_two length_octet_bits)
  show "\<not> length p \<le> 1048576 \<Longrightarrow> \<exists>r. decode_text (ws_frame key p @ rest) =
       Some (Inl (RuntimeError ''outbound WSS frame exceeded the test limit''), r)"
    using len by (simp add: decode_text_def ws_frame_form split_two length_octet_bits)
qed

lemma decode_send_text_frame:
  assumes "length p < 2 ^ 63"
  shows "decode_frame (send_text_frame p @ rest) = Some (p, rest)"
    "decode_text (send_text_frame p @ rest) = Some (Inl (RuntimeError ''client WebSocket frame was not masked''), length_field (length p) @ p @ rest)"
proof -
  note len = decode_length_field [OF length_octet_bits(1) assms, of "p @ rest"]
  show "decode_frame (send_text_frame p @ rest) = Some (p, rest)"
    using len by (simp add: decode_frame_def send_text_frame_form split_two length_octet_bits)
  show "decode_text (send_text_frame p @ rest) = Some (Inl (RuntimeError ''client WebSocket frame was not masked''), length_field (length p) @ p @ rest)"
    by (simp add: decode_text_def send_text_frame_form split_two length_octet_bits)
qed

subsection \<open>Properties\<close>

text \<open>C33: a WebSocket frame arrives as it was sent, however the stream is cut into segments. What \<open>ws_frame\<close> writes
  with any mask of four octets, \<open>read_text_frame\<close> returns, leaving what follows, if it is at most 1 MiB, and
  refuses otherwise; what \<open>send_text_frame\<close> writes, both client readers return, and \<open>read_text_frame\<close> refuses
  as not masked.\<close>

theorem websocket_frames_arrive:
  assumes "length key = 4" and "length p < 2 ^ 63"
    and "sock_pending s = ws_frame key p @ rest" and "sock_pending t = send_text_frame p @ rest"
  shows "(if length p \<le> 1048576 then \<exists>s'. read_text_frame sock_recv s = Inr (p, s') \<and> sock_pending s' = rest
      else read_text_frame sock_recv s = Inl (RuntimeError ''outbound WSS frame exceeded the test limit''))
    \<and> (\<exists>t'. read_ws_message sock_recv t = Inr (p, t') \<and> sock_pending t' = rest)
    \<and> (\<exists>t'. ws_read_message sock_recv t = Inr (p, t') \<and> sock_pending t' = rest)
    \<and> read_text_frame sock_recv t = Inl (RuntimeError ''client WebSocket frame was not masked'')"
  using sock.read_text_frame_decode [of s] sock.read_text_frame_decode [of t] sock.read_ws_message_decode [of t]
    sock.ws_read_message_decode [of t] decode_ws_frame [OF assms(1,2), of rest] decode_send_text_frame [OF assms(2), of rest]
  by (auto simp: assms(3,4) sock.checked_def sock.reads_def sock.lenient_def)

theorem websocket_frames_arrive_witness:
  "\<exists>s'. read_text_frame sock_recv [Segment [0x81], Segment [0x82, 1, 2, 3, 4, 0x49], Segment [0x4B, 7]] = Inr ([0x48, 0x49], s') \<and> sock_pending s' = [7]"
  using websocket_frames_arrive [of "[1, 2, 3, 4]" "[0x48, 0x49]" "[Segment [0x81], Segment [0x82, 1, 2, 3, 4, 0x49], Segment [0x4B, 7]]" "[7]"
    "[Segment [0x81, 2, 0x48, 0x49, 7]]"]
  by (simp add: ws_frame_def send_text_frame_def mask_octets_def)

text \<open>The readers of the client side are one decoder, whatever arrives. If the pending octets begin with a
  whole frame, both return its payload, unmasked if it is masked, and leave what follows. If they do not
  and the peer closes, \<open>read_ws_message\<close> of the transport matrix raises, and \<open>ws_read_message\<close> of the load generator
  returns no octets, as it does for an empty frame.\<close>

theorem websocket_readers_decode:
  "case decode_frame (sock_pending s) of
     Some (m, rest) \<Rightarrow>
       (\<exists>s'. read_ws_message sock_recv s = Inr (m, s') \<and> sock_pending s' = rest) \<and>
       (\<exists>s'. ws_read_message sock_recv s = Inr (m, s') \<and> sock_pending s' = rest)
   | None \<Rightarrow>
       sock_ending s = None \<longrightarrow>
         read_ws_message sock_recv s = Inl (RuntimeError ''WSS closed before complete frame'') \<and>
         (\<exists>s'. ws_read_message sock_recv s = Inr ([], s'))"
  using sock.read_ws_message_decode [of s] sock.ws_read_message_decode [of s]
  by (auto simp: sock.reads_def sock.lenient_def split: option.splits prod.splits)

theorem websocket_readers_decode_witness:
  "read_ws_message sock_recv [Segment [0x81, 5, 1, 2]] = Inl (RuntimeError ''WSS closed before complete frame'') \<and>
   (\<exists>s'. ws_read_message sock_recv [Segment [0x81, 5, 1, 2]] = Inr ([], s'))"
  using websocket_readers_decode [of "[Segment [0x81, 5, 1, 2]]"]
  by (simp add: decode_frame_def decode_length_def split_off_def ext_octets_def)

end
