(* ===== verification/Bench_Script.thy ===== *)
theory Bench_Script
  imports Sip_Text Ws_Frame Py_Json "HOL-Library.Sublist"
begin

section \<open>Scripts of the test matrices\<close>

text \<open>
  What the drivers of the matrices share: straight-line code that opens a connection, sends a payload, reads and
  requires something of what it has read, where the first failing \<open>require\<close> or socket call raises and ends
  the script. A driver is a list of such steps. Its input is what the far end does: for each connection the outcomes
  of \<open>recv\<close> in order, where none left means that the peer has closed (for a datagram socket: nothing
  arrives before the timeout). Octets are characters.
\<close>

type_synonym chunks = "string result list"

subsection \<open>Reading\<close>

definition recv_datagram :: "chunks \<Rightarrow> (string \<times> chunks) result" where
  "recv_datagram cs = (case cs of [] \<Rightarrow> Inl OSError | Inl e # _ \<Rightarrow> Inl e | Inr d # cs \<Rightarrow> Inr (d, cs))"

text \<open>\<open>data.count(expected)\<close>: occurrences that do not overlap, from the left.\<close>

function count_of :: "string \<Rightarrow> string \<Rightarrow> nat" where
  "count_of w s =
     (if s = [] \<or> w = [] then 0
      else if starts_with w s then Suc (count_of w (drop (length w) s)) else count_of w (tl s))"
  by pat_completeness auto
termination
  by (relation "measure (\<lambda>(w, s). length s)") (auto simp: neq_Nil_conv)

declare count_of.simps [simp del]

fun read_socket :: "string \<Rightarrow> nat \<Rightarrow> string \<Rightarrow> chunks \<Rightarrow> (string \<times> chunks) result" where
  "read_socket expected n data [] = Inr (data, [])"
| "read_socket expected n data (r # cs) =
     (if n \<le> count_of expected data then Inr (data, r # cs)
      else case r of
        Inl e \<Rightarrow> Inl e
      | Inr c \<Rightarrow> if c = [] then Inr (data, cs) else read_socket expected n (data @ c) cs)"

text \<open>A plain \<open>recv\<close> on a stream: nothing when the peer has closed.\<close>

definition recv_stream :: "chunks \<Rightarrow> (string \<times> chunks) result" where
  "recv_stream cs = (case cs of [] \<Rightarrow> Inr ([], []) | Inl e # _ \<Rightarrow> Inl e | Inr d # cs \<Rightarrow> Inr (d, cs))"

text \<open>The same connection as a source of octets, for the readers of WebSocket frames.\<close>

definition as_socket :: "chunks \<Rightarrow> socket" where
  "as_socket cs = map (\<lambda>r. case r of Inl _ \<Rightarrow> Timeout | Inr c \<Rightarrow> Segment (bytes_of c)) cs"

definition from_socket :: "socket \<Rightarrow> chunks" where
  "from_socket s = map (\<lambda>g. case g of Timeout \<Rightarrow> Inl OSError | Segment b \<Rightarrow> Inr (str_of b)) s"

definition read_ws :: "chunks \<Rightarrow> (string \<times> chunks) result" where
  "read_ws cs =
     (case read_ws_message sock_recv (as_socket cs) of
        Inl e \<Rightarrow> Inl e
      | Inr (m, s) \<Rightarrow> Inr (str_of m, from_socket s))"

subsection \<open>Waiting for the proxy\<close>

text \<open>
  \<open>wait_ready\<close> asks for \<^verbatim>\<open>/readyz\<close> until the answer is good. Its input is the outcome of each attempt before the
  deadline: the status and the body as \<open>json.loads\<close> reads it (\<open>None\<close> if it cannot). Every exception of an
  attempt is swallowed.
\<close>

type_synonym http_answer = "int \<times> json option"

definition ready_status :: "http_answer \<Rightarrow> bool" where
  "ready_status a \<longleftrightarrow> fst a = 200"

definition ready_json :: "http_answer \<Rightarrow> bool" where
  "ready_json a \<longleftrightarrow> fst a = 200 \<and>
     (case snd a of
        Some (JObj d) \<Rightarrow> (case map_of d ''ready'' of Some v \<Rightarrow> truthy v | None \<Rightarrow> False)
      | _ \<Rightarrow> False)"

fun wait_ready :: "(http_answer \<Rightarrow> bool) \<Rightarrow> http_answer result list \<Rightarrow> unit result" where
  "wait_ready good [] = Inl (RuntimeError ''proxy did not become ready'')"
| "wait_ready good (Inl e # as) = wait_ready good as"
| "wait_ready good (Inr a # as) = (if good a then Inr () else wait_ready good as)"

lemma wait_ready_iff: "wait_ready good as = Inr () \<longleftrightarrow> (\<exists>a. Inr a \<in> set as \<and> good a)"
  by (induction good as rule: wait_ready.induct) auto

subsection \<open>Steps\<close>

text \<open>\<open>Act\<close> is a step that reads, requires, or both: it gives what is left to read, or the exception.\<close>

datatype step = Connect | Send string | Act "chunks \<Rightarrow> chunks result"

fun run_steps :: "step list \<Rightarrow> chunks list \<Rightarrow> chunks \<Rightarrow> string list \<times> unit result" where
  "run_steps [] conns cur = ([], Inr ())"
| "run_steps (Connect # ss) conns cur =
     (case conns of [] \<Rightarrow> ([], Inl OSError) | c # cs \<Rightarrow> run_steps ss cs c)"
| "run_steps (Send p # ss) conns cur = (case run_steps ss conns cur of (out, r) \<Rightarrow> (p # out, r))"
| "run_steps (Act f # ss) conns cur = (case f cur of Inl e \<Rightarrow> ([], Inl e) | Inr cur' \<Rightarrow> run_steps ss conns cur')"

text \<open>Reading, then requiring something of what was read: the second function gives the message of the error, if any.\<close>

definition expect :: "(chunks \<Rightarrow> (string \<times> chunks) result) \<Rightarrow> (string \<Rightarrow> string option) \<Rightarrow> step" where
  "expect reader complaint =
     Act (\<lambda>cs. bindE (reader cs) (\<lambda>(d, cs'). case complaint d of Some m \<Rightarrow> Inl (RuntimeError m) | None \<Rightarrow> Inr cs'))"

text \<open>Requiring something that is not read from the connection.\<close>

definition need :: "bool \<Rightarrow> string \<Rightarrow> step" where
  "need condition message = Act (\<lambda>cs. if condition then Inr cs else Inl (RuntimeError message))"

lemma run_expect [simp]:
  "run_steps (expect reader complaint # ss) conns cur =
     (case reader cur of
        Inl e \<Rightarrow> ([], Inl e)
      | Inr (d, cur') \<Rightarrow>
          (case complaint d of Some m \<Rightarrow> ([], Inl (RuntimeError m)) | None \<Rightarrow> run_steps ss conns cur'))"
  by (auto simp: expect_def split: sum.splits option.splits)

lemma run_need [simp]:
  "run_steps (need c m # ss) conns cur = (if c then run_steps ss conns cur else ([], Inl (RuntimeError m)))"
  by (simp add: need_def)

definition require :: "bool \<Rightarrow> string \<Rightarrow> string option" where
  "require condition message = (if condition then None else Some message)"

lemma require_simps [simp]: "require True m = None" "require False m = Some m" "require c m = None \<longleftrightarrow> c"
  by (simp_all add: require_def)

text \<open>What a script sends.\<close>

fun payloads :: "step list \<Rightarrow> string list" where
  "payloads [] = []"
| "payloads (Send p # ss) = p # payloads ss"
| "payloads (_ # ss) = payloads ss"

lemma payloads_expect [simp]: "payloads (expect r c # ss) = payloads ss" "payloads (need b m # ss) = payloads ss"
  by (simp_all add: expect_def need_def)

lemma payloads_append [simp]: "payloads (ss @ ts) = payloads ss @ payloads ts"
  by (induction ss rule: payloads.induct) auto

text \<open>A script sends its payloads in order and stops at the first failure; one that passes has sent all.\<close>

lemma run_steps_sends:
  "prefix (fst (run_steps ss conns cur)) (payloads ss) \<and>
   (snd (run_steps ss conns cur) = Inr () \<longrightarrow> fst (run_steps ss conns cur) = payloads ss)"
  by (induction ss conns cur rule: run_steps.induct) (auto split: list.splits sum.splits option.splits prod.splits)

lemma passed_script: "run_steps ss conns cur = (out, Inr ()) \<Longrightarrow> out = payloads ss"
  using run_steps_sends [of ss conns cur] by simp

subsection \<open>Exchanges with a far end that answers each payload\<close>

text \<open>One datagram sent, one read. The far end is a function of the payload.\<close>

definition exchange :: "(chunks \<Rightarrow> (string \<times> chunks) result) \<Rightarrow> string \<times> (string \<Rightarrow> string option) \<Rightarrow> step list" where
  "exchange reader probe = [Send (fst probe), expect reader (snd probe)]"

lemma payloads_exchanges: "payloads (concat (map (exchange reader) probes)) = map fst probes"
  by (induction probes) (auto simp: exchange_def)

lemma run_exchanges:
  assumes "\<And>d cs. reader (Inr d # cs) = Inr (d, cs)"
  shows "snd (run_steps (concat (map (exchange reader) probes)) conns (map (\<lambda>p. Inr (respond (fst p))) probes)) =
    (case List.find (\<lambda>p. snd p (respond (fst p)) \<noteq> None) probes of
       None \<Rightarrow> Inr ()
     | Some p \<Rightarrow> Inl (RuntimeError (the (snd p (respond (fst p))))))"
proof (induction probes)
  case (Cons p probes)
  then show ?case
    by (cases "snd p (respond (fst p))") (auto simp: exchange_def assms split: prod.splits)
qed simp

subsection \<open>Counting occurrences\<close>

lemma count_of_Nil [simp]: "count_of w [] = 0"
  by (simp add: count_of.simps)

lemma count_of_hit: "w \<noteq> [] \<Longrightarrow> count_of w (w @ s) = Suc (count_of w s)"
  by (subst count_of.simps) (simp add: starts_with_def)

lemma count_of_short: "length s < length w \<Longrightarrow> count_of w s = 0"
proof (induction w s rule: count_of.induct)
  case (1 w s)
  then have "\<not> starts_with w s" by (auto simp: starts_with_def)
  moreover have "length (tl s) < length w" using 1(3) by simp
  ultimately show ?case using 1 by (simp add: count_of.simps [of w s])
qed

text \<open>A longer text has no fewer occurrences, so what has been read once stays read.\<close>

lemma count_of_append: "count_of w s \<le> count_of w (s @ t)"
proof (induction w s rule: count_of.induct)
  case (1 w s)
  show ?case
  proof (cases "length s < length w \<or> s = [] \<or> w = []")
    case True
    then show ?thesis using count_of_short [of s w] by (auto simp: count_of.simps [of "[]"])
  next
    case long: False
    then have same: "starts_with w (s @ t) = starts_with w s" by (simp add: starts_with_def)
    have cut: "drop (length w) (s @ t) = drop (length w) s @ t" "tl (s @ t) = tl s @ t" using long by auto
    show ?thesis
      using long 1 same by (simp add: count_of.simps [of w s] count_of.simps [of w "s @ t"] cut)
  qed
qed

lemma read_socket_reads:
  assumes "list_all (\<lambda>c. c \<noteq> []) chunks"
  shows "\<exists>d cs'. read_socket w n data (map Inr chunks) = Inr (d, cs')
    \<and> (n \<le> count_of w d \<longleftrightarrow> n \<le> count_of w (data @ concat chunks))"
  using assms
proof (induction chunks arbitrary: data)
  case (Cons c chunks)
  show ?case
  proof (cases "n \<le> count_of w data")
    case True
    then show ?thesis using count_of_append [of w data "c @ concat chunks"] by auto
  next
    case False
    then show ?thesis using Cons.IH [of "data @ c"] Cons.prems by simp
  qed
qed simp

lemma starts_with_iff: "starts_with w s \<longleftrightarrow> (\<exists>b. s = w @ b)"
  by (metis append_eq_conv_conj append_take_drop_id starts_with_def)

lemma contains_Cons: "contains w (c # s) \<longleftrightarrow> starts_with w (c # s) \<or> contains w s"
proof
  assume "contains w (c # s)"
  then obtain a b where "c # s = a @ w @ b" by (auto simp: contains_iff)
  then show "starts_with w (c # s) \<or> contains w s" by (cases a) (auto simp: contains_iff starts_with_iff)
next
  assume "starts_with w (c # s) \<or> contains w s"
  then show "contains w (c # s)"
    unfolding contains_iff starts_with_iff by (metis append_Cons append_Nil)
qed

lemma contains_at: "starts_with w (drop k s) \<Longrightarrow> contains w s"
  by (metis append_take_drop_id contains_iff starts_with_iff)

lemma count_of_contains: "w \<noteq> [] \<Longrightarrow> Suc 0 \<le> count_of w s \<longleftrightarrow> contains w s"
proof (induction s)
  case Nil
  then show ?case by (simp add: contains_iff)
next
  case (Cons c s)
  then show ?case by (simp add: count_of.simps [of w "c # s"] contains_Cons)
qed

subsection \<open>Scripts whose later steps depend on what was read\<close>

text \<open>What has been sent so far, and the result or the exception: \<open>say\<close> sends, \<open>attempt\<close> goes on with a value.\<close>

definition say :: "'e list \<Rightarrow> 'e list \<times> 'a result \<Rightarrow> 'e list \<times> 'a result" where
  "say ps m = (ps @ fst m, snd m)"

definition attempt :: "'b result \<Rightarrow> ('b \<Rightarrow> 'e list \<times> 'a result) \<Rightarrow> 'e list \<times> 'a result" where
  "attempt r k = (case r of Inl e \<Rightarrow> ([], Inl e) | Inr x \<Rightarrow> k x)"

definition andThen :: "'e list \<times> 'b result \<Rightarrow> ('b \<Rightarrow> 'e list \<times> 'a result) \<Rightarrow> 'e list \<times> 'a result" where
  "andThen m k = say (fst m) (attempt (snd m) k)"

lemma attempt_Inr: "attempt r k = (out, Inr y) \<longleftrightarrow> (\<exists>x. r = Inr x \<and> k x = (out, Inr y))"
  by (cases r) (auto simp: attempt_def)

lemma say_eq: "say ps m = (out, r) \<longleftrightarrow> (\<exists>rest. out = ps @ rest \<and> m = (rest, r))"
  by (cases m) (auto simp: say_def)

lemma andThen_Inr:
  "andThen m k = (out, Inr y) \<longleftrightarrow> (\<exists>o1 x o2. m = (o1, Inr x) \<and> k x = (o2, Inr y) \<and> out = o1 @ o2)"
  by (cases m) (auto simp: andThen_def say_eq attempt_Inr)

text \<open>\<open>bytes.replace(old, new)\<close>, for an \<open>old\<close> that is not empty\<close>

function replace_all :: "string \<Rightarrow> string \<Rightarrow> string \<Rightarrow> string" where
  "replace_all old new s =
     (if s = [] \<or> old = [] then s
      else if starts_with old s then new @ replace_all old new (drop (length old) s)
      else hd s # replace_all old new (tl s))"
  by pat_completeness auto
termination
  by (relation "measure (\<lambda>(old, new, s). length s)") (auto simp: neq_Nil_conv)

declare replace_all.simps [simp del]

end
