(* ===== verification/Hss_Main.thy ===== *)
theory Hss_Main
  imports Hss_System Bench_Script
begin

section \<open>The lab HSS as a program\<close>

text \<open>
  \<^verbatim>\<open>lab/ims_hss.py\<close>: the accept loop of the Diameter server, \<open>_tls_context\<close> and \<open>main\<close>. What the sockets, the certificate files and
  the HTTP server do is input. Argument parsing and the printed message are left out: when several settings are wrong, the
  exit code does not tell which one was found first.
\<close>

subsection \<open>Listening\<close>

datatype address_family = AF_INET | AF_INET6

definition listen_family :: "string \<Rightarrow> address_family" where
  "listen_family host = (if CHR '':'' \<in> set host then AF_INET6 else AF_INET)"

text \<open>
  A turn of the loop of \<open>serve_forever\<close>: \<open>accept\<close> times out, fails because the listener is closed, or gives a connection, for which
  a thread is started. The list ends where \<open>_stop\<close> is found set.
\<close>

datatype accepted = Accept_Timeout | Accept_Error | Connection conn

fun accept_loop :: "accepted list \<Rightarrow> conn list" where
  "accept_loop [] = []"
| "accept_loop (Accept_Timeout # ts) = accept_loop ts"
| "accept_loop (Accept_Error # ts) = []"
| "accept_loop (Connection c # ts) = c # accept_loop ts"

text \<open>\<open>bound\<close> is the outcome of binding and listening, whose exception ends the thread.\<close>

definition diameter_serve :: "unit result \<Rightarrow> accepted list \<Rightarrow> conn list result" where
  "diameter_serve bound ts = bindE bound (\<lambda>_. Inr (accept_loop ts))"

subsection \<open>The start\<close>

text \<open>Whether there is a context; \<open>loads\<close> is what \<open>load_cert_chain\<close> raises. An option that is empty counts as missing.\<close>

definition given :: "string option \<Rightarrow> bool" where
  "given s \<longleftrightarrow> s \<noteq> None \<and> s \<noteq> Some []"

definition tls_context :: "(string option \<Rightarrow> string option \<Rightarrow> exn option) \<Rightarrow> string option \<Rightarrow> string option \<Rightarrow> bool result" where
  "tls_context loads cert key =
     (if \<not> given cert \<and> \<not> given key then Inr False
      else if \<not> given cert \<or> \<not> given key then Inl (ValueError ''TLS certificate and key must be supplied together'')
      else case loads cert key of Some e \<Rightarrow> Inl e | None \<Rightarrow> Inr True)"

record hss_args =
  diameter_host :: string
  diameter_cert :: "string option"
  diameter_key :: "string option"
  connection_limit :: int
  http_host :: string
  http_cert :: "string option"
  http_key :: "string option"
  http_token_arg :: string
  provision_token_arg :: string
  host_arg :: string
  realm_arg :: string
  seed_arg :: "json result option"

text \<open>
  \<open>http_bind\<close> is the outcome of creating the HTTP server, \<open>wrapped\<close> of putting TLS around its socket, \<open>ended\<close> of its \<open>serve_forever\<close>, and
  \<open>diameter_bind\<close> and \<open>accepts_seen\<close> what the Diameter thread meets.
\<close>

record hss_world =
  cert_error :: "string option \<Rightarrow> string option \<Rightarrow> exn option"
  diameter_bind :: "unit result"
  accepts_seen :: "accepted list"
  http_bind :: "unit result"
  wrapped :: "unit result"
  ended :: "unit result"

datatype hss_event = Diameter_Thread "conn list result" | Http_Listening bool | Http_Serving | Shut_Down

text \<open>The events and the exit code. The Diameter thread is started before the HTTP server is made; its fate does not reach \<open>main\<close>.\<close>

definition hss_main :: "hss_args \<Rightarrow> hss_world \<Rightarrow> hss_event list \<times> int" where
  "hss_main a w =
     (case bindE (hss_start (seed_arg a) (http_host a) (host_arg a) (realm_arg a) (connection_limit a) (http_token_arg a) (provision_token_arg a))
             (\<lambda>srv. bindE (tls_context (cert_error w) (diameter_cert a) (diameter_key a)) (\<lambda>_. Inr srv)) of
        Inl e \<Rightarrow> ([], 1)
      | Inr srv \<Rightarrow>
          (case say [Diameter_Thread (diameter_serve (diameter_bind w) (accepts_seen w))]
                  (attempt (http_bind w) (\<lambda>_.
                   attempt (tls_context (cert_error w) (http_cert a) (http_key a)) (\<lambda>tls.
                   attempt (if tls then wrapped w else Inr ()) (\<lambda>_.
                   say [Http_Listening tls, Http_Serving, Shut_Down] ([], ended w))))) of
             (out, r) \<Rightarrow> (out, case r of Inl _ \<Rightarrow> 1 | Inr _ \<Rightarrow> 0)))"

text \<open>When the HSS serves HTTP: exactly if its settings are valid and its HTTP socket can be set up. Whether the Diameter socket can
  be bound plays no part.\<close>

definition settings_valid :: "hss_args \<Rightarrow> hss_world \<Rightarrow> bool" where
  "settings_valid a w \<longleftrightarrow>
     (\<exists>srv. hss_start (seed_arg a) (http_host a) (host_arg a) (realm_arg a) (connection_limit a) (http_token_arg a) (provision_token_arg a) = Inr srv)
     \<and> (\<exists>b. tls_context (cert_error w) (diameter_cert a) (diameter_key a) = Inr b)"

lemma tls_context_Inr:
  "tls_context loads cert key = Inr b \<longleftrightarrow> given cert = b \<and> given key = b \<and> (b \<longrightarrow> loads cert key = None)"
  by (cases b) (auto simp: tls_context_def split: option.splits)

text \<open>C14: when the HSS serves HTTP. It does exactly if its settings are valid, the HTTP certificate and key are both missing or can be loaded,
  and its HTTP socket can be set up; then a token is set or the host is a loopback, and the listener has TLS exactly if the two
  files are given. It serves all the same if the Diameter socket cannot be bound, and its exit code does not depend on that.\<close>

theorem hss_serves_http:
  shows "(Http_Serving \<in> set (fst (hss_main a w)) \<longleftrightarrow>
        settings_valid a w \<and> http_bind w = Inr ()
        \<and> (\<exists>tls. tls_context (cert_error w) (http_cert a) (http_key a) = Inr tls \<and> (if tls then wrapped w = Inr () else True)))
    \<and> list_all (\<lambda>ev. case ev of
          Http_Listening tls \<Rightarrow> (if http_token_arg a = [] then is_loopback_host (http_host a) else True) \<and> tls = given (http_cert a) \<and> tls = given (http_key a)
        | _ \<Rightarrow> True) (fst (hss_main a w))
    \<and> map (\<lambda>ev. case ev of Diameter_Thread _ \<Rightarrow> Diameter_Thread (Inr []) | _ \<Rightarrow> ev) (fst (hss_main a w))
        = map (\<lambda>ev. case ev of Diameter_Thread _ \<Rightarrow> Diameter_Thread (Inr []) | _ \<Rightarrow> ev) (fst (hss_main a (w\<lparr>diameter_bind := d\<rparr>)))
    \<and> snd (hss_main a (w\<lparr>diameter_bind := d\<rparr>)) = snd (hss_main a w)"
proof (cases "hss_start (seed_arg a) (http_host a) (host_arg a) (realm_arg a) (connection_limit a) (http_token_arg a) (provision_token_arg a)")
  case (Inl e)
  then show ?thesis by (simp add: hss_main_def settings_valid_def)
next
  case start: (Inr srv)
  have "http_token srv \<noteq> [] \<or> is_loopback_host (http_host a)" using hss_start_ok [OF start] by blast
  moreover have "http_token srv = http_token_arg a"
    using start by (auto simp: hss_start_def bindE_Inr_iff check_token_def split: if_splits)
  ultimately have token: "http_token_arg a \<noteq> [] \<or> is_loopback_host (http_host a)" by simp
  show ?thesis
  proof (cases "tls_context (cert_error w) (diameter_cert a) (diameter_key a)")
    case (Inl e)
    then show ?thesis using start by (simp add: hss_main_def settings_valid_def)
  next
    case dia: (Inr b)
    show ?thesis
    proof (cases "tls_context (cert_error w) (http_cert a) (http_key a)")
      case (Inl e)
      then show ?thesis using start dia
        by (cases "http_bind w") (simp_all add: hss_main_def settings_valid_def say_def attempt_def)
    next
      case (Inr tls)
      then have "tls = given (http_cert a)" "tls = given (http_key a)" by (auto simp: tls_context_Inr)
      with Inr start dia token show ?thesis
        by (cases "http_bind w"; cases tls; cases "wrapped w")
          (auto simp: hss_main_def settings_valid_def say_def attempt_def)
    qed
  qed
qed

end
