(* ===== verification/Bencode.thy ===== *)
theory Bencode
  imports Py_Text "HOL-Library.List_Lexorder"
begin

section \<open>Bencoding of the media control protocol\<close>

text \<open>
  \<^verbatim>\<open>media/rtp_module.py\<close>, lines 27 to 137: \<open>_bencode\<close>, \<open>bencode_dict\<close>, \<open>_bdecode\<close> and
  \<open>bdecode_dict\<close>. The decoder works on the octets from its offset on and returns those after the
  value, so an offset is what has been consumed. Its recursion is the code's own: it counts down from
  the depth limit, and the two loops from the limits on their length; no fuel is added.
\<close>

definition MAX_CONTROL_PACKET :: nat where "MAX_CONTROL_PACKET = 65535"
definition MAX_BENCODE_DEPTH :: nat where "MAX_BENCODE_DEPTH = 32"

subsection \<open>Encoding\<close>

text \<open>
  The Python values that reach the encoder; \<open>PyOther\<close> and \<open>KeyOther\<close> stand for the types it refuses
  (booleans, floats, \<open>None\<close>).
\<close>

datatype py_key = KeyBytes bytes | KeyStr string | KeyOther

datatype py_value =
    PyBytes bytes
  | PyStr string
  | PyInt int
  | PyList "py_value list"
  | PyDict "(py_key \<times> py_value) list"
  | PyOther

definition bencode_bytes :: "bytes \<Rightarrow> bytes" where
  "bencode_bytes bs = bytes_of (dec_nat (length bs)) @ [58] @ bs"

fun raw_key :: "py_key \<Rightarrow> bytes result" where
  "raw_key (KeyBytes k) = Inr k"
| "raw_key (KeyStr s) = Inr (encode_utf8 s)"
| "raw_key KeyOther = Inl (BencodeError ''dictionary key must be text'')"

primrec all_results :: "'a result list \<Rightarrow> 'a list result" where
  "all_results [] = Inr []"
| "all_results (r # rs) = bindE r (\<lambda>x. bindE (all_results rs) (\<lambda>xs. Inr (x # xs)))"

text \<open>Keys first, in the order of the dictionary; then the items by key, in the order of the octets.\<close>

fun bencode :: "py_value \<Rightarrow> bytes result" where
  "bencode (PyBytes bs) = Inr (bencode_bytes bs)"
| "bencode (PyStr s) = Inr (bencode_bytes (encode_utf8 s))"
| "bencode (PyInt n) = Inr ([105] @ bytes_of (dec_str n) @ [101])"
| "bencode (PyList vs) = bindE (all_results (map bencode vs)) (\<lambda>es. Inr ([108] @ concat es @ [101]))"
| "bencode (PyDict kvs) =
     bindE (all_results (map (\<lambda>kv. raw_key (fst kv)) kvs)) (\<lambda>ks.
     bindE (all_results (map (\<lambda>(k, r). bindE r (\<lambda>e. Inr (bencode_bytes k @ e)))
              (sort_key fst (zip ks (map (\<lambda>kv. bencode (snd kv)) kvs))))) (\<lambda>es.
     Inr ([100] @ concat es @ [101])))"
| "bencode PyOther = Inl (BencodeError ''unsupported bencode type'')"

definition bencode_dict :: "(py_key \<times> py_value) list \<Rightarrow> bytes result" where
  "bencode_dict d =
     bindE (bencode (PyDict d)) (\<lambda>encoded.
       if length encoded > MAX_CONTROL_PACKET then Inl (BencodeError ''control response too large'')
       else Inr encoded)"

subsection \<open>Decoding\<close>

datatype bvalue = BInt int | BStr bytes | BList "bvalue list" | BDict "(bytes \<times> bvalue) list"

definition int_of_bytes :: "bytes \<Rightarrow> int option" where
  "int_of_bytes raw = py_int (str_of raw)"

text \<open>A length or integer text the decoder refuses before \<open>int\<close> sees it.\<close>

definition leading_zero :: "bytes \<Rightarrow> bool" where
  "leading_zero raw \<longleftrightarrow> raw \<noteq> [] \<and> hd raw = 48 \<and> raw \<noteq> [48]"

definition decode_int :: "bytes \<Rightarrow> (bvalue \<times> bytes) result" where
  "decode_int rest =
     (case index_of 101 rest of
        None \<Rightarrow> Inl (BencodeError ''unterminated integer'')
      | Some n \<Rightarrow>
          let raw = take n rest
          in if raw = [] \<or> leading_zero raw \<or> raw = [45, 48] then Inl (BencodeError ''invalid integer'')
             else (case int_of_bytes raw of
                     None \<Rightarrow> Inl (BencodeError ''invalid integer'')
                   | Some v \<Rightarrow> Inr (BInt v, drop (Suc n) rest)))"

definition decode_str :: "bytes \<Rightarrow> (bvalue \<times> bytes) result" where
  "decode_str data =
     (case index_of 58 data of
        None \<Rightarrow> Inl (BencodeError ''invalid byte-string length'')
      | Some colon \<Rightarrow>
          let raw = take colon data; rest = drop (Suc colon) data
          in if colon > 6 \<or> raw = [] \<or> leading_zero raw then Inl (BencodeError ''invalid byte-string length'')
             else (case int_of_bytes raw of
                     None \<Rightarrow> Inl (BencodeError ''invalid byte-string length'')
                   | Some len \<Rightarrow>
                       if len < 0 \<or> len > int MAX_CONTROL_PACKET \<or> len > int (length rest)
                       then Inl (BencodeError ''byte-string exceeds limit'')
                       else Inr (BStr (take (nat len) rest), drop (nat len) rest)))"

primrec list_loop ::
  "(bytes \<Rightarrow> (bvalue \<times> bytes) result) \<Rightarrow> nat \<Rightarrow> bvalue list \<Rightarrow> bytes \<Rightarrow> (bvalue \<times> bytes) result" where
  "list_loop dec 0 values rest = Inl (BencodeError ''list too large'')"
| "list_loop dec (Suc n) values rest =
     (if rest = [] then Inl (BencodeError ''unterminated list'')
      else if hd rest = 101 then Inr (BList values, tl rest)
      else bindE (dec rest) (\<lambda>(v, rest'). list_loop dec n (values @ [v]) rest'))"

primrec dict_loop ::
  "(bytes \<Rightarrow> (bvalue \<times> bytes) result) \<Rightarrow> nat \<Rightarrow> (bytes \<times> bvalue) list \<Rightarrow> bytes \<Rightarrow> (bvalue \<times> bytes) result" where
  "dict_loop dec 0 values rest = Inl (BencodeError ''dictionary too large'')"
| "dict_loop dec (Suc n) values rest =
     (if rest = [] then Inl (BencodeError ''unterminated dictionary'')
      else if hd rest = 101 then Inr (BDict values, tl rest)
      else bindE (dec rest) (\<lambda>(k, rest').
        case k of
          BStr key \<Rightarrow>
            if map_of values key \<noteq> None then Inl (BencodeError ''duplicate dictionary key'')
            else bindE (dec rest') (\<lambda>(v, rest''). dict_loop dec n (values @ [(key, v)]) rest'')
        | _ \<Rightarrow> Inl (BencodeError ''dictionary key must be a byte string'')))"

text \<open>\<open>levels\<close> is how many more levels the depth limit allows, this one included.\<close>

fun bdecode :: "nat \<Rightarrow> bytes \<Rightarrow> (bvalue \<times> bytes) result" where
  "bdecode levels data =
     (if data = [] then Inl (BencodeError ''truncated bencode'')
      else case levels of
        0 \<Rightarrow> Inl (BencodeError ''bencode nesting exceeds limit'')
      | Suc l \<Rightarrow>
          if hd data = 105 then decode_int (tl data)
          else if hd data = 108 then list_loop (bdecode l) 33 [] (tl data)
          else if hd data = 100 then dict_loop (bdecode l) 65 [] (tl data)
          else if 48 \<le> hd data \<and> hd data \<le> 57 then decode_str data
          else Inl (BencodeError ''unknown bencode marker''))"

declare bdecode.simps [simp del]

definition bdecode_dict :: "bytes \<Rightarrow> (bytes \<times> bvalue) list result" where
  "bdecode_dict data =
     (if data = [] \<or> length data > MAX_CONTROL_PACKET then Inl (BencodeError ''invalid control payload size'')
      else bindE (bdecode (Suc MAX_BENCODE_DEPTH) data) (\<lambda>(v, rest).
        case v of
          BDict d \<Rightarrow> if rest = [] then Inr d else Inl (BencodeError ''control payload must be one dictionary'')
        | _ \<Rightarrow> Inl (BencodeError ''control payload must be one dictionary'')))"

subsection \<open>What is encoded is decoded\<close>

text \<open>The canonical encoding of a decoded value, and the values within the limits of the decoder.\<close>

fun to_py :: "bvalue \<Rightarrow> py_value" where
  "to_py (BInt n) = PyInt n"
| "to_py (BStr bs) = PyBytes bs"
| "to_py (BList vs) = PyList (map to_py vs)"
| "to_py (BDict kvs) = PyDict (map (\<lambda>kv. (KeyBytes (fst kv), to_py (snd kv))) kvs)"

fun canonical :: "bvalue \<Rightarrow> bytes" where
  "canonical (BInt n) = [105] @ bytes_of (dec_str n) @ [101]"
| "canonical (BStr bs) = bencode_bytes bs"
| "canonical (BList vs) = [108] @ concat (map canonical vs) @ [101]"
| "canonical (BDict kvs) = [100] @ concat (map (\<lambda>kv. bencode_bytes (fst kv) @ canonical (snd kv)) kvs) @ [101]"

fun wf_bvalue :: "nat \<Rightarrow> bvalue \<Rightarrow> bool" where
  "wf_bvalue 0 v = False"
| "wf_bvalue (Suc l) (BInt n) = (\<bar>n\<bar> < 10 ^ MAX_STR_DIGITS)"
| "wf_bvalue (Suc l) (BStr bs) = (length bs \<le> MAX_CONTROL_PACKET)"
| "wf_bvalue (Suc l) (BList vs) = (length vs \<le> 32 \<and> list_all (wf_bvalue l) vs)"
| "wf_bvalue (Suc l) (BDict kvs) =
     (length kvs \<le> 64 \<and> sorted_wrt (<) (map fst kvs)
      \<and> list_all (\<lambda>kv. length (fst kv) \<le> MAX_CONTROL_PACKET \<and> 0 < l \<and> wf_bvalue l (snd kv)) kvs)"

lemma index_of_skip: "x \<notin> set xs \<Longrightarrow> index_of x (xs @ x # ys) = Some (length xs)"
  by (induction xs) auto

lemma bytes_of_char_notin:
  assumes "\<forall>c \<in> set s. (of_char c :: nat) \<noteq> unat b"
  shows "b \<notin> set (bytes_of s)"
proof
  assume "b \<in> set (bytes_of s)"
  then obtain c where "c \<in> set s" "b = of_char c" by (auto simp: bytes_of_def)
  with assms have "(of_char c :: nat) \<noteq> unat (of_char c :: byte)" by blast
  then show False by (simp only: unat_of_char)
qed

lemma dec_nat_no_colon: "58 \<notin> set (bytes_of (dec_nat n))"
  using dec_nat_digits [of n] by (intro bytes_of_char_notin) (auto simp: list_all_iff is_digit_def)

lemma dec_str_no_e: "101 \<notin> set (bytes_of (dec_str n))"
  using dec_nat_digits [of "nat n"] dec_nat_digits [of "nat (- n)"]
  by (intro bytes_of_char_notin) (auto simp: dec_str_def list_all_iff is_digit_def)

lemma leading_zero_dec: "\<not> leading_zero (bytes_of (dec_nat n))"
proof (cases "n = 0")
  case True
  have "dec_nat 0 = ''0''"
    by (subst dec_nat.simps) (simp add: digit_char_def char_of_eq_iff take_bit_eq_mod)
  then show ?thesis by (simp add: leading_zero_def True)
next
  case False
  obtain c s where d: "dec_nat n = c # s" by (cases "dec_nat n") auto
  with dec_nat_hd_nonzero [of n] False have "c \<noteq> CHR ''0''" by simp
  then have "bytes_of [c] \<noteq> bytes_of ''0''" by (simp only: bytes_of_inject list.inject simp_thms)
  then have "(of_char c :: byte) \<noteq> 48" by simp
  then show ?thesis by (simp add: leading_zero_def d)
qed

lemma leading_zero_dec_str: "\<not> leading_zero (bytes_of (dec_str n))"
  using leading_zero_dec [of "nat n"] by (simp add: dec_str_def leading_zero_def)

lemma dec_str_not_minus_zero: "bytes_of (dec_str n) \<noteq> [45, 48]"
proof
  assume "bytes_of (dec_str n) = [45, 48]"
  then have "bytes_of (dec_str n) = bytes_of ''-0''" by simp
  then have e: "dec_str n = ''-0''" by (simp only: bytes_of_inject)
  have "hd (dec_nat (nat n)) \<noteq> CHR ''-''" using dec_nat_hd [of "nat n"] by (auto simp: is_digit_def)
  with e have "n < 0 \<and> dec_nat (nat (- n)) = ''0''" by (auto simp: dec_str_def split: if_splits)
  then show False using dec_nat_hd_nonzero [of "nat (- n)"] by simp
qed

lemma dec_str_not_Nil [simp]: "dec_str n \<noteq> []"
  by (simp add: dec_str_def)

lemma decode_int_canonical:
  "\<bar>n\<bar> < 10 ^ MAX_STR_DIGITS \<Longrightarrow> decode_int (bytes_of (dec_str n) @ 101 # rest) = Inr (BInt n, rest)"
proof -
  assume n: "\<bar>n\<bar> < 10 ^ MAX_STR_DIGITS"
  have "index_of 101 (bytes_of (dec_str n) @ 101 # rest) = Some (length (dec_str n))"
    using index_of_skip [OF dec_str_no_e [of n], of rest] by simp
  moreover have "bytes_of (dec_str n) \<noteq> []" by (metis dec_str_not_Nil length_0_conv length_bytes_of)
  ultimately show ?thesis
    using leading_zero_dec_str [of n] dec_str_not_minus_zero [of n] py_int_dec_str [OF n]
    by (simp add: decode_int_def int_of_bytes_def Let_def)
qed

lemma decode_str_canonical:
  "length bs \<le> MAX_CONTROL_PACKET \<Longrightarrow> decode_str (bencode_bytes bs @ rest) = Inr (BStr bs, rest)"
proof -
  assume l: "length bs \<le> MAX_CONTROL_PACKET"
  let ?d = "dec_nat (length bs)"
  have i: "index_of 58 (bytes_of ?d @ 58 # bs @ rest) = Some (length ?d)"
    using index_of_skip [OF dec_nat_no_colon [of "length bs"], of "bs @ rest"] by simp
  have ne: "bytes_of ?d \<noteq> []" by (metis dec_nat_not_Nil length_0_conv length_bytes_of)
  have "length bs < 10 ^ 5" using l by (simp add: MAX_CONTROL_PACKET_def)
  then have "length ?d \<le> 5" by (rule dec_nat_length) simp
  moreover have "length bs < 10 ^ MAX_STR_DIGITS"
  proof -
    have "(10::nat) ^ 5 \<le> 10 ^ MAX_STR_DIGITS" by (rule power_increasing) (simp_all add: MAX_STR_DIGITS_def)
    with \<open>length bs < 10 ^ 5\<close> show ?thesis by linarith
  qed
  ultimately show ?thesis
    using py_int_dec_nat [of "length bs"] leading_zero_dec [of "length bs"] l ne i
    by (simp add: bencode_bytes_def decode_str_def int_of_bytes_def Let_def)
qed

lemma hd_bencode_bytes: "48 \<le> hd (bencode_bytes bs) \<and> hd (bencode_bytes bs) \<le> 57 \<and> bencode_bytes bs \<noteq> []"
proof -
  obtain c s where d: "dec_nat (length bs) = c # s" by (cases "dec_nat (length bs)") auto
  have "is_digit c" using dec_nat_digits [of "length bs"] by (simp add: d)
  then have "48 \<le> (of_char c :: nat)" "(of_char c :: nat) \<le> 57" by (auto simp: is_digit_def)
  then have "(48 :: byte) \<le> of_char c" "of_char c \<le> (57 :: byte)"
    by (simp_all add: word_le_nat_alt)
  then show ?thesis by (simp add: bencode_bytes_def d)
qed

lemma list_loop_canonical:
  assumes "\<And>v r. v \<in> set vs \<Longrightarrow> dec (canonical v @ r) = Inr (v, r)"
    and "\<And>v. v \<in> set vs \<Longrightarrow> canonical v \<noteq> [] \<and> hd (canonical v) \<noteq> 101"
    and "length vs < n"
  shows "list_loop dec n values (concat (map canonical vs) @ 101 # rest) = Inr (BList (values @ vs), rest)"
  using assms
proof (induction vs arbitrary: n "values")
  case Nil
  then show ?case by (cases n) simp_all
next
  case (Cons v vs)
  then obtain m where n: "n = Suc m" by (cases n) auto
  have "dec (canonical v @ concat (map canonical vs) @ 101 # rest) = Inr (v, concat (map canonical vs) @ 101 # rest)"
    using Cons.prems(1) [of v] by simp
  with Cons.prems(2) [of v] Cons.IH [of m "values @ [v]"] Cons.prems n show ?case by (simp add: hd_append)
qed

lemma dict_loop_canonical:
  assumes "\<And>kv r. kv \<in> set kvs \<Longrightarrow> dec (bencode_bytes (fst kv) @ r) = Inr (BStr (fst kv), r)"
    and "\<And>kv r. kv \<in> set kvs \<Longrightarrow> dec (canonical (snd kv) @ r) = Inr (snd kv, r)"
    and "length kvs < n" and "distinct (map fst (values @ kvs))"
  shows "dict_loop dec n values (concat (map (\<lambda>kv. bencode_bytes (fst kv) @ canonical (snd kv)) kvs) @ 101 # rest)
    = Inr (BDict (values @ kvs), rest)"
  using assms
proof (induction kvs arbitrary: n "values")
  case Nil
  then show ?case by (cases n) simp_all
next
  case (Cons kv kvs)
  then obtain m where n: "n = Suc m" by (cases n) auto
  let ?tail = "concat (map (\<lambda>kv. bencode_bytes (fst kv) @ canonical (snd kv)) kvs) @ 101 # rest"
  have k: "dec (bencode_bytes (fst kv) @ canonical (snd kv) @ ?tail) = Inr (BStr (fst kv), canonical (snd kv) @ ?tail)"
    and v: "dec (canonical (snd kv) @ ?tail) = Inr (snd kv, ?tail)"
    using Cons.prems(1,2) [of kv] by simp_all
  have h: "hd (bencode_bytes (fst kv)) \<noteq> 101" using hd_bencode_bytes [of "fst kv"] by auto
  have "map_of values (fst kv) = None" using Cons.prems(4) by (auto simp: map_of_eq_None_iff)
  moreover have "dict_loop dec m (values @ [(fst kv, snd kv)]) ?tail = Inr (BDict ((values @ [kv]) @ kvs), rest)"
    using Cons.IH [of m "values @ [kv]"] Cons.prems n by simp
  ultimately show ?case using k v h hd_bencode_bytes [of "fst kv"] by (simp add: n hd_append)
qed

lemma canonical_marker: "canonical v \<noteq> [] \<and> hd (canonical v) \<noteq> 101"
proof (cases v)
  case (BStr bs)
  then show ?thesis using hd_bencode_bytes [of bs] by auto
qed simp_all

lemma bdecode_str: "length bs \<le> MAX_CONTROL_PACKET \<Longrightarrow> bdecode (Suc l) (bencode_bytes bs @ rest) = Inr (BStr bs, rest)"
proof -
  assume l: "length bs \<le> MAX_CONTROL_PACKET"
  note h = hd_bencode_bytes [of bs]
  then have "hd (bencode_bytes bs @ rest) = hd (bencode_bytes bs)" by (simp add: hd_append)
  with h decode_str_canonical [OF l] show ?thesis by (subst bdecode.simps) auto
qed

lemma sorted_wrt_less_distinct: "sorted_wrt (<) (xs :: bytes list) \<Longrightarrow> distinct xs"
  by (induction xs) auto

lemma bdecode_canonical: "wf_bvalue l v \<Longrightarrow> bdecode l (canonical v @ rest) = Inr (v, rest)"
proof (induction l v arbitrary: rest rule: wf_bvalue.induct)
  case (2 l n)
  then show ?case by (subst bdecode.simps) (simp add: decode_int_canonical)
next
  case (3 l bs)
  then show ?case by (simp add: bdecode_str)
next
  case (4 l vs)
  have dec: "v \<in> set vs \<Longrightarrow> bdecode l (canonical v @ r) = Inr (v, r)" for v r
    using "4.IH" "4.prems" by (auto simp: list_all_iff)
  have "list_loop (bdecode l) 33 [] (concat (map canonical vs) @ 101 # rest) = Inr (BList ([] @ vs), rest)"
    by (rule list_loop_canonical) (use dec canonical_marker "4.prems" in auto)
  then show ?case by (subst bdecode.simps) simp
next
  case (5 l kvs)
  have val: "kv \<in> set kvs \<Longrightarrow> bdecode l (canonical (snd kv) @ r) = Inr (snd kv, r)" for kv r
    using "5.IH" "5.prems" by (auto simp: list_all_iff)
  have key: "kv \<in> set kvs \<Longrightarrow> bdecode l (bencode_bytes (fst kv) @ r) = Inr (BStr (fst kv), r)" for kv r
    using "5.prems" bdecode_str by (cases l; cases kv) (auto simp: list_all_iff)
  have "distinct (map fst kvs)" using "5.prems" sorted_wrt_less_distinct by auto
  then have "dict_loop (bdecode l) 65 [] (concat (map (\<lambda>kv. bencode_bytes (fst kv) @ canonical (snd kv)) kvs) @ 101 # rest)
      = Inr (BDict ([] @ kvs), rest)"
    by (intro dict_loop_canonical) (use key val "5.prems" in auto)
  then show ?case by (subst bdecode.simps) simp
qed simp

lemma all_results_map: "(\<And>x. x \<in> set xs \<Longrightarrow> f x = Inr (g x)) \<Longrightarrow> all_results (map f xs) = Inr (map g xs)"
  by (induction xs) simp_all

lemma bencode_to_py: "wf_bvalue l v \<Longrightarrow> bencode (to_py v) = Inr (canonical v)"
proof (induction l v rule: wf_bvalue.induct)
  case (4 l vs)
  then have "all_results (map bencode (map to_py vs)) = Inr (map canonical vs)"
    by (subst list.map_comp) (rule all_results_map, auto simp: list_all_iff)
  then show ?case by simp
next
  case (5 l kvs)
  have e: "kv \<in> set kvs \<Longrightarrow> bencode (to_py (snd kv)) = Inr (canonical (snd kv))" for kv
    using "5.IH" "5.prems" by (auto simp: list_all_iff)
  have ks: "all_results (map (\<lambda>kv. raw_key (fst kv)) (map (\<lambda>kv. (KeyBytes (fst kv), to_py (snd kv))) kvs)) = Inr (map fst kvs)"
    by (subst list.map_comp) (rule all_results_map, simp)
  have z: "zip (map fst kvs) (map (\<lambda>kv. bencode (snd kv)) (map (\<lambda>kv. (KeyBytes (fst kv), to_py (snd kv))) kvs))
      = map (\<lambda>kv. (fst kv, Inr (canonical (snd kv)))) kvs"
    by (simp add: zip_map_map zip_same_conv_map comp_def e)
  have "sorted_wrt (<) (map fst kvs)" using "5.prems" by simp
  then have "sorted (map fst (map (\<lambda>kv. (fst kv, Inr (canonical (snd kv)) :: bytes result)) kvs))"
    by (simp add: comp_def strict_sorted_imp_sorted)
  then have "sort_key fst (map (\<lambda>kv. (fst kv, Inr (canonical (snd kv)) :: bytes result)) kvs)
      = map (\<lambda>kv. (fst kv, Inr (canonical (snd kv)))) kvs"
    by (rule sort_key_id_if_sorted)
  moreover have "all_results (map (\<lambda>(k, r). bindE r (\<lambda>e. Inr (bencode_bytes k @ e)))
      (map (\<lambda>kv. (fst kv, Inr (canonical (snd kv)))) kvs)) = Inr (map (\<lambda>kv. bencode_bytes (fst kv) @ canonical (snd kv)) kvs)"
    by (subst list.map_comp) (rule all_results_map, simp)
  ultimately show ?case by (simp only: to_py.simps bencode.simps ks z bindE_simps canonical.simps)
qed simp_all

end
