(* ===== verification/Sdp.thy ===== *)
theory Sdp
  imports Bencode Py_Ip
begin

section \<open>The SDP handling of the media module\<close>

text \<open>
  \<^verbatim>\<open>media/rtp_module.py\<close>, lines 140 to 239: the field checks \<open>_text\<close> and \<open>_sdp_text\<close>,
  \<open>_ip_address\<close>, \<open>parse_sdp\<close> and \<open>rewrite_sdp\<close>. The loop of \<open>parse_sdp\<close> over the lines is a
  recursion over the split text, its local variables a record.
\<close>

definition MAX_SDP :: nat where "MAX_SDP = 65535"

definition plain_char :: "char \<Rightarrow> bool" where
  "plain_char c \<longleftrightarrow> \<not> (chr_code c < 0x20 \<or> chr_code c = 0x7F)"

definition invalid_field :: "string \<Rightarrow> exn" where
  "invalid_field field = ValueError (''invalid '' @ field)"

definition text_of :: "bvalue option \<Rightarrow> string \<Rightarrow> nat \<Rightarrow> string result" where
  "text_of v field limit =
     (case v of
        Some (BStr bs) \<Rightarrow>
          if \<not> (1 \<le> length bs \<and> length bs \<le> limit) then Inl (invalid_field field)
          else (case decode_ascii bs of
                  Inl _ \<Rightarrow> Inl (invalid_field field)
                | Inr text \<Rightarrow> if list_all plain_char text then Inr text else Inl (invalid_field field))
      | _ \<Rightarrow> Inl (invalid_field field))"

definition sdp_char :: "char \<Rightarrow> bool" where
  "sdp_char c \<longleftrightarrow> \<not> (chr_code c = 0 \<or> (chr_code c < 0x20 \<and> chr_code c \<notin> {13, 10, 9}) \<or> chr_code c = 0x7F)"

definition sdp_text :: "bvalue option \<Rightarrow> string result" where
  "sdp_text v =
     (case v of
        Some (BStr bs) \<Rightarrow>
          if \<not> (1 \<le> length bs \<and> length bs \<le> MAX_SDP) then Inl (invalid_field ''sdp'')
          else (case decode_ascii bs of
                  Inl _ \<Rightarrow> Inl (invalid_field ''sdp'')
                | Inr text \<Rightarrow> if list_all sdp_char text then Inr text else Inl (invalid_field ''sdp''))
      | _ \<Rightarrow> Inl (invalid_field ''sdp''))"

definition ip_address_of :: "string \<Rightarrow> ip_address option" where
  "ip_address_of s =
     (case parse_ip s of None \<Rightarrow> None | Some a \<Rightarrow> if is_unspecified a then None else Some a)"

subsection \<open>Parsing\<close>

record SdpDescription =
  address :: "string \<times> int"
  media_line_index :: nat

record sdp_scan =
  connection :: "ip_address option"
  media_index :: "nat option"
  media_port :: int

definition is_connection_line :: "string \<Rightarrow> bool" where
  "is_connection_line line \<longleftrightarrow> starts_with ''c=IN IP4 '' line \<or> starts_with ''c=IN IP6 '' line"

definition is_audio_line :: "string \<Rightarrow> bool" where
  "is_audio_line line \<longleftrightarrow> starts_with ''m=audio '' line"

text \<open>\<open>line.split(" ", 2)[-1]\<close> of a connection line is what follows its second space.\<close>

definition connection_of :: "string \<Rightarrow> ip_address option" where
  "connection_of line = ip_address_of (drop 9 line)"

definition scan_audio :: "nat \<Rightarrow> string \<Rightarrow> sdp_scan \<Rightarrow> sdp_scan result" where
  "scan_audio index line st =
     (if media_index st \<noteq> None then Inl (ValueError ''multiple audio streams are unsupported'')
      else let fields = split_words line
           in if length fields < 4 then Inl (ValueError ''malformed audio media line'')
              else case py_int (fields ! 1) of
                None \<Rightarrow> Inl (ValueError ''invalid audio media port'')
              | Some port \<Rightarrow>
                  if \<not> (1 \<le> port \<and> port \<le> 65535) then Inl (ValueError ''invalid audio media port'')
                  else Inr (st\<lparr>media_index := Some index, media_port := port\<rparr>))"

definition scan_line :: "nat \<Rightarrow> string \<Rightarrow> sdp_scan \<Rightarrow> sdp_scan result" where
  "scan_line index line st =
     (if is_connection_line line then
        (case connection_of line of
           None \<Rightarrow> Inr st
         | Some a \<Rightarrow>
             if connection st \<noteq> None then Inl (ValueError ''multiple connection addresses are unsupported'')
             else Inr (st\<lparr>connection := Some a\<rparr>))
      else if is_audio_line line then scan_audio index line st
      else Inr st)"

fun scan_lines :: "nat \<Rightarrow> string list \<Rightarrow> sdp_scan \<Rightarrow> sdp_scan result" where
  "scan_lines index [] st = Inr st"
| "scan_lines index (line # lines) st = bindE (scan_line index line st) (scan_lines (Suc index) lines)"

definition parse_sdp :: "string \<Rightarrow> SdpDescription result" where
  "parse_sdp sdp =
     (let size = length (encode_utf8 sdp)
      in if \<not> (1 \<le> size \<and> size \<le> MAX_SDP) then Inl (ValueError ''SDP exceeds limit'')
         else if CHR 0x00 \<in> set sdp \<or> \<not> starts_with (''v=0'' @ crlf) sdp
         then Inl (ValueError ''SDP must start with v=0'')
         else
           bindE (scan_lines 0 (split_crlf sdp) \<lparr>connection = None, media_index = None, media_port = 0\<rparr>) (\<lambda>st.
           case (media_index st, connection st) of
             (Some i, Some a) \<Rightarrow> Inr \<lparr>address = (ip_str a, media_port st), media_line_index = i\<rparr>
           | _ \<Rightarrow> Inl (ValueError ''SDP needs one routable audio stream'')))"

subsection \<open>Rewriting\<close>

primrec first_index :: "('a \<Rightarrow> bool) \<Rightarrow> 'a list \<Rightarrow> nat option" where
  "first_index P [] = None"
| "first_index P (x # xs) = (if P x then Some 0 else map_option Suc (first_index P xs))"

definition connection_line :: "ip_address \<Rightarrow> string" where
  "connection_line a = ''c=IN '' @ (if ip_version a = 6 then ''IP6'' else ''IP4'') @ '' '' @ ip_str a"

definition rewrite_sdp :: "string \<Rightarrow> string \<Rightarrow> int \<Rightarrow> string result" where
  "rewrite_sdp sdp advertised_ip port =
     (if \<not> (1 \<le> port \<and> port \<le> 65535) then Inl (ValueError ''invalid relay port'')
      else case ip_address_of advertised_ip of
        None \<Rightarrow> Inl (ValueError ''invalid advertised media address'')
      | Some a \<Rightarrow>
          let lines = split_crlf sdp
          in case (first_index is_connection_line lines, first_index is_audio_line lines) of
               (Some ci, Some mi) \<Rightarrow>
                 let fields = split_words (lines ! mi)
                 in if length fields < 4 then Inl (ValueError ''malformed audio media line'')
                    else Inr (join crlf (lines[ci := connection_line a,
                                               mi := join '' '' (fields[1 := dec_str port])]))
             | _ \<Rightarrow> Inl (ValueError ''SDP needs one connection and audio line''))"

subsection \<open>Words and lines\<close>

definition word_ok :: "string \<Rightarrow> bool" where
  "word_ok w \<longleftrightarrow> w \<noteq> [] \<and> list_all (\<lambda>c. \<not> is_space c) w"

lemma split_words_ok: "list_all word_ok (split_words s)"
proof (induction s rule: split_words.induct)
  case (1 s)
  let ?t = "dropWhile is_space s"
  show ?case
  proof (cases "?t = []")
    case True
    then show ?thesis by (subst split_words.simps) (simp add: Let_def)
  next
    case False
    then have "\<not> is_space (hd ?t)" by (rule hd_dropWhile)
    then have "takeWhile (\<lambda>c. \<not> is_space c) ?t \<noteq> []" using False by (cases ?t) auto
    moreover have "\<forall>c \<in> set (takeWhile (\<lambda>c. \<not> is_space c) ?t). \<not> is_space c"
      by (auto dest: set_takeWhileD)
    ultimately have "word_ok (takeWhile (\<lambda>c. \<not> is_space c) ?t)"
      unfolding word_ok_def list_all_iff by blast
    with 1 False show ?thesis by (subst split_words.simps) (simp add: Let_def)
  qed
qed

lemma is_space_blank [simp]: "is_space CHR '' ''"
  by (simp add: is_space_def)

lemma word_ok_hd: "word_ok w \<Longrightarrow> dropWhile is_space (w @ s) = w @ s"
  by (cases w) (auto simp: word_ok_def)

lemma word_ok_take: "word_ok w \<Longrightarrow> takeWhile (\<lambda>c. \<not> is_space c) (w @ CHR '' '' # s) = w"
  by (simp add: word_ok_def list_all_iff takeWhile_append2)

lemma word_ok_drop: "word_ok w \<Longrightarrow> dropWhile (\<lambda>c. \<not> is_space c) (w @ CHR '' '' # s) = CHR '' '' # s"
  by (simp add: word_ok_def list_all_iff dropWhile_append2)

lemma split_words_blank: "split_words (CHR '' '' # s) = split_words s"
  by (subst (1 2) split_words.simps) simp

lemma split_words_word: "word_ok w \<Longrightarrow> split_words (w @ CHR '' '' # s) = w # split_words s"
  using word_ok_hd [of w "CHR '' '' # s"] word_ok_take [of w s] word_ok_drop [of w s]
  by (subst split_words.simps) (simp add: Let_def split_words_blank word_ok_def)

lemma split_words_join: "list_all word_ok ws \<Longrightarrow> split_words (join '' '' ws) = ws"
proof (induction ws rule: induct_list012)
  case 1
  then show ?case by (subst split_words.simps) simp
next
  case (2 w)
  then have w: "word_ok w" by simp
  then have "takeWhile (\<lambda>c. \<not> is_space c) w = w" "dropWhile (\<lambda>c. \<not> is_space c) w = []"
    by (auto simp: word_ok_def list_all_iff)
  moreover have "dropWhile is_space w = w" using word_ok_hd [OF w, of "[]"] by simp
  moreover have "split_words [] = []" by (subst split_words.simps) simp
  moreover have "w \<noteq> []" using w by (simp add: word_ok_def)
  ultimately show ?case by (subst split_words.simps) (simp only: Let_def if_False join.simps)
next
  case (3 w v ws)
  then show ?case by (simp add: split_words_word)
qed

subsection \<open>What the scan depends on\<close>

lemma first_index_Some:
  "first_index P xs = Some i \<longleftrightarrow> i < length xs \<and> P (xs ! i) \<and> (\<forall>j < i. \<not> P (xs ! j))"
proof (induction xs arbitrary: i)
  case (Cons x xs)
  show ?case
  proof (cases "P x")
    case True
    then show ?thesis by (cases i) auto
  next
    case False
    then show ?thesis using Cons
      by (cases i) (auto simp: less_Suc_eq_0_disj)
  qed
qed simp

lemma scan_line_found:
  assumes "scan_line i line st = Inr st1" and "connection st \<noteq> None"
  shows "scan_line i line (st\<lparr>connection := Some b\<rparr>) = Inr (st1\<lparr>connection := Some b\<rparr>) \<and> connection st1 \<noteq> None"
proof (cases "is_connection_line line")
  case True
  with assms show ?thesis by (auto simp: scan_line_def split: option.splits)
next
  case False
  with assms show ?thesis
    by (auto simp: scan_line_def scan_audio_def Let_def split: if_split_asm option.splits)
qed

lemma scan_found:
  "scan_lines i lines st = Inr st' \<Longrightarrow> connection st \<noteq> None \<Longrightarrow>
   scan_lines i lines (st\<lparr>connection := Some b\<rparr>) = Inr (st'\<lparr>connection := Some b\<rparr>)"
proof (induction lines arbitrary: i st)
  case (Cons line lines)
  then obtain st1 where s1: "scan_line i line st = Inr st1" and s2: "scan_lines (Suc i) lines st1 = Inr st'"
    by (auto simp: bindE_Inr_iff)
  from scan_line_found [OF s1 Cons.prems(2), of b] Cons.IH [OF s2] show ?case by simp
qed auto

lemma scan_line_port:
  assumes "scan_line i line st = Inr st1" and "media_index st \<noteq> None"
  shows "scan_line i line (st\<lparr>media_port := q\<rparr>) = Inr (st1\<lparr>media_port := q\<rparr>) \<and> media_index st1 = media_index st"
proof (cases "is_connection_line line")
  case True
  with assms show ?thesis by (auto simp: scan_line_def split: option.splits if_split_asm)
next
  case False
  with assms show ?thesis
    by (auto simp: scan_line_def scan_audio_def Let_def split: if_split_asm option.splits)
qed

lemma scan_port:
  "scan_lines i lines st = Inr st' \<Longrightarrow> media_index st \<noteq> None \<Longrightarrow>
   scan_lines i lines (st\<lparr>media_port := q\<rparr>) = Inr (st'\<lparr>media_port := q\<rparr>)"
proof (induction lines arbitrary: i st)
  case (Cons line lines)
  then obtain st1 where s1: "scan_line i line st = Inr st1" and s2: "scan_lines (Suc i) lines st1 = Inr st'"
    by (auto simp: bindE_Inr_iff)
  from scan_line_port [OF s1 Cons.prems(2), of q] Cons.IH [OF s2] Cons.prems(2) show ?case by simp
qed auto

text \<open>A connection line put in the place of the first one, which is the routable one.\<close>

lemma scan_replace_connection:
  assumes "is_connection_line l" and "connection_of l = Some a"
  shows "scan_lines i lines st = Inr st' \<Longrightarrow> connection st = None \<Longrightarrow>
    first_index is_connection_line lines = Some ci \<Longrightarrow> connection_of (lines ! ci) \<noteq> None \<Longrightarrow>
    scan_lines i (lines[ci := l]) st = Inr (st'\<lparr>connection := Some a\<rparr>)"
proof (induction lines arbitrary: i st ci)
  case (Cons line lines)
  then obtain st1 where s1: "scan_line i line st = Inr st1" and s2: "scan_lines (Suc i) lines st1 = Inr st'"
    by (auto simp: bindE_Inr_iff)
  show ?case
  proof (cases "is_connection_line line")
    case True
    with Cons.prems have ci: "ci = 0" and "connection_of line \<noteq> None" by simp_all
    with s1 True Cons.prems(2) have st1: "connection st1 \<noteq> None" "st1\<lparr>connection := Some a\<rparr> = st\<lparr>connection := Some a\<rparr>"
      by (auto simp: scan_line_def)
    from scan_found [OF s2 st1(1), of a] st1(2) assms Cons.prems(2) show ?thesis
      by (simp add: ci scan_line_def)
  next
    case False
    with Cons.prems obtain k where k: "first_index is_connection_line lines = Some k" "ci = Suc k" by auto
    have "connection st1 = None"
      using s1 False Cons.prems(2) by (auto simp: scan_line_def scan_audio_def Let_def split: if_split_asm option.splits)
    from Cons.IH [OF s2 this k(1)] Cons.prems(4) k(2) s1 show ?thesis by simp
  qed
qed simp

definition audio_port :: "string \<Rightarrow> int \<Rightarrow> bool" where
  "audio_port line port \<longleftrightarrow> is_audio_line line \<and> \<not> is_connection_line line \<and> length (split_words line) \<ge> 4
     \<and> py_int (split_words line ! 1) = Some port \<and> 1 \<le> port \<and> port \<le> 65535"

lemma audio_not_connection: "is_audio_line line \<Longrightarrow> \<not> is_connection_line line"
  by (cases line) (auto simp: is_audio_line_def is_connection_line_def starts_with_def)

lemma scan_replace_audio:
  assumes "audio_port l port"
  shows "scan_lines i lines st = Inr st' \<Longrightarrow> media_index st = None \<Longrightarrow>
    first_index is_audio_line lines = Some mi \<Longrightarrow>
    scan_lines i (lines[mi := l]) st = Inr (st'\<lparr>media_port := port\<rparr>) \<and> media_index st' = Some (i + mi)"
proof (induction lines arbitrary: i st mi)
  case (Cons line lines)
  then obtain st1 where s1: "scan_line i line st = Inr st1" and s2: "scan_lines (Suc i) lines st1 = Inr st'"
    by (auto simp: bindE_Inr_iff)
  show ?case
  proof (cases "is_audio_line line")
    case True
    with Cons.prems have mi: "mi = 0" by simp
    have st1: "media_index st1 = Some i" "st1\<lparr>media_port := port\<rparr> = st\<lparr>media_index := Some i, media_port := port\<rparr>"
      using s1 True audio_not_connection [OF True]
      by (auto simp: scan_line_def scan_audio_def Let_def split: if_split_asm option.splits)
    have keep: "scan_lines j ls s = Inr s' \<Longrightarrow> media_index s = Some k \<Longrightarrow> media_index s' = Some k" for j ls s s' k
      using scan_line_port by (induction ls arbitrary: j s) (fastforce simp: bindE_Inr_iff)+
    from scan_port [OF s2, of port] st1 assms Cons.prems(2) keep [OF s2 st1(1)] show ?thesis
      by (simp add: mi scan_line_def scan_audio_def audio_port_def Let_def not_less)
  next
    case False
    with Cons.prems obtain k where k: "first_index is_audio_line lines = Some k" "mi = Suc k" by auto
    have "media_index st1 = None"
      using s1 False Cons.prems(2) by (auto simp: scan_line_def split: if_split_asm option.splits)
    from Cons.IH [OF s2 this k(1)] k(2) s1 show ?thesis by simp
  qed
qed simp

lemma scan_second_connection:
  assumes "scan_lines i lines st = Inr st'" and "connection st = None" and "connection st' \<noteq> None"
  shows "scan_lines i lines (st\<lparr>connection := Some a\<rparr>)
    = Inl (ValueError ''multiple connection addresses are unsupported'')"
  using assms
proof (induction lines arbitrary: i st)
  case (Cons line lines)
  then obtain st1 where s1: "scan_line i line st = Inr st1" and s2: "scan_lines (Suc i) lines st1 = Inr st'"
    by (auto simp: bindE_Inr_iff)
  show ?case
  proof (cases "connection st1")
    case None
    then have "scan_line i line (st\<lparr>connection := Some a\<rparr>) = Inr (st1\<lparr>connection := Some a\<rparr>)"
      using s1 Cons.prems(2)
      by (cases "is_connection_line line")
        (auto simp: scan_line_def scan_audio_def Let_def split: if_split_asm option.splits)
    with Cons.IH [OF s2 None Cons.prems(3)] show ?thesis by simp
  next
    case (Some b)
    then have "is_connection_line line \<and> connection_of line \<noteq> None"
      using s1 Cons.prems(2)
      by (cases "is_connection_line line")
        (auto simp: scan_line_def scan_audio_def Let_def split: if_split_asm option.splits)
    then show ?thesis by (auto simp: scan_line_def)
  qed
qed simp

lemma scan_hold_connection:
  assumes "is_connection_line l" and "connection_of l = Some a"
  shows "scan_lines i lines st = Inr st' \<Longrightarrow> connection st = None \<Longrightarrow> connection st' \<noteq> None \<Longrightarrow>
    first_index is_connection_line lines = Some ci \<Longrightarrow> connection_of (lines ! ci) = None \<Longrightarrow>
    scan_lines i (lines[ci := l]) st = Inl (ValueError ''multiple connection addresses are unsupported'')"
proof (induction lines arbitrary: i st ci)
  case (Cons line lines)
  then obtain st1 where s1: "scan_line i line st = Inr st1" and s2: "scan_lines (Suc i) lines st1 = Inr st'"
    by (auto simp: bindE_Inr_iff)
  show ?case
  proof (cases "is_connection_line line")
    case True
    with Cons.prems have ci: "ci = 0" and "connection_of line = None" by simp_all
    with s1 True have "st1 = st" by (simp add: scan_line_def)
    with scan_second_connection [OF s2 _ Cons.prems(3), of a] assms Cons.prems(2) show ?thesis
      by (simp add: ci scan_line_def)
  next
    case False
    with Cons.prems obtain k where k: "first_index is_connection_line lines = Some k" "ci = Suc k" by auto
    have "connection st1 = None"
      using s1 False Cons.prems(2) by (auto simp: scan_line_def scan_audio_def Let_def split: if_split_asm option.splits)
    from Cons.IH [OF s2 this Cons.prems(3) k(1)] Cons.prems(5) k(2) s1 show ?thesis by simp
  qed
qed simp

subsection \<open>Reading back a rewritten SDP\<close>

lemma connection_line_ok:
  assumes "ip_address_of ip = Some a"
  shows "is_connection_line (connection_line a)" "connection_of (connection_line a) = Some a"
proof -
  have "wf_ip a" "\<not> is_unspecified a"
    using assms parse_ip_wf by (auto simp: ip_address_of_def split: option.splits if_splits)
  then show "connection_of (connection_line a) = Some a"
    by (simp add: connection_of_def connection_line_def ip_address_of_def parse_ip_str)
  show "is_connection_line (connection_line a)"
    by (simp add: is_connection_line_def connection_line_def starts_with_def)
qed

lemma split_words_audio: "is_audio_line line \<Longrightarrow> split_words line = ''m=audio'' # split_words (drop 8 line)"
proof -
  assume "is_audio_line line"
  then have t: "take 8 line = ''m=audio'' @ [CHR '' '']"
    by (simp add: is_audio_line_def starts_with_def numeral_eq_Suc)
  have "line = take 8 line @ drop 8 line" by simp
  then have "line = ''m=audio'' @ CHR '' '' # drop 8 line" unfolding t by simp
  moreover have "word_ok ''m=audio''" by (simp add: word_ok_def is_space_def)
  ultimately show ?thesis using split_words_word by metis
qed

definition relay_audio :: "string \<Rightarrow> int \<Rightarrow> string" where
  "relay_audio line port = join '' '' ((split_words line)[1 := dec_str port])"

lemma dec_str_word: "1 \<le> port \<Longrightarrow> word_ok (dec_str port)"
  using dec_nat_digits [of "nat port"] digit_not_space
  by (auto simp: word_ok_def dec_str_def list_all_iff)

lemma relay_audio_ok:
  assumes "is_audio_line line" and "length (split_words line) \<ge> 4" and "1 \<le> port" and "port \<le> 65535"
  shows "audio_port (relay_audio line port) port"
proof -
  let ?f = "(split_words line)[1 := dec_str port]"
  have w: "list_all word_ok ?f"
    using split_words_ok [of line] dec_str_word [OF assms(3)] by (auto simp: list_all_iff dest!: set_update_subset_insert [THEN subsetD])
  obtain rest where r: "split_words line = ''m=audio'' # rest" using split_words_audio [OF assms(1)] by blast
  with assms(2) obtain x y zs where rest: "rest = x # y # zs" by (cases rest; cases "tl rest") auto
  have "relay_audio line port = ''m=audio'' @ '' '' @ join '' '' (dec_str port # y # zs)"
    by (simp add: relay_audio_def r rest)
  then have "is_audio_line (relay_audio line port)" by (simp add: is_audio_line_def starts_with_def)
  moreover have "\<bar>port\<bar> < 10 ^ MAX_STR_DIGITS"
  proof -
    have "(10::int) ^ 5 \<le> 10 ^ MAX_STR_DIGITS" by (rule power_increasing) (simp_all add: MAX_STR_DIGITS_def)
    with assms(3,4) show ?thesis by simp
  qed
  ultimately show ?thesis
    using assms audio_not_connection [of "relay_audio line port"] split_words_join [OF w] py_int_dec_str [of port]
    by (simp add: audio_port_def relay_audio_def)
qed

lemma rewrite_sdp_Inr:
  assumes "rewrite_sdp sdp ip port = Inr out"
  obtains a ci mi where "ip_address_of ip = Some a" "1 \<le> port" "port \<le> 65535"
    "first_index is_connection_line (split_crlf sdp) = Some ci"
    "first_index is_audio_line (split_crlf sdp) = Some mi"
    "length (split_words (split_crlf sdp ! mi)) \<ge> 4"
    "out = join crlf ((split_crlf sdp)[ci := connection_line a, mi := relay_audio (split_crlf sdp ! mi) port])"
  using assms by (auto simp: rewrite_sdp_def relay_audio_def Let_def not_less split: if_split_asm option.split_asm)

lemma plain_no_crlf: "list_all plain_char s \<Longrightarrow> no_crlf s"
  by (rule no_crlf_plain) (auto simp: list_all_iff plain_char_def cr_def)

lemma word_no_cr: "word_ok w \<Longrightarrow> list_all (\<lambda>c. c \<noteq> cr) w"
  by (auto simp: word_ok_def list_all_iff is_space_def cr_def)

lemma join_words_no_cr: "list_all word_ok ws \<Longrightarrow> list_all (\<lambda>c. c \<noteq> cr) (join '' '' ws)"
proof (induction ws rule: induct_list012)
  case (3 w v ws)
  then show ?case using word_no_cr by (auto simp: cr_def)
qed (simp_all add: word_no_cr)

lemma rewritten_lines:
  assumes "list_all plain_char (ip_str a)" and "1 \<le> port"
  shows "split_crlf (join crlf ((split_crlf sdp)[ci := connection_line a, mi := relay_audio line port]))
    = (split_crlf sdp)[ci := connection_line a, mi := relay_audio line port]"
proof (rule split_crlf_join)
  show "(split_crlf sdp)[ci := connection_line a, mi := relay_audio line port] \<noteq> []" by simp
  have "no_crlf (connection_line a)"
    by (rule plain_no_crlf) (use assms(1) in \<open>auto simp: connection_line_def plain_char_def\<close>)
  moreover have "no_crlf (relay_audio line port)"
    unfolding relay_audio_def
    by (intro no_crlf_plain join_words_no_cr)
      (use split_words_ok [of line] dec_str_word [OF assms(2)] in
        \<open>auto simp: list_all_iff dest!: set_update_subset_insert [THEN subsetD]\<close>)
  ultimately show "list_all no_crlf ((split_crlf sdp)[ci := connection_line a, mi := relay_audio line port])"
    by (auto simp: list_all_iff split_crlf_no_crlf dest!: set_update_subset_insert [THEN subsetD])
qed

lemma not_both: "is_connection_line l \<Longrightarrow> \<not> is_audio_line l"
  using audio_not_connection by blast

lemma first_audio_unchanged:
  assumes "first_index is_audio_line lines = Some mi" and "first_index is_connection_line lines = Some ci"
    and "is_connection_line l"
  shows "first_index is_audio_line (lines[ci := l]) = Some mi \<and> ci \<noteq> mi"
proof -
  have "ci \<noteq> mi" using assms not_both by (auto simp: first_index_Some)
  moreover have "\<not> is_audio_line (lines[ci := l] ! j)" if "j < mi" for j
    using assms that not_both by (cases "j = ci") (auto simp: first_index_Some)
  ultimately show ?thesis using assms by (auto simp: first_index_Some)
qed

text \<open>The text of a rewritten SDP passes the checks before the scan.\<close>

lemma parse_sdp_scan:
  assumes "parse_sdp sdp = Inr d"
  obtains st a where "starts_with (''v=0'' @ crlf) sdp" "CHR 0x00 \<notin> set sdp"
    "scan_lines 0 (split_crlf sdp) \<lparr>connection = None, media_index = None, media_port = 0\<rparr> = Inr st"
    "connection st = Some a" "media_index st = Some (media_line_index d)" "address d = (ip_str a, media_port st)"
proof -
  from assms obtain st where h: "starts_with (''v=0'' @ crlf) sdp" "CHR 0x00 \<notin> set sdp"
      "scan_lines 0 (split_crlf sdp) \<lparr>connection = None, media_index = None, media_port = 0\<rparr> = Inr st"
    and c: "(case (media_index st, connection st) of
        (Some i, Some a) \<Rightarrow> Inr \<lparr>address = (ip_str a, media_port st), media_line_index = i\<rparr>
      | _ \<Rightarrow> Inl (ValueError ''SDP needs one routable audio stream'')) = Inr d"
    unfolding parse_sdp_def Let_def by (simp add: bindE_Inr_iff split: if_split_asm) blast
  from c obtain i a where "media_index st = Some i" "connection st = Some a"
    "d = \<lparr>address = (ip_str a, media_port st), media_line_index = i\<rparr>"
    by (cases "media_index st"; cases "connection st") auto
  with that [OF h] show thesis by simp
qed

lemma split_crlf_head: "starts_with (''v=0'' @ crlf) sdp \<Longrightarrow> \<exists>ls. split_crlf sdp = ''v=0'' # ls \<and> ls \<noteq> []"
proof -
  assume s: "starts_with (''v=0'' @ crlf) sdp"
  have l: "length (''v=0'' @ crlf) = 5" by (simp add: crlf_def)
  have t: "take 5 sdp = ''v=0'' @ crlf" using s unfolding starts_with_def l .
  have "sdp = take 5 sdp @ drop 5 sdp" by (rule append_take_drop_id [symmetric])
  then have "sdp = ''v=0'' @ crlf @ drop 5 sdp" unfolding t by simp
  then show ?thesis using split_crlf_line [of "''v=0''" "drop 5 sdp"] by (auto simp: cr_def)
qed

text \<open>An SDP with these lines passes the checks that come before the scan.\<close>

lemma parse_sdp_of_lines:
  assumes "lines = ''v=0'' # ls" and "ls \<noteq> []" and "list_all no_crlf lines"
    and "\<forall>l \<in> set lines. CHR 0x00 \<notin> set l" and "length (encode_utf8 (join crlf lines)) \<le> MAX_SDP"
  shows "parse_sdp (join crlf lines) =
      bindE (scan_lines 0 lines \<lparr>connection = None, media_index = None, media_port = 0\<rparr>) (\<lambda>st.
           case (media_index st, connection st) of
             (Some i, Some a) \<Rightarrow> Inr \<lparr>address = (ip_str a, media_port st), media_line_index = i\<rparr>
           | _ \<Rightarrow> Inl (ValueError ''SDP needs one routable audio stream''))"
proof -
  have j: "join crlf lines = ''v=0'' @ crlf @ join crlf ls" using assms(1,2) by (simp add: join_Cons)
  then have sw: "starts_with (''v=0'' @ crlf) (join crlf lines)" by (simp add: starts_with_def crlf_def)
  have "set (join crlf lines) \<subseteq> set crlf \<union> \<Union> (set ` set lines)" by (rule set_join)
  then have nul: "CHR 0x00 \<notin> set (join crlf lines)" using assms(4) by (auto simp: crlf_def cr_def lf_def)
  have "encode_utf8 (join crlf lines) \<noteq> []" unfolding j by (simp add: encode_utf8_def utf8_char_def Let_def)
  then have "1 \<le> length (encode_utf8 (join crlf lines))" by (cases "encode_utf8 (join crlf lines)") auto
  moreover have "split_crlf (join crlf lines) = lines" using assms(1,3) by (intro split_crlf_join) simp_all
  ultimately show ?thesis using assms(5) sw nul by (simp add: parse_sdp_def Let_def)
qed

lemma encode_utf8_same_bound: "length s \<le> length (encode_utf8 s)"
proof (induction s)
  case (Cons c s)
  have "1 \<le> length (utf8_char c)" by (simp add: utf8_char_def Let_def)
  with Cons show ?case by (simp add: encode_utf8_def)
qed simp

lemma set_join_sub: "w \<in> set ws \<Longrightarrow> set w \<subseteq> set (join sep ws)"
  by (induction sep ws rule: join.induct) auto

lemma split_words_sub: "w \<in> set (split_words s) \<Longrightarrow> set w \<subseteq> set s"
proof (induction s rule: split_words.induct)
  case (1 s)
  let ?t = "dropWhile is_space s"
  have t: "set ?t \<subseteq> set s" by (auto dest: set_dropWhileD)
  have u: "set (dropWhile (\<lambda>c. \<not> is_space c) ?t) \<subseteq> set ?t" "set (takeWhile (\<lambda>c. \<not> is_space c) ?t) \<subseteq> set ?t"
    by (auto dest: set_dropWhileD set_takeWhileD)
  show ?case
  proof (cases "?t = []")
    case True
    with "1.prems" show ?thesis by (subst (asm) split_words.simps) simp
  next
    case False
    with "1.prems" have "w = takeWhile (\<lambda>c. \<not> is_space c) ?t \<or> w \<in> set (split_words (dropWhile (\<lambda>c. \<not> is_space c) ?t))"
      by (subst (asm) split_words.simps) (simp add: Let_def del: dropWhile_eq_Nil_conv)
    with "1.IH" [OF refl False] t u show ?thesis by blast
  qed
qed

lemma relay_audio_chars: "1 \<le> port \<Longrightarrow> c \<in> set (relay_audio line port) \<Longrightarrow> c \<in> set line \<or> c = CHR '' '' \<or> is_digit c"
proof -
  assume port: "1 \<le> port" and c: "c \<in> set (relay_audio line port)"
  from c set_join [of "'' ''" "(split_words line)[1 := dec_str port]"]
  have "c = CHR '' '' \<or> (\<exists>w \<in> set ((split_words line)[1 := dec_str port]). c \<in> set w)"
    by (auto simp: relay_audio_def)
  then have "c = CHR '' '' \<or> c \<in> set (dec_str port) \<or> (\<exists>w \<in> set (split_words line). c \<in> set w)"
    by (auto dest!: set_update_subset_insert [THEN subsetD])
  moreover have "c \<in> set (dec_str port) \<Longrightarrow> is_digit c"
    using dec_nat_digits [of "nat port"] port by (auto simp: dec_str_def list_all_iff)
  ultimately show ?thesis using split_words_sub by blast
qed

lemma rewritten_form:
  assumes "parse_sdp sdp = Inr d" and "rewrite_sdp sdp ip port = Inr out" and "ip_address_of ip = Some a"
    and "list_all plain_char (ip_str a)"
  obtains ci mi where
    "first_index is_connection_line (split_crlf sdp) = Some ci" "first_index is_audio_line (split_crlf sdp) = Some mi"
    "split_crlf out = (split_crlf sdp)[ci := connection_line a, mi := relay_audio (split_crlf sdp ! mi) port]"
    "out = join crlf (split_crlf out)" "audio_port (relay_audio (split_crlf sdp ! mi) port) port"
    "\<exists>ls. split_crlf out = ''v=0'' # ls \<and> ls \<noteq> []" "list_all no_crlf (split_crlf out)"
    "\<forall>l \<in> set (split_crlf out). CHR 0x00 \<notin> set l"
proof -
  from assms(2) obtain a' ci mi where a': "ip_address_of ip = Some a'" and port: "1 \<le> port" "port \<le> 65535"
    and ci: "first_index is_connection_line (split_crlf sdp) = Some ci"
    and mi: "first_index is_audio_line (split_crlf sdp) = Some mi"
    and len: "length (split_words (split_crlf sdp ! mi)) \<ge> 4"
    and out: "out = join crlf ((split_crlf sdp)[ci := connection_line a', mi := relay_audio (split_crlf sdp ! mi) port])"
    by (rule rewrite_sdp_Inr)
  let ?L = "(split_crlf sdp)[ci := connection_line a, mi := relay_audio (split_crlf sdp ! mi) port]"
  have "a' = a" using a' assms(3) by simp
  with out rewritten_lines [OF assms(4) port(1)] have sp: "split_crlf out = ?L" by simp
  have au: "is_audio_line (split_crlf sdp ! mi)" and mil: "mi < length (split_crlf sdp)"
    using mi by (auto simp: first_index_Some)
  note ap = relay_audio_ok [OF au len port]
  from assms(1) obtain "starts_with (''v=0'' @ crlf) sdp" and nul: "CHR 0x00 \<notin> set sdp"
    by (rule parse_sdp_scan)
  then obtain ls where ls: "split_crlf sdp = ''v=0'' # ls" "ls \<noteq> []" using split_crlf_head by blast
  have "\<not> is_connection_line ''v=0''" "\<not> is_audio_line ''v=0''"
    by (simp_all add: is_connection_line_def is_audio_line_def starts_with_def)
  then have "0 < ci" "0 < mi" using ci mi ls by (auto simp: first_index_Some intro: gr0I)
  then have head: "\<exists>ls. split_crlf out = ''v=0'' # ls \<and> ls \<noteq> []"
    unfolding sp ls(1) using ls(2) by (cases ci; cases mi) auto
  have nulw: "\<forall>l \<in> set (split_crlf sdp). CHR 0x00 \<notin> set l"
  proof (intro ballI notI)
    fix l assume "l \<in> set (split_crlf sdp)" "CHR 0x00 \<in> set l"
    with set_join_sub [of l "split_crlf sdp" crlf] nul show False by (auto simp: join_split_crlf)
  qed
  have nulc: "CHR 0x00 \<notin> set (connection_line a)"
    using assms(4) by (auto simp: connection_line_def list_all_iff plain_char_def)
  have nula: "CHR 0x00 \<notin> set (relay_audio (split_crlf sdp ! mi) port)"
    using relay_audio_chars [OF port(1), of "CHR 0x00" "split_crlf sdp ! mi"] nulw mil
    by (auto simp: is_digit_def)
  have "\<forall>l \<in> set (split_crlf out). CHR 0x00 \<notin> set l"
    unfolding sp using nulw nulc nula by (auto dest!: set_update_subset_insert [THEN subsetD])
  moreover have "list_all no_crlf (split_crlf out)" by (simp add: list_all_iff split_crlf_no_crlf)
  moreover have "out = join crlf (split_crlf out)" by (simp add: join_split_crlf)
  ultimately show thesis using that ci mi sp ap head by blast
qed

lemma rewrite_then_parse:
  assumes "parse_sdp sdp = Inr d" and "rewrite_sdp sdp ip port = Inr out" and "ip_address_of ip = Some a"
    and "list_all plain_char (ip_str a)" and "length (encode_utf8 out) \<le> MAX_SDP"
    and "first_index is_connection_line (split_crlf sdp) = Some ci"
  shows "parse_sdp out =
    (if connection_of (split_crlf sdp ! ci) \<noteq> None
     then Inr \<lparr>address = (ip_str a, port), media_line_index = media_line_index d\<rparr>
     else Inl (ValueError ''multiple connection addresses are unsupported''))"
proof -
  from assms(1-4) obtain ci' mi where ci': "first_index is_connection_line (split_crlf sdp) = Some ci'"
    and mi: "first_index is_audio_line (split_crlf sdp) = Some mi"
    and sp: "split_crlf out = (split_crlf sdp)[ci' := connection_line a, mi := relay_audio (split_crlf sdp ! mi) port]"
    and j: "out = join crlf (split_crlf out)" and ap: "audio_port (relay_audio (split_crlf sdp ! mi) port) port"
    and head: "\<exists>ls. split_crlf out = ''v=0'' # ls \<and> ls \<noteq> []" and nc: "list_all no_crlf (split_crlf out)"
    and nul: "\<forall>l \<in> set (split_crlf out). CHR 0x00 \<notin> set l"
    by (rule rewritten_form)
  have cc: "ci' = ci" using ci' assms(6) by simp
  let ?init = "\<lparr>connection = None, media_index = None, media_port = 0\<rparr>"
  from assms(1) obtain st b where scan: "scan_lines 0 (split_crlf sdp) ?init = Inr st"
    and st: "connection st = Some b" "media_index st = Some (media_line_index d)"
    by (rule parse_sdp_scan)
  note cl = connection_line_ok [OF assms(3)]
  from head obtain ls where ls: "split_crlf out = ''v=0'' # ls" "ls \<noteq> []" by blast
  have size: "length (encode_utf8 (join crlf (split_crlf out))) \<le> MAX_SDP" using assms(5) j by simp
  note parse = parse_sdp_of_lines [OF ls nc nul size, folded j]
  note fa = first_audio_unchanged [OF mi assms(6) cl(1)]
  show ?thesis
  proof (cases "connection_of (split_crlf sdp ! ci) \<noteq> None")
    case True
    have s1: "scan_lines 0 ((split_crlf sdp)[ci := connection_line a]) ?init = Inr (st\<lparr>connection := Some a\<rparr>)"
      by (rule scan_replace_connection [OF cl scan _ assms(6) True]) simp
    from scan_replace_audio [OF ap s1 _ fa [THEN conjunct1]]
    have "scan_lines 0 (split_crlf out) ?init = Inr (st\<lparr>connection := Some a, media_port := port\<rparr>)"
      by (simp add: sp cc)
    with True st show ?thesis by (simp add: parse)
  next
    case False
    from scan_replace_audio [OF ap scan _ mi]
    have s1: "scan_lines 0 ((split_crlf sdp)[mi := relay_audio (split_crlf sdp ! mi) port]) ?init = Inr (st\<lparr>media_port := port\<rparr>)"
      by simp
    have ne: "mi \<noteq> ci" using fa by simp
    have f: "first_index is_connection_line ((split_crlf sdp)[mi := relay_audio (split_crlf sdp ! mi) port]) = Some ci"
      using assms(6) ap mi not_both by (auto simp: first_index_Some nth_list_update audio_port_def)
    have "connection_of ((split_crlf sdp)[mi := relay_audio (split_crlf sdp ! mi) port] ! ci) = None"
      using False ne by simp
    from scan_hold_connection [OF cl s1 _ _ f this] st
    have "scan_lines 0 (split_crlf out) ?init = Inl (ValueError ''multiple connection addresses are unsupported'')"
      by (simp add: sp cc list_update_swap [OF ne])
    with False show ?thesis by (simp add: parse)
  qed
qed

end
