(* ===== verification/Media_Relay.thy ===== *)
theory Media_Relay
  imports Sdp
begin

section \<open>The media relay\<close>

text \<open>
  \<^verbatim>\<open>media/rtp_module.py\<close>, lines 242 to 500: \<open>Leg\<close>, \<open>Session\<close> and \<open>MediaRelay\<close> with its control
  and media handlers. A socket is a number that is never used again; the relay knows which media
  sockets are open, with their ports, and which are registered with the selector. Every method
  returns its result, or the exception that leaves it, with the new relay.

  Parameters: \<open>os\<close> says what the operating system does when a media socket is opened: the text of
  the \<open>OSError\<close> that \<open>socket\<close> raises, or the ports that nobody else holds. \<open>now\<close> is the clock, in
  any unit. What \<open>recvfrom\<close> returns is an argument of the handlers, what \<open>sendto\<close> is given is part
  of their result; that a send may fail changes nothing.
\<close>

type_synonym sock = nat
type_synonym endpoint = "string \<times> int"
type_synonym os_sockets = "string + (int \<Rightarrow> bool)"

definition MAX_MEDIA_PACKET :: nat where "MAX_MEDIA_PACKET = 8192"
definition MAX_CALL_ID :: nat where "MAX_CALL_ID = 512"
definition MAX_TAG :: nat where "MAX_TAG = 256"

definition valid_rtp_packet :: "bytes \<Rightarrow> bool" where
  "valid_rtp_packet packet \<longleftrightarrow>
     12 \<le> length packet \<and> length packet \<le> MAX_MEDIA_PACKET \<and> drop_bit 6 (packet ! 0) = 2"

subsection \<open>State\<close>

record Leg =
  leg_socket :: sock
  advertised :: endpoint
  observed :: "endpoint option"

record Session =
  call_id :: string
  from_tag :: string
  offer_leg :: Leg
  to_tag :: string
  answer_leg :: "Leg option"
  last_activity :: int

record MediaRelay =
  media_ip :: string
  media_min :: int
  media_max :: int
  max_sessions :: nat
  session_timeout :: int
  control_allow :: "string list"
  sessions :: "(string \<times> Session) list"
  sockets :: "(sock \<times> int) list"
  registered :: "sock list"
  next_socket :: sock
  stopped :: bool

definition new_relay ::
  "string \<Rightarrow> int \<Rightarrow> int \<Rightarrow> int \<Rightarrow> int \<Rightarrow> string list \<Rightarrow> int \<times> int \<Rightarrow> MediaRelay result" where
  "new_relay ip lo hi limit timeout allow timeout_range =
     (if \<not> (1 \<le> lo \<and> lo \<le> hi \<and> hi \<le> 65535) then Inl (ValueError ''invalid media port range'')
      else if \<not> (1 \<le> limit \<and> limit \<le> 1000000) then Inl (ValueError ''invalid session limit'')
      else if \<not> (fst timeout_range \<le> timeout \<and> timeout \<le> snd timeout_range)
      then Inl (ValueError ''invalid session timeout'')
      else case ip_address_of ip of
        None \<Rightarrow> Inl (ValueError ''media_ip must be a routable address'')
      | Some a \<Rightarrow> Inr \<lparr>media_ip = ip_str a, media_min = lo, media_max = hi, max_sessions = nat limit,
          session_timeout = timeout,
          control_allow = (if allow = [] then [''127.0.0.1'', ''::1''] else allow),
          sessions = [], sockets = [], registered = [], next_socket = 0, stopped = False\<rparr>)"

subsection \<open>Sockets\<close>

text \<open>The bind loop: a port that one of the relay's own sockets holds cannot be bound either.\<close>

definition allocate_socket :: "os_sockets \<Rightarrow> MediaRelay \<Rightarrow> (sock \<times> int) result \<times> MediaRelay" where
  "allocate_socket os r =
     (case os of
        Inl _ \<Rightarrow> (Inl OSError, r)
      | Inr free \<Rightarrow>
          (case List.find (\<lambda>p. free p \<and> p \<notin> snd ` set (sockets r)) [media_min r..media_max r] of
             None \<Rightarrow> (Inl (RuntimeError ''media port range exhausted''), r)
           | Some port \<Rightarrow>
               (Inr (next_socket r, port),
                r\<lparr>sockets := (next_socket r, port) # sockets r,
                  registered := next_socket r # registered r,
                  next_socket := next_socket r + 1\<rparr>)))"

definition close_socket :: "sock \<Rightarrow> MediaRelay \<Rightarrow> MediaRelay" where
  "close_socket s r =
     r\<lparr>sockets := AList.delete s (sockets r), registered := filter (\<lambda>x. x \<noteq> s) (registered r)\<rparr>"

definition close_leg :: "Leg option \<Rightarrow> MediaRelay \<Rightarrow> MediaRelay" where
  "close_leg leg r = (case leg of None \<Rightarrow> r | Some l \<Rightarrow> close_socket (leg_socket l) r)"

definition delete_session :: "string \<Rightarrow> MediaRelay \<Rightarrow> bool \<times> MediaRelay" where
  "delete_session cid r =
     (case map_of (sessions r) cid of
        None \<Rightarrow> (False, r)
      | Some s \<Rightarrow>
          (True, close_leg (answer_leg s)
             (close_leg (Some (offer_leg s)) (r\<lparr>sessions := AList.delete cid (sessions r)\<rparr>))))"

subsection \<open>Control commands\<close>

definition error_reply :: "string \<Rightarrow> bytes result" where
  "error_reply reason = bencode_dict
     [(KeyStr ''result'', PyStr ''error''), (KeyStr ''error-reason'', PyStr (take 128 reason))]"

definition ok_reply :: "bytes result" where
  "ok_reply = bencode_dict [(KeyStr ''result'', PyStr ''ok'')]"

definition sdp_reply :: "string \<Rightarrow> bytes result" where
  "sdp_reply sdp = bencode_dict [(KeyStr ''result'', PyStr ''ok''), (KeyStr ''sdp'', PyStr sdp)]"

text \<open>
  What \<open>_offer\<close> and \<open>_answer\<close> catch (\<open>ConnectionError\<close> is an \<open>OSError\<close>, \<open>RecursionError\<close> a
  \<open>RuntimeError\<close>), and \<open>str(exc)\<close>; the text of an \<open>OSError\<close> is the system's.
\<close>

fun offer_catches :: "exn \<Rightarrow> bool" where
  "offer_catches (RuntimeError _) = True"
| "offer_catches RecursionError = True"
| "offer_catches OSError = True"
| "offer_catches (ConnectionError _) = True"
| "offer_catches e = is_value_error e"

definition reason_text :: "os_sockets \<Rightarrow> exn \<Rightarrow> string" where
  "reason_text os e = (case os of Inl t \<Rightarrow> if e = OSError then t else exn_text e | Inr _ \<Rightarrow> exn_text e)"

text \<open>
  The part that \<open>_offer\<close> and \<open>_answer\<close> share: parse, open a socket, rewrite; the socket is closed
  again when the rewriting fails.
\<close>

definition open_leg ::
  "os_sockets \<Rightarrow> MediaRelay \<Rightarrow> string \<Rightarrow> (SdpDescription \<times> sock \<times> string) result \<times> MediaRelay" where
  "open_leg os r sdp =
     (case parse_sdp sdp of
        Inl e \<Rightarrow> (Inl e, r)
      | Inr description \<Rightarrow>
          (case allocate_socket os r of
             (Inl e, r') \<Rightarrow> (Inl e, r')
           | (Inr (s, port), r') \<Rightarrow>
               (case rewrite_sdp sdp (media_ip r') port of
                  Inl e \<Rightarrow> (Inl e, close_socket s r')
                | Inr rewritten \<Rightarrow> (Inr (description, s, rewritten), r'))))"

definition offer ::
  "os_sockets \<Rightarrow> int \<Rightarrow> MediaRelay \<Rightarrow> string \<Rightarrow> string \<Rightarrow> string \<Rightarrow> bytes result \<times> MediaRelay" where
  "offer os now r cid ftag sdp =
     (let r1 = (if map_of (sessions r) cid \<noteq> None then snd (delete_session cid r) else r)
      in if length (sessions r1) \<ge> max_sessions r1 then (error_reply ''capacity-exhausted'', r1)
         else case open_leg os r1 sdp of
           (Inl e, r2) \<Rightarrow> (if offer_catches e then error_reply (reason_text os e) else Inl e, r2)
         | (Inr (description, s, rewritten), r2) \<Rightarrow>
             (sdp_reply rewritten,
              r2\<lparr>sessions := AList.update cid
                \<lparr>call_id = cid, from_tag = ftag,
                 offer_leg = \<lparr>leg_socket = s, advertised = address description, observed = None\<rparr>,
                 to_tag = [], answer_leg = None, last_activity = now\<rparr> (sessions r2)\<rparr>))"

definition answer ::
  "os_sockets \<Rightarrow> int \<Rightarrow> MediaRelay \<Rightarrow> string \<Rightarrow> string \<Rightarrow> string \<Rightarrow> string \<Rightarrow> bytes result \<times> MediaRelay" where
  "answer os now r cid ftag ttag sdp =
     (case map_of (sessions r) cid of
        None \<Rightarrow> (error_reply ''unknown-or-reused-dialog'', r)
      | Some session \<Rightarrow>
          if from_tag session \<noteq> ftag \<or> answer_leg session \<noteq> None
          then (error_reply ''unknown-or-reused-dialog'', r)
          else case open_leg os r sdp of
            (Inl e, r2) \<Rightarrow> (if offer_catches e then error_reply (reason_text os e) else Inl e, r2)
          | (Inr (description, s, rewritten), r2) \<Rightarrow>
              (sdp_reply rewritten,
               r2\<lparr>sessions := AList.update cid
                 (session\<lparr>to_tag := ttag,
                    answer_leg := Some \<lparr>leg_socket = s, advertised = address description, observed = None\<rparr>,
                    last_activity := now\<rparr>) (sessions r2)\<rparr>))"

text \<open>The command as \<open>handle_payload\<close> runs it inside its \<open>try\<close>.\<close>

definition run_command ::
  "os_sockets \<Rightarrow> int \<Rightarrow> MediaRelay \<Rightarrow> bytes \<Rightarrow> bytes result \<times> MediaRelay" where
  "run_command os now r payload =
     (case bdecode_dict payload of
        Inl e \<Rightarrow> (Inl e, r)
      | Inr command \<Rightarrow>
          let field = (\<lambda>k. map_of command (bytes_of k))
          in case text_of (field ''command'') ''command'' 32 of
               Inl e \<Rightarrow> (Inl e, r)
             | Inr op \<Rightarrow>
                 if lower op = ''ping'' then (ok_reply, r)
                 else case text_of (field ''call-id'') ''call-id'' MAX_CALL_ID of
                   Inl e \<Rightarrow> (Inl e, r)
                 | Inr cid \<Rightarrow>
                     if lower op = ''delete'' then (ok_reply, snd (delete_session cid r))
                     else case text_of (field ''from-tag'') ''from-tag'' MAX_TAG of
                       Inl e \<Rightarrow> (Inl e, r)
                     | Inr ftag \<Rightarrow>
                         (case sdp_text (field ''sdp'') of
                            Inl e \<Rightarrow> (Inl e, r)
                          | Inr sdp \<Rightarrow>
                              if lower op = ''offer'' then offer os now r cid ftag sdp
                              else if lower op = ''answer'' then
                                (case text_of (field ''to-tag'') ''to-tag'' MAX_TAG of
                                   Inl e \<Rightarrow> (Inl e, r)
                                 | Inr ttag \<Rightarrow> answer os now r cid ftag ttag sdp)
                              else (error_reply ''unsupported-command'', r)))"

definition handle_payload ::
  "os_sockets \<Rightarrow> int \<Rightarrow> MediaRelay \<Rightarrow> bytes \<Rightarrow> bytes result \<times> MediaRelay" where
  "handle_payload os now r payload =
     (case run_command os now r payload of
        (Inr reply, r') \<Rightarrow> (Inr reply, r')
      | (Inl e, r') \<Rightarrow>
          if is_value_error e \<or> e = RecursionError then (error_reply (exn_text e), r') else (Inl e, r'))"

subsection \<open>Media packets\<close>

text \<open>
  A leg is named by the call-id of its session and its side. \<open>relay_packet\<close> returns what it gives
  to \<open>sendto\<close>: the socket, the destination and the packet.
\<close>

datatype side = Offer_Side | Answer_Side

type_synonym datagram = "sock \<times> endpoint \<times> bytes"

fun leg_of :: "side \<Rightarrow> Session \<Rightarrow> Leg option" where
  "leg_of Offer_Side s = Some (offer_leg s)"
| "leg_of Answer_Side s = answer_leg s"

fun map_leg :: "side \<Rightarrow> (Leg \<Rightarrow> Leg) \<Rightarrow> Session \<Rightarrow> Session" where
  "map_leg Offer_Side f s = s\<lparr>offer_leg := f (offer_leg s)\<rparr>"
| "map_leg Answer_Side f s = s\<lparr>answer_leg := map_option f (answer_leg s)\<rparr>"

definition has_socket :: "sock \<Rightarrow> Leg option \<Rightarrow> bool" where
  "has_socket k leg \<longleftrightarrow> (case leg of None \<Rightarrow> False | Some l \<Rightarrow> leg_socket l = k)"

text \<open>The loop that looks for the leg again and takes the other one of the session it is found in.\<close>

fun peer_leg :: "sock \<Rightarrow> (string \<times> Session) list \<Rightarrow> Leg option" where
  "peer_leg k [] = None"
| "peer_leg k ((c, s) # rest) =
     (if leg_socket (offer_leg s) = k then answer_leg s
      else if has_socket k (answer_leg s) then Some (offer_leg s)
      else peer_leg k rest)"

definition relay_packet ::
  "int \<Rightarrow> MediaRelay \<Rightarrow> string \<Rightarrow> Session \<Rightarrow> side \<Rightarrow> Leg \<Rightarrow> bytes \<Rightarrow> endpoint \<Rightarrow> datagram option \<times> MediaRelay" where
  "relay_packet now r cid session side leg packet source =
     (if \<not> valid_rtp_packet packet then (None, r)
      else if observed leg \<noteq> None \<and> observed leg \<noteq> Some source then (None, r)
      else
        let session' = (map_leg side (\<lambda>l. l\<lparr>observed := Some source\<rparr>) session)\<lparr>last_activity := now\<rparr>;
            r' = r\<lparr>sessions := AList.update cid session' (sessions r)\<rparr>
        in case peer_leg (leg_socket leg) (sessions r') of
             None \<Rightarrow> (None, r')
           | Some target \<Rightarrow>
               (Some (leg_socket target,
                  (case observed target of Some a \<Rightarrow> a | None \<Rightarrow> advertised target), packet), r'))"

fun find_leg :: "sock \<Rightarrow> (string \<times> Session) list \<Rightarrow> (string \<times> Session \<times> side \<times> Leg) option" where
  "find_leg k [] = None"
| "find_leg k ((c, s) # rest) =
     (if leg_socket (offer_leg s) = k then Some (c, s, Offer_Side, offer_leg s)
      else case answer_leg s of
        Some l \<Rightarrow> if leg_socket l = k then Some (c, s, Answer_Side, l) else find_leg k rest
      | None \<Rightarrow> find_leg k rest)"

text \<open>
  \<open>recvfrom\<close> on a socket that is closed, or with nothing to read, raises \<open>OSError\<close> (\<open>None\<close>); it
  cuts a longer datagram at its argument.
\<close>

definition handle_media_socket ::
  "int \<Rightarrow> MediaRelay \<Rightarrow> sock \<Rightarrow> (bytes \<times> endpoint) option \<Rightarrow> datagram option \<times> MediaRelay" where
  "handle_media_socket now r k received =
     (case (if k \<in> fst ` set (sockets r) then received else None) of
        None \<Rightarrow> (None, r)
      | Some (datagram, source) \<Rightarrow>
          (case find_leg k (sessions r) of
             None \<Rightarrow> (None, r)
           | Some (cid, session, side, leg) \<Rightarrow>
               relay_packet now r cid session side leg (take MAX_MEDIA_PACKET datagram) source))"

definition expire_one :: "int \<Rightarrow> string \<times> Session \<Rightarrow> MediaRelay \<Rightarrow> MediaRelay" where
  "expire_one deadline entry r =
     (if last_activity (snd entry) \<le> deadline then snd (delete_session (fst entry) r) else r)"

definition expire_sessions :: "int \<Rightarrow> MediaRelay \<Rightarrow> MediaRelay" where
  "expire_sessions now r =
     (let deadline = now - session_timeout r
      in fold (expire_one deadline) (sessions r) r)"

subsection \<open>The control socket and the server loop\<close>

text \<open>
  A control datagram is a cookie, a space and a command; the answer is the cookie, a space and the
  reply. \<open>None\<close> as a result says that nothing is sent.
\<close>

definition control_frame :: "bytes \<Rightarrow> (bytes \<times> bytes) option" where
  "control_frame packet =
     (let cookie = takeWhile (\<lambda>b. b \<noteq> 32) packet; payload = drop (length cookie + 1) packet
      in if 32 \<in> set packet \<and> cookie \<noteq> [] \<and> length cookie + 1 < length packet \<and> length cookie \<le> 64
         then Some (cookie, payload) else None)"

definition handle_control_socket ::
  "os_sockets \<Rightarrow> int \<Rightarrow> MediaRelay \<Rightarrow> (bytes \<times> endpoint) option \<Rightarrow> (bytes \<times> endpoint) option result \<times> MediaRelay" where
  "handle_control_socket os now r received =
     (case received of
        None \<Rightarrow> (Inr None, r)
      | Some (datagram, source) \<Rightarrow>
          if fst source \<notin> set (control_allow r) then (Inr None, r)
          else case control_frame (take MAX_CONTROL_PACKET datagram) of
            None \<Rightarrow> (Inr None, r)
          | Some (cookie, payload) \<Rightarrow>
              (case handle_payload os now r payload of
                 (Inl e, r') \<Rightarrow> (Inl e, r')
               | (Inr reply, r') \<Rightarrow> (Inr (Some (cookie @ [32] @ reply, source)), r')))"

text \<open>What the selector reports ready, with what the handler will read and when.\<close>

datatype event =
    Control_Ready os_sockets int "(bytes \<times> endpoint) option"
  | Media_Ready sock int "(bytes \<times> endpoint) option"

datatype sent = To_Control endpoint bytes | To_Media datagram

fun handle_event :: "event \<Rightarrow> MediaRelay \<Rightarrow> sent list result \<times> MediaRelay" where
  "handle_event (Control_Ready os now received) r =
     (case handle_control_socket os now r received of
        (Inl e, r') \<Rightarrow> (Inl e, r')
      | (Inr None, r') \<Rightarrow> (Inr [], r')
      | (Inr (Some (reply, source)), r') \<Rightarrow> (Inr [To_Control source reply], r'))"
| "handle_event (Media_Ready k now received) r =
     (case handle_media_socket now r k received of
        (None, r') \<Rightarrow> (Inr [], r')
      | (Some d, r') \<Rightarrow> (Inr [To_Media d], r'))"

primrec handle_events :: "event list \<Rightarrow> MediaRelay \<Rightarrow> sent list result \<times> MediaRelay" where
  "handle_events [] r = (Inr [], r)"
| "handle_events (ev # evs) r =
     (case handle_event ev r of
        (Inl e, r') \<Rightarrow> (Inl e, r')
      | (Inr out, r') \<Rightarrow>
          (case handle_events evs r' of
             (Inl e, r'') \<Rightarrow> (Inl e, r'')
           | (Inr out', r'') \<Rightarrow> (Inr (out @ out'), r'')))"

definition close_relay :: "MediaRelay \<Rightarrow> MediaRelay" where
  "close_relay r =
     fold (\<lambda>c r. snd (delete_session c r)) (map fst (sessions r)) (r\<lparr>stopped := True\<rparr>)"

text \<open>
  One turn of the loop of \<open>serve\<close>: the handlers of the ready sockets, then the expiry. An exception
  of a handler leaves through the \<open>finally\<close>, which closes the relay.
\<close>

definition serve_turn :: "event list \<Rightarrow> int \<Rightarrow> MediaRelay \<Rightarrow> sent list result \<times> MediaRelay" where
  "serve_turn evs now r =
     (case handle_events evs r of
        (Inl e, r') \<Rightarrow> (Inl e, close_relay r')
      | (Inr out, r') \<Rightarrow> (Inr out, expire_sessions now r'))"

definition parse_allowlist :: "string \<Rightarrow> string list result" where
  "parse_allowlist raw =
     (let values = remdups (filter (\<lambda>s. s \<noteq> []) (map strip (split_char CHR '','' raw)))
      in if values = [] then Inl (ValueError ''control allow-list cannot be empty'')
         else if list_all (\<lambda>s. parse_ip s \<noteq> None) values then Inr values
         else Inl (ValueError ''not an IP address''))"

end
