(* ===== verification/Relay_Pool.thy ===== *)
theory Relay_Pool
  imports Media_Relay
begin

section \<open>The sockets of the relay and who owns them\<close>

text \<open>
  The interface between the sessions and the sockets: a pool hands out fresh sockets and takes them
  back. The client keeps a map from its legs to sockets; the locale proves that this ownership
  stays one to one, with no socket leaked and none closed while in use. The relay's allocation and
  closing are the instance.
\<close>

locale socket_pool =
  fixes acquire :: "'os \<Rightarrow> 'p \<Rightarrow> ('s \<times> int) result \<times> 'p"
    and release :: "'s \<Rightarrow> 'p \<Rightarrow> 'p"
    and held :: "'p \<Rightarrow> 's set"
    and ok :: "'p \<Rightarrow> bool"
  assumes acquired: "ok p \<Longrightarrow> acquire os p = (Inr (s, port), p') \<Longrightarrow>
      s \<notin> held p \<and> held p' = insert s (held p) \<and> ok p'"
    and not_acquired: "acquire os p = (Inl e, p') \<Longrightarrow> p' = p"
    and released: "ok p \<Longrightarrow> ok (release s p) \<and> held (release s p) = held p - {s}"
begin

definition owned :: "('l \<rightharpoonup> 's) \<Rightarrow> 'p \<Rightarrow> bool" where
  "owned m p \<longleftrightarrow> ok p \<and> inj_on m (dom m) \<and> ran m = held p"

lemma owned_acquire:
  assumes "owned m p" and "acquire os p = (Inr (s, port), p')" and "m k = None"
  shows "owned (m(k \<mapsto> s)) p'"
proof -
  from assms(1) have ok: "ok p" and inj: "inj_on m (dom m)" and ran: "ran m = held p"
    by (auto simp: owned_def)
  from acquired [OF ok assms(2)] have s: "s \<notin> ran m" "held p' = insert s (ran m)" "ok p'"
    by (auto simp: ran)
  have "inj_on (m(k \<mapsto> s)) (dom (m(k \<mapsto> s)))"
  proof (rule inj_onI)
    fix x y
    assume h: "x \<in> dom (m(k \<mapsto> s))" "y \<in> dom (m(k \<mapsto> s))" "(m(k \<mapsto> s)) x = (m(k \<mapsto> s)) y"
    show "x = y"
    proof (cases "x = k \<or> y = k")
      case True
      then show ?thesis using h s(1) by (auto simp: ran_def split: if_splits)
    next
      case False
      then show ?thesis using h inj by (auto simp: inj_on_def domIff)
    qed
  qed
  moreover have "ran (m(k \<mapsto> s)) = held p'" using assms(3) s(2) by simp
  ultimately show ?thesis using s(3) by (simp add: owned_def)
qed

lemma owned_acquire_release:
  assumes "owned m p" and "acquire os p = (Inr (s, port), p')"
  shows "owned m (release s p')"
proof -
  from assms(1) have ok: "ok p" by (simp add: owned_def)
  note a = acquired [OF ok assms(2)]
  then have "ok (release s p') \<and> held (release s p') = held p' - {s}" by (intro released) simp
  then show ?thesis using a assms(1) by (auto simp: owned_def)
qed

lemma owned_release:
  assumes "owned m p" and "m k = Some s"
  shows "owned (m(k := None)) (release s p)"
proof -
  from assms(1) have ok: "ok p" and inj: "inj_on m (dom m)" and ran: "ran m = held p"
    by (auto simp: owned_def)
  have "inj_on (m(k := None)) (dom (m(k := None)))"
    using inj by (auto simp: inj_on_def)
  moreover have "ran (m(k := None)) = ran m - {s}"
  proof (rule set_eqI)
    fix x
    show "x \<in> ran (m(k := None)) \<longleftrightarrow> x \<in> ran m - {s}"
      using inj assms(2) by (auto simp: ran_def inj_on_def dom_def) (metis option.inject)
  qed
  ultimately show ?thesis using released [OF ok, of s] ran by (simp add: owned_def)
qed

end

subsection \<open>The relay as a pool\<close>

definition held_sockets :: "MediaRelay \<Rightarrow> sock set" where
  "held_sockets r = fst ` set (sockets r)"

definition pool_ok :: "MediaRelay \<Rightarrow> bool" where
  "pool_ok r \<longleftrightarrow>
     distinct (map fst (sockets r)) \<and> distinct (map snd (sockets r))
     \<and> (\<forall>(s, port) \<in> set (sockets r). s < next_socket r \<and> media_min r \<le> port \<and> port \<le> media_max r)
     \<and> distinct (registered r) \<and> set (registered r) = held_sockets r"

lemma allocate_socket_Inr:
  assumes "allocate_socket os r = (Inr (s, port), r')"
  shows "s = next_socket r" "media_min r \<le> port" "port \<le> media_max r" "port \<notin> snd ` set (sockets r)"
    and "r' = r\<lparr>sockets := (s, port) # sockets r, registered := s # registered r, next_socket := s + 1\<rparr>"
proof -
  from assms obtain free where f: "os = Inr free" by (auto simp: allocate_socket_def split: sum.splits)
  with assms have found: "List.find (\<lambda>p. free p \<and> p \<notin> snd ` set (sockets r)) [media_min r..media_max r] = Some port"
    and rest: "s = next_socket r"
      "r' = r\<lparr>sockets := (s, port) # sockets r, registered := s # registered r, next_socket := s + 1\<rparr>"
    by (auto simp: allocate_socket_def split: option.splits)
  from found have p: "port \<in> set [media_min r..media_max r]" "port \<notin> snd ` set (sockets r)"
    by (auto simp: find_Some_iff)
  from rest p show "s = next_socket r" "media_min r \<le> port" "port \<le> media_max r" "port \<notin> snd ` set (sockets r)"
    "r' = r\<lparr>sockets := (s, port) # sockets r, registered := s # registered r, next_socket := s + 1\<rparr>"
    by auto
qed

lemma allocate_socket_Inl: "allocate_socket os r = (Inl e, r') \<Longrightarrow> r' = r \<and> offer_catches e"
  by (auto simp: allocate_socket_def split: sum.splits option.splits)

lemma pool_ok_allocate:
  assumes "pool_ok r" and "allocate_socket os r = (Inr (s, port), r')"
  shows "s \<notin> held_sockets r \<and> held_sockets r' = insert s (held_sockets r) \<and> pool_ok r'"
proof -
  note a = allocate_socket_Inr [OF assms(2)]
  from assms(1) a(1) have "s \<notin> held_sockets r" by (auto simp: pool_ok_def held_sockets_def)
  moreover have "pool_ok r'"
    using assms(1) a calculation
    by (auto simp: pool_ok_def held_sockets_def less_Suc_eq)
  ultimately show ?thesis using a(5) by (auto simp: held_sockets_def)
qed

lemma held_close [simp]: "held_sockets (close_socket s r) = held_sockets r - {s}"
  by (auto simp: held_sockets_def close_socket_def AList.delete_eq image_iff)

lemma pool_ok_close:
  assumes "pool_ok r"
  shows "pool_ok (close_socket s r)"
proof -
  let ?r = "close_socket s r"
  have sub: "set (sockets ?r) \<subseteq> set (sockets r)"
    by (auto simp: close_socket_def AList.delete_eq)
  have "distinct (map fst (sockets ?r))"
    using assms by (simp add: close_socket_def pool_ok_def distinct_delete)
  moreover have "distinct (map snd (sockets ?r))"
    using assms by (simp add: close_socket_def pool_ok_def AList.delete_eq distinct_map_filter)
  moreover have "\<forall>(k, port) \<in> set (sockets ?r). k < next_socket ?r \<and> media_min ?r \<le> port \<and> port \<le> media_max ?r"
    using assms sub unfolding pool_ok_def by (simp add: close_socket_def) blast
  moreover have "distinct (registered ?r)" "set (registered ?r) = held_sockets ?r"
    using assms unfolding pool_ok_def by (simp, simp add: close_socket_def, simp, auto simp: close_socket_def)
  ultimately show ?thesis unfolding pool_ok_def by blast
qed

interpretation pool: socket_pool allocate_socket close_socket held_sockets pool_ok
proof unfold_locales
  show "pool_ok p \<Longrightarrow> allocate_socket os p = (Inr (s, port), p') \<Longrightarrow>
      s \<notin> held_sockets p \<and> held_sockets p' = insert s (held_sockets p) \<and> pool_ok p'" for p os s port p'
    by (rule pool_ok_allocate)
  show "allocate_socket os p = (Inl e, p') \<Longrightarrow> p' = p" for os p e p'
    by (simp add: allocate_socket_Inl)
  show "pool_ok p \<Longrightarrow> pool_ok (close_socket s p) \<and> held_sockets (close_socket s p) = held_sockets p - {s}" for p s
    by (simp add: pool_ok_close)
qed

end
