(* ===== verification/Relay_Invariant.thy ===== *)
theory Relay_Invariant
  imports Relay_Pool
begin

section \<open>The invariant of the media relay\<close>

text \<open>
  \<open>relay_ok\<close>: the sessions stay within their limit and under their own call-ids, every leg owns one
  open and registered socket with a port of its own in the configured range, and no other socket is
  open. Every operation keeps it, whatever arrives; \<open>relay_reachable\<close> are the states of the loop of
  \<open>serve\<close>.
\<close>

definition leg_map :: "(string \<times> Session) list \<Rightarrow> string \<times> side \<Rightarrow> sock option" where
  "leg_map ss = (\<lambda>(c, sd).
     case map_of ss c of None \<Rightarrow> None | Some s \<Rightarrow> map_option leg_socket (leg_of sd s))"

definition settings_ok :: "MediaRelay \<Rightarrow> bool" where
  "settings_ok r \<longleftrightarrow>
     1 \<le> media_min r \<and> media_max r \<le> 65535 \<and> (\<exists>a. ip_address_of (media_ip r) = Some a \<and> media_ip r = ip_str a)"

definition sessions_ok :: "MediaRelay \<Rightarrow> bool" where
  "sessions_ok r \<longleftrightarrow>
     dict_ok (sessions r) \<and> length (sessions r) \<le> max_sessions r
     \<and> (\<forall>c s. map_of (sessions r) c = Some s \<longrightarrow> call_id s = c)"

definition relay_ok :: "MediaRelay \<Rightarrow> bool" where
  "relay_ok r \<longleftrightarrow> settings_ok r \<and> sessions_ok r \<and> pool.owned (leg_map (sessions r)) r"

text \<open>The part of the state the pool does not see.\<close>

lemma owned_sessions [simp]: "pool.owned m (r\<lparr>sessions := ss\<rparr>) = pool.owned m r"
  by (simp add: pool.owned_def pool_ok_def held_sockets_def)

lemma close_socket_fields [simp]:
  "sessions (close_socket k r) = sessions r" "media_ip (close_socket k r) = media_ip r"
  "media_min (close_socket k r) = media_min r" "media_max (close_socket k r) = media_max r"
  "max_sessions (close_socket k r) = max_sessions r" "session_timeout (close_socket k r) = session_timeout r"
  "control_allow (close_socket k r) = control_allow r" "next_socket (close_socket k r) = next_socket r"
  by (simp_all add: close_socket_def)

lemma close_socket_sessions_update [simp]:
  "close_socket k (r\<lparr>sessions := ss\<rparr>) = (close_socket k r)\<lparr>sessions := ss\<rparr>"
  by (simp add: close_socket_def)

lemma allocate_fields:
  assumes "allocate_socket os r = (res, r')"
  shows "sessions r' = sessions r" "media_ip r' = media_ip r" "media_min r' = media_min r"
    "media_max r' = media_max r" "max_sessions r' = max_sessions r" "control_allow r' = control_allow r"
    "session_timeout r' = session_timeout r"
  using assms by (auto simp: allocate_socket_def split: sum.splits option.splits)

lemma leg_map_delete:
  "leg_map (AList.delete c ss) = (leg_map ss)((c, Offer_Side) := None, (c, Answer_Side) := None)"
proof (rule ext)
  fix x :: "string \<times> side"
  obtain d sd where "x = (d, sd)" by (cases x)
  then show "leg_map (AList.delete c ss) x = ((leg_map ss)((c, Offer_Side) := None, (c, Answer_Side) := None)) x"
    by (cases sd) (auto simp: leg_map_def AList.delete_conv')
qed

lemma leg_map_update:
  "leg_map (AList.update c s ss) = (leg_map ss)((c, Offer_Side) := Some (leg_socket (offer_leg s)),
     (c, Answer_Side) := map_option leg_socket (answer_leg s))"
proof (rule ext)
  fix x :: "string \<times> side"
  obtain d sd where "x = (d, sd)" by (cases x)
  then show "leg_map (AList.update c s ss) x = ((leg_map ss)((c, Offer_Side) := Some (leg_socket (offer_leg s)),
     (c, Answer_Side) := map_option leg_socket (answer_leg s))) x"
    by (cases sd) (auto simp: leg_map_def update_conv')
qed

lemma leg_map_offer: "map_of ss c = Some s \<Longrightarrow> leg_map ss (c, Offer_Side) = Some (leg_socket (offer_leg s))"
  and leg_map_answer: "map_of ss c = Some s \<Longrightarrow> leg_map ss (c, Answer_Side) = map_option leg_socket (answer_leg s)"
  and leg_map_None: "map_of ss c = None \<Longrightarrow> leg_map ss (c, sd) = None"
  by (simp_all add: leg_map_def)

lemmas leg_map_at = leg_map_offer leg_map_answer leg_map_None

subsection \<open>Sessions that end\<close>

lemma delete_session_sessions [simp]: "sessions (snd (delete_session c r)) = AList.delete c (sessions r)"
proof (cases "map_of (sessions r) c")
  case None
  then have "c \<notin> fst ` set (sessions r)" by (simp add: map_of_eq_None_iff)
  then show ?thesis using None by (simp add: delete_session_def AList.delete_id)
qed (auto simp: delete_session_def close_leg_def split: option.splits)

lemma delete_session_fields [simp]:
  "media_ip (snd (delete_session c r)) = media_ip r" "media_min (snd (delete_session c r)) = media_min r"
  "media_max (snd (delete_session c r)) = media_max r" "max_sessions (snd (delete_session c r)) = max_sessions r"
  "session_timeout (snd (delete_session c r)) = session_timeout r"
  "control_allow (snd (delete_session c r)) = control_allow r"
  by (simp_all add: delete_session_def close_leg_def split: option.splits)

lemma owned_delete:
  assumes "pool.owned (leg_map (sessions r)) r"
  shows "pool.owned (leg_map (AList.delete c (sessions r))) (snd (delete_session c r))"
proof (cases "map_of (sessions r) c")
  case None
  then have "c \<notin> fst ` set (sessions r)" by (simp add: map_of_eq_None_iff)
  then show ?thesis using None assms by (simp add: delete_session_def AList.delete_id)
next
  case (Some s)
  let ?m = "leg_map (sessions r)"
  have 1: "pool.owned (?m((c, Offer_Side) := None)) (close_socket (leg_socket (offer_leg s)) r)"
    using assms leg_map_offer [OF Some] by (rule pool.owned_release)
  show ?thesis
  proof (cases "answer_leg s")
    case None
    then have "?m((c, Offer_Side) := None, (c, Answer_Side) := None) = ?m((c, Offer_Side) := None)"
      using leg_map_answer [OF Some] by auto
    then show ?thesis using 1 Some None
      by (simp add: delete_session_def close_leg_def leg_map_delete)
  next
    case a: (Some l)
    have "pool.owned (?m((c, Offer_Side) := None, (c, Answer_Side) := None))
        (close_socket (leg_socket l) (close_socket (leg_socket (offer_leg s)) r))"
      by (rule pool.owned_release [OF 1]) (simp add: leg_map_answer [OF Some] a)
    then show ?thesis using Some a
      by (simp add: delete_session_def close_leg_def leg_map_delete)
  qed
qed

lemma settings_ok_delete [simp]: "settings_ok (snd (delete_session c r)) = settings_ok r"
  by (simp add: settings_ok_def)

lemma relay_ok_delete:
  assumes "relay_ok r"
  shows "relay_ok (snd (delete_session c r))"
proof -
  have "sessions_ok (snd (delete_session c r))"
    using assms dict.size_remove_le [of "sessions r" c] dict.ok_remove [of "sessions r" c]
    by (auto simp: relay_ok_def sessions_ok_def AList.delete_conv')
  then show ?thesis using assms by (simp add: relay_ok_def owned_delete)
qed

lemma relay_ok_expire:
  assumes "relay_ok r"
  shows "relay_ok (expire_sessions now r)"
proof -
  have "relay_ok (fold (expire_one d) es q)" if "relay_ok q" for d es q
    using that
  proof (induction es arbitrary: q)
    case (Cons e es)
    then show ?case by (simp add: expire_one_def relay_ok_delete)
  qed simp
  then show ?thesis using assms by (simp add: expire_sessions_def Let_def)
qed

lemma relay_ok_stopped [simp]: "relay_ok (r\<lparr>stopped := b\<rparr>) = relay_ok r"
  by (simp add: relay_ok_def settings_ok_def sessions_ok_def pool.owned_def pool_ok_def held_sockets_def)

lemma relay_ok_close: "relay_ok r \<Longrightarrow> relay_ok (close_relay r)"
proof -
  have "relay_ok (fold (\<lambda>c r. snd (delete_session c r)) cs q)" if "relay_ok q" for cs q
    using that by (induction cs arbitrary: q) (simp_all add: relay_ok_delete)
  then show "relay_ok r \<Longrightarrow> relay_ok (close_relay r)" by (simp add: close_relay_def)
qed

subsection \<open>Sessions that begin\<close>

lemma parse_sdp_error: "parse_sdp sdp = Inl e \<Longrightarrow> is_value_error e"
proof -
  have line: "scan_line i l st = Inl e \<Longrightarrow> is_value_error e" for i l st
    by (auto simp: scan_line_def scan_audio_def Let_def split: if_splits option.splits)
  have "scan_lines i ls st = Inl e \<Longrightarrow> is_value_error e" for i ls st
    by (induction i ls st rule: scan_lines.induct) (auto simp: bindE_Inl_iff line)
  then show "parse_sdp sdp = Inl e \<Longrightarrow> is_value_error e"
    by (auto simp: parse_sdp_def Let_def bindE_Inl_iff split: if_splits option.splits)
qed

lemma rewrite_sdp_error: "rewrite_sdp sdp ip port = Inl e \<Longrightarrow> is_value_error e"
  by (auto simp: rewrite_sdp_def Let_def split: if_splits option.splits)

lemma value_error_caught: "is_value_error e \<Longrightarrow> offer_catches e"
  by (cases e) auto

text \<open>What opening a leg does: nothing, or one more socket that no leg owns yet.\<close>

lemma open_leg_Inl:
  assumes "open_leg os r sdp = (Inl e, r')"
  shows "offer_catches e" "sessions r' = sessions r" "settings_ok r' = settings_ok r"
    "max_sessions r' = max_sessions r" "pool.owned m r \<Longrightarrow> pool.owned m r'"
proof -
  show "offer_catches e"
    using assms by (auto simp: open_leg_def value_error_caught parse_sdp_error rewrite_sdp_error
      dest: allocate_socket_Inl split: sum.splits prod.splits)
  show "sessions r' = sessions r" "settings_ok r' = settings_ok r" "max_sessions r' = max_sessions r"
    using assms by (auto simp: open_leg_def settings_ok_def dest: allocate_fields
      split: sum.splits prod.splits)
  assume m: "pool.owned m r"
  show "pool.owned m r'"
    using assms m by (auto simp: open_leg_def dest: allocate_socket_Inl pool.owned_acquire_release
      split: sum.splits prod.splits)
qed

lemma open_leg_Inr:
  assumes "open_leg os r sdp = (Inr (description, s, rewritten), r')"
  obtains port where "parse_sdp sdp = Inr description"
    and "allocate_socket os r = (Inr (s, port), r')" and "rewrite_sdp sdp (media_ip r) port = Inr rewritten"
  using assms by (auto simp: open_leg_def dest: allocate_fields split: sum.splits prod.splits)

lemma sessions_ok_update:
  assumes "sessions_ok r" and "call_id s = c" and "map_of (sessions r) c \<noteq> None \<or> length (sessions r) < max_sessions r"
    and "sessions q = AList.update c s (sessions r)" and "max_sessions q = max_sessions r"
  shows "sessions_ok q"
  using assms dict.size_assign_bound [of "sessions r" c "max_sessions r" s] dict.ok_assign [of "sessions r" c s]
  by (auto simp: sessions_ok_def update_conv')

text \<open>Storing a session that owns the legs it had and one new socket.\<close>

lemma relay_ok_opened:
  assumes ok: "relay_ok r" and o: "open_leg os r sdp = (Inr (description, k, rewritten), r')"
    and s: "call_id s = c" "map_of (sessions r) c \<noteq> None \<or> length (sessions r) < max_sessions r"
    and legs: "leg_map (AList.update c s (sessions r)) = (leg_map (sessions r))((c, sd) \<mapsto> k)"
    and free: "leg_map (sessions r) (c, sd) = None"
  shows "relay_ok (r'\<lparr>sessions := AList.update c s (sessions r')\<rparr>)"
proof -
  from o obtain port where a: "allocate_socket os r = (Inr (k, port), r')" by (rule open_leg_Inr)
  note f = allocate_fields [OF a]
  from ok have "pool.owned (leg_map (sessions r)) r" by (simp add: relay_ok_def)
  then have "pool.owned ((leg_map (sessions r))((c, sd) \<mapsto> k)) r'"
    using a free by (rule pool.owned_acquire)
  moreover have "sessions_ok (r'\<lparr>sessions := AList.update c s (sessions r')\<rparr>)"
    by (rule sessions_ok_update [OF _ s]) (use ok f in \<open>auto simp: relay_ok_def\<close>)
  moreover have "settings_ok (r'\<lparr>sessions := AList.update c s (sessions r')\<rparr>)"
    using ok f by (simp add: relay_ok_def settings_ok_def)
  ultimately show ?thesis by (simp add: relay_ok_def legs f)
qed

lemma relay_ok_failed:
  "relay_ok r \<Longrightarrow> open_leg os r sdp = (Inl e, r') \<Longrightarrow> relay_ok r'"
  by (simp add: relay_ok_def sessions_ok_def open_leg_Inl)

text \<open>An offer first clears its call-id.\<close>

definition cleared :: "string \<Rightarrow> MediaRelay \<Rightarrow> MediaRelay" where
  "cleared cid r = (if map_of (sessions r) cid \<noteq> None then snd (delete_session cid r) else r)"

lemmas offer_cleared = offer_def [folded cleared_def, unfolded Let_def]

lemma cleared_facts:
  "map_of (sessions (cleared cid r)) cid = None" "relay_ok r \<Longrightarrow> relay_ok (cleared cid r)"
  "max_sessions (cleared cid r) = max_sessions r" "media_ip (cleared cid r) = media_ip r"
  "sessions (cleared cid r) = AList.delete cid (sessions r)"
  by (auto simp: cleared_def AList.delete_conv' relay_ok_delete)
    (metis AList.delete_id map_of_eq_None_iff)+

lemma relay_ok_offer:
  assumes "relay_ok r"
  shows "relay_ok (snd (offer os now r cid ftag sdp))"
proof -
  define r1 where "r1 = cleared cid r"
  have r1: "relay_ok r1" and n: "map_of (sessions r1) cid = None"
    using assms by (simp_all add: r1_def cleared_facts(1, 2))
  show ?thesis
  proof (cases "length (sessions r1) \<ge> max_sessions r1")
    case True
    then show ?thesis using r1 by (simp add: offer_cleared r1_def [symmetric])
  next
    case False
    show ?thesis
    proof (cases "open_leg os r1 sdp")
      case (Pair res r2)
      show ?thesis
      proof (cases res)
        case (Inl e)
        then show ?thesis using False Pair relay_ok_failed [OF r1, of os sdp e r2]
          by (simp add: offer_cleared r1_def [symmetric])
      next
        case (Inr x)
        obtain d k out where x: "x = (d, k, out)" by (cases x)
        let ?s = "\<lparr>call_id = cid, from_tag = ftag,
          offer_leg = \<lparr>leg_socket = k, advertised = address d, observed = None\<rparr>,
          to_tag = [], answer_leg = None, last_activity = now\<rparr>"
        have "relay_ok (r2\<lparr>sessions := AList.update cid ?s (sessions r2)\<rparr>)"
          by (rule relay_ok_opened [OF r1, where sd = Offer_Side and k = k])
            (use Pair Inr x n False in \<open>auto simp: leg_map_update leg_map_at\<close>)
        then show ?thesis using False Pair Inr x by (simp add: offer_cleared r1_def [symmetric])
      qed
    qed
  qed
qed

lemma relay_ok_answer:
  assumes "relay_ok r"
  shows "relay_ok (snd (answer os now r cid ftag ttag sdp))"
proof (cases "map_of (sessions r) cid")
  case None
  then show ?thesis using assms by (simp add: answer_def)
next
  case (Some s)
  show ?thesis
  proof (cases "from_tag s \<noteq> ftag \<or> answer_leg s \<noteq> None")
    case True
    then show ?thesis using assms Some by (simp add: answer_def)
  next
    case False
    then have a: "answer_leg s = None" by simp
    obtain res r2 where o: "open_leg os r sdp = (res, r2)" by (cases "open_leg os r sdp")
    show ?thesis
    proof (cases res)
      case (Inl e)
      then show ?thesis using False Some o relay_ok_failed [OF assms, of os sdp e r2]
        by (simp add: answer_def)
    next
      case (Inr x)
      obtain d k out where x: "x = (d, k, out)" by (cases x)
      let ?s = "s\<lparr>to_tag := ttag,
        answer_leg := Some \<lparr>leg_socket = k, advertised = address d, observed = None\<rparr>, last_activity := now\<rparr>"
      have c: "call_id s = cid" using assms Some by (auto simp: relay_ok_def sessions_ok_def)
      have "leg_map (AList.update cid ?s (sessions r)) = (leg_map (sessions r))((cid, Answer_Side) \<mapsto> k)"
        using leg_map_offer [OF Some] by (auto simp: leg_map_update)
      then have "relay_ok (r2\<lparr>sessions := AList.update cid ?s (sessions r2)\<rparr>)"
        by (intro relay_ok_opened [OF assms, where sd = Answer_Side and k = k])
          (use o Inr x Some a c in \<open>simp_all add: leg_map_at\<close>)
      then show ?thesis using False Some o Inr x by (simp add: answer_def)
    qed
  qed
qed

lemma relay_ok_command: "relay_ok r \<Longrightarrow> relay_ok (snd (run_command os now r payload))"
  by (auto simp: run_command_def Let_def relay_ok_offer relay_ok_answer relay_ok_delete split: sum.splits)

lemma relay_ok_payload: "relay_ok r \<Longrightarrow> relay_ok (snd (handle_payload os now r payload))"
  using relay_ok_command [of r os now payload] by (auto simp: handle_payload_def split: sum.splits prod.splits)

lemma relay_ok_control: "relay_ok r \<Longrightarrow> relay_ok (snd (handle_control_socket os now r received))"
  by (simp add: handle_control_socket_def prod.case_eq_if relay_ok_payload split: option.splits sum.splits)

subsection \<open>Packets\<close>

lemma find_leg_Some:
  assumes "find_leg k ss = Some (c, s, sd, l)" and "dict_ok ss"
  shows "map_of ss c = Some s" "leg_of sd s = Some l" "leg_socket l = k"
  using assms by (induction ss)
    (auto simp: dict_ok_def split: if_splits option.splits dest!: map_of_SomeD intro: rev_image_eqI)

lemma leg_map_touch:
  assumes "map_of ss c = Some s" and "leg_of sd s = Some l"
  shows "leg_map (AList.update c (map_leg sd (\<lambda>l. l\<lparr>observed := ob\<rparr>) s\<lparr>last_activity := now\<rparr>) ss) = leg_map ss"
proof (rule ext)
  fix x :: "string \<times> side"
  obtain d sd' where x: "x = (d, sd')" by (cases x)
  show "leg_map (AList.update c (map_leg sd (\<lambda>l. l\<lparr>observed := ob\<rparr>) s\<lparr>last_activity := now\<rparr>) ss) x = leg_map ss x"
    using assms by (cases sd; cases sd') (auto simp: x leg_map_update leg_map_at option.map_comp comp_def)
qed

text \<open>A packet changes at most what its session has observed and when.\<close>

lemma relay_packet_state:
  "snd (relay_packet now r cid s sd leg packet source) = r \<or>
   snd (relay_packet now r cid s sd leg packet source) =
     r\<lparr>sessions := AList.update cid ((map_leg sd (\<lambda>l. l\<lparr>observed := Some source\<rparr>) s)\<lparr>last_activity := now\<rparr>) (sessions r)\<rparr>"
  by (auto simp: relay_packet_def Let_def split: option.splits)

lemma relay_ok_packet:
  assumes "relay_ok r" and "find_leg k (sessions r) = Some (cid, s, sd, leg)"
  shows "relay_ok (snd (relay_packet now r cid s sd leg packet source))"
proof -
  have d: "dict_ok (sessions r)" and c: "\<And>s. map_of (sessions r) cid = Some s \<Longrightarrow> call_id s = cid"
    using assms(1) by (auto simp: relay_ok_def sessions_ok_def)
  note f = find_leg_Some [OF assms(2) d]
  let ?s = "(map_leg sd (\<lambda>l. l\<lparr>observed := Some source\<rparr>) s)\<lparr>last_activity := now\<rparr>"
  have cs: "call_id ?s = cid" using c [OF f(1)] by (cases sd) simp_all
  have "sessions_ok (r\<lparr>sessions := AList.update cid ?s (sessions r)\<rparr>)"
    by (rule sessions_ok_update [where r = r and c = cid and s = ?s]) (use cs f(1) assms(1) in \<open>simp_all add: relay_ok_def\<close>)
  then have "relay_ok (r\<lparr>sessions := AList.update cid ?s (sessions r)\<rparr>)"
    using assms(1) by (simp add: relay_ok_def settings_ok_def leg_map_touch [OF f(1, 2)])
  then show ?thesis
    using relay_packet_state [of now r cid s sd leg packet source] assms(1) by auto
qed

lemma relay_ok_media: "relay_ok r \<Longrightarrow> relay_ok (snd (handle_media_socket now r k received))"
  by (auto simp: handle_media_socket_def relay_ok_packet split: option.splits)

subsection \<open>The loop\<close>

lemma relay_ok_event: "relay_ok r \<Longrightarrow> relay_ok (snd (handle_event ev r))"
proof (cases ev)
  case (Control_Ready os now received)
  then show "relay_ok r \<Longrightarrow> ?thesis"
    using relay_ok_control [of r os now received] by (auto split: sum.splits option.splits prod.splits)
next
  case (Media_Ready k now received)
  then show "relay_ok r \<Longrightarrow> ?thesis"
    using relay_ok_media [of r now k received] by (auto split: option.splits prod.splits)
qed

lemma relay_ok_events: "relay_ok r \<Longrightarrow> relay_ok (snd (handle_events evs r))"
proof (induction evs arbitrary: r)
  case (Cons ev evs)
  obtain res r' where e: "handle_event ev r = (res, r')" by (cases "handle_event ev r")
  then have "relay_ok r'" using relay_ok_event [OF Cons.prems, of ev] by simp
  from Cons.IH [OF this] \<open>relay_ok r'\<close> show ?case
    by (simp add: e prod.case_eq_if split: sum.splits)
qed simp

lemma relay_ok_turn: "relay_ok r \<Longrightarrow> relay_ok (snd (serve_turn evs now r))"
  using relay_ok_events [of r evs]
  by (auto simp: serve_turn_def relay_ok_close relay_ok_expire split: sum.splits prod.splits)

inductive relay_step :: "MediaRelay \<Rightarrow> MediaRelay \<Rightarrow> bool" where
  turn: "\<not> stopped r \<Longrightarrow> relay_step r (snd (serve_turn evs now r))"
| closing: "relay_step r (close_relay r)"

inductive relay_reachable :: "MediaRelay \<Rightarrow> bool" where
  start: "new_relay ip lo hi limit timeout allow bounds = Inr r \<Longrightarrow> relay_reachable r"
| step: "relay_reachable r \<Longrightarrow> relay_step r r' \<Longrightarrow> relay_reachable r'"

inductive_cases relay_stepE: "relay_step r r'"

lemma new_relay_Inr:
  assumes "new_relay ip lo hi limit timeout allow bounds = Inr r"
  obtains a where "ip_address_of ip = Some a" "1 \<le> lo" "lo \<le> hi" "hi \<le> 65535" "1 \<le> limit" "limit \<le> 1000000"
    "r = \<lparr>media_ip = ip_str a, media_min = lo, media_max = hi, max_sessions = nat limit,
          session_timeout = timeout,
          control_allow = (if allow = [] then [''127.0.0.1'', ''::1''] else allow),
          sessions = [], sockets = [], registered = [], next_socket = 0, stopped = False\<rparr>"
  using assms by (auto simp: new_relay_def split: if_splits option.splits)

lemma ip_address_of_str: "ip_address_of ip = Some a \<Longrightarrow> ip_address_of (ip_str a) = Some a"
  using parse_ip_str [OF parse_ip_wf, of ip a]
  by (auto simp: ip_address_of_def split: option.splits if_splits)

lemma relay_ok_new:
  assumes "new_relay ip lo hi limit timeout allow bounds = Inr r"
  shows "relay_ok r"
proof -
  from assms obtain a where a: "ip_address_of ip = Some a" "1 \<le> lo" "hi \<le> 65535"
    and r: "r = \<lparr>media_ip = ip_str a, media_min = lo, media_max = hi, max_sessions = nat limit,
          session_timeout = timeout,
          control_allow = (if allow = [] then [''127.0.0.1'', ''::1''] else allow),
          sessions = [], sockets = [], registered = [], next_socket = 0, stopped = False\<rparr>"
    by (rule new_relay_Inr)
  have "leg_map [] = Map.empty" by (auto simp: leg_map_def)
  then show ?thesis
    using a ip_address_of_str [OF a(1)]
    by (auto simp: r relay_ok_def settings_ok_def sessions_ok_def pool.owned_def pool_ok_def held_sockets_def)
qed

lemma relay_ok_step: "relay_step r r' \<Longrightarrow> relay_ok r \<Longrightarrow> relay_ok r'"
  by (erule relay_stepE) (simp_all add: relay_ok_turn relay_ok_close)

lemma reachable_relay_ok: "relay_reachable r \<Longrightarrow> relay_ok r"
  by (induction rule: relay_reachable.induct) (auto intro: relay_ok_new relay_ok_step)

end
