(* ===== verification/Relay_Replies.thy ===== *)
theory Relay_Replies
  imports Relay_Invariant
begin

section \<open>What the relay replies\<close>

text \<open>
  Every control command gets a reply that the decoder reads as a dictionary with a \<open>result\<close>, whatever
  the payload is, so no control datagram ends the loop of \<open>serve\<close>. The second part follows what a
  command does to the sessions, on the success and on the error branches.
\<close>

subsection \<open>The replies decode\<close>

definition error_dict :: "string \<Rightarrow> (bytes \<times> bvalue) list" where
  "error_dict reason = [(bytes_of ''error-reason'', BStr (encode_utf8 (take 128 reason))),
     (bytes_of ''result'', BStr (bytes_of ''error''))]"

definition ok_dict :: "(bytes \<times> bvalue) list" where
  "ok_dict = [(bytes_of ''result'', BStr (bytes_of ''ok''))]"

definition sdp_dict :: "string \<Rightarrow> (bytes \<times> bvalue) list" where
  "sdp_dict sdp = [(bytes_of ''result'', BStr (bytes_of ''ok'')), (bytes_of ''sdp'', BStr (encode_utf8 sdp))]"

lemma length_dec_nat: "n < 10 ^ Suc k \<Longrightarrow> length (dec_nat n) \<le> Suc k"
proof (induction k arbitrary: n)
  case 0
  then show ?case by (subst dec_nat.simps) simp
next
  case (Suc k)
  show ?case
  proof (cases "n < 10")
    case True
    then show ?thesis by (subst dec_nat.simps) simp
  next
    case False
    have "n div 10 < 10 ^ Suc k" using Suc.prems by (simp add: less_mult_imp_div_less mult.commute)
    from Suc.IH [OF this] show ?thesis using False by (subst dec_nat.simps) simp
  qed
qed

lemma length_bencode_bytes: "length bs < 10 ^ Suc k \<Longrightarrow> length (bencode_bytes bs) \<le> length bs + k + 2"
  using length_dec_nat [of "length bs" k] by (simp add: bencode_bytes_def)

lemma keys_sorted:
  "bytes_of ''error-reason'' < bytes_of ''result''" "bytes_of ''result'' < bytes_of ''sdp''"
  by simp_all

lemma keys_not_le:
  "\<not> bytes_of ''result'' \<le> bytes_of ''error-reason''" "bytes_of ''result'' \<le> bytes_of ''sdp''"
  using keys_sorted by (simp_all only: not_le less_imp_le)

lemma ascii_words [simp]:
  "encode_utf8 ''result'' = bytes_of ''result''" "encode_utf8 ''error-reason'' = bytes_of ''error-reason''"
  "encode_utf8 ''sdp'' = bytes_of ''sdp''" "encode_utf8 ''ok'' = bytes_of ''ok''"
  "encode_utf8 ''error'' = bytes_of ''error''"
  by (simp_all add: encode_utf8_ascii del: bytes_of_simps)

lemma bencode_error: "bencode (PyDict [(KeyStr ''result'', PyStr ''error''), (KeyStr ''error-reason'', PyStr (take 128 reason))])
    = Inr (canonical (BDict (error_dict reason)))"
  using keys_not_le(1) by (simp add: error_dict_def sort_key_def del: bytes_of_simps)

lemma bencode_ok: "bencode (PyDict [(KeyStr ''result'', PyStr ''ok'')]) = Inr (canonical (BDict ok_dict))"
  by (simp add: ok_dict_def sort_key_def del: bytes_of_simps)

lemma bencode_sdp: "bencode (PyDict [(KeyStr ''result'', PyStr ''ok''), (KeyStr ''sdp'', PyStr sdp)])
    = Inr (canonical (BDict (sdp_dict sdp)))"
  using keys_not_le(2) by (simp add: sdp_dict_def sort_key_def del: bytes_of_simps)

lemma word_lengths: "length ''result'' = 6" "length ''error-reason'' = 12" "length ''sdp'' = 3"
    "length ''ok'' = 2" "length ''error'' = 5"
  by simp_all

lemma length_error_dict: "length (canonical (BDict (error_dict reason))) \<le> 400"
proof -
  have "length (encode_utf8 (take 128 reason)) \<le> 256"
    using length_encode_utf8 [of "take 128 reason"] by simp
  then show ?thesis
    using length_bencode_bytes [of "encode_utf8 (take 128 reason)" 2]
      length_bencode_bytes [of "bytes_of ''result''" 1] length_bencode_bytes [of "bytes_of ''error-reason''" 1]
      length_bencode_bytes [of "bytes_of ''error''" 1]
    by (simp add: error_dict_def del: bytes_of_simps)
qed

lemma length_ok_dict: "length (canonical (BDict ok_dict)) \<le> 400"
  using length_bencode_bytes [of "bytes_of ''result''" 1] length_bencode_bytes [of "bytes_of ''ok''" 1]
  by (simp add: ok_dict_def del: bytes_of_simps)

lemma decode_reply:
  assumes "wf_bvalue (Suc MAX_BENCODE_DEPTH) (BDict d)" and "length (canonical (BDict d)) \<le> MAX_CONTROL_PACKET"
  shows "bdecode_dict (canonical (BDict d)) = Inr d"
  using assms(2) bdecode_canonical [OF assms(1), of "[]"] by (simp add: bdecode_dict_def)

lemma wf_dicts:
  "length (encode_utf8 sdp) \<le> MAX_CONTROL_PACKET \<Longrightarrow> wf_bvalue (Suc MAX_BENCODE_DEPTH) (BDict (sdp_dict sdp))"
  "wf_bvalue (Suc MAX_BENCODE_DEPTH) (BDict ok_dict)" "wf_bvalue (Suc MAX_BENCODE_DEPTH) (BDict (error_dict reason))"
proof -
  have "2 \<le> MAX_BENCODE_DEPTH" by (simp add: MAX_BENCODE_DEPTH_def)
  then obtain l where d: "MAX_BENCODE_DEPTH = Suc (Suc l)"
    by (metis le_Suc_ex add_2_eq_Suc)
  have "length (encode_utf8 (take 128 reason)) \<le> 256"
    using length_encode_utf8 [of "take 128 reason"] by simp
  then show "wf_bvalue (Suc MAX_BENCODE_DEPTH) (BDict (error_dict reason))"
    using keys_sorted by (simp add: error_dict_def d MAX_CONTROL_PACKET_def del: bytes_of_simps)
  show "length (encode_utf8 sdp) \<le> MAX_CONTROL_PACKET \<Longrightarrow> wf_bvalue (Suc MAX_BENCODE_DEPTH) (BDict (sdp_dict sdp))"
    using keys_sorted by (simp add: sdp_dict_def d MAX_CONTROL_PACKET_def del: bytes_of_simps)
  show "wf_bvalue (Suc MAX_BENCODE_DEPTH) (BDict ok_dict)"
    by (simp add: ok_dict_def d MAX_CONTROL_PACKET_def del: bytes_of_simps)
qed

definition reply_of :: "(bytes \<times> bvalue) list \<Rightarrow> bytes" where
  "reply_of d = canonical (BDict d)"

lemma error_reply_eq: "error_reply reason = Inr (reply_of (error_dict reason))"
  using length_error_dict [of reason]
  by (simp add: error_reply_def bencode_dict_def bencode_error reply_of_def MAX_CONTROL_PACKET_def del: bencode.simps canonical.simps)

lemma ok_reply_eq: "ok_reply = Inr (reply_of ok_dict)"
  using length_ok_dict
  by (simp add: ok_reply_def bencode_dict_def bencode_ok reply_of_def MAX_CONTROL_PACKET_def del: bencode.simps canonical.simps)

lemma sdp_reply_eq: "sdp_reply sdp =
    (if length (reply_of (sdp_dict sdp)) \<le> MAX_CONTROL_PACKET then Inr (reply_of (sdp_dict sdp))
     else Inl (BencodeError ''control response too large''))"
  by (simp add: sdp_reply_def bencode_dict_def bencode_sdp reply_of_def del: bencode.simps canonical.simps)

text \<open>What a control reply is: a bencoded dictionary that says \<open>ok\<close> or \<open>error\<close>.\<close>

definition is_reply :: "bytes \<Rightarrow> bool" where
  "is_reply reply \<longleftrightarrow> length reply \<le> MAX_CONTROL_PACKET
     \<and> (\<exists>d. bdecode_dict reply = Inr d
          \<and> map_of d (bytes_of ''result'') \<in> {Some (BStr (bytes_of ''ok'')), Some (BStr (bytes_of ''error''))})"

lemma length_sdp_reply: "length (encode_utf8 sdp) \<le> length (reply_of (sdp_dict sdp))"
  by (simp add: reply_of_def sdp_dict_def bencode_bytes_def)

lemma decode_sdp_reply:
  "length (reply_of (sdp_dict sdp)) \<le> MAX_CONTROL_PACKET \<Longrightarrow> bdecode_dict (reply_of (sdp_dict sdp)) = Inr (sdp_dict sdp)"
  using length_sdp_reply [of sdp] unfolding reply_of_def by (intro decode_reply wf_dicts) simp_all

lemma is_reply_error: "is_reply (reply_of (error_dict reason))"
  using decode_reply [OF wf_dicts(3), of reason] length_error_dict [of reason]
  by (simp add: is_reply_def reply_of_def MAX_CONTROL_PACKET_def error_dict_def del: canonical.simps bytes_of_simps)

lemma is_reply_ok: "is_reply (reply_of ok_dict)"
  using decode_reply [OF wf_dicts(2)] length_ok_dict
  by (simp add: is_reply_def reply_of_def MAX_CONTROL_PACKET_def ok_dict_def del: canonical.simps bytes_of_simps)

lemma is_reply_sdp: "length (reply_of (sdp_dict sdp)) \<le> MAX_CONTROL_PACKET \<Longrightarrow> is_reply (reply_of (sdp_dict sdp))"
  using decode_sdp_reply [of sdp] by (auto simp: is_reply_def sdp_dict_def simp del: bytes_of_simps)

subsection \<open>Every command gets a reply\<close>

lemma list_loop_error:
  "(\<And>r e. dec r = Inl e \<Longrightarrow> is_value_error e) \<Longrightarrow> list_loop dec n vs rest = Inl e \<Longrightarrow> is_value_error e"
  by (induction n arbitrary: vs rest) (auto simp: bindE_Inl_iff split: if_splits)

lemma dict_loop_error:
  assumes dec: "\<And>r e. dec r = Inl e \<Longrightarrow> is_value_error e"
  shows "dict_loop dec n vs rest = Inl e \<Longrightarrow> is_value_error e"
proof (induction n arbitrary: vs rest)
  case (Suc n)
  show ?case
  proof (cases "rest = [] \<or> hd rest = 101")
    case True
    then show ?thesis using Suc.prems by (auto split: if_splits)
  next
    case False
    show ?thesis
    proof (cases "dec rest")
      case (Inl e')
      then show ?thesis using Suc.prems False dec by auto
    next
      case (Inr kr)
      obtain k r where kr: "kr = (k, r)" by (cases kr)
      show ?thesis using Suc.prems False Inr kr Suc.IH dec
        by (cases k) (auto simp: bindE_Inl_iff split: if_splits)
    qed
  qed
qed auto

lemma decode_int_error: "decode_int rest = Inl e \<Longrightarrow> is_value_error e"
  by (auto simp: decode_int_def Let_def split: if_splits option.splits)

lemma decode_str_error: "decode_str rest = Inl e \<Longrightarrow> is_value_error e"
  by (auto simp: decode_str_def Let_def split: if_splits option.splits)

lemma bdecode_error: "bdecode l data = Inl e \<Longrightarrow> is_value_error e"
proof (induction l arbitrary: data e)
  case 0
  then show ?case by (subst (asm) bdecode.simps) (auto split: if_splits)
next
  case (Suc l)
  have "list_loop (bdecode l) n vs rest = Inl e \<Longrightarrow> is_value_error e"
    "dict_loop (bdecode l) n ds rest = Inl e \<Longrightarrow> is_value_error e" for n vs ds rest
    by (rule list_loop_error dict_loop_error, rule Suc.IH, assumption, assumption)+
  with Suc.prems show ?case
    by (subst (asm) bdecode.simps) (auto dest: decode_int_error decode_str_error split: if_splits)
qed

lemma bdecode_dict_error: "bdecode_dict data = Inl e \<Longrightarrow> is_value_error e"
proof (cases "bdecode (Suc MAX_BENCODE_DEPTH) data")
  case (Inr vr)
  obtain v r where "vr = (v, r)" by (cases vr)
  then show "bdecode_dict data = Inl e \<Longrightarrow> is_value_error e"
    using Inr by (cases v) (auto simp: bdecode_dict_def split: if_splits)
qed (auto simp: bdecode_dict_def bdecode_error split: if_splits)

lemma text_of_error: "text_of v field limit = Inl e \<Longrightarrow> is_value_error e"
  by (auto simp: text_of_def invalid_field_def split: option.splits bvalue.splits if_splits sum.splits)

lemma sdp_text_error: "sdp_text v = Inl e \<Longrightarrow> is_value_error e"
  by (auto simp: sdp_text_def invalid_field_def split: option.splits bvalue.splits if_splits sum.splits)

text \<open>A command either gives a reply or an exception that \<open>handle_payload\<close> turns into one.\<close>

definition replies :: "bytes result \<Rightarrow> bool" where
  "replies res \<longleftrightarrow> (case res of Inl e \<Rightarrow> is_value_error e | Inr reply \<Rightarrow> is_reply reply)"

lemma replies_simps [simp]:
  "replies (error_reply reason)" "replies ok_reply" "replies (sdp_reply sdp)"
  "replies (Inl e) = is_value_error e"
  by (simp_all add: replies_def error_reply_eq ok_reply_eq sdp_reply_eq is_reply_error is_reply_ok is_reply_sdp)

lemma offer_replies: "replies (fst (offer os now r cid ftag sdp))"
  using open_leg_Inl(1) [of os "cleared cid r" sdp]
  by (auto simp: offer_cleared prod.case_eq_if surjective_pairing split: sum.splits) (metis prod.collapse)+

lemma answer_replies: "replies (fst (answer os now r cid ftag ttag sdp))"
  using open_leg_Inl(1) [of os r sdp]
  by (auto simp: answer_def prod.case_eq_if split: option.splits sum.splits) (metis prod.collapse)+

lemma run_command_replies: "replies (fst (run_command os now r payload))"
  by (auto simp: run_command_def Let_def bdecode_dict_error text_of_error sdp_text_error offer_replies
      answer_replies split: sum.splits)

lemma handle_payload_replies: "\<exists>reply. fst (handle_payload os now r payload) = Inr reply \<and> is_reply reply"
  using run_command_replies [of os now r payload]
  by (auto simp: handle_payload_def replies_def error_reply_eq is_reply_error prod.case_eq_if split: sum.splits)

lemma handle_event_total: "\<exists>out. fst (handle_event ev r) = Inr out"
proof (cases ev)
  case (Control_Ready os now received)
  show ?thesis
  proof (cases "fst (handle_control_socket os now r received)")
    case (Inl e)
    then have False
      using handle_payload_replies [of os now r]
      by (auto simp: handle_control_socket_def prod.case_eq_if split: option.splits sum.splits if_splits)
        (metis Inl_Inr_False)
    then show ?thesis ..
  qed (auto simp: Control_Ready prod.case_eq_if split: option.splits)
qed (auto split: option.splits prod.splits)

lemma handle_events_total: "\<exists>out. fst (handle_events evs r) = Inr out"
proof (induction evs arbitrary: r)
  case (Cons ev evs)
  obtain out r' where e: "handle_event ev r = (Inr out, r')"
    using handle_event_total [of ev r] by (cases "handle_event ev r") auto
  obtain out' r'' where "handle_events evs r' = (Inr out', r'')"
    using Cons.IH [of r'] by (cases "handle_events evs r'") auto
  then show ?case by (simp add: e)
qed simp

lemma serve_turn_eq: "serve_turn evs now r = (fst (handle_events evs r), expire_sessions now (snd (handle_events evs r)))"
  using handle_events_total [of evs r] by (auto simp: serve_turn_def prod.case_eq_if)

end
