(* ===== verification/Relay_Flow.thy ===== *)
theory Relay_Flow
  imports Relay_Replies
begin

section \<open>Where media packets go\<close>

text \<open>
  The two searches of the media handler find the leg that owns the socket and its peer, because
  every socket has one owner. \<open>pinned\<close> is the latch: a leg that has observed a source keeps it.
\<close>

fun other :: "side \<Rightarrow> side" where
  "other Offer_Side = Answer_Side"
| "other Answer_Side = Offer_Side"

definition destination :: "Leg \<Rightarrow> endpoint" where
  "destination leg = (case observed leg of Some a \<Rightarrow> a | None \<Rightarrow> advertised leg)"

definition touched :: "side \<Rightarrow> endpoint \<Rightarrow> int \<Rightarrow> Session \<Rightarrow> Session" where
  "touched sd source now s = (map_leg sd (\<lambda>l. l\<lparr>observed := Some source\<rparr>) s)\<lparr>last_activity := now\<rparr>"

lemma relay_ok_parts:
  assumes "relay_ok r"
  shows "dict_ok (sessions r)" "inj_on (leg_map (sessions r)) (dom (leg_map (sessions r)))"
    "ran (leg_map (sessions r)) = held_sockets r" "pool_ok r"
  using assms by (auto simp: relay_ok_def sessions_ok_def pool.owned_def)

lemma leg_map_Some: "map_of ss c = Some s \<Longrightarrow> leg_of sd s = Some l \<Longrightarrow> leg_map ss (c, sd) = Some (leg_socket l)"
  by (simp add: leg_map_def)

lemma find_leg_owner:
  assumes "relay_ok r" and "map_of (sessions r) c = Some s" and "leg_of sd s = Some l"
  shows "find_leg (leg_socket l) (sessions r) = Some (c, s, sd, l)"
proof -
  let ?ss = "sessions r" and ?k = "leg_socket l"
  note ok = relay_ok_parts [OF assms(1)]
  have "find_leg ?k ss = None \<Longrightarrow> (c, s) \<in> set ss \<Longrightarrow> False" for ss
    using assms(3) by (induction ss) (cases sd; force split: if_splits option.splits)+
  with assms(2) have "find_leg ?k ?ss \<noteq> None" using map_of_SomeD by fast
  then obtain c' s' sd' l' where f: "find_leg ?k ?ss = Some (c', s', sd', l')" by (metis option.exhaust prod_cases4)
  note own = find_leg_Some [OF f ok(1)]
  have "leg_map ?ss (c', sd') = leg_map ?ss (c, sd)" "leg_map ?ss (c, sd) = Some ?k"
    using leg_map_Some own assms(2, 3) by auto
  then have "(c', sd') = (c, sd)" by (intro inj_onD [OF ok(2)]) auto
  with own assms(2, 3) f show ?thesis by auto
qed

lemma peer_leg_find:
  "peer_leg k ss = (case find_leg k ss of None \<Rightarrow> None | Some (c, s, sd, l) \<Rightarrow> leg_of (other sd) s)"
proof (induction ss)
  case (Cons cs ss)
  obtain c s where "cs = (c, s)" by (cases cs)
  with Cons show ?case by (cases "answer_leg s") (simp_all add: has_socket_def)
qed simp

lemma touched_legs:
  "leg_of sd s = Some l \<Longrightarrow> leg_of sd (touched sd source now s) = Some (l\<lparr>observed := Some source\<rparr>)"
  "leg_of (other sd) (touched sd source now s) = leg_of (other sd) s"
  by (cases sd; simp add: touched_def)+

lemma relay_ok_touched:
  assumes "relay_ok r" and "map_of (sessions r) c = Some s" and "leg_of sd s = Some l"
  shows "relay_ok (r\<lparr>sessions := AList.update c (touched sd source now s) (sessions r)\<rparr>)"
proof -
  have "call_id (touched sd source now s) = c"
    using assms by (cases sd) (auto simp: touched_def relay_ok_def sessions_ok_def)
  then have "sessions_ok (r\<lparr>sessions := AList.update c (touched sd source now s) (sessions r)\<rparr>)"
    using assms(1, 2)
      sessions_ok_update [of r "touched sd source now s" c "r\<lparr>sessions := AList.update c (touched sd source now s) (sessions r)\<rparr>"]
    by (simp add: relay_ok_def)
  then show ?thesis
    using assms(1) leg_map_touch [OF assms(2, 3), where ob = "Some source" and now = now]
    by (simp add: relay_ok_def settings_ok_def touched_def)
qed

lemma media_packet:
  assumes "relay_ok r" and "map_of (sessions r) c = Some s" and "leg_of sd s = Some leg"
  shows "handle_media_socket now r (leg_socket leg) (Some (datagram, source)) =
    (let packet = take MAX_MEDIA_PACKET datagram
     in if valid_rtp_packet packet \<and> observed leg \<in> {None, Some source}
        then (map_option (\<lambda>peer. (leg_socket peer, destination peer, packet)) (leg_of (other sd) s),
              r\<lparr>sessions := AList.update c (touched sd source now s) (sessions r)\<rparr>)
        else (None, r))"
proof -
  let ?r = "r\<lparr>sessions := AList.update c (touched sd source now s) (sessions r)\<rparr>"
  have "leg_socket leg \<in> ran (leg_map (sessions r))"
    using leg_map_Some [OF assms(2, 3)] by (rule ranI)
  then have held: "leg_socket leg \<in> fst ` set (sockets r)"
    using relay_ok_parts [OF assms(1)] by (simp add: held_sockets_def)
  have "map_of (sessions ?r) c = Some (touched sd source now s)" by (simp add: update_conv')
  from find_leg_owner [OF relay_ok_touched [OF assms] this touched_legs(1) [OF assms(3)]]
  have "peer_leg (leg_socket leg) (sessions ?r) = leg_of (other sd) s"
    by (simp add: peer_leg_find touched_legs(2))
  then show ?thesis
    using held find_leg_owner [OF assms]
    by (auto simp: handle_media_socket_def relay_packet_def touched_def destination_def Let_def
      split: option.splits)
qed

subsection \<open>The latch\<close>

definition pinned :: "sock \<Rightarrow> endpoint \<Rightarrow> MediaRelay \<Rightarrow> bool" where
  "pinned k a r \<longleftrightarrow> k < next_socket r \<and>
     (\<forall>c s sd l. map_of (sessions r) c = Some s \<longrightarrow> leg_of sd s = Some l \<longrightarrow> leg_socket l = k \<longrightarrow> observed l = Some a)"

lemma pinnedD:
  "pinned k a r \<Longrightarrow> map_of (sessions r) c = Some s \<Longrightarrow> leg_of sd s = Some l \<Longrightarrow> leg_socket l = k \<Longrightarrow> observed l = Some a"
  by (auto simp: pinned_def)

lemma next_socket_delete [simp]: "next_socket (snd (delete_session c r)) = next_socket r"
  by (simp add: delete_session_def close_leg_def split: option.splits)

lemma pinned_delete: "pinned k a r \<Longrightarrow> pinned k a (snd (delete_session c r))"
  by (auto simp: pinned_def AList.delete_conv' split: if_splits)

lemma pinned_cleared: "pinned k a r \<Longrightarrow> pinned k a (cleared c r)"
  by (simp add: cleared_def pinned_delete)

lemma allocate_next:
  "allocate_socket os r = (Inr (s, port), r') \<Longrightarrow>
   s = next_socket r \<and> next_socket r' = Suc (next_socket r) \<and> sessions r' = sessions r"
  by (frule allocate_socket_Inr(1), drule allocate_socket_Inr(5)) simp

lemma open_leg_next:
  assumes "open_leg os r sdp = (res, r')"
  shows "next_socket r \<le> next_socket r'" "sessions r' = sessions r"
    "res = Inr (d, k, out) \<Longrightarrow> k = next_socket r \<and> next_socket r' = Suc (next_socket r)"
  using assms
  by (auto simp: open_leg_def dest!: allocate_socket_Inl allocate_next split: sum.splits prod.splits)

lemma pinned_open:
  assumes "pinned k a r" and "open_leg os r sdp = (res, r')"
  shows "pinned k a r'"
  using assms(1) open_leg_next(1, 2) [OF assms(2)] by (auto simp: pinned_def)

lemma pinned_store:
  assumes "pinned k a r" and "\<And>sd l. leg_of sd s = Some l \<Longrightarrow> leg_socket l = k \<Longrightarrow> observed l = Some a"
  shows "pinned k a (r\<lparr>sessions := AList.update c s (sessions r)\<rparr>)"
  using assms by (auto simp: pinned_def update_conv' split: if_splits)

lemma pinned_offer:
  assumes "pinned k a r"
  shows "pinned k a (snd (offer os now r cid ftag sdp))"
proof -
  note p = pinned_cleared [OF assms, of cid]
  obtain res r2 where o: "open_leg os (cleared cid r) sdp = (res, r2)" by (cases "open_leg os (cleared cid r) sdp")
  note p2 = pinned_open [OF p o]
  show ?thesis
  proof (cases res)
    case (Inl e)
    then show ?thesis using p p2 o by (simp add: offer_cleared)
  next
    case (Inr x)
    obtain d j out where x: "x = (d, j, out)" by (cases x)
    have "j \<noteq> k" using open_leg_next(3) [OF o] p Inr x by (auto simp: pinned_def)
    have "pinned k a (r2\<lparr>sessions := AList.update cid \<lparr>call_id = cid, from_tag = ftag,
       offer_leg = \<lparr>leg_socket = j, advertised = address d, observed = None\<rparr>,
       to_tag = [], answer_leg = None, last_activity = now\<rparr> (sessions r2)\<rparr>)"
      by (rule pinned_store [OF p2]) (use \<open>j \<noteq> k\<close> in \<open>case_tac sd; auto\<close>)
    then show ?thesis using p o Inr x by (simp add: offer_cleared)
  qed
qed

lemma pinned_answer:
  assumes "pinned k a r"
  shows "pinned k a (snd (answer os now r cid ftag ttag sdp))"
proof (cases "map_of (sessions r) cid")
  case None
  then show ?thesis using assms by (simp add: answer_def)
next
  case (Some s)
  obtain res r2 where o: "open_leg os r sdp = (res, r2)" by (cases "open_leg os r sdp")
  note p2 = pinned_open [OF assms o]
  show ?thesis
  proof (cases res)
    case (Inl e)
    then show ?thesis using assms p2 o Some by (simp add: answer_def)
  next
    case (Inr x)
    obtain d j out where x: "x = (d, j, out)" by (cases x)
    have "j \<noteq> k" using open_leg_next(3) [OF o] assms Inr x by (auto simp: pinned_def)
    have "pinned k a (r2\<lparr>sessions := AList.update cid (s\<lparr>to_tag := ttag,
       answer_leg := Some \<lparr>leg_socket = j, advertised = address d, observed = None\<rparr>,
       last_activity := now\<rparr>) (sessions r2)\<rparr>)"
      by (rule pinned_store [OF p2])
        (use \<open>j \<noteq> k\<close> pinnedD [OF assms Some, of Offer_Side] in \<open>case_tac sd; auto\<close>)
    then show ?thesis using assms o Inr x Some by (simp add: answer_def)
  qed
qed

lemma pinned_payload: "pinned k a r \<Longrightarrow> pinned k a (snd (handle_payload os now r payload))"
proof -
  assume p: "pinned k a r"
  then have "pinned k a (snd (run_command os now r payload))"
    by (auto simp: run_command_def Let_def pinned_offer pinned_answer pinned_delete split: sum.splits)
  then show ?thesis by (auto simp: handle_payload_def prod.case_eq_if split: sum.splits)
qed

lemma pinned_control: "pinned k a r \<Longrightarrow> pinned k a (snd (handle_control_socket os now r received))"
  by (simp add: handle_control_socket_def prod.case_eq_if pinned_payload split: option.splits sum.splits)

lemma pinned_media:
  assumes "relay_ok r" and "pinned k a r"
  shows "pinned k a (snd (handle_media_socket now r j received))"
proof (cases "snd (handle_media_socket now r j received) = r")
  case False
  then obtain datagram source c s sd l where rec: "received = Some (datagram, source)"
    and f: "find_leg j (sessions r) = Some (c, s, sd, l)"
    by (auto simp: handle_media_socket_def split: option.splits if_splits)
  note own = find_leg_Some [OF f relay_ok_parts(1) [OF assms(1)]]
  from False media_packet [OF assms(1) own(1, 2), of now datagram source] own(3) rec
  have ob: "observed l \<in> {None, Some source}"
    and r': "snd (handle_media_socket now r j received) = r\<lparr>sessions := AList.update c (touched sd source now s) (sessions r)\<rparr>"
    by (auto simp: Let_def split: if_splits)
  have "observed l' = Some a" if "leg_of sd' (touched sd source now s) = Some l'" "leg_socket l' = k" for sd' l'
  proof (cases "sd' = sd")
    case True
    then show ?thesis using that touched_legs(1) [OF own(2)] pinnedD [OF assms(2) own(1, 2)] ob by auto
  next
    case False
    then have "sd' = other sd" by (cases sd; cases sd') simp_all
    then show ?thesis using that touched_legs(2) [of sd] pinnedD [OF assms(2) own(1)] by auto
  qed
  then show ?thesis unfolding r' by (rule pinned_store [OF assms(2)])
qed (simp add: assms(2))

lemma pinned_event: "relay_ok r \<Longrightarrow> pinned k a r \<Longrightarrow> pinned k a (snd (handle_event ev r))"
  using pinned_control [of k a r] pinned_media [of r k a]
  by (cases ev) (simp_all add: prod.case_eq_if split: sum.splits option.splits)

lemma pinned_events: "relay_ok r \<Longrightarrow> pinned k a r \<Longrightarrow> pinned k a (snd (handle_events evs r))"
proof (induction evs arbitrary: r)
  case (Cons ev evs)
  from Cons.IH [OF relay_ok_event [OF Cons.prems(1)] pinned_event [OF Cons.prems]]
    pinned_event [OF Cons.prems]
  show ?case by (simp add: prod.case_eq_if split: sum.splits)
qed simp

text \<open>A leg that has observed a source is pinned to it.\<close>

lemma pinned_start:
  assumes "relay_ok r" and "map_of (sessions r) c = Some s" and "leg_of sd s = Some l" and "observed l = Some a"
  shows "pinned (leg_socket l) a r"
proof -
  note ok = relay_ok_parts [OF assms(1)]
  have "leg_socket l \<in> held_sockets r"
    using leg_map_Some [OF assms(2, 3)] ok(3) by (metis ranI)
  then have "leg_socket l < next_socket r" using ok(4) by (auto simp: pool_ok_def held_sockets_def)
  moreover have "l' = l" if "map_of (sessions r) c' = Some s'" "leg_of sd' s' = Some l'" "leg_socket l' = leg_socket l"
    for c' s' sd' l'
  proof -
    have "Some (c', s', sd', l') = Some (c, s, sd, l)"
      using find_leg_owner [OF assms(1) that(1, 2)] find_leg_owner [OF assms(1-3)] unfolding that(3) by (rule trans [OF sym])
    then show ?thesis by simp
  qed
  ultimately show ?thesis unfolding pinned_def using assms(4) by blast
qed

subsection \<open>Owners, closing and expiry\<close>

lemma socket_owner:
  assumes "relay_ok r"
  shows "k \<in> held_sockets r \<longleftrightarrow> (\<exists>!x. leg_map (sessions r) x = Some k)"
proof -
  note parts = relay_ok_parts [OF assms]
  have "\<exists>!x. leg_map (sessions r) x = Some k" if h: "leg_map (sessions r) y = Some k" for y
  proof (rule ex1I [of _ y])
    fix x
    assume "leg_map (sessions r) x = Some k"
    with h show "x = y" by (intro inj_onD [OF parts(2)]) auto
  qed (rule h)
  then show ?thesis unfolding parts(3) [symmetric] ran_def by blast
qed

lemma leg_map_iff:
  "leg_map ss (c, sd) = Some k \<longleftrightarrow> (\<exists>s l. map_of ss c = Some s \<and> leg_of sd s = Some l \<and> leg_socket l = k)"
  by (auto simp: leg_map_def split: option.splits)

lemma sockets_of_sessions:
  assumes "relay_ok r"
  shows "fst ` set (sockets r) = {k. \<exists>c s sd l. (c, s) \<in> set (sessions r) \<and> leg_of sd s = Some l \<and> leg_socket l = k}"
proof -
  note parts = relay_ok_parts [OF assms]
  have "(c, s) \<in> set (sessions r) \<longleftrightarrow> map_of (sessions r) c = Some s" for c s
    using parts(1) by (simp add: dict_ok_def map_of_eq_Some_iff)
  moreover have "ran (leg_map (sessions r))
      = {k. \<exists>c s sd l. map_of (sessions r) c = Some s \<and> leg_of sd s = Some l \<and> leg_socket l = k}"
    unfolding ran_def split_paired_Ex leg_map_iff by blast
  ultimately show ?thesis using parts(3) by (simp add: held_sockets_def)
qed

lemma no_sessions_no_sockets:
  assumes "relay_ok r" and "sessions r = []"
  shows "sockets r = []"
proof -
  have "leg_map [] = Map.empty" by (auto simp: leg_map_def)
  with relay_ok_parts(3) [OF assms(1)] assms(2) show ?thesis by (simp add: held_sockets_def)
qed

lemma sessions_fold_delete:
  "sessions (fold (\<lambda>c r. snd (delete_session c r)) cs r) = filter (\<lambda>(c, s). c \<notin> set cs) (sessions r)"
proof (induction cs arbitrary: r)
  case (Cons c cs)
  then show ?case by (simp add: AList.delete_eq split_def) (rule filter_cong, auto)
qed (simp add: split_def)

lemma close_relay_empty:
  assumes "relay_ok r"
  shows "sockets (close_relay r) = []"
proof (rule no_sessions_no_sockets [OF relay_ok_close [OF assms]])
  have "filter (\<lambda>(c, s). c \<notin> set (map fst (sessions r))) (sessions r) = []"
    by (auto simp: filter_empty_conv intro: rev_image_eqI)
  then show "sessions (close_relay r) = []"
    by (simp add: close_relay_def sessions_fold_delete)
qed

lemma sessions_expire:
  assumes "distinct (map fst (sessions r))"
  shows "sessions (expire_sessions now r) = filter (\<lambda>(c, s). now - session_timeout r < last_activity s) (sessions r)"
proof -
  have "sessions (fold (expire_one d) es q)
      = filter (\<lambda>(c, s). \<not> (\<exists>s'. (c, s') \<in> set es \<and> last_activity s' \<le> d)) (sessions q)" for d es q
  proof (induction es arbitrary: q)
    case (Cons e es)
    obtain c s where "e = (c, s)" by (cases e)
    then show ?case using Cons
      by (auto simp: expire_one_def AList.delete_eq split_def intro!: filter_cong)
  qed (simp add: split_def)
  then have "sessions (expire_sessions now r)
      = filter (\<lambda>(c, s). \<not> (\<exists>s'. (c, s') \<in> set (sessions r) \<and> last_activity s' \<le> now - session_timeout r)) (sessions r)"
    by (simp add: expire_sessions_def Let_def)
  also have "\<dots> = filter (\<lambda>(c, s). now - session_timeout r < last_activity s) (sessions r)"
    using assms by (intro filter_cong) (auto simp: not_le dest: eq_key_imp_eq_value)
  finally show ?thesis .
qed

subsection \<open>Offers\<close>

lemma offer_cases:
  assumes "offer os now r cid ftag sdp = (res, r')"
  shows "(\<forall>c. c \<noteq> cid \<longrightarrow> map_of (sessions r') c = map_of (sessions r) c)
    \<and> (case map_of (sessions r') cid of
         None \<Rightarrow> \<exists>reason. res = error_reply reason
       | Some s \<Rightarrow> from_tag s = ftag \<and> answer_leg s = None \<and> observed (offer_leg s) = None
           \<and> (\<exists>d out port. parse_sdp sdp = Inr d \<and> advertised (offer_leg s) = address d
                \<and> (leg_socket (offer_leg s), port) \<in> set (sockets r')
                \<and> rewrite_sdp sdp (media_ip r) port = Inr out \<and> res = sdp_reply out))"
proof -
  let ?q = "cleared cid r"
  note q = cleared_facts(1) [of cid r] cleared_facts(4) [of cid r] cleared_facts(5) [of cid r]
  have same: "c \<noteq> cid \<longrightarrow> map_of (sessions ?q) c = map_of (sessions r) c" for c
    by (simp add: q(3) AList.delete_conv')
  show ?thesis
  proof (cases "max_sessions ?q \<le> length (sessions ?q)")
    case True
    then show ?thesis using assms q(1) same by (auto simp: offer_cleared)
  next
    case False
    obtain x r2 where o: "open_leg os ?q sdp = (x, r2)" by (cases "open_leg os ?q sdp")
    note n = open_leg_next(2) [OF o]
    show ?thesis
    proof (cases x)
      case (Inl e)
      then show ?thesis
        using assms False o q(1) same n open_leg_Inl(1) [of os ?q sdp e r2] by (auto simp: offer_cleared)
    next
      case (Inr y)
      obtain d k out where y: "y = (d, k, out)" by (cases y)
      from o Inr y obtain port where p: "parse_sdp sdp = Inr d" "allocate_socket os ?q = (Inr (k, port), r2)"
        "rewrite_sdp sdp (media_ip r) port = Inr out"
        using open_leg_Inr [of os ?q sdp d k out r2] q(2) by auto
      have "(k, port) \<in> set (sockets r2)" using allocate_socket_Inr(5) [OF p(2)] by simp
      then show ?thesis
        using assms False o Inr y q(1) same n p by (auto simp: offer_cleared update_conv') blast
    qed
  qed
qed

lemma scan_finds_connection:
  "scan_lines i lines st = Inr st' \<Longrightarrow> connection st = None \<Longrightarrow> connection st' = Some b \<Longrightarrow>
   \<exists>l \<in> set lines. is_connection_line l \<and> connection_of l = Some b"
proof (induction lines arbitrary: i st)
  case (Cons l lines)
  from Cons.prems(1) obtain st1 where s1: "scan_line i l st = Inr st1" "scan_lines (Suc i) lines st1 = Inr st'"
    by (auto simp: bindE_Inr_iff)
  show ?case
  proof (cases "connection st1")
    case None
    then show ?thesis using Cons.IH [OF s1(2)] Cons.prems(3) by simp
  next
    case (Some c)
    have "connection st' = Some c"
      using scan_found [OF s1(2), of c] Some s1(2) by (auto simp: sdp_scan.equality) (metis sdp_scan.select_convs(1) sdp_scan.surjective sdp_scan.update_convs(1) Inr_inject)
    then have "connection_of l = Some b \<and> is_connection_line l"
      using s1(1) Some Cons.prems by (auto simp: scan_line_def scan_audio_def Let_def split: if_splits option.splits)
    then show ?thesis by simp
  qed
qed simp

lemma hold_line_kept:
  assumes "parse_sdp sdp = Inr d" and "rewrite_sdp sdp ip port = Inr out" and "ip_address_of ip = Some a"
    and "list_all plain_char (ip_str a)"
    and "first_index is_connection_line (split_crlf sdp) = Some ci" and "connection_of (split_crlf sdp ! ci) = None"
  shows "\<exists>line party. line \<in> set (split_crlf out) \<and> is_connection_line line
    \<and> connection_of line = Some party \<and> ip_str party = fst (address d)"
proof -
  from assms(1-4) obtain mi where mi: "first_index is_audio_line (split_crlf sdp) = Some mi"
    and sp: "split_crlf out = (split_crlf sdp)[ci := connection_line a, mi := relay_audio (split_crlf sdp ! mi) port]"
    using assms(5) by (elim rewritten_form) auto
  from assms(1) obtain st b where "scan_lines 0 (split_crlf sdp) \<lparr>connection = None, media_index = None, media_port = 0\<rparr> = Inr st"
    and b: "connection st = Some b" "fst (address d) = ip_str b"
    by (rule parse_sdp_scan) auto
  from scan_finds_connection [OF this(1) _ b(1)] obtain j where j: "j < length (split_crlf sdp)"
    "is_connection_line (split_crlf sdp ! j)" "connection_of (split_crlf sdp ! j) = Some b"
    by (auto simp: in_set_conv_nth)
  have "j \<noteq> ci" using j(3) assms(6) by auto
  moreover have "j \<noteq> mi" using mi not_both [OF j(2)] by (auto simp: first_index_Some)
  ultimately have "split_crlf out ! j = split_crlf sdp ! j" "j < length (split_crlf out)"
    using j(1) by (simp_all add: sp)
  then have "split_crlf sdp ! j \<in> set (split_crlf out)" by (metis nth_mem)
  with j b show ?thesis by auto
qed

end
