(* ===== verification/Relay_Properties.thy ===== *)
theory Relay_Properties
  imports Relay_Flow
begin

section \<open>Properties of the media relay\<close>

text \<open>
  The theorems that make the relay correct, each with a witness on a small relay: \<open>lab_relay\<close> has the
  ports 30000 to 30003, and \<open>lab_offered\<close> has answered one offer.
\<close>

subsection \<open>A sample relay\<close>

definition lab_ip :: ip_address where "lab_ip = V4 1"

definition lab_relay :: MediaRelay where
  "lab_relay = \<lparr>media_ip = ip_str lab_ip, media_min = 30000, media_max = 30003, max_sessions = 2,
     session_timeout = 60, control_allow = [''127.0.0.1'', ''::1''], sessions = [], sockets = [],
     registered = [], next_socket = 0, stopped = False\<rparr>"

definition lab_sdp :: string where
  "lab_sdp = join crlf [''v=0'', ''c=IN IP4 10.0.0.1'', ''m=audio 4000 RTP/AVP 0'']"

definition hold_sdp :: string where
  "hold_sdp = join crlf [''v=0'', ''c=IN IP4 0.0.0.0'', ''m=audio 4000 RTP/AVP 0'', ''c=IN IP4 10.0.0.1'']"

abbreviation lab_os :: os_sockets where "lab_os \<equiv> Inr (\<lambda>_. True)"

definition lab_leg :: Leg where
  "lab_leg = \<lparr>leg_socket = 0, advertised = (ip_str (V4 167772161), 4000), observed = None\<rparr>"

definition lab_session :: Session where
  "lab_session = \<lparr>call_id = ''c1'', from_tag = ''f'', offer_leg = lab_leg, to_tag = [], answer_leg = None, last_activity = 5\<rparr>"

definition lab_offered :: MediaRelay where
  "lab_offered = lab_relay\<lparr>sessions := [(''c1'', lab_session)], sockets := [(0, 30000)], registered := [0], next_socket := 1\<rparr>"

definition lab_packet :: bytes where "lab_packet = 128 # replicate 11 0"

lemma lab_ip_str: "ip_address_of (ip_str lab_ip) = Some lab_ip"
proof -
  have "ip_address_of ''0.0.0.1'' = Some lab_ip"
    by (simp add: ip_address_of_def parse_ip_def parse_ipv4_def octet_of_def is_digit_def digit_val_def lab_ip_def)
  then show ?thesis by (rule ip_address_of_str)
qed

lemma lab_relay_start: "new_relay (ip_str lab_ip) 30000 30003 2 60 [] (1, 86400) = Inr lab_relay"
  by (simp add: new_relay_def lab_ip_str lab_relay_def)

lemma lab_ip_sdp: "ip_address_of ''10.0.0.1'' = Some (V4 167772161)"
  by (simp add: ip_address_of_def parse_ip_def parse_ipv4_def octet_of_def is_digit_def digit_val_def)

lemma hold_ip_sdp: "ip_address_of ''0.0.0.0'' = None"
  by (simp add: ip_address_of_def parse_ip_def parse_ipv4_def octet_of_def is_digit_def digit_val_def)

lemma lab_words: "split_words ''m=audio 4000 RTP/AVP 0'' = [''m=audio'', ''4000'', ''RTP/AVP'', ''0'']"
  using split_words_join [of "[''m=audio'', ''4000'', ''RTP/AVP'', ''0'']"]
  by (simp add: word_ok_def is_space_def)

lemma lab_port: "py_int ''4000'' = Some 4000"
  by (simp add: py_int_def Let_def strip_with_def is_int_space_def is_digit_def digit_val_def MAX_STR_DIGITS_def)

lemma lab_sdp_lines: "split_crlf lab_sdp = [''v=0'', ''c=IN IP4 10.0.0.1'', ''m=audio 4000 RTP/AVP 0'']"
  unfolding lab_sdp_def by (rule split_crlf_join) (simp_all add: no_crlf_plain cr_def)

lemma hold_sdp_lines: "split_crlf hold_sdp
    = [''v=0'', ''c=IN IP4 0.0.0.0'', ''m=audio 4000 RTP/AVP 0'', ''c=IN IP4 10.0.0.1'']"
  unfolding hold_sdp_def by (rule split_crlf_join) (simp_all add: no_crlf_plain cr_def)

lemma lab_lines:
  "is_connection_line ''c=IN IP4 10.0.0.1''" "is_connection_line ''c=IN IP4 0.0.0.0''"
  "\<not> is_connection_line ''v=0''" "\<not> is_connection_line ''m=audio 4000 RTP/AVP 0''"
  "is_audio_line ''m=audio 4000 RTP/AVP 0''" "\<not> is_audio_line ''v=0''"
  "\<not> is_audio_line ''c=IN IP4 10.0.0.1''" "\<not> is_audio_line ''c=IN IP4 0.0.0.0''"
  "connection_of ''c=IN IP4 10.0.0.1'' = Some (V4 167772161)" "connection_of ''c=IN IP4 0.0.0.0'' = None"
  by (simp_all add: is_connection_line_def is_audio_line_def starts_with_def connection_of_def lab_ip_sdp hold_ip_sdp)

lemma parse_lab_sdp: "parse_sdp lab_sdp = Inr \<lparr>address = (ip_str (V4 167772161), 4000), media_line_index = 2\<rparr>"
proof -
  have "parse_sdp (join crlf [''v=0'', ''c=IN IP4 10.0.0.1'', ''m=audio 4000 RTP/AVP 0''])
      = Inr \<lparr>address = (ip_str (V4 167772161), 4000), media_line_index = 2\<rparr>"
    by (subst parse_sdp_of_lines [OF refl])
      (simp_all add: no_crlf_plain cr_def lf_def crlf_def encode_utf8_ascii MAX_SDP_def scan_line_def scan_audio_def lab_lines lab_words lab_port)
  then show ?thesis by (simp only: lab_sdp_def)
qed

lemma parse_hold_sdp: "parse_sdp hold_sdp = Inr \<lparr>address = (ip_str (V4 167772161), 4000), media_line_index = 2\<rparr>"
proof -
  have "parse_sdp (join crlf [''v=0'', ''c=IN IP4 0.0.0.0'', ''m=audio 4000 RTP/AVP 0'', ''c=IN IP4 10.0.0.1''])
      = Inr \<lparr>address = (ip_str (V4 167772161), 4000), media_line_index = 2\<rparr>"
    by (subst parse_sdp_of_lines [OF refl])
      (simp_all add: no_crlf_plain cr_def lf_def crlf_def encode_utf8_ascii MAX_SDP_def scan_line_def scan_audio_def lab_lines lab_words lab_port)
  then show ?thesis by (simp only: hold_sdp_def)
qed

lemma rewrite_succeeds:
  assumes "ip_address_of ip = Some a" and "1 \<le> port" "port \<le> 65535" and "split_crlf sdp = lines"
    and "first_index is_connection_line lines = Some ci" and "first_index is_audio_line lines = Some mi"
    and "4 \<le> length (split_words (lines ! mi))"
  shows "rewrite_sdp sdp ip port = Inr (join crlf (lines[ci := connection_line a, mi := relay_audio (lines ! mi) port]))"
  using assms by (simp add: rewrite_sdp_def relay_audio_def)

definition lab_out :: string where
  "lab_out = join crlf [''v=0'', connection_line lab_ip, relay_audio ''m=audio 4000 RTP/AVP 0'' 30000]"

lemma lab_rewrite: "rewrite_sdp lab_sdp (ip_str lab_ip) 30000 = Inr lab_out"
  using rewrite_succeeds [OF lab_ip_str, of 30000 lab_sdp _ 1 2]
  by (simp add: lab_sdp_lines lab_lines lab_words lab_out_def)

lemma lab_offer: "offer lab_os 5 lab_relay ''c1'' ''f'' lab_sdp = (sdp_reply lab_out, lab_offered)"
proof -
  have a: "allocate_socket lab_os lab_relay
      = (Inr (0, 30000), lab_relay\<lparr>sockets := [(0, 30000)], registered := [0], next_socket := 1\<rparr>)"
    by (simp add: allocate_socket_def lab_relay_def upto.simps)
  have "open_leg lab_os lab_relay lab_sdp
      = (Inr (\<lparr>address = (ip_str (V4 167772161), 4000), media_line_index = 2\<rparr>, 0, lab_out),
         lab_relay\<lparr>sockets := [(0, 30000)], registered := [0], next_socket := 1\<rparr>)"
    using lab_rewrite by (simp add: open_leg_def parse_lab_sdp a) (simp add: lab_relay_def)
  then show ?thesis
    by (simp add: offer_cleared cleared_def) (simp add: lab_relay_def lab_offered_def lab_session_def lab_leg_def)
qed

text \<open>The control datagram that makes this offer: cookie \<open>1\<close>, then the command.\<close>

definition lab_command :: "(bytes \<times> bvalue) list" where
  "lab_command = [(bytes_of ''call-id'', BStr (bytes_of ''c1'')), (bytes_of ''command'', BStr (bytes_of ''offer'')),
     (bytes_of ''from-tag'', BStr (bytes_of ''f'')), (bytes_of ''sdp'', BStr (bytes_of lab_sdp))]"

definition lab_datagram :: bytes where
  "lab_datagram = [49, 32] @ canonical (BDict lab_command)"

lemma length_lab_sdp: "length lab_sdp < 100"
  by (simp add: lab_sdp_def crlf_def)

lemma lab_sdp_ascii: "is_ascii lab_sdp" "list_all sdp_char lab_sdp" "lab_sdp \<noteq> []"
  by (simp_all add: lab_sdp_def crlf_def cr_def lf_def sdp_char_def)

lemma length_lab_command: "length (canonical (BDict lab_command)) \<le> 400"
  using length_bencode_bytes [of "bytes_of lab_sdp" 1] length_bencode_bytes [of "bytes_of ''call-id''" 0]
    length_bencode_bytes [of "bytes_of ''c1''" 0] length_bencode_bytes [of "bytes_of ''command''" 0]
    length_bencode_bytes [of "bytes_of ''offer''" 0] length_bencode_bytes [of "bytes_of ''from-tag''" 0]
    length_bencode_bytes [of "bytes_of ''f''" 0] length_bencode_bytes [of "bytes_of ''sdp''" 0] length_lab_sdp
  by (simp add: lab_command_def del: bytes_of_simps)

lemma decode_lab_command: "bdecode_dict (canonical (BDict lab_command)) = Inr lab_command"
proof (rule decode_reply)
  have "2 \<le> MAX_BENCODE_DEPTH" by (simp add: MAX_BENCODE_DEPTH_def)
  then obtain l where d: "MAX_BENCODE_DEPTH = Suc (Suc l)" by (metis le_Suc_ex add_2_eq_Suc)
  have "bytes_of ''call-id'' < bytes_of ''command''" "bytes_of ''command'' < bytes_of ''from-tag''"
    "bytes_of ''from-tag'' < bytes_of ''sdp''"
    by simp_all
  moreover from calculation have "bytes_of ''call-id'' < bytes_of ''from-tag''" "bytes_of ''call-id'' < bytes_of ''sdp''"
    "bytes_of ''command'' < bytes_of ''sdp''"
    by (meson less_trans)+
  ultimately show "wf_bvalue (Suc MAX_BENCODE_DEPTH) (BDict lab_command)"
    using length_lab_sdp by (simp add: lab_command_def d MAX_CONTROL_PACKET_def del: bytes_of_simps)
  show "length (canonical (BDict lab_command)) \<le> MAX_CONTROL_PACKET"
    using length_lab_command by (simp add: MAX_CONTROL_PACKET_def del: canonical.simps)
qed

lemma text_of_bytes: "w \<noteq> [] \<Longrightarrow> length w \<le> limit \<Longrightarrow> is_ascii w \<Longrightarrow> list_all plain_char w \<Longrightarrow>
    text_of (Some (BStr (bytes_of w))) field limit = Inr w"
  by (simp add: text_of_def decode_bytes_of Suc_le_eq)

lemma relay_lab_fields:
  "map_of lab_command (bytes_of ''command'') = Some (BStr (bytes_of ''offer''))"
  "map_of lab_command (bytes_of ''call-id'') = Some (BStr (bytes_of ''c1''))"
  "map_of lab_command (bytes_of ''from-tag'') = Some (BStr (bytes_of ''f''))"
  "map_of lab_command (bytes_of ''sdp'') = Some (BStr (bytes_of lab_sdp))"
  by (simp_all add: lab_command_def del: bytes_of_simps)

lemma lab_texts:
  "text_of (Some (BStr (bytes_of ''offer''))) ''command'' 32 = Inr ''offer''"
  "text_of (Some (BStr (bytes_of ''c1''))) ''call-id'' MAX_CALL_ID = Inr ''c1''"
  "text_of (Some (BStr (bytes_of ''f''))) ''from-tag'' MAX_TAG = Inr ''f''"
  "sdp_text (Some (BStr (bytes_of lab_sdp))) = Inr lab_sdp"
  using length_lab_sdp lab_sdp_ascii
  by (auto simp: text_of_bytes plain_char_def MAX_CALL_ID_def MAX_TAG_def MAX_SDP_def sdp_text_def decode_bytes_of
      Suc_le_eq simp del: bytes_of_simps)

lemma lab_ip_text: "ip_str lab_ip = ''0.0.0.1''"
  by (simp add: lab_ip_def ipv4_str_def dec_nat.simps digit_char_def char_of_eq_iff take_bit_eq_mod)

lemma length_lab_out: "length lab_out \<le> 100"
proof -
  note lab_ip_text
  moreover have "dec_str 30000 = ''30000''"
    by (simp add: dec_str_def dec_nat.simps digit_char_def char_of_eq_iff take_bit_eq_mod)
  ultimately show ?thesis
    by (simp add: lab_out_def connection_line_def relay_audio_def lab_words crlf_def lab_ip_def)
qed

lemma lab_payload: "handle_payload lab_os 5 lab_relay (canonical (BDict lab_command)) = (sdp_reply lab_out, lab_offered)"
proof -
  have l: "lower ''offer'' = ''offer''" by (simp add: lower_def lower_char_def)
  have r: "run_command lab_os 5 lab_relay (canonical (BDict lab_command)) = (sdp_reply lab_out, lab_offered)"
    unfolding run_command_def decode_lab_command
    by (simp add: relay_lab_fields lab_texts l lab_offer del: bytes_of_simps canonical.simps)
  have "length (reply_of (sdp_dict lab_out)) \<le> MAX_CONTROL_PACKET"
    using length_lab_out length_encode_utf8 [of lab_out] length_bencode_bytes [of "encode_utf8 lab_out" 2]
      length_bencode_bytes [of "bytes_of ''result''" 0] length_bencode_bytes [of "bytes_of ''ok''" 0]
      length_bencode_bytes [of "bytes_of ''sdp''" 0]
    by (simp add: reply_of_def sdp_dict_def MAX_CONTROL_PACKET_def del: bytes_of_simps)
  then have "sdp_reply lab_out = Inr (reply_of (sdp_dict lab_out))" by (simp add: sdp_reply_eq)
  then show ?thesis by (simp add: handle_payload_def r del: canonical.simps)
qed

definition lab_event :: event where
  "lab_event = Control_Ready lab_os 5 (Some (lab_datagram, (''127.0.0.1'', 5000)))"

lemma lab_turn: "snd (serve_turn [lab_event] 5 lab_relay) = lab_offered"
proof -
  have "take MAX_CONTROL_PACKET lab_datagram = lab_datagram"
    using length_lab_command by (simp add: lab_datagram_def MAX_CONTROL_PACKET_def del: canonical.simps)
  moreover have "control_frame lab_datagram = Some ([49], canonical (BDict lab_command))"
    by (simp add: control_frame_def lab_datagram_def Let_def)
  moreover have "''127.0.0.1'' \<in> set (control_allow lab_relay)" by (simp add: lab_relay_def)
  ultimately have "snd (handle_control_socket lab_os 5 lab_relay (Some (lab_datagram, (''127.0.0.1'', 5000)))) = lab_offered"
    by (simp add: handle_control_socket_def lab_payload prod.case_eq_if del: canonical.simps split: sum.splits)
  then have "snd (handle_events [lab_event] lab_relay) = lab_offered"
    by (simp add: lab_event_def prod.case_eq_if split: sum.splits option.splits)
  then show ?thesis
    by (simp add: serve_turn_eq expire_sessions_def expire_one_def lab_offered_def lab_relay_def lab_session_def)
qed

lemma lab_reachable: "relay_reachable lab_offered"
proof -
  have "relay_reachable lab_relay" using lab_relay_start by (rule relay_reachable.start)
  moreover have "relay_step lab_relay lab_offered"
    using relay_step.turn [of lab_relay "[lab_event]" 5] by (simp add: lab_turn) (simp add: lab_relay_def)
  ultimately show ?thesis by (rule relay_reachable.step)
qed

lemma lab_session_facts:
  "map_of (sessions lab_offered) ''c1'' = Some lab_session" "leg_of Offer_Side lab_session = Some lab_leg"
  "leg_socket lab_leg = 0" "observed lab_leg = None"
  by (simp_all add: lab_offered_def lab_session_def lab_leg_def)

subsection \<open>The properties\<close>

text \<open>C15: in every state the relay reaches, whatever control and media datagrams arrive, the sessions
  are within their limit and keyed by call-id; the open sockets are exactly those of the legs, each
  owned by one leg; they are all registered with the selector and have distinct ports of the
  configured range; and closing the relay leaves no socket open.\<close>

theorem relay_sockets_accounted:
  assumes "relay_reachable r"
  shows "distinct (map fst (sessions r)) \<and> length (sessions r) \<le> max_sessions r
    \<and> (\<forall>(c, s) \<in> set (sessions r). call_id s = c)
    \<and> (\<forall>k. k \<in> fst ` set (sockets r) \<longleftrightarrow> (\<exists>!x. leg_map (sessions r) x = Some k))
    \<and> set (registered r) = fst ` set (sockets r) \<and> distinct (map snd (sockets r))
    \<and> (\<forall>(k, port) \<in> set (sockets r). media_min r \<le> port \<and> port \<le> media_max r)
    \<and> sockets (close_relay r) = []"
proof -
  have ok: "relay_ok r" using assms by (rule reachable_relay_ok)
  note parts = relay_ok_parts [OF ok]
  have d: "distinct (map fst (sessions r))" using parts(1) by (simp add: dict_ok_def)
  have keys: "\<forall>(c, s) \<in> set (sessions r). call_id s = c"
    using ok d by (auto simp: relay_ok_def sessions_ok_def)
  have own: "k \<in> fst ` set (sockets r) \<longleftrightarrow> (\<exists>!x. leg_map (sessions r) x = Some k)" for k
    using socket_owner [OF ok] by (simp add: held_sockets_def)
  show ?thesis
    using ok parts(4) d keys own close_relay_empty [OF ok]
    by (auto simp: relay_ok_def sessions_ok_def pool_ok_def held_sockets_def)
qed

theorem relay_sockets_accounted_witness:
  "sockets lab_offered = [(0, 30000)] \<and> (\<exists>!x. leg_map (sessions lab_offered) x = Some 0)
    \<and> sockets (close_relay lab_offered) = []"
proof -
  have "sockets lab_offered = [(0, 30000)]" by (simp add: lab_offered_def)
  with relay_sockets_accounted [OF lab_reachable] show ?thesis by auto
qed

text \<open>C18: every control payload gets a reply of at most 65535 octets that decodes as a dictionary whose
  result is \<open>ok\<close> or \<open>error\<close>, and no sequence of datagrams ends the loop of \<open>serve\<close> with an exception.\<close>

theorem every_command_is_answered:
  "(\<exists>reply d. fst (handle_payload os now r payload) = Inr reply \<and> length reply \<le> MAX_CONTROL_PACKET
      \<and> bdecode_dict reply = Inr d
      \<and> map_of d (bytes_of ''result'') \<in> {Some (BStr (bytes_of ''ok'')), Some (BStr (bytes_of ''error''))})
    \<and> (\<exists>out. fst (serve_turn evs now r) = Inr out)"
proof -
  have "\<exists>out. fst (serve_turn evs now r) = Inr out"
    using handle_events_total [of evs r] by (simp add: serve_turn_eq)
  moreover obtain reply where "fst (handle_payload os now r payload) = Inr reply" "is_reply reply"
    using handle_payload_replies by blast
  ultimately show ?thesis unfolding is_reply_def by blast
qed

text \<open>C16: a media datagram on the socket of a leg is relayed exactly when its first 8192 octets are an
  RTP packet and it comes from the source the leg has latched, or is its first; it then goes, cut to
  those octets, through the socket of the other leg of the same session to what that leg has observed,
  or else what its SDP advertised. Nothing else changes but the source and the activity of the leg's session.\<close>

theorem media_goes_to_the_peer:
  assumes "relay_reachable r" and "map_of (sessions r) c = Some s" and "leg_of sd s = Some leg"
  shows "handle_media_socket now r (leg_socket leg) (Some (datagram, source)) =
    (let packet = take MAX_MEDIA_PACKET datagram
     in if valid_rtp_packet packet \<and> observed leg \<in> {None, Some source}
        then (map_option (\<lambda>peer. (leg_socket peer, destination peer, packet)) (leg_of (other sd) s),
              r\<lparr>sessions := AList.update c (touched sd source now s) (sessions r)\<rparr>)
        else (None, r))"
  using reachable_relay_ok [OF assms(1)] assms(2, 3) by (rule media_packet)

theorem media_goes_to_the_peer_witness:
  "handle_media_socket 9 lab_offered 0 (Some (lab_packet, (''10.0.0.7'', 7))) =
    (None, lab_offered\<lparr>sessions := [(''c1'', touched Offer_Side (''10.0.0.7'', 7) 9 lab_session)]\<rparr>)"
proof -
  have "valid_rtp_packet (take MAX_MEDIA_PACKET lab_packet)"
    by (simp add: valid_rtp_packet_def lab_packet_def MAX_MEDIA_PACKET_def)
  moreover have "leg_of (other Offer_Side) lab_session = None" by (simp add: lab_session_def)
  ultimately show ?thesis
    using media_goes_to_the_peer [OF lab_reachable lab_session_facts(1, 2), of 9 lab_packet "(''10.0.0.7'', 7)"]
    by (simp add: lab_session_facts Let_def) (simp add: lab_offered_def)
qed

text \<open>C17: the latch is for good: once a leg has observed a source, no sequence of control commands and
  media packets, of this or other calls, changes it while the leg exists, and packets from any other
  source are dropped without effect.\<close>

theorem latched_source_is_kept:
  assumes "relay_reachable r" and "map_of (sessions r) c = Some s" and "leg_of sd s = Some leg" and "observed leg = Some a"
    and "handle_events evs r = (res, r')"
    and "map_of (sessions r') c' = Some s'" and "leg_of sd' s' = Some leg'" and "leg_socket leg' = leg_socket leg"
  shows "observed leg' = Some a
    \<and> (source \<noteq> a \<longrightarrow> handle_media_socket now r' (leg_socket leg) (Some (datagram, source)) = (None, r'))"
proof -
  have ok: "relay_ok r" using assms(1) by (rule reachable_relay_ok)
  have r': "r' = snd (handle_events evs r)" using assms(5) by simp
  have "pinned (leg_socket leg) a r'"
    using pinned_events [OF ok pinned_start [OF ok assms(2-4)]] r' by simp
  then have o: "observed leg' = Some a" using assms(6-8) by (rule pinnedD)
  have "relay_ok r'" using relay_ok_events [OF ok] r' by simp
  from media_packet [OF this assms(6, 7), of now datagram source] o assms(8) show ?thesis
    by (simp add: Let_def)
qed

theorem latched_source_is_kept_witness:
  "handle_media_socket 9 (snd (handle_media_socket 9 lab_offered 0 (Some (lab_packet, (''10.0.0.7'', 7))))) 0
      (Some (lab_packet, (''10.0.0.8'', 7)))
    = (None, snd (handle_media_socket 9 lab_offered 0 (Some (lab_packet, (''10.0.0.7'', 7)))))"
proof -
  let ?a = "(''10.0.0.7'', 7)"
  let ?ev = "Media_Ready 0 9 (Some (lab_packet, ?a))"
  let ?r = "lab_offered\<lparr>sessions := [(''c1'', touched Offer_Side ?a 9 lab_session)]\<rparr>"
  have v: "valid_rtp_packet (take MAX_MEDIA_PACKET lab_packet)"
    by (simp add: valid_rtp_packet_def lab_packet_def MAX_MEDIA_PACKET_def)
  have m: "handle_media_socket 9 lab_offered 0 (Some (lab_packet, ?a)) = (None, ?r)"
    using media_packet [OF reachable_relay_ok [OF lab_reachable] lab_session_facts(1, 2), of 9 lab_packet ?a] v
    by (simp add: lab_session_facts Let_def) (simp add: lab_offered_def lab_session_def)
  have e: "handle_events [?ev] lab_offered = (Inr [], ?r)" by (simp add: m)
  have "snd (serve_turn [?ev] 9 lab_offered) = ?r"
    unfolding serve_turn_eq e by (simp add: expire_sessions_def expire_one_def touched_def lab_offered_def lab_relay_def)
  then have "relay_reachable ?r"
    using relay_reachable.step [OF lab_reachable relay_step.turn [of lab_offered "[?ev]" 9]]
    by (simp add: lab_offered_def lab_relay_def)
  from latched_source_is_kept [OF this, of "''c1''" "touched Offer_Side ?a 9 lab_session" Offer_Side "lab_leg\<lparr>observed := Some ?a\<rparr>" ?a "[]"
      "Inr []" ?r "''c1''" "touched Offer_Side ?a 9 lab_session" Offer_Side "lab_leg\<lparr>observed := Some ?a\<rparr>" "(''10.0.0.8'', 7)" 9 lab_packet]
  show ?thesis by (simp add: m touched_def lab_session_def) (simp add: lab_leg_def)
qed

text \<open>C21: expiry removes exactly the sessions without activity for the timeout, in place, and leaves
  open exactly the sockets of the legs of the sessions that stay.\<close>

theorem expiry_is_exact:
  assumes "relay_reachable r"
  shows "sessions (expire_sessions now r) = filter (\<lambda>(c, s). now - session_timeout r < last_activity s) (sessions r)
    \<and> fst ` set (sockets (expire_sessions now r))
      = {k. \<exists>c s sd l. (c, s) \<in> set (sessions r) \<and> now - session_timeout r < last_activity s
              \<and> leg_of sd s = Some l \<and> leg_socket l = k}"
proof -
  have ok: "relay_ok r" using assms by (rule reachable_relay_ok)
  have d: "distinct (map fst (sessions r))" using relay_ok_parts(1) [OF ok] by (simp add: dict_ok_def)
  note e = sessions_expire [OF d, of now]
  have "fst ` set (sockets (expire_sessions now r))
      = {k. \<exists>c s sd l. (c, s) \<in> set (sessions (expire_sessions now r)) \<and> leg_of sd s = Some l \<and> leg_socket l = k}"
    by (rule sockets_of_sessions [OF relay_ok_expire [OF ok]])
  then show ?thesis using e by auto
qed

theorem expiry_is_exact_witness:
  "sessions (expire_sessions 65 lab_offered) = [] \<and> sessions (expire_sessions 64 lab_offered) = [(''c1'', lab_session)]"
  using expiry_is_exact [OF lab_reachable, of 65] expiry_is_exact [OF lab_reachable, of 64]
  by (simp add: lab_offered_def lab_session_def lab_relay_def)





text \<open>When the first connection line is a hold address and a later one names the party, the
  rewriting replaces the hold line only: the party's own address is still in the SDP that the other
  party gets, which bypasses the relay.\<close>

theorem hold_address_bypasses_the_relay:
  assumes "parse_sdp sdp = Inr d" and "rewrite_sdp sdp ip port = Inr out" and "ip_address_of ip = Some a"
    and "list_all plain_char (ip_str a)"
    and "first_index is_connection_line (split_crlf sdp) = Some ci" and "connection_of (split_crlf sdp ! ci) = None"
  shows "\<exists>line party. line \<in> set (split_crlf out) \<and> is_connection_line line
    \<and> connection_of line = Some party \<and> ip_str party = fst (address d)"
  using assms by (rule hold_line_kept)

theorem hold_address_bypasses_the_relay_witness:
  "\<exists>out line party. rewrite_sdp hold_sdp (ip_str lab_ip) 30000 = Inr out \<and> line \<in> set (split_crlf out)
    \<and> connection_of line = Some party \<and> ip_str party = ip_str (V4 167772161)"
proof -
  obtain out where w: "rewrite_sdp hold_sdp (ip_str lab_ip) 30000 = Inr out"
    using rewrite_succeeds [OF lab_ip_str, of 30000 hold_sdp _ 1 2]
    by (simp add: hold_sdp_lines lab_lines lab_words)
  have "list_all plain_char (ip_str lab_ip)" by (simp add: lab_ip_text plain_char_def)
  from hold_address_bypasses_the_relay [OF parse_hold_sdp w lab_ip_str this, of 1]
  obtain line party where "line \<in> set (split_crlf out)" "connection_of line = Some party"
    "ip_str party = ip_str (V4 167772161)"
    by (auto simp: hold_sdp_lines lab_lines simp del: ip_str.simps)
  then show ?thesis using w by blast
qed

text \<open>C22: what the encoder writes for a value within the decoder's limits (integers of at most 4300
  digits, octet strings of at most 65535, lists of 32, dictionaries of 64 entries with sorted keys,
  nesting below the limit) the decoder reads back, and leaves what follows.\<close>

theorem bencode_roundtrip:
  assumes "wf_bvalue levels v"
  shows "\<exists>enc. bencode (to_py v) = Inr enc \<and> (\<forall>rest. bdecode levels (enc @ rest) = Inr (v, rest))"
  using bencode_to_py [OF assms] bdecode_canonical [OF assms] by blast

theorem bencode_roundtrip_witness:
  "\<exists>enc. bencode (to_py (BList [BInt (-7), BStr [1, 2]])) = Inr enc
    \<and> bdecode 2 (enc @ [5]) = Inr (BList [BInt (-7), BStr [1, 2]], [5])"
proof -
  have "(10 :: int) ^ 1 \<le> 10 ^ MAX_STR_DIGITS"
    by (rule power_increasing) (simp_all add: MAX_STR_DIGITS_def)
  then have "wf_bvalue (Suc (Suc 0)) (BList [BInt (-7), BStr [1, 2]])" by (simp add: MAX_CONTROL_PACKET_def)
  from bencode_roundtrip [OF this] obtain enc where "bencode (to_py (BList [BInt (-7), BStr [1, 2]])) = Inr enc"
    "\<forall>rest. bdecode (Suc (Suc 0)) (enc @ rest) = Inr (BList [BInt (-7), BStr [1, 2]], rest)"
    by blast
  then show ?thesis unfolding numeral_2_eq_2 by blast
qed

end
