(* ===== verification/Relay_Main.thy ===== *)
theory Relay_Main
  imports Relay_Replies
begin

section \<open>The relay as a program\<close>

text \<open>
  \<open>serve\<close> as a whole, with its loop and its \<open>finally\<close>, and \<open>main\<close> of \<^verbatim>\<open>media/rtp_module.py\<close>. Argument parsing and the printed
  message are left out.
\<close>

subsection \<open>The loop\<close>

text \<open>
  A turn: \<open>select\<close> raises an \<open>OSError\<close> or a \<open>ValueError\<close> (its selector or a socket is closed), or reports events, which are
  handled, and the clock is read. The list ends where \<open>_stop\<close> is found set.
\<close>

datatype turn = Select_Fails | Ready "event list" int

fun serve_loop :: "turn list \<Rightarrow> MediaRelay \<Rightarrow> sent list \<times> unit result \<times> MediaRelay" where
  "serve_loop [] r = ([], Inr (), r)"
| "serve_loop (Select_Fails # ts) r = ([], Inr (), r)"
| "serve_loop (Ready evs now # ts) r =
     (case serve_turn evs now r of
        (Inl e, r') \<Rightarrow> ([], Inl e, r')
      | (Inr out, r') \<Rightarrow> (case serve_loop ts r' of (outs, res, r'') \<Rightarrow> (out @ outs, res, r'')))"

text \<open>\<open>bound\<close> is the outcome of opening the control socket, which is outside the \<open>try\<close>.\<close>

definition serve :: "unit result \<Rightarrow> turn list \<Rightarrow> MediaRelay \<Rightarrow> sent list \<times> unit result \<times> MediaRelay" where
  "serve bound ts r =
     (case bound of
        Inl e \<Rightarrow> ([], Inl e, r)
      | Inr _ \<Rightarrow> (case serve_loop ts (r\<lparr>stopped := False\<rparr>) of (outs, res, r') \<Rightarrow> (outs, res, close_relay r')))"

record relay_args =
  ip_arg :: string
  min_arg :: int
  max_arg :: int
  sessions_arg :: int
  timeout_arg :: int
  allow_arg :: string

text \<open>
  The exit code; \<open>units\<close> is the range of the timeout in units of the clock. The arguments of the constructor come first. The relay is
  \<open>None\<close> if there is none.
\<close>

definition relay_of :: "int \<times> int \<Rightarrow> relay_args \<Rightarrow> MediaRelay result" where
  "relay_of units a =
     bindE (parse_allowlist (allow_arg a)) (\<lambda>allow.
       new_relay (ip_arg a) (min_arg a) (max_arg a) (sessions_arg a) (timeout_arg a) allow units)"

definition relay_main :: "int \<times> int \<Rightarrow> relay_args \<Rightarrow> unit result \<Rightarrow> turn list \<Rightarrow> sent list \<times> int \<times> MediaRelay option" where
  "relay_main units a bound ts =
     (case relay_of units a of
        Inl e \<Rightarrow> ([], 1, None)
      | Inr r \<Rightarrow>
          (case serve bound ts r of (outs, res, r') \<Rightarrow> (outs, case res of Inl _ \<Rightarrow> 1 | Inr _ \<Rightarrow> 0, Some r')))"

subsection \<open>Closing\<close>

lemma close_relay_sessions: "sessions (close_relay r) = []"
proof -
  have "sessions (fold (\<lambda>c r. snd (delete_session c r)) cs q) = filter (\<lambda>e. fst e \<notin> set cs) (sessions q)" for cs q
    by (induction cs arbitrary: q) (auto simp: AList.delete_eq intro: filter_cong)
  from this [of "map fst (sessions r)" "r\<lparr>stopped := True\<rparr>"] show ?thesis
    by (simp add: close_relay_def)
qed

lemma closing_empties_relay:
  assumes "relay_ok r"
  shows "sessions (close_relay r) = [] \<and> sockets (close_relay r) = [] \<and> registered (close_relay r) = []"
proof -
  have "pool.owned (leg_map []) (close_relay r)"
    using relay_ok_close [OF assms] by (simp add: relay_ok_def close_relay_sessions)
  moreover have "leg_map [] = Map.empty" by (auto simp: leg_map_def)
  ultimately have "held_sockets (close_relay r) = {}" and "set (registered (close_relay r)) = held_sockets (close_relay r)"
    by (auto simp: pool.owned_def pool_ok_def)
  then show ?thesis by (simp add: close_relay_sessions held_sockets_def)
qed

lemma serve_loop_ok:
  "relay_ok r \<Longrightarrow> \<exists>outs r'. serve_loop ts r = (outs, Inr (), r') \<and> relay_ok r'"
proof (induction ts r rule: serve_loop.induct)
  case (3 evs now ts r)
  obtain out where out: "fst (serve_turn evs now r) = Inr out"
    using handle_events_total [of evs r] by (auto simp: serve_turn_eq)
  then obtain r1 where t: "serve_turn evs now r = (Inr out, r1)" by (metis prod.collapse)
  moreover have "relay_ok r1" using relay_ok_turn [OF "3.prems", of evs now] t by simp
  from "3.IH" [OF t [symmetric] refl this] obtain outs r2 where "serve_loop ts r1 = (outs, Inr (), r2)" "relay_ok r2" by blast
  ultimately show ?case by simp
qed auto


end
