(* ===== verification/Maf_Client.thy ===== *)
theory Maf_Client
  imports Py_Url
begin

section \<open>The client of the application fabric: one request\<close>

text \<open>
  \<^verbatim>\<open>sdk/maf/python/madis_maf.py\<close>, lines 12 to 100: \<open>MafError\<close>, \<open>MadisMaf\<close> with \<open>_request\<close>, \<open>_decode\<close>,
  \<open>_key\<close> and \<open>_command\<close>. \<open>prepare\<close> builds the request that is handed to \<open>urlopen\<close>, \<open>finish\<close> turns what
  comes back into a value or an exception, and \<open>perform\<close> is both.

  Parameters: \<open>urlopen\<close> gives the outcome of a request; \<open>loads\<close> is \<open>json.loads\<close> of the decoded
  octets, \<open>text\<close> is \<open>decode("utf-8", errors="replace")\<close>; \<open>fresh\<close> is the value of \<open>uuid4().hex\<close>. The time limit is
  handed to \<open>urlopen\<close> unchanged and left out.
\<close>

definition MAF_VERSION :: string where "MAF_VERSION = ''0.7.0''"

datatype maf_exn = MafError int json | Other exn

type_synonym 'a maf_result = "maf_exn + 'a"

record MadisMaf =
  base_url :: string
  token :: string

text \<open>\<open>rstrip("/")\<close>\<close>

definition rstrip_slash :: "string \<Rightarrow> string" where
  "rstrip_slash s = rev (dropWhile (\<lambda>c. c = CHR ''/'') (rev s))"

definition new_maf :: "string \<Rightarrow> string \<Rightarrow> MadisMaf result" where
  "new_maf url tok =
     (if \<not> starts_with ''http://'' url \<and> \<not> starts_with ''https://'' url
      then Inl (ValueError ''base_url must use HTTP or HTTPS'')
      else if length tok < 16 \<or> length tok > 512 then Inl (ValueError ''MAF token must be 16..512 characters'')
      else Inr \<lparr>base_url = rstrip_slash url, token = tok\<rparr>)"

subsection \<open>Bodies\<close>

text \<open>\<open>json.dumps(v, separators=(",", ":"), ensure_ascii=False)\<close>: only the mandatory escapes.\<close>

definition json_raw_char :: "char \<Rightarrow> string" where
  "json_raw_char c = (if chr_code c < 127 then json_char c else [c])"

definition json_raw_string :: "string \<Rightarrow> string" where
  "json_raw_string s = [CHR 0x22] @ concat (map json_raw_char s) @ [CHR 0x22]"

fun json_raw :: "json \<Rightarrow> string" where
  "json_raw JNull = ''null''"
| "json_raw (JBool b) = (if b then ''true'' else ''false'')"
| "json_raw (JInt n) = dec_str n"
| "json_raw (JFloat t) = t"
| "json_raw (JStr s) = json_raw_string s"
| "json_raw (JList vs) = ''['' @ join '','' (map json_raw vs) @ '']''"
| "json_raw (JObj kvs) =
     ''{'' @ join '','' (map (\<lambda>kv. json_raw_string (fst kv) @ '':'' @ json_raw (snd kv)) kvs) @ ''}''"

text \<open>\<open>json.dumps(v)\<close>, with the default separators.\<close>

fun json_spaced :: "json \<Rightarrow> string" where
  "json_spaced (JList vs) = ''['' @ join '', '' (map json_spaced vs) @ '']''"
| "json_spaced (JObj kvs) =
     ''{'' @ join '', '' (map (\<lambda>kv. json_string (fst kv) @ '': '' @ json_spaced (snd kv)) kvs) @ ''}''"
| "json_spaced v = json_dumps v"

subsection \<open>Requests\<close>

record http_call =
  call_method :: string
  call_url :: string
  call_headers :: "(string \<times> string) list"
  call_data :: "bytes option"

text \<open>What a method of the client asks for: the arguments it gives to \<open>_request\<close>.\<close>

record api_call =
  verb :: string
  api_path :: string
  body :: "json option"
  query :: json_dict
  idempotency_key :: "string option"

definition MAX_BODY :: nat where "MAX_BODY = 65536"

definition prepare :: "MadisMaf \<Rightarrow> api_call \<Rightarrow> http_call result" where
  "prepare maf call =
     (let url_path = api_path call @ (if query call = [] then [] else ''?'' @ urlencode (query call));
          payload = map_option (\<lambda>b. encode_utf8 (json_raw b)) (body call)
      in case payload of
           Some p \<Rightarrow>
             if length p > MAX_BODY then Inl (ValueError ''MAF request body exceeds 64 KiB'')
             else Inr \<lparr>call_method = verb call, call_url = base_url maf @ url_path,
               call_headers = [(''Authorization'', ''Bearer '' @ token maf), (''Accept'', ''application/json''),
                 (''X-MAF-Version'', MAF_VERSION), (''Content-Type'', ''application/json'')]
                 @ (case idempotency_key call of None \<Rightarrow> [] | Some k \<Rightarrow> [(''Idempotency-Key'', k)]),
               call_data = Some p\<rparr>
         | None \<Rightarrow>
             Inr \<lparr>call_method = verb call, call_url = base_url maf @ url_path,
               call_headers = [(''Authorization'', ''Bearer '' @ token maf), (''Accept'', ''application/json''),
                 (''X-MAF-Version'', MAF_VERSION)]
                 @ (case idempotency_key call of None \<Rightarrow> [] | Some k \<Rightarrow> [(''Idempotency-Key'', k)]),
               call_data = None\<rparr>)"

text \<open>
  What \<open>urlopen\<close> does: a response with its status and octets, an \<open>HTTPError\<close> with its own, a
  \<open>URLError\<close> with the text of its reason, or another exception.
\<close>

datatype outcome = Response int bytes | HTTPError int bytes | URLError string | Failure exn

definition decode_body :: "(bytes \<Rightarrow> json result) \<Rightarrow> (bytes \<Rightarrow> string) \<Rightarrow> bytes \<Rightarrow> json result" where
  "decode_body loads text raw =
     (if raw = [] then Inr JNull
      else case loads raw of
        Inr v \<Rightarrow> Inr v
      | Inl e \<Rightarrow> if e = JSONDecodeError then Inr (JStr (text raw)) else Inl e)"

definition lift_exn :: "'a result \<Rightarrow> 'a maf_result" where
  "lift_exn r = (case r of Inl e \<Rightarrow> Inl (Other e) | Inr x \<Rightarrow> Inr x)"

definition finish :: "(bytes \<Rightarrow> json result) \<Rightarrow> (bytes \<Rightarrow> string) \<Rightarrow> outcome \<Rightarrow> json maf_result" where
  "finish loads text out =
     (case out of
        Failure e \<Rightarrow> Inl (Other e)
      | URLError reason \<Rightarrow> Inl (MafError 0 (JStr reason))
      | HTTPError code raw \<Rightarrow> bindE (lift_exn (decode_body loads text raw)) (\<lambda>v. Inl (MafError code v))
      | Response status raw \<Rightarrow>
          bindE (lift_exn (decode_body loads text raw)) (\<lambda>decoded.
            if status < 200 \<or> status \<ge> 300 then Inl (MafError status decoded) else Inr decoded))"

definition perform ::
  "(bytes \<Rightarrow> json result) \<Rightarrow> (bytes \<Rightarrow> string) \<Rightarrow> (http_call \<Rightarrow> outcome) \<Rightarrow> MadisMaf \<Rightarrow> api_call \<Rightarrow> json maf_result" where
  "perform loads text urlopen maf call =
     bindE (lift_exn (prepare maf call)) (\<lambda>request. finish loads text (urlopen request))"

subsection \<open>Commands\<close>

definition api_request :: "string \<Rightarrow> string \<Rightarrow> json option \<Rightarrow> json_dict \<Rightarrow> string option \<Rightarrow> api_call" where
  "api_request m p b q k = \<lparr>verb = m, api_path = p, body = b, query = q, idempotency_key = k\<rparr>"

definition command_key :: "string \<Rightarrow> string option \<Rightarrow> string" where
  "command_key fresh value = (case value of Some k \<Rightarrow> if k = [] then fresh else k | None \<Rightarrow> fresh)"

text \<open>\<open>body.setdefault("command_id", key)\<close> on a copy.\<close>

definition set_default :: "json_dict \<Rightarrow> string \<Rightarrow> json \<Rightarrow> json_dict" where
  "set_default d k v = (if map_of d k = None then d @ [(k, v)] else d)"

definition command :: "string \<Rightarrow> string \<Rightarrow> string \<Rightarrow> json_dict \<Rightarrow> string option \<Rightarrow> api_call" where
  "command fresh m p b value =
     (let key = command_key fresh value
      in api_request m p (Some (JObj (set_default b ''command_id'' (JStr key)))) [] (Some key))"

text \<open>An optional argument adds its field only when it is given.\<close>

definition opt :: "string \<Rightarrow> string option \<Rightarrow> json_dict" where
  "opt k v = (case v of None \<Rightarrow> [] | Some s \<Rightarrow> [(k, JStr s)])"

definition opt_json :: "string \<Rightarrow> json option \<Rightarrow> json_dict" where
  "opt_json k v = (case v of None \<Rightarrow> [] | Some x \<Rightarrow> [(k, x)])"

lemma map_of_opt: "map_of (opt k v @ d) x = (if x = k then (case v of None \<Rightarrow> map_of d x | Some s \<Rightarrow> Some (JStr s)) else map_of d x)"
  by (simp add: opt_def split: option.splits)

end
