(* ===== verification/Maf_Api.thy ===== *)
theory Maf_Api
  imports Maf_Client
begin

section \<open>The operations of the application fabric client\<close>

text \<open>
  \<^verbatim>\<open>sdk/maf/python/madis_maf.py\<close>, lines 102 to 613: one definition per method of \<open>MadisMaf\<close>, giving the
  request it makes. Arguments come in the order of the code, defaults are not filled in; \<open>fresh\<close> is the
  identifier that is drawn when no idempotency key is given. Integers are written in decimal, as
  an f-string writes them. A keyword argument cannot repeat a named one, so \<open>kwargs\<close> are appended.
  Of the two equal definitions of \<open>delete_did\<close> and \<open>delete_gateway\<close> the later one is in force.
\<close>

definition call_path :: "string \<Rightarrow> string \<Rightarrow> string" where
  "call_path call_id action = ''/api/v1/maf/calls/'' @ quote call_id @ action"

text \<open>\<open>min(max(limit, 1), bound)\<close>\<close>

definition clamp :: "int \<Rightarrow> int \<Rightarrow> int" where
  "clamp limit bound = min (max limit 1) bound"

definition opt_int :: "string \<Rightarrow> int option \<Rightarrow> json_dict" where
  "opt_int k v = (case v of None \<Rightarrow> [] | Some n \<Rightarrow> [(k, JInt n)])"

definition str_list :: "string list \<Rightarrow> json" where
  "str_list xs = JList (map JStr xs)"

definition maf_path :: "string \<Rightarrow> string" where
  "maf_path p = ''/api/v1/maf'' @ p"

definition get :: "string \<Rightarrow> api_call" where
  "get p = api_request ''GET'' (maf_path p) None [] None"

definition get_query :: "string \<Rightarrow> json_dict \<Rightarrow> api_call" where
  "get_query p q = api_request ''GET'' (maf_path p) None q None"

definition post :: "string \<Rightarrow> json_dict \<Rightarrow> api_call" where
  "post p b = api_request ''POST'' (maf_path p) (Some (JObj b)) [] None"

definition delete :: "string \<Rightarrow> api_call" where
  "delete p = api_request ''DELETE'' (maf_path p) None [] None"

definition delete_id :: "string \<Rightarrow> int \<Rightarrow> api_call" where
  "delete_id p n = delete (p @ dec_str n)"

subsection \<open>Calls\<close>

definition create_call where
  "create_call fresh from_uri to_uri application_data key caller_uri caller_id caller_name p_asserted_identity privacy =
     command fresh ''POST'' ''/api/v1/maf/calls''
       ([(''from'', JStr from_uri), (''to'', JStr to_uri)] @ opt_json ''application_data'' application_data
        @ opt ''caller_uri'' caller_uri @ opt ''caller_id'' caller_id @ opt ''caller_name'' caller_name
        @ opt ''p_asserted_identity'' p_asserted_identity @ opt ''privacy'' privacy) key"

definition get_call where
  "get_call call_id =
     api_request ''GET'' (call_path call_id []) None [] None"

definition answer_call where
  "answer_call fresh call_id answer_sdp key =
     command fresh ''POST'' (call_path call_id ''/answer'') [(''answer_sdp'', JStr answer_sdp)] key"

definition reject_call where
  "reject_call fresh call_id sip_code reason key =
     command fresh ''POST'' (call_path call_id ''/reject'') (opt_int ''sip_code'' sip_code @ opt ''reason'' reason) key"

definition hangup_call where
  "hangup_call fresh call_id reason key =
     command fresh ''POST'' (call_path call_id ''/hangup'') (opt ''reason'' reason) key"

definition bridge_call where
  "bridge_call fresh call_id channel_ids key =
     command fresh ''POST'' (call_path call_id ''/bridges'') [(''channel_ids'', str_list channel_ids)] key"

definition media where
  "media fresh call_id operation resource key =
     command fresh ''POST'' (call_path call_id ''/media'') ([(''operation'', JStr operation)] @ opt ''resource'' resource) key"

definition set_headers where
  "set_headers fresh call_id hdrs key =
     command fresh ''POST'' (call_path call_id ''/headers'') [(''headers'', JList hdrs)] key"

definition transfer_call where
  "transfer_call fresh call_id target transfer_type other_call_id key =
     command fresh ''POST'' (call_path call_id ''/transfer'')
       ([(''target'', JStr target), (''type'', JStr transfer_type)] @ opt ''other_call_id'' other_call_id) key"

definition hold_call where
  "hold_call fresh call_id key =
     command fresh ''POST'' (call_path call_id ''/hold'') [] key"

definition unhold_call where
  "unhold_call fresh call_id key =
     command fresh ''POST'' (call_path call_id ''/unhold'') [] key"

definition send_dtmf where
  "send_dtmf fresh call_id digit duration key =
     command fresh ''POST'' (call_path call_id ''/dtmf'') [(''digit'', JStr digit), (''duration'', JInt duration)] key"

definition identity where
  "identity fresh call_id action ident attest key =
     command fresh ''POST'' (call_path call_id ''/identity'')
       ([(''action'', JStr action)] @ opt ''identity'' ident @ opt ''attest'' attest) key"

definition rtp_control where
  "rtp_control fresh call_id action sdp from_tag to_tag flags key =
     command fresh ''POST'' (call_path call_id ''/rtp'')
       ([(''action'', JStr action)] @ opt ''sdp'' sdp @ opt ''from_tag'' from_tag @ opt ''to_tag'' to_tag @ opt ''flags'' flags) key"

definition route_call where
  "route_call fresh call_id target transport key mode caller_uri caller_id caller_name p_asserted_identity privacy =
     command fresh ''POST'' (call_path call_id ''/route'')
       ([(''target'', JStr target)] @ opt ''transport'' transport @ opt ''mode'' mode @ opt ''caller_uri'' caller_uri
        @ opt ''caller_id'' caller_id @ opt ''caller_name'' caller_name
        @ opt ''p_asserted_identity'' p_asserted_identity @ opt ''privacy'' privacy) key"

subsection \<open>Events, registrations and records\<close>

definition publish_event where
  "publish_event event_type call_id payload =
     post ''/events''
       ([(''event_type'', JStr event_type)] @ (if call_id = [] then [] else [(''call_id'', JStr call_id)])
        @ (case payload of JNull \<Rightarrow> [] | JStr s \<Rightarrow> [(''payload'', JStr s)] | v \<Rightarrow> [(''payload'', JStr (json_spaced v))]))"

definition registrations where
  "registrations aor limit =
     get_query ''/registrations'' ([(''limit'', JInt (clamp limit 100))] @ opt ''aor'' aor)"

definition cdr where
  "cdr call_id limit =
     get_query ''/cdr'' ([(''limit'', JInt (clamp limit 100))] @ opt ''call_id'' call_id)"

subsection \<open>Security and presence\<close>

definition bans where
  "bans =
     get ''/security/bans''"

definition ban_ip where
  "ban_ip source_ip reason permanent duration_min =
     post ''/security/bans''
       [(''source_ip'', JStr source_ip), (''reason'', JStr reason),
        (''permanent'', JStr (if permanent then ''true'' else ''false'')), (''duration_min'', JInt duration_min)]"

definition unban_ip where
  "unban_ip source_ip =
     delete (''/security/bans/'' @ quote source_ip)"

definition sip_inspect where
  "sip_inspect call_id =
     api_request ''GET'' (call_path call_id ''/sip'') None [] None"

definition presence where
  "presence aor limit =
     get_query ''/presence'' ([(''limit'', JInt (clamp limit 500))] @ opt ''aor'' aor)"

definition presence_user where
  "presence_user aor =
     get (''/presence/'' @ quote aor)"

subsection \<open>Routing and configuration\<close>

definition routing_rules where
  "routing_rules =
     get ''/routing/rules''"

definition create_routing_rule where
  "create_routing_rule action match_prefix priority kwargs =
     post ''/routing/rules''
       ([(''action'', JStr action), (''match_prefix'', JStr match_prefix), (''priority'', JInt priority)] @ kwargs)"

definition delete_routing_rule where
  "delete_routing_rule rule_id =
     delete_id ''/routing/rules/'' rule_id"

definition gateways where
  "gateways =
     get ''/gateways''"

definition create_gateway where
  "create_gateway name address port transport =
     post ''/gateways''
       [(''name'', JStr name), (''address'', JStr address), (''port'', JInt port), (''transport'', JStr transport)]"

definition dids where
  "dids =
     get ''/dids''"

definition create_did where
  "create_did number destination_user description =
     post ''/dids''
       [(''number'', JStr number), (''destination_user'', JStr destination_user), (''description'', JStr description)]"

definition dispatch_sets where
  "dispatch_sets =
     get ''/dispatch-sets''"

definition create_dispatch_set where
  "create_dispatch_set name algorithm =
     post ''/dispatch-sets'' [(''name'', JStr name), (''algorithm'', JStr algorithm)]"

definition cluster where
  "cluster =
     get ''/cluster''"

definition config where
  "config =
     get ''/config''"

definition set_config where
  "set_config key value description =
     post ''/config'' [(''key'', JStr key), (''value'', JStr value), (''description'', JStr description)]"

definition charge_authorize where
  "charge_authorize call_id =
     api_request ''POST'' (call_path call_id ''/charge'') None [] None"

definition charge_deny where
  "charge_deny call_id =
     api_request ''POST'' (call_path call_id ''/charge-deny'') None [] None"

definition delete_did where
  "delete_did did_id =
     delete_id ''/dids/'' did_id"

definition delete_gateway where
  "delete_gateway gateway_id =
     delete_id ''/gateways/'' gateway_id"

definition dialplans where
  "dialplans =
     get ''/dialplans''"

definition create_dialplan where
  "create_dialplan kwargs =
     post ''/dialplans'' kwargs"

definition delete_dialplan where
  "delete_dialplan dialplan_id =
     delete_id ''/dialplans/'' dialplan_id"

definition ip_auth where
  "ip_auth =
     get ''/ip-auth''"

definition create_ip_auth where
  "create_ip_auth ip description =
     post ''/ip-auth'' [(''ip'', JStr ip), (''description'', JStr description)]"

definition delete_ip_auth where
  "delete_ip_auth ip_auth_id =
     delete_id ''/ip-auth/'' ip_auth_id"

definition access_control where
  "access_control =
     get ''/access-control''"

definition create_access_control where
  "create_access_control rule source description =
     post ''/access-control''
       [(''rule'', JStr rule), (''source'', JStr source), (''description'', JStr description)]"

definition header_rules where
  "header_rules =
     get ''/header-rules''"

definition create_header_rule where
  "create_header_rule action name kwargs =
     post ''/header-rules'' ([(''action'', JStr action), (''name'', JStr name)] @ kwargs)"

subsection \<open>Billing, capacity and users\<close>

definition billing_events where
  "billing_events =
     get ''/billing/events''"

definition billing_ack where
  "billing_ack event_ids =
     post ''/billing/events/ack'' [(''event_ids'', str_list event_ids)]"

definition security_events where
  "security_events =
     get ''/security/events''"

definition ani_groups where
  "ani_groups =
     get ''/ani-groups''"

definition create_ani_group where
  "create_ani_group name numbers =
     post ''/ani-groups'' [(''name'', JStr name), (''numbers'', str_list numbers)]"

definition active_calls where
  "active_calls =
     get ''/calls/active''"

definition capacity_policies where
  "capacity_policies =
     get ''/capacity/policies''"

definition upsert_capacity_policy where
  "upsert_capacity_policy name selector_type selector_value max_active_calls max_cps reject_sip_code enabled =
     post ''/capacity/policies''
       [(''name'', JStr name), (''selector_type'', JStr selector_type), (''selector_value'', JStr selector_value),
        (''max_active_calls'', JInt max_active_calls), (''max_cps'', JInt max_cps),
        (''reject_sip_code'', JInt reject_sip_code), (''enabled'', JBool enabled)]"

definition create_dispatch_member where
  "create_dispatch_member dispatch_set_id gateway_id weight priority =
     post ''/dispatch-members''
       [(''dispatch_set_id'', JInt dispatch_set_id), (''gateway_id'', JInt gateway_id),
        (''weight'', JInt weight), (''priority'', JInt priority)]"

definition delete_access_control where
  "delete_access_control acl_id =
     delete_id ''/access-control/'' acl_id"

definition delete_header_rule where
  "delete_header_rule rule_id =
     delete_id ''/header-rules/'' rule_id"

definition delete_ani_group where
  "delete_ani_group group_id =
     delete_id ''/ani-groups/'' group_id"

definition delete_dispatch_member where
  "delete_dispatch_member member_id =
     delete_id ''/dispatch-members/'' member_id"

definition users where
  "users =
     get ''/users''"

definition create_user where
  "create_user username password =
     post ''/users'' [(''username'', JStr username), (''password'', JStr password)]"

definition delete_user where
  "delete_user user_id =
     delete_id ''/users/'' user_id"

definition set_log_level where
  "set_log_level level =
     post ''/log-level'' [(''level'', JStr level)]"

definition delete_dispatch_set where
  "delete_dispatch_set set_id =
     delete_id ''/dispatch-sets/'' set_id"

definition delete_config where
  "delete_config key =
     delete (''/config/'' @ quote key)"

definition health where
  "health =
     get ''/health''"

definition reload where
  "reload =
     api_request ''POST'' ''/api/v1/maf/reload'' None [] None"

subsection \<open>Webhooks, tags, numbers and flows\<close>

definition webhooks where
  "webhooks =
     get ''/webhooks''"

definition create_webhook where
  "create_webhook url events secret =
     post ''/webhooks''
       ([(''url'', JStr url)] @ (case events of None \<Rightarrow> [] | Some es \<Rightarrow> [(''events'', str_list es)])
        @ (if secret = [] then [] else [(''secret'', JStr secret)]))"

definition delete_webhook where
  "delete_webhook webhook_id =
     delete_id ''/webhooks/'' webhook_id"

definition tag_call where
  "tag_call call_id tags =
     api_request ''POST'' (call_path call_id ''/tags'') (Some (JObj [(''tags'', JObj tags)])) [] None"

definition number_lookup where
  "number_lookup number =
     get (''/number/'' @ quote number)"

definition upsert_number where
  "upsert_number number carrier number_type country spam_score =
     post ''/number''
       [(''number'', JStr number), (''carrier'', JStr carrier), (''type'', JStr number_type),
        (''country'', JStr country), (''spam_score'', JInt spam_score)]"

definition set_call_flow where
  "set_call_flow fresh call_id steps key =
     command fresh ''POST'' (call_path call_id ''/flow'') [(''steps'', JList steps)] key"

subsection \<open>Scheduled calls, queues and conferences\<close>

definition scheduled_calls where
  "scheduled_calls =
     get ''/scheduled-calls''"

definition schedule_call where
  "schedule_call from_uri to_uri scheduled_at application_data =
     post ''/scheduled-calls''
       ([(''from'', JStr from_uri), (''to'', JStr to_uri), (''scheduled_at'', JStr scheduled_at)]
        @ opt_json ''application_data'' application_data)"

definition cancel_scheduled_call where
  "cancel_scheduled_call schedule_id =
     delete_id ''/scheduled-calls/'' schedule_id"

definition queues where
  "queues =
     get ''/queues''"

definition create_queue where
  "create_queue name strategy max_wait_sec =
     post ''/queues''
       [(''name'', JStr name), (''strategy'', JStr strategy), (''max_wait_sec'', JInt max_wait_sec)]"

definition add_queue_member where
  "add_queue_member queue_id agent_uri priority =
     post (''/queues/'' @ dec_str queue_id @ ''/members'')
       [(''agent_uri'', JStr agent_uri), (''priority'', JInt priority)]"

definition remove_queue_member where
  "remove_queue_member queue_id member_id =
     delete (''/queues/'' @ dec_str queue_id @ ''/members/'' @ dec_str member_id)"

definition conferences where
  "conferences =
     get ''/conferences''"

definition create_conference where
  "create_conference name pin max_participants record_it =
     post ''/conferences''
       [(''name'', JStr name), (''pin'', JStr pin), (''max_participants'', JInt max_participants), (''record'', JBool record_it)]"

definition routing_intelligence where
  "routing_intelligence =
     get ''/routing/intelligence''"

definition record_routing_outcome where
  "record_routing_outcome gateway prefix answered duration_sec pdd_ms =
     post ''/routing/intelligence/record''
       [(''gateway'', JStr gateway), (''prefix'', JStr prefix), (''answered'', JBool answered),
        (''duration_sec'', JInt duration_sec), (''pdd_ms'', JInt pdd_ms)]"

subsection \<open>The event feed\<close>

text \<open>
  \<open>max(cursor, 0)\<close> on what the caller passes: a value that is no number raises \<open>TypeError\<close>. A float
  is known by its text.
\<close>

definition max_zero :: "json \<Rightarrow> json result" where
  "max_zero v =
     (case v of
        JInt n \<Rightarrow> Inr (JInt (max n 0))
      | JBool b \<Rightarrow> Inr (JBool b)
      | JFloat t \<Rightarrow> Inr (if starts_with ''-'' t \<and> t \<noteq> ''-0.0'' then JInt 0 else JFloat t)
      | _ \<Rightarrow> Inl TypeError)"

definition events :: "json \<Rightarrow> string option \<Rightarrow> int \<Rightarrow> api_call result" where
  "events cursor event_type limit =
     bindE (max_zero cursor) (\<lambda>c.
       Inr (get_query ''/events'' ([(''cursor'', c), (''limit'', JInt (clamp limit 100))] @ opt ''event_type'' event_type)))"

lemmas api_defs = 
  create_call_def get_call_def answer_call_def reject_call_def hangup_call_def bridge_call_def
  media_def set_headers_def transfer_call_def hold_call_def unhold_call_def send_dtmf_def
  identity_def rtp_control_def route_call_def publish_event_def registrations_def cdr_def
  bans_def ban_ip_def unban_ip_def sip_inspect_def presence_def presence_user_def
  routing_rules_def create_routing_rule_def delete_routing_rule_def gateways_def
  create_gateway_def dids_def create_did_def dispatch_sets_def create_dispatch_set_def
  cluster_def config_def set_config_def charge_authorize_def charge_deny_def delete_did_def
  delete_gateway_def dialplans_def create_dialplan_def delete_dialplan_def ip_auth_def
  create_ip_auth_def delete_ip_auth_def access_control_def create_access_control_def
  header_rules_def create_header_rule_def billing_events_def billing_ack_def security_events_def
  ani_groups_def create_ani_group_def active_calls_def capacity_policies_def
  upsert_capacity_policy_def create_dispatch_member_def delete_access_control_def
  delete_header_rule_def delete_ani_group_def delete_dispatch_member_def users_def
  create_user_def delete_user_def set_log_level_def delete_dispatch_set_def delete_config_def
  health_def reload_def webhooks_def create_webhook_def delete_webhook_def tag_call_def
  number_lookup_def upsert_number_def set_call_flow_def scheduled_calls_def schedule_call_def
  cancel_scheduled_call_def queues_def create_queue_def add_queue_member_def
  remove_queue_member_def conferences_def create_conference_def routing_intelligence_def
  record_routing_outcome_def

end
