(* ===== verification/Maf_Stream.thy ===== *)
theory Maf_Stream
  imports Maf_Api
begin

section \<open>Following the event feed\<close>

text \<open>
  \<^verbatim>\<open>sdk/maf/python/madis_maf.py\<close>, lines 615 to 675: the generator \<open>subscribe\<close> and \<open>ws_url\<close>.
  \<open>subscribe_turn\<close> is one turn of the generator on what the request gave: the events it yields, and the
  next cursor and interval or the exception that ends it; \<open>subscribe_run\<close> follows it over the outcomes of
  its requests. The time unit of the intervals is left open. JSON \<open>true\<close> and \<open>false\<close> as a cursor count as 1 and 0;
  a float, which Python would keep, is refused here.
\<close>

definition poll_call :: "int \<Rightarrow> string option \<Rightarrow> string option \<Rightarrow> api_call" where
  "poll_call cur event_type call_id =
     get_query ''/events'' ([(''cursor'', JInt cur), (''limit'', JInt 100)] @ opt ''event_type'' event_type @ opt ''call_id'' call_id)"

text \<open>\<open>page.get("events", []) if isinstance(page, dict) else []\<close>, and \<open>for evt in events\<close>.\<close>

definition page_events :: "json \<Rightarrow> json" where
  "page_events page =
     (case page of JObj d \<Rightarrow> (case map_of d ''events'' of None \<Rightarrow> JList [] | Some v \<Rightarrow> v) | _ \<Rightarrow> JList [])"

definition iterate :: "json \<Rightarrow> json list result" where
  "iterate v =
     (case v of
        JList vs \<Rightarrow> Inr vs
      | JObj kvs \<Rightarrow> Inr (map (\<lambda>kv. JStr (fst kv)) kvs)
      | JStr s \<Rightarrow> Inr (map (\<lambda>c. JStr [c]) s)
      | _ \<Rightarrow> Inl TypeError)"

definition page_get :: "json \<Rightarrow> string \<Rightarrow> json \<Rightarrow> json" where
  "page_get page k v = (case page of JObj d \<Rightarrow> (case map_of d k of None \<Rightarrow> v | Some w \<Rightarrow> w) | _ \<Rightarrow> v)"

definition cursor_value :: "json \<Rightarrow> int result" where
  "cursor_value v =
     (case v of
        JInt n \<Rightarrow> Inr n
      | JStr s \<Rightarrow> (case py_int s of None \<Rightarrow> Inl (ValueError ''invalid literal for int()'') | Some n \<Rightarrow> Inr n)
      | JBool b \<Rightarrow> Inr (if b then 1 else 0)
      | _ \<Rightarrow> Inl TypeError)"

definition subscribe_turn ::
  "int \<Rightarrow> int \<Rightarrow> int \<Rightarrow> int \<Rightarrow> json maf_result \<Rightarrow> json list \<times> (int \<times> int) result" where
  "subscribe_turn poll_ms max_poll_ms cur interval response =
     (case response of
        Inl (MafError _ _) \<Rightarrow> ([], Inr (cur, max_poll_ms))
      | Inl (Other e) \<Rightarrow> ([], Inl e)
      | Inr page \<Rightarrow>
          if truthy (page_events page) then
            (case iterate (page_events page) of
               Inl e \<Rightarrow> ([], Inl e)
             | Inr evs \<Rightarrow>
                 (evs, bindE (cursor_value (page_get page ''next_cursor'' (JInt cur))) (\<lambda>next_cur.
                    Inr (if next_cur > cur then next_cur else cur, poll_ms))))
          else ([], Inr (cur, min (interval * 2) max_poll_ms)))"

text \<open>
  The generator over a list of outcomes, each a function of the cursor that is asked for; the yields
  of each turn are kept apart. It ends with the list or with the first exception.
\<close>

fun subscribe_loop ::
  "int \<Rightarrow> int \<Rightarrow> (int \<Rightarrow> json maf_result) list \<Rightarrow> int \<Rightarrow> int \<Rightarrow> json list \<times> (int \<times> int) result" where
  "subscribe_loop poll_ms max_poll_ms [] cur interval = ([], Inr (cur, interval))"
| "subscribe_loop poll_ms max_poll_ms (response # rs) cur interval =
     (case subscribe_turn poll_ms max_poll_ms cur interval (response cur) of
        (evs, Inl e) \<Rightarrow> (evs, Inl e)
      | (evs, Inr (cur', interval')) \<Rightarrow>
          (case subscribe_loop poll_ms max_poll_ms rs cur' interval' of (evs', res) \<Rightarrow> (evs @ evs', res)))"

definition subscribe :: "int \<Rightarrow> int \<Rightarrow> int \<Rightarrow> (int \<Rightarrow> json maf_result) list \<Rightarrow> json list \<times> (int \<times> int) result" where
  "subscribe cursor poll_ms max_poll_ms responses = subscribe_loop poll_ms max_poll_ms responses (max cursor 0) poll_ms"

subsection \<open>The WebSocket address\<close>

text \<open>\<open>s.replace(old, new)\<close> for a non-empty \<open>old\<close>.\<close>

function replace_all :: "string \<Rightarrow> string \<Rightarrow> string \<Rightarrow> string" where
  "replace_all old new s =
     (if old = [] \<or> s = [] then s
      else if starts_with old s then new @ replace_all old new (drop (length old) s)
      else hd s # replace_all old new (tl s))"
  by pat_completeness auto
termination by (relation "measure (\<lambda>(old, new, s). length s)") auto

declare replace_all.simps [simp del]

definition ws_url :: "MadisMaf \<Rightarrow> int \<Rightarrow> string option \<Rightarrow> string option \<Rightarrow> string" where
  "ws_url maf cursor event_type call_id =
     (let base = replace_all ''https://'' ''wss://'' (replace_all ''http://'' ''ws://'' (base_url maf));
          params = [(''cursor'', JInt (max cursor 0))] @ opt ''event_type'' event_type @ opt ''call_id'' call_id
      in base @ ''/api/v1/maf/events/ws?'' @ urlencode params)"

subsection \<open>A feed that keeps its promises\<close>

text \<open>
  The contract of the feed: \<open>log\<close> holds all events with their numbers, in ascending order. A request
  after cursor \<open>c\<close> either fails or is answered by a page with the first events after \<open>c\<close>, any number of
  them, and the number of the last one (or \<open>c\<close>) as the next cursor, in decimal text.
\<close>

definition after :: "(int \<times> json) list \<Rightarrow> int \<Rightarrow> (int \<times> json) list" where
  "after log c = filter (\<lambda>(n, e). c < n) log"

definition page_of :: "(int \<times> json) list \<Rightarrow> int \<Rightarrow> nat \<Rightarrow> json" where
  "page_of log c k =
     (let es = take k (after log c)
      in JObj [(''events'', JList (map snd es)), (''next_cursor'', JStr (dec_str (if es = [] then c else fst (last es))))])"

definition answers :: "(int \<times> json) list \<Rightarrow> (int \<Rightarrow> json maf_result) \<Rightarrow> bool" where
  "answers log response \<longleftrightarrow>
     (\<forall>c. (\<exists>code v. response c = Inl (MafError code v)) \<or> (\<exists>k. response c = Inr (page_of log c k)))"

definition numbered :: "(int \<times> json) list \<Rightarrow> bool" where
  "numbered log \<longleftrightarrow> sorted_wrt (<) (map fst log) \<and> (\<forall>n \<in> fst ` set log. 0 < n \<and> n < 10 ^ MAX_STR_DIGITS)"

definition between :: "(int \<times> json) list \<Rightarrow> int \<Rightarrow> int \<Rightarrow> json list" where
  "between log a b = map snd (filter (\<lambda>(n, e). a < n \<and> n \<le> b) log)"

lemma sorted_prefix:
  assumes "sorted_wrt (<) (map fst (es @ ds))" and "es \<noteq> []"
  shows "filter (\<lambda>x. fst x \<le> fst (last es)) (es @ ds) = (es :: (int \<times> 'b) list)"
proof -
  obtain init z where es: "es = init @ [z]" using assms(2) by (metis rev_exhaust)
  have "\<forall>x \<in> set init. fst x < fst z" "\<forall>y \<in> set ds. fst z < fst y"
    using assms(1) by (auto simp: es sorted_wrt_append)
  then have "filter (\<lambda>x. fst x \<le> fst z) init = init" "filter (\<lambda>x. fst x \<le> fst z) ds = []"
    by (auto simp: filter_id_conv filter_empty_conv)
  then show ?thesis by (simp add: es)
qed

lemma take_after:
  assumes "sorted_wrt (<) (map fst log)" and "take k (after log c) = es" and "es \<noteq> []"
  shows "es = filter (\<lambda>(n, e). c < n \<and> n \<le> fst (last es)) log" "c < fst (last es)" "last es \<in> set log"
proof -
  have "sorted_wrt (<) (map fst (after log c))"
    using assms(1) unfolding after_def sorted_wrt_map by (rule sorted_wrt_filter)
  moreover have split: "after log c = es @ drop k (after log c)" using assms(2) by (metis append_take_drop_id)
  ultimately have "filter (\<lambda>x. fst x \<le> fst (last es)) (after log c) = es"
    using sorted_prefix [of es "drop k (after log c)"] assms(3) by simp
  then show "es = filter (\<lambda>(n, e). c < n \<and> n \<le> fst (last es)) log"
    by (simp add: after_def split_def conj_commute)
  have "last es \<in> set (after log c)" using last_in_set [OF assms(3)] split by (metis UnCI set_append)
  then show "c < fst (last es)" "last es \<in> set log" by (auto simp: after_def)
qed

lemma between_append:
  assumes "sorted_wrt (<) (map fst log)" and "a \<le> b" and "b \<le> c"
  shows "between log a b @ between log b c = between log a c"
proof -
  have "filter (\<lambda>(n, e). a < n \<and> n \<le> b) xs @ filter (\<lambda>(n, e). b < n \<and> n \<le> c) xs = filter (\<lambda>(n, e). a < n \<and> n \<le> c) xs"
    if "sorted_wrt (<) (map fst xs)" for xs :: "(int \<times> json) list"
    using that
  proof (induction xs)
    case (Cons x xs)
    show ?case
    proof (cases "fst x \<le> b")
      case True
      then show ?thesis using Cons assms(2, 3) by (auto simp: split_def)
    next
      case False
      then have "filter (\<lambda>(n, e). a < n \<and> n \<le> b) xs = []"
        using Cons.prems by (auto simp: filter_empty_conv)
      then show ?thesis using Cons False assms(2, 3) by (auto simp: split_def)
    qed
  qed simp
  from this [OF assms(1)] show ?thesis by (simp add: between_def flip: map_append)
qed

text \<open>One turn on a feed that keeps its promises: it yields what lies between the two cursors.\<close>

lemma honest_turn:
  assumes "numbered log" and "answers log response" and "0 \<le> cur" and "cur < 10 ^ MAX_STR_DIGITS"
  obtains cur' interval' where
    "subscribe_turn poll_ms max_poll_ms cur interval (response cur) = (between log cur cur', Inr (cur', interval'))"
    "cur \<le> cur'" "cur' < 10 ^ MAX_STR_DIGITS"
proof -
  have srt: "sorted_wrt (<) (map fst log)" using assms(1) by (simp add: numbered_def)
  have none: "between log cur cur = []" by (auto simp: between_def filter_empty_conv)
  have "(\<exists>code v. response cur = Inl (MafError code v)) \<or> (\<exists>k. response cur = Inr (page_of log cur k))"
    using assms(2) by (simp add: answers_def)
  then consider (fail) code v where "response cur = Inl (MafError code v)" | (page) k where "response cur = Inr (page_of log cur k)"
    by blast
  then show thesis
  proof cases
    case fail
    then show ?thesis using none assms(4) by (intro that [of cur max_poll_ms]) (simp_all add: subscribe_turn_def)
  next
    case page
    let ?es = "take k (after log cur)"
    show ?thesis
    proof (cases "?es = []")
      case True
      then have "page_events (page_of log cur k) = JList []" by (simp add: page_events_def page_of_def Let_def)
      then show ?thesis using none assms(4) page
        by (intro that [of cur "min (interval * 2) max_poll_ms"]) (simp_all add: subscribe_turn_def)
    next
      case False
      note t = take_after [OF srt refl False]
      let ?n = "fst (last ?es)"
      have n: "0 < ?n" "?n < 10 ^ MAX_STR_DIGITS" using t(3) assms(1) by (auto simp: numbered_def)
      have pe: "page_events (page_of log cur k) = JList (map snd ?es)" by (simp add: page_events_def page_of_def Let_def)
      have pc: "page_get (page_of log cur k) ''next_cursor'' (JInt cur) = JStr (dec_str ?n)"
        using False by (simp add: page_get_def page_of_def Let_def)
      have "py_int (dec_str ?n) = Some ?n" using n py_int_dec_str [of ?n] by simp
      moreover have b: "map snd ?es = between log cur ?n" using t(1) by (simp add: between_def)
      moreover have "between log cur ?n \<noteq> []" using False b by (metis map_is_Nil_conv)
      ultimately show ?thesis using False page pe pc t(2) n
        by (intro that [of ?n poll_ms]) (simp_all add: subscribe_turn_def iterate_def cursor_value_def)
    qed
  qed
qed

lemma honest_run:
  assumes "numbered log"
  shows "\<forall>response \<in> set rs. answers log response \<Longrightarrow> 0 \<le> cur \<Longrightarrow> cur < 10 ^ MAX_STR_DIGITS \<Longrightarrow>
    \<exists>cur' interval'. subscribe_loop poll_ms max_poll_ms rs cur interval = (between log cur cur', Inr (cur', interval')) \<and> cur \<le> cur'"
proof (induction rs arbitrary: cur interval)
  case Nil
  then show ?case by (auto simp: between_def filter_empty_conv)
next
  case (Cons response rs)
  obtain c1 i1 where t: "subscribe_turn poll_ms max_poll_ms cur interval (response cur) = (between log cur c1, Inr (c1, i1))"
    "cur \<le> c1" "c1 < 10 ^ MAX_STR_DIGITS"
    using honest_turn [OF assms, of response cur poll_ms max_poll_ms interval] Cons.prems by auto
  obtain c2 i2 where "subscribe_loop poll_ms max_poll_ms rs c1 i1 = (between log c1 c2, Inr (c2, i2))" "c1 \<le> c2"
    using Cons.IH [of c1 i1] Cons.prems t by auto
  moreover have "sorted_wrt (<) (map fst log)" using assms by (simp add: numbered_def)
  ultimately show ?case using t between_append [of log cur c1 c2] by auto
qed

end
