(* ===== verification/Maf_Apps.thy ===== *)
theory Maf_Apps
  imports Maf_Stream
begin

section \<open>The example applications\<close>

text \<open>
  \<^verbatim>\<open>sdk/maf/examples/\<close>: \<open>event_monitor.py\<close>, \<open>click_to_call.py\<close> and \<open>ivr_auto_attendant.py\<close>, on the client
  of the other theories. \<open>respond\<close> stands for the client's \<open>_request\<close> with the fabric behind it; where a
  program makes one request after the other it also gets the number of the request, so that the
  answers may differ. \<open>fresh\<close> gives the identifiers drawn for the commands, \<open>loads\<close> is \<open>json.loads\<close> of a
  text. Signals, sleeping and printing to the terminal are left out, except for the lines the monitor
  exists to print. Floats are compared by their text.
\<close>

text \<open>\<open>x != y\<close> on JSON values as far as numbers go: \<open>True\<close> is 1.\<close>

fun py_number :: "json \<Rightarrow> json" where
  "py_number (JBool b) = JInt (if b then 1 else 0)"
| "py_number v = v"

definition py_ne :: "json \<Rightarrow> json \<Rightarrow> bool" where
  "py_ne v w \<longleftrightarrow> py_number v \<noteq> py_number w"

text \<open>\<open>d.get(k, v)\<close> on something that may be no dictionary.\<close>

definition get_attr :: "json \<Rightarrow> string \<Rightarrow> json \<Rightarrow> json result" where
  "get_attr d k v = (case d of JObj kvs \<Rightarrow> Inr (page_get d k v) | _ \<Rightarrow> Inl AttributeError)"

subsection \<open>The event monitor\<close>

datatype 'a run = Running 'a | Died exn

text \<open>One turn of the loop: the lines printed, and the next cursor. Every exception of the request is
  caught, those of the handling of the page are not.\<close>

definition monitor_turn ::
  "string option \<Rightarrow> (api_call \<Rightarrow> json maf_result) \<Rightarrow> json \<Rightarrow> string list \<times> json run" where
  "monitor_turn event_type respond cursor =
     (case events cursor event_type 100 of
        Inl _ \<Rightarrow> ([], Running cursor)
      | Inr call \<Rightarrow>
          (case respond call of
             Inl _ \<Rightarrow> ([], Running cursor)
           | Inr page \<Rightarrow>
               (case bindE (get_attr page ''events'' (JList [])) iterate of
                  Inl e \<Rightarrow> ([], Died e)
                | Inr evs \<Rightarrow>
                    let new_cursor = page_get page ''next_cursor'' cursor
                    in (map json_raw evs, Running (if py_ne new_cursor cursor then new_cursor else cursor)))))"

fun monitor_run ::
  "string option \<Rightarrow> (api_call \<Rightarrow> json maf_result) list \<Rightarrow> json \<Rightarrow> string list \<times> json run" where
  "monitor_run event_type [] cursor = ([], Running cursor)"
| "monitor_run event_type (respond # rs) cursor =
     (case monitor_turn event_type respond cursor of
        (out, Died e) \<Rightarrow> (out, Died e)
      | (out, Running c) \<Rightarrow> (case monitor_run event_type rs c of (out', r) \<Rightarrow> (out @ out', r)))"

subsection \<open>Click to call\<close>

datatype exit = Exit int | Uncaught exn

definition MAX_RETRIES :: nat where "MAX_RETRIES = 3"

text \<open>The attempts to create the call: the requests made, and the receipt, the exit code or the exception.
  Every attempt draws its own identifier.\<close>

function create_attempts ::
  "(nat \<Rightarrow> api_call \<Rightarrow> json maf_result) \<Rightarrow> (nat \<Rightarrow> string) \<Rightarrow> string \<Rightarrow> string \<Rightarrow> nat \<Rightarrow> api_call list \<times> (exit + json)" where
  "create_attempts respond fresh from_uri to_uri retries =
     (let call = create_call (fresh retries) from_uri to_uri None None None None None None None
      in case respond retries call of
           Inr receipt \<Rightarrow> ([call], Inr receipt)
         | Inl (Other e) \<Rightarrow> ([call], Inl (Uncaught e))
         | Inl (MafError _ _) \<Rightarrow>
             if retries + 1 \<ge> MAX_RETRIES then ([call], Inl (Exit 1))
             else (case create_attempts respond fresh from_uri to_uri (retries + 1) of
                     (calls, res) \<Rightarrow> (call # calls, res)))"
  by pat_completeness auto
termination by (relation "measure (\<lambda>(respond, fresh, from_uri, to_uri, retries). MAX_RETRIES - retries)") auto

declare create_attempts.simps [simp del]

definition receipt_call_id :: "json \<Rightarrow> json result" where
  "receipt_call_id receipt =
     bindE (get_attr receipt ''command_id'' JNull) (\<lambda>c.
       if truthy c then Inr c else get_attr receipt ''resource_id'' (JStr ''unknown''))"

fun scan_events :: "json \<Rightarrow> json list \<Rightarrow> exit option" where
  "scan_events call_id [] = None"
| "scan_events call_id (event # es) =
     (case event of
        JObj d \<Rightarrow>
          let etype = page_get event ''type'' (JStr []); ecall = page_get event ''call_id'' (JStr [])
          in if py_ne ecall call_id then scan_events call_id es
             else if etype = JStr ''call.answered'' then Some (Exit 0)
             else if etype = JStr ''call.failed'' then Some (Exit 1)
             else scan_events call_id es
      | _ \<Rightarrow> Some (Uncaught AttributeError))"

text \<open>The polls that start before the deadline.\<close>

fun poll_outcome :: "json \<Rightarrow> (api_call \<Rightarrow> json maf_result) list \<Rightarrow> json \<Rightarrow> exit" where
  "poll_outcome call_id [] cursor = Exit 2"
| "poll_outcome call_id (respond # rs) cursor =
     (case events cursor None 100 of
        Inl e \<Rightarrow> Uncaught e
      | Inr call \<Rightarrow>
          (case respond call of
             Inl (MafError _ _) \<Rightarrow> poll_outcome call_id rs cursor
           | Inl (Other e) \<Rightarrow> Uncaught e
           | Inr page \<Rightarrow>
               (case bindE (get_attr page ''events'' (JList [])) iterate of
                  Inl e \<Rightarrow> Uncaught e
                | Inr evs \<Rightarrow>
                    (case scan_events call_id evs of
                       Some x \<Rightarrow> x
                     | None \<Rightarrow> poll_outcome call_id rs (page_get page ''next_cursor'' cursor)))))"

definition click_to_call ::
  "string \<Rightarrow> string \<Rightarrow> string \<Rightarrow> string \<Rightarrow> (nat \<Rightarrow> api_call \<Rightarrow> json maf_result) \<Rightarrow> (nat \<Rightarrow> string)
     \<Rightarrow> (api_call \<Rightarrow> json maf_result) list \<Rightarrow> api_call list \<times> exit" where
  "click_to_call url tok from_uri to_uri respond fresh polls =
     (case new_maf url tok of
        Inl _ \<Rightarrow> ([], Exit 1)
      | Inr _ \<Rightarrow>
          (case create_attempts respond fresh from_uri to_uri 0 of
             (calls, Inl x) \<Rightarrow> (calls, x)
           | (calls, Inr receipt) \<Rightarrow>
               (case receipt_call_id receipt of
                  Inl e \<Rightarrow> (calls, Uncaught e)
                | Inr call_id \<Rightarrow> (calls, poll_outcome call_id polls (JInt 0)))))"

subsection \<open>The voice menu\<close>

definition DEFAULT_ANSWER_SDP :: string where
  "DEFAULT_ANSWER_SDP = concat (map (\<lambda>line. line @ crlf)
     [''v=0'', ''o=madis 1000 1000 IN IP4 127.0.0.1'', ''s=MAF IVR Session'', ''c=IN IP4 127.0.0.1'', ''t=0 0'',
      ''m=audio 16384 RTP/AVP 0 8 101'', ''a=rtpmap:0 PCMU/8000'', ''a=rtpmap:8 PCMA/8000'',
      ''a=rtpmap:101 telephone-event/8000'', ''a=fmtp:101 0-16'', ''a=sendrecv''])"

definition AGENT_SIP_URI :: string where "AGENT_SIP_URI = ''sip:sales-queue@example.net''"
definition SUPPORT_SIP_URI :: string where "SUPPORT_SIP_URI = ''sip:support-queue@example.net''"

record ivr_session =
  caller :: string
  callee :: json
  menu_level :: string
  created_at :: int

text \<open>\<open>commands\<close> counts the identifiers drawn; the sessions are kept by call-id.\<close>

record IvrApp =
  answer_sdp :: string
  ivr_sessions :: "(string \<times> ivr_session) list"
  commands :: nat

text \<open>
  What a handler does: the requests it makes, in order, and the new state or the exception that leaves
  it. \<open>issue\<close> makes one command with a fresh identifier; a \<open>MafError\<close> is only logged.
\<close>

type_synonym ivr_result = "api_call list \<times> exn option \<times> IvrApp"

definition issue :: "(nat \<Rightarrow> api_call \<Rightarrow> json maf_result) \<Rightarrow> (nat \<Rightarrow> string) \<Rightarrow> (string \<Rightarrow> api_call) \<Rightarrow> IvrApp \<Rightarrow> ivr_result" where
  "issue respond fresh cmd app =
     (let call = cmd (fresh (commands app)); app' = app\<lparr>commands := commands app + 1\<rparr>
      in case respond (commands app) call of
           Inl (Other e) \<Rightarrow> ([call], Some e, app')
         | _ \<Rightarrow> ([call], None, app'))"

definition event_payload :: "(string \<Rightarrow> json result) \<Rightarrow> json \<Rightarrow> json" where
  "event_payload loads event =
     (case page_get event ''payload'' (JObj []) of
        JStr s \<Rightarrow> (case loads s of Inl _ \<Rightarrow> JObj [] | Inr v \<Rightarrow> v)
      | v \<Rightarrow> v)"

definition has_infix :: "string \<Rightarrow> string \<Rightarrow> bool" where
  "has_infix w s \<longleftrightarrow> (\<exists>i \<in> set [0..<Suc (length s)]. starts_with w (drop i s))"

text \<open>A call-id that is no string ends in the \<open>TypeError\<close> of \<open>quote\<close> whatever happened before.\<close>

definition on_call_created ::
  "(nat \<Rightarrow> api_call \<Rightarrow> json maf_result) \<Rightarrow> (nat \<Rightarrow> string) \<Rightarrow> (string \<Rightarrow> json result) \<Rightarrow> int \<Rightarrow> json \<Rightarrow> IvrApp \<Rightarrow> ivr_result" where
  "on_call_created respond fresh loads now event app =
     (case event_payload loads event of
        JObj d \<Rightarrow>
          (case (page_get (JObj d) ''from_uri'' (JStr ''unknown''), page_get event ''call_id'' (JStr [])) of
             (JStr from_uri, JStr call_id) \<Rightarrow>
               if has_infix ''spammer'' (lower from_uri)
               then issue respond fresh (\<lambda>u. reject_call u call_id (Some 603) (Some ''Decline'') None) app
               else
                 issue respond fresh (\<lambda>u. answer_call u call_id (answer_sdp app) None)
                   (app\<lparr>ivr_sessions := AList.update call_id
                     \<lparr>caller = from_uri, callee = page_get (JObj d) ''to_uri'' (JStr ''unknown''),
                      menu_level = ''main'', created_at = now\<rparr> (ivr_sessions app)\<rparr>)
           | (JStr _, _) \<Rightarrow> ([], Some TypeError, app)
           | _ \<Rightarrow> ([], Some AttributeError, app))
      | _ \<Rightarrow> ([], Some AttributeError, app))"

text \<open>\<open>sessions.get\<close> on a call-id that is no string finds nothing, or raises when it cannot be hashed.\<close>

definition drop_session :: "string \<Rightarrow> ivr_result \<Rightarrow> ivr_result" where
  "drop_session call_id r =
     (case r of
        (calls, None, app) \<Rightarrow> (calls, None, app\<lparr>ivr_sessions := AList.delete call_id (ivr_sessions app)\<rparr>)
      | _ \<Rightarrow> r)"

definition menu_choice ::
  "(nat \<Rightarrow> api_call \<Rightarrow> json maf_result) \<Rightarrow> (nat \<Rightarrow> string) \<Rightarrow> string \<Rightarrow> json \<Rightarrow> IvrApp \<Rightarrow> ivr_result" where
  "menu_choice respond fresh call_id digit app =
     (if digit = JStr ''1'' then issue respond fresh (\<lambda>u. transfer_call u call_id AGENT_SIP_URI ''blind'' None None) app
      else if digit = JStr ''2'' then issue respond fresh (\<lambda>u. transfer_call u call_id SUPPORT_SIP_URI ''blind'' None None) app
      else if digit = JStr ''9'' then
        drop_session call_id (issue respond fresh (\<lambda>u. hangup_call u call_id (Some ''Caller Completed IVR'') None) app)
      else issue respond fresh (\<lambda>u. media u call_id ''play'' (Some ''sound:invalid_option.wav'') None) app)"

definition on_dtmf ::
  "(nat \<Rightarrow> api_call \<Rightarrow> json maf_result) \<Rightarrow> (nat \<Rightarrow> string) \<Rightarrow> (string \<Rightarrow> json result) \<Rightarrow> json \<Rightarrow> IvrApp \<Rightarrow> ivr_result" where
  "on_dtmf respond fresh loads event app =
     (case event_payload loads event of
        JObj d \<Rightarrow>
          let digit = page_get (JObj d) ''digit'' (JStr []); direction = page_get (JObj d) ''direction'' (JStr ''inbound'')
          in if direction \<noteq> JStr ''inbound'' \<or> \<not> truthy digit then ([], None, app)
             else (case page_get event ''call_id'' (JStr []) of
               JStr call_id \<Rightarrow>
                 (case map_of (ivr_sessions app) call_id of
                    None \<Rightarrow> ([], None, app)
                  | Some _ \<Rightarrow> menu_choice respond fresh call_id digit app)
             | JList _ \<Rightarrow> ([], Some TypeError, app)
             | JObj _ \<Rightarrow> ([], Some TypeError, app)
             | _ \<Rightarrow> ([], None, app))
      | _ \<Rightarrow> ([], Some AttributeError, app))"

definition on_call_ended :: "json \<Rightarrow> IvrApp \<Rightarrow> ivr_result" where
  "on_call_ended event app =
     (case page_get event ''call_id'' (JStr []) of
        JStr call_id \<Rightarrow> ([], None, app\<lparr>ivr_sessions := AList.delete call_id (ivr_sessions app)\<rparr>)
      | JList _ \<Rightarrow> ([], Some TypeError, app)
      | JObj _ \<Rightarrow> ([], Some TypeError, app)
      | _ \<Rightarrow> ([], None, app))"

definition process_event ::
  "(nat \<Rightarrow> api_call \<Rightarrow> json maf_result) \<Rightarrow> (nat \<Rightarrow> string) \<Rightarrow> (string \<Rightarrow> json result) \<Rightarrow> int \<Rightarrow> json \<Rightarrow> IvrApp \<Rightarrow> ivr_result" where
  "process_event respond fresh loads now event app =
     (case event of
        JObj d \<Rightarrow>
          let etype = page_get event ''type'' (JStr [])
          in if etype \<in> {JStr ''call.created'', JStr ''call.ringing''} then on_call_created respond fresh loads now event app
             else if etype = JStr ''call.dtmf'' then on_dtmf respond fresh loads event app
             else if etype \<in> {JStr ''call.ended'', JStr ''call.failed'', JStr ''call.canceled'', JStr ''call.rejected''}
             then on_call_ended event app
             else ([], None, app)
      | _ \<Rightarrow> ([], Some AttributeError, app))"

fun process_events ::
  "(nat \<Rightarrow> api_call \<Rightarrow> json maf_result) \<Rightarrow> (nat \<Rightarrow> string) \<Rightarrow> (string \<Rightarrow> json result) \<Rightarrow> int \<Rightarrow> json list \<Rightarrow> IvrApp \<Rightarrow> ivr_result" where
  "process_events respond fresh loads now [] app = ([], None, app)"
| "process_events respond fresh loads now (e # es) app =
     (case process_event respond fresh loads now e app of
        (calls, Some x, app') \<Rightarrow> (calls, Some x, app')
      | (calls, None, app') \<Rightarrow>
          (case process_events respond fresh loads now es app' of (calls', x, app'') \<Rightarrow> (calls @ calls', x, app'')))"

text \<open>One turn of \<open>run\<close>: a failing poll of any kind leaves the cursor and waits.\<close>

definition ivr_turn ::
  "(nat \<Rightarrow> api_call \<Rightarrow> json maf_result) \<Rightarrow> (nat \<Rightarrow> string) \<Rightarrow> (string \<Rightarrow> json result) \<Rightarrow> int
     \<Rightarrow> (api_call \<Rightarrow> json maf_result) \<Rightarrow> json \<Rightarrow> IvrApp \<Rightarrow> api_call list \<times> json run \<times> IvrApp" where
  "ivr_turn respond fresh loads now poll cursor app =
     (case events cursor None 100 of
        Inl _ \<Rightarrow> ([], Running cursor, app)
      | Inr call \<Rightarrow>
          (case poll call of
             Inl _ \<Rightarrow> ([], Running cursor, app)
           | Inr page \<Rightarrow>
               (case iterate (page_events page) of
                  Inl e \<Rightarrow> ([], Died e, app)
                | Inr evs \<Rightarrow>
                    (case process_events respond fresh loads now evs app of
                       (calls, Some e, app') \<Rightarrow> (calls, Died e, app')
                     | (calls, None, app') \<Rightarrow>
                         let new_cursor = page_get page ''next_cursor'' cursor
                         in (calls, Running (if py_ne new_cursor cursor then new_cursor else cursor), app')))))"

fun ivr_run ::
  "(nat \<Rightarrow> api_call \<Rightarrow> json maf_result) \<Rightarrow> (nat \<Rightarrow> string) \<Rightarrow> (string \<Rightarrow> json result) \<Rightarrow> int
     \<Rightarrow> (api_call \<Rightarrow> json maf_result) list \<Rightarrow> json \<Rightarrow> IvrApp \<Rightarrow> api_call list \<times> json run \<times> IvrApp" where
  "ivr_run respond fresh loads now [] cursor app = ([], Running cursor, app)"
| "ivr_run respond fresh loads now (poll # ps) cursor app =
     (case ivr_turn respond fresh loads now poll cursor app of
        (calls, Died e, app') \<Rightarrow> (calls, Died e, app')
      | (calls, Running c, app') \<Rightarrow>
          (case ivr_run respond fresh loads now ps c app' of (calls', r, app'') \<Rightarrow> (calls @ calls', r, app'')))"

end
