(* ===== verification/Maf_Properties.thy ===== *)
theory Maf_Properties
  imports Maf_Apps
begin

section \<open>Properties of the application fabric client\<close>

text \<open>
  What the client guarantees about its requests (where they go, what they carry, when they fail),
  what a subscriber sees of the event feed, and what the example applications do with it. The last
  group shows that the examples do not work with the feed as the fabric serves it.
\<close>

subsection \<open>Samples\<close>

definition lab_maf :: MadisMaf where
  "lab_maf = \<lparr>base_url = ''https://proxy.example.net/admin'', token = ''0123456789abcdef''\<rparr>"

lemma lab_maf_new: "new_maf ''https://proxy.example.net/admin/'' ''0123456789abcdef'' = Inr lab_maf"
  by (simp add: new_maf_def starts_with_def rstrip_slash_def lab_maf_def)

definition lab_log :: "(int \<times> json) list" where
  "lab_log = [(3, JObj [(''event_type'', JStr ''call.created'')]), (7, JObj [(''event_type'', JStr ''call.answered'')])]"

subsection \<open>Where requests go\<close>

text \<open>The operations on a call, by what follows the call-id in the path.\<close>

definition call_actions :: "string list" where
  "call_actions = [[], ''/answer'', ''/reject'', ''/hangup'', ''/bridges'', ''/media'', ''/headers'', ''/transfer'',
     ''/hold'', ''/unhold'', ''/dtmf'', ''/identity'', ''/rtp'', ''/route'', ''/sip'', ''/charge'', ''/charge-deny'', ''/tags'', ''/flow'']"

definition on_call :: "string \<Rightarrow> api_call \<Rightarrow> bool" where
  "on_call call_id call \<longleftrightarrow> (\<exists>action \<in> set call_actions. api_path call = call_path call_id action)"

lemma quote_no_slash: "CHR ''/'' \<notin> set (quote s)"
  using quote_chars [of s] reserved_chars(1) by (auto simp: list_all_iff)

lemma call_action_slash: "action \<in> set call_actions \<Longrightarrow> action = [] \<or> hd action = CHR ''/''"
  by (auto simp: call_actions_def)

lemma split_at_slash:
  assumes "xs @ a = ys @ b" and "s \<notin> set xs" and "s \<notin> set ys" and "a = [] \<or> hd a = s" and "b = [] \<or> hd b = s"
  shows "xs = ys \<and> a = b"
proof -
  have "takeWhile (\<lambda>c. c \<noteq> s) (zs @ d) = zs" if "s \<notin> set zs" "d = [] \<or> hd d = s" for zs d
    using that by (cases d) (auto simp: takeWhile_append2 takeWhile_append)
  then have "xs = ys" using assms by metis
  then show ?thesis using assms(1) by simp
qed

lemma call_path_inj:
  assumes "call_path c a = call_path d b" and "a \<in> set call_actions" and "b \<in> set call_actions"
  shows "c = d \<and> a = b"
proof -
  have "quote c @ a = quote d @ b" using assms(1) by (simp add: call_path_def)
  from split_at_slash [OF this quote_no_slash quote_no_slash call_action_slash [OF assms(2)] call_action_slash [OF assms(3)]]
  show ?thesis using quote_inj by blast
qed

lemma on_call_paths:
  "a \<in> set call_actions \<Longrightarrow> on_call c (api_request m (call_path c a) b q k)"
  "a \<in> set call_actions \<Longrightarrow> on_call c (command fresh m (call_path c a) d key)"
  by (auto simp: on_call_def api_request_def command_def Let_def)

lemma action_members:
  "[] \<in> set call_actions" "''/answer'' \<in> set call_actions" "''/reject'' \<in> set call_actions" "''/hangup'' \<in> set call_actions"
  "''/bridges'' \<in> set call_actions" "''/media'' \<in> set call_actions" "''/headers'' \<in> set call_actions"
  "''/transfer'' \<in> set call_actions" "''/hold'' \<in> set call_actions" "''/unhold'' \<in> set call_actions"
  "''/dtmf'' \<in> set call_actions" "''/identity'' \<in> set call_actions" "''/rtp'' \<in> set call_actions"
  "''/route'' \<in> set call_actions" "''/sip'' \<in> set call_actions" "''/charge'' \<in> set call_actions"
  "''/charge-deny'' \<in> set call_actions" "''/tags'' \<in> set call_actions" "''/flow'' \<in> set call_actions"
  by (simp_all add: call_actions_def)

lemmas on_call_intros = on_call_paths [OF action_members(1)] on_call_paths [OF action_members(2)]
  on_call_paths [OF action_members(3)] on_call_paths [OF action_members(4)] on_call_paths [OF action_members(5)]
  on_call_paths [OF action_members(6)] on_call_paths [OF action_members(7)] on_call_paths [OF action_members(8)]
  on_call_paths [OF action_members(9)] on_call_paths [OF action_members(10)] on_call_paths [OF action_members(11)]
  on_call_paths [OF action_members(12)] on_call_paths [OF action_members(13)] on_call_paths [OF action_members(14)]
  on_call_paths [OF action_members(15)] on_call_paths [OF action_members(16)] on_call_paths [OF action_members(17)]
  on_call_paths [OF action_members(18)] on_call_paths [OF action_members(19)]

text \<open>C24: an operation on a call addresses that call and no other, whatever characters the call-id has:
  its path is the calls collection, the quoted call-id as one segment, and the action; the segment has
  no slash, question mark, hash or line break and decodes to the call-id; and a request that is
  addressed to one call-id is addressed to no other.\<close>

theorem call_requests_address_their_call:
  "on_call c (get_call c) \<and> on_call c (answer_call fresh c sdp key) \<and> on_call c (reject_call fresh c code reason key)
    \<and> on_call c (hangup_call fresh c reason key) \<and> on_call c (bridge_call fresh c channels key)
    \<and> on_call c (media fresh c operation resource key) \<and> on_call c (set_headers fresh c hdrs key)
    \<and> on_call c (transfer_call fresh c target typ oc key) \<and> on_call c (hold_call fresh c key)
    \<and> on_call c (unhold_call fresh c key) \<and> on_call c (send_dtmf fresh c digit duration key)
    \<and> on_call c (identity fresh c action ident attest key) \<and> on_call c (rtp_control fresh c action s ft tt flags key)
    \<and> on_call c (route_call fresh c target transport key mode cu ci cn pai privacy)
    \<and> on_call c (sip_inspect c) \<and> on_call c (charge_authorize c) \<and> on_call c (charge_deny c)
    \<and> on_call c (tag_call c tags) \<and> on_call c (set_call_flow fresh c steps key)
    \<and> (on_call c call \<and> on_call d call \<longrightarrow> c = d)
    \<and> set (quote c) \<inter> {CHR ''/'', CHR ''?'', CHR ''#'', cr, lf} = {} \<and> percent_decode (quote c) = encode_utf8 c"
proof -
  have "c = d" if "on_call c call" "on_call d call"
    using that call_path_inj unfolding on_call_def by metis
  moreover have "set (quote c) \<inter> {CHR ''/'', CHR ''?'', CHR ''#'', cr, lf} = {}"
    using quote_chars [of c] reserved_chars by (auto simp: list_all_iff)
  moreover have "percent_decode (quote c) = encode_utf8 c"
    using percent_decode_quote [of c "[]"] by simp
  ultimately show ?thesis
    unfolding api_defs by (intro conjI on_call_intros impI) auto
qed

theorem call_requests_address_their_call_witness:
  "on_call ''a/../b'' (get_call ''a/../b'') \<and> \<not> on_call ''b'' (get_call ''a/../b'')"
  using call_requests_address_their_call [where c = "''a/../b''" and d = "''b''" and call = "get_call ''a/../b''"]
  by auto

subsection \<open>What requests carry\<close>

definition carries_key :: "string \<Rightarrow> api_call \<Rightarrow> bool" where
  "carries_key key call \<longleftrightarrow> idempotency_key call = Some key
     \<and> (\<exists>d. body call = Some (JObj d) \<and> map_of d ''command_id'' = Some (JStr key))"

lemma command_carries_key: "map_of d ''command_id'' = None \<Longrightarrow> carries_key (command_key fresh key) (command fresh m p d key)"
  by (simp add: carries_key_def command_def api_request_def set_default_def Let_def map_add_def)

lemma opts_no_command_id [simp]:
  "map_of (opt k v) ''command_id'' = None \<longleftrightarrow> k \<noteq> ''command_id'' \<or> v = None"
  "map_of (opt_json k w) ''command_id'' = None \<longleftrightarrow> k \<noteq> ''command_id'' \<or> w = None"
  "map_of (opt_int k n) ''command_id'' = None \<longleftrightarrow> k \<noteq> ''command_id'' \<or> n = None"
  by (auto simp: opt_def opt_json_def opt_int_def split: option.splits)

text \<open>C25: every command carries one idempotency key, the same in the \<open>Idempotency-Key\<close> header and as
  \<open>command_id\<close> in the body: the caller's if it gave a non-empty one, and a fresh identifier otherwise. So a
  command repeated with its key is the same request, header and body.\<close>

theorem commands_carry_their_key:
  fixes fresh :: string and key :: "string option"
  defines "k \<equiv> command_key fresh key"
  shows "carries_key k (create_call fresh from_uri to_uri data key cu ci cn pai privacy) \<and> carries_key k (answer_call fresh c sdp key)
    \<and> carries_key k (reject_call fresh c code reason key) \<and> carries_key k (hangup_call fresh c reason key)
    \<and> carries_key k (bridge_call fresh c channels key) \<and> carries_key k (media fresh c operation resource key)
    \<and> carries_key k (set_headers fresh c hdrs key) \<and> carries_key k (transfer_call fresh c target typ oc key)
    \<and> carries_key k (hold_call fresh c key) \<and> carries_key k (unhold_call fresh c key)
    \<and> carries_key k (send_dtmf fresh c digit duration key) \<and> carries_key k (identity fresh c action ident attest key)
    \<and> carries_key k (rtp_control fresh c action s ft tt flags key)
    \<and> carries_key k (route_call fresh c target transport key mode cu ci cn pai privacy)
    \<and> carries_key k (set_call_flow fresh c steps key)
    \<and> (carries_key k call \<and> prepare maf call = Inr request \<longrightarrow>
         map_of (call_headers request) ''Idempotency-Key'' = Some k)"
proof -
  have "map_of (call_headers request) ''Idempotency-Key'' = Some k"
    if "carries_key k call" "prepare maf call = Inr request"
    using that by (auto simp: carries_key_def prepare_def Let_def split: if_splits option.splits)
  then show ?thesis
    unfolding api_defs k_def by (intro conjI impI command_carries_key) auto
qed

theorem commands_carry_their_key_witness:
  "carries_key ''k-1'' (hold_call ''u-1'' ''c'' (Some ''k-1'')) \<and> carries_key ''u-1'' (hold_call ''u-1'' ''c'' None)
    \<and> (\<exists>request. prepare lab_maf (hold_call ''u-1'' ''c'' (Some ''k-1'')) = Inr request
         \<and> map_of (call_headers request) ''Idempotency-Key'' = Some ''k-1'')"
proof -
  have "length (encode_utf8 (json_raw (JObj [(''command_id'', JStr ''k-1'')]))) \<le> MAX_BODY"
    by (simp add: json_raw_string_def json_raw_char_def json_char_def encode_utf8_ascii MAX_BODY_def)
  then obtain request where "prepare lab_maf (hold_call ''u-1'' ''c'' (Some ''k-1'')) = Inr request"
    by (simp add: hold_call_def command_def command_key_def api_request_def set_default_def prepare_def Let_def)
  with commands_carry_their_key [where fresh = "''u-1''" and key = "Some ''k-1''" and c = "''c''" and maf = lab_maf
      and call = "hold_call ''u-1'' ''c'' (Some ''k-1'')" and request = request]
    commands_carry_their_key [where fresh = "''u-1''" and key = None and c = "''c''"]
  show ?thesis by (auto simp: command_key_def)
qed

text \<open>C26: a call of the client returns a value exactly when its request was built, answered with a status
  of 200 to 299, and its body could be decoded; an HTTP error, another status or an unreachable server
  is a \<open>MafError\<close> with the status (0 if there is none) and what was decoded; and a body above 64 KiB is
  refused with \<open>ValueError\<close>, whatever the network would do.\<close>

theorem request_outcomes:
  "(perform loads text urlopen maf call = Inr v \<longleftrightarrow>
      (\<exists>request status raw. prepare maf call = Inr request \<and> urlopen request = Response status raw
         \<and> 200 \<le> status \<and> status < 300 \<and> decode_body loads text raw = Inr v))
   \<and> (perform loads text urlopen maf call = Inl (MafError code w) \<longleftrightarrow>
      (\<exists>request raw reason. prepare maf call = Inr request
         \<and> (urlopen request = HTTPError code raw \<and> decode_body loads text raw = Inr w
            \<or> urlopen request = Response code raw \<and> \<not> (200 \<le> code \<and> code < 300) \<and> decode_body loads text raw = Inr w
            \<or> urlopen request = URLError reason \<and> code = 0 \<and> w = JStr reason)))
   \<and> ((\<exists>b. body call = Some b \<and> length (encode_utf8 (json_raw b)) > MAX_BODY) \<longleftrightarrow>
      prepare maf call = Inl (ValueError ''MAF request body exceeds 64 KiB''))"
proof -
  have "perform loads text urlopen maf call = Inr v \<longleftrightarrow>
      (\<exists>request status raw. prepare maf call = Inr request \<and> urlopen request = Response status raw
         \<and> 200 \<le> status \<and> status < 300 \<and> decode_body loads text raw = Inr v)"
    by (auto simp: perform_def finish_def lift_exn_def bindE_Inr_iff not_less not_le split: sum.splits outcome.splits if_splits)
  moreover have "perform loads text urlopen maf call = Inl (MafError code w) \<longleftrightarrow>
      (\<exists>request raw reason. prepare maf call = Inr request
         \<and> (urlopen request = HTTPError code raw \<and> decode_body loads text raw = Inr w
            \<or> urlopen request = Response code raw \<and> \<not> (200 \<le> code \<and> code < 300) \<and> decode_body loads text raw = Inr w
            \<or> urlopen request = URLError reason \<and> code = 0 \<and> w = JStr reason))"
    by (auto simp: perform_def finish_def lift_exn_def bindE_Inl_iff split: sum.splits outcome.splits if_splits)
  moreover have "(\<exists>b. body call = Some b \<and> length (encode_utf8 (json_raw b)) > MAX_BODY) \<longleftrightarrow>
      prepare maf call = Inl (ValueError ''MAF request body exceeds 64 KiB'')"
    by (auto simp: prepare_def Let_def split: option.splits if_splits)
  ultimately show ?thesis by blast
qed



subsection \<open>The event feed\<close>


lemma lab_log_numbered: "numbered lab_log"
proof -
  have "(10 :: int) ^ 1 \<le> 10 ^ MAX_STR_DIGITS" by (rule power_increasing) (simp_all add: MAX_STR_DIGITS_def)
  then show ?thesis by (simp add: numbered_def lab_log_def)
qed


subsection \<open>The examples on the fabric's feed\<close>

lemma attempts_calls:
  "create_attempts respond fresh f t r = (calls, res) \<Longrightarrow> call \<in> set calls \<Longrightarrow>
   \<exists>i. call = create_call (fresh i) f t None None None None None None None"
proof (induction respond fresh f t r arbitrary: calls res rule: create_attempts.induct)
  case (1 respond fresh f t r)
  show ?case
  proof (cases "\<exists>code v. respond r (create_call (fresh r) f t None None None None None None None) = Inl (MafError code v) \<and> \<not> MAX_RETRIES \<le> r + 1")
    case True
    then obtain code v where m: "respond r (create_call (fresh r) f t None None None None None None None) = Inl (MafError code v)"
      "\<not> MAX_RETRIES \<le> r + 1" by blast
    obtain calls' res' where rest: "create_attempts respond fresh f t (r + 1) = (calls', res')"
      by (cases "create_attempts respond fresh f t (r + 1)")
    have "calls = create_call (fresh r) f t None None None None None None None # calls'"
      using "1.prems"(1) m rest by (subst (asm) create_attempts.simps) (simp add: Let_def)
    then show ?thesis using "1.IH" [OF refl m(1) refl m(2) rest] "1.prems"(2) by auto
  next
    case False
    then show ?thesis using "1.prems"
      by (subst (asm) create_attempts.simps) (auto simp: Let_def split: sum.splits maf_exn.splits if_splits)
  qed
qed

lemma attempts_from:
  "create_attempts respond fresh f t r = (calls, res) \<Longrightarrow> r < MAX_RETRIES \<Longrightarrow>
   0 < length calls \<and> r + length calls \<le> MAX_RETRIES
   \<and> map idempotency_key calls = map (\<lambda>i. Some (fresh i)) [r..<r + length calls]
   \<and> (res = Inl (Exit 1) \<longrightarrow> r + length calls = MAX_RETRIES \<and> (\<exists>code v. respond 2 (last calls) = Inl (MafError code v)))"
proof (induction respond fresh f t r arbitrary: calls res rule: create_attempts.induct)
  case (1 respond fresh f t r)
  let ?call = "create_call (fresh r) f t None None None None None None None"
  have k: "idempotency_key ?call = Some (fresh r)"
    by (simp add: create_call_def command_def command_key_def api_request_def Let_def)
  show ?case
  proof (cases "\<exists>code v. respond r ?call = Inl (MafError code v) \<and> r + 1 < MAX_RETRIES")
    case True
    then obtain code v where m: "respond r ?call = Inl (MafError code v)" "r + 1 < MAX_RETRIES" by blast
    obtain calls' res' where rest: "create_attempts respond fresh f t (r + 1) = (calls', res')"
      by (cases "create_attempts respond fresh f t (r + 1)")
    have c: "calls = ?call # calls'" "res = res'"
      using "1.prems"(1) m rest by (subst (asm) create_attempts.simps, simp add: Let_def)+
    from "1.IH" [OF refl m(1) refl _ rest] m(2) have ih: "0 < length calls' \<and> r + 1 + length calls' \<le> MAX_RETRIES
      \<and> map idempotency_key calls' = map (\<lambda>i. Some (fresh i)) [r + 1..<r + 1 + length calls']
      \<and> (res' = Inl (Exit 1) \<longrightarrow> r + 1 + length calls' = MAX_RETRIES \<and> (\<exists>code v. respond 2 (last calls') = Inl (MafError code v)))"
      by simp
    have u: "[r..<r + length calls] = r # [r + 1..<r + 1 + length calls']"
      using c by (simp add: upt_conv_Cons del: upt_Suc)
    show ?thesis unfolding u using ih k c by (auto simp del: upt_Suc)
  next
    case False
    then show ?thesis
      using "1.prems" k by (subst (asm) create_attempts.simps)
        (auto simp: Let_def MAX_RETRIES_def not_less less_Suc_eq eval_nat_numeral split: sum.splits maf_exn.splits if_splits prod.splits)
  qed
qed

text \<open>\<open>click_to_call\<close> makes one to three attempts to create the call, and each carries a new
  idempotency key: if an attempt fails after the fabric has taken the command, the next one is another
  call. It gives up with exit code 1 after the third failure.\<close>

theorem retries_are_new_commands:
  assumes "create_attempts respond fresh from_uri to_uri 0 = (calls, res)" and "inj fresh"
  shows "1 \<le> length calls \<and> length calls \<le> 3 \<and> distinct (map idempotency_key calls)
    \<and> (\<forall>call \<in> set calls. \<exists>i. call = create_call (fresh i) from_uri to_uri None None None None None None None)
    \<and> (res = Inl (Exit 1) \<longrightarrow> length calls = 3)"
proof -
  note a = attempts_from [OF assms(1)]
  have m: "map idempotency_key calls = map (\<lambda>i. Some (fresh i)) [0..<length calls]"
    using a by (simp add: MAX_RETRIES_def)
  have "distinct (map (\<lambda>i. Some (fresh i)) [0..<length calls])"
    using assms(2) by (simp add: distinct_map inj_on_def)
  then have "distinct (map idempotency_key calls)" by (simp only: m)
  then show ?thesis using a attempts_calls [OF assms(1)] by (auto simp: MAX_RETRIES_def Suc_le_eq)
qed

theorem retries_are_new_commands_witness:
  "\<exists>calls. create_attempts (\<lambda>i _. if i = 0 then Inl (MafError 504 JNull) else Inr JNull) (\<lambda>i. replicate (Suc i) CHR ''u'') ''a'' ''b'' 0
      = (calls, Inr JNull) \<and> distinct (map idempotency_key calls) \<and> length calls = 2"
proof -
  let ?r = "\<lambda>i _. if i = 0 then Inl (MafError 504 JNull) else Inr JNull"
  let ?f = "\<lambda>i. replicate (Suc i) CHR ''u''"
  have "\<exists>calls. create_attempts ?r ?f ''a'' ''b'' 0 = (calls, Inr JNull) \<and> length calls = 2"
    by (simp add: create_attempts.simps MAX_RETRIES_def Let_def)
  then obtain calls where c: "create_attempts ?r ?f ''a'' ''b'' 0 = (calls, Inr JNull)" "length calls = 2" by blast
  have "inj ?f"
  proof (rule injI)
    fix i j
    assume "?f i = ?f j"
    from arg_cong [OF this, of length] show "i = j" by simp
  qed
  from retries_are_new_commands [OF c(1) this] c show ?thesis by blast
qed

lemma issue_result:
  "issue respond fresh cmd app = (calls, x, app') \<Longrightarrow>
   calls = [cmd (fresh (commands app))] \<and> ivr_sessions app' = ivr_sessions app"
  by (auto simp: issue_def Let_def split: sum.splits maf_exn.splits)

lemma drop_session_result:
  "drop_session c r = (calls, x, app') \<Longrightarrow>
   calls = fst r \<and> (\<forall>d. d \<noteq> c \<longrightarrow> map_of (ivr_sessions app') d = map_of (ivr_sessions (snd (snd r))) d)"
  by (cases r; cases "fst (snd r)") (auto simp: drop_session_def AList.delete_conv')

text \<open>What one event may do: touch the session of its own call, and make one request on that call.\<close>

definition own_call_only :: "json \<Rightarrow> IvrApp \<Rightarrow> ivr_result \<Rightarrow> bool" where
  "own_call_only event app r \<longleftrightarrow>
     (case r of (calls, x, app') \<Rightarrow>
        (calls = [] \<or> (\<exists>c call. page_get event ''call_id'' (JStr []) = JStr c \<and> calls = [call] \<and> on_call c call))
        \<and> (\<forall>c. page_get event ''call_id'' (JStr []) \<noteq> JStr c \<longrightarrow>
             map_of (ivr_sessions app') c = map_of (ivr_sessions app) c))"

lemma own_call_only_idle [simp]: "own_call_only event app ([], x, app)"
  by (simp add: own_call_only_def)

lemma own_call_only_issue:
  assumes "page_get event ''call_id'' (JStr []) = JStr c" and "\<And>u. on_call c (cmd u)"
    and "\<And>d. d \<noteq> c \<Longrightarrow> map_of (ivr_sessions app1) d = map_of (ivr_sessions app) d"
  shows "own_call_only event app (issue respond fresh cmd app1)"
    and "own_call_only event app (drop_session c (issue respond fresh cmd app1))"
proof -
  obtain calls x app2 where i: "issue respond fresh cmd app1 = (calls, x, app2)"
    by (cases "issue respond fresh cmd app1")
  note r = issue_result [OF i]
  show "own_call_only event app (issue respond fresh cmd app1)"
    using assms r i by (auto simp: own_call_only_def)
  obtain calls' x' app3 where d: "drop_session c (issue respond fresh cmd app1) = (calls', x', app3)"
    by (cases "drop_session c (issue respond fresh cmd app1)")
  show "own_call_only event app (drop_session c (issue respond fresh cmd app1))"
    using assms r i d drop_session_result [OF d] by (auto simp: own_call_only_def)
qed

lemma ivr_commands_on_call:
  "on_call c (reject_call u c code reason key)" "on_call c (answer_call u c sdp key)"
  "on_call c (transfer_call u c target typ oc key)" "on_call c (hangup_call u c reason key)"
  "on_call c (media u c operation resource key)"
  unfolding api_defs by (rule on_call_intros)+

lemma created_own: "own_call_only event app (on_call_created respond fresh loads now event app)"
  by (auto simp: on_call_created_def update_conv' ivr_commands_on_call
      intro!: own_call_only_issue(1) split: json.splits)

lemma dtmf_own: "own_call_only event app (on_dtmf respond fresh loads event app)"
  by (auto simp: on_dtmf_def menu_choice_def Let_def ivr_commands_on_call
      intro!: own_call_only_issue split: json.splits option.splits)

lemma ended_own: "own_call_only event app (on_call_ended event app)"
  by (auto simp: on_call_ended_def own_call_only_def AList.delete_conv' split: json.splits)

text \<open>C29: the voice menu keeps its calls apart: an event makes at most one request, which is on the call the
  event is about, and leaves the sessions of all other calls as they are; and a key press on a call
  without a session makes no request.\<close>

theorem voice_menu_keeps_calls_apart:
  "own_call_only event app (process_event respond fresh loads now event app)
   \<and> (page_get event ''type'' (JStr []) = JStr ''call.dtmf'' \<and> page_get event ''call_id'' (JStr []) = JStr c
       \<and> map_of (ivr_sessions app) c = None \<longrightarrow>
      fst (process_event respond fresh loads now event app) = [])"
proof
  show "own_call_only event app (process_event respond fresh loads now event app)"
    by (auto simp: process_event_def Let_def created_own dtmf_own ended_own split: json.splits)
  show "page_get event ''type'' (JStr []) = JStr ''call.dtmf'' \<and> page_get event ''call_id'' (JStr []) = JStr c
       \<and> map_of (ivr_sessions app) c = None \<longrightarrow> fst (process_event respond fresh loads now event app) = []"
    by (auto simp: process_event_def on_dtmf_def Let_def split: json.splits)
qed

theorem voice_menu_keeps_calls_apart_witness:
  "fst (process_event (\<lambda>_ _. Inr JNull) (\<lambda>_. ''u'') (\<lambda>_. Inr JNull) 0
     (JObj [(''type'', JStr ''call.dtmf''), (''call_id'', JStr ''c''), (''payload'', JObj [(''digit'', JStr ''1'')])])
     \<lparr>answer_sdp = [], ivr_sessions = [], commands = 0\<rparr>) = []"
  using voice_menu_keeps_calls_apart
    [of "JObj [(''type'', JStr ''call.dtmf''), (''call_id'', JStr ''c''), (''payload'', JObj [(''digit'', JStr ''1'')])]"
      "\<lparr>answer_sdp = [], ivr_sessions = [], commands = 0\<rparr>" "\<lambda>_ _. Inr JNull" "\<lambda>_. ''u''" "\<lambda>_. Inr JNull" 0 "''c''"]
  by (simp add: page_get_def)

text \<open>How the fabric serves its feed: every page has its next cursor as text.\<close>

definition serves :: "(int \<times> json) list \<Rightarrow> (api_call \<Rightarrow> json maf_result) \<Rightarrow> bool" where
  "serves log respond \<longleftrightarrow>
     (\<forall>call. (\<exists>code v. respond call = Inl (MafError code v)) \<or> (\<exists>c k. respond call = Inr (page_of log c k)))"

definition untyped :: "(int \<times> json) list \<Rightarrow> bool" where
  "untyped log \<longleftrightarrow> (\<forall>(n, e) \<in> set log. \<exists>d. e = JObj d \<and> map_of d ''type'' = None)"

lemma events_text [simp]: "events (JStr s) event_type limit = Inl TypeError"
  by (simp add: events_def max_zero_def)

lemma events_int: "\<exists>call. events (JInt n) event_type limit = Inr call"
  by (simp add: events_def max_zero_def)

lemma page_of_parts:
  "bindE (get_attr (page_of log c k) ''events'' (JList [])) iterate = Inr (map snd (take k (after log c)))"
  "iterate (page_events (page_of log c k)) = Inr (map snd (take k (after log c)))"
  "\<exists>s. page_get (page_of log c k) ''next_cursor'' v = JStr s"
  by (simp_all add: get_attr_def page_of_def page_get_def iterate_def page_events_def Let_def)

lemma servesE:
  assumes "serves log respond"
  obtains code v where "respond call = Inl (MafError code v)" | c k where "respond call = Inr (page_of log c k)"
  using assms unfolding serves_def by blast

lemma monitor_stuck: "monitor_run event_type rs (JStr s) = ([], Running (JStr s))"
  by (induction rs) (simp_all add: monitor_turn_def)

lemma ivr_stuck: "ivr_run respond fresh loads now ps (JStr s) app = ([], Running (JStr s), app)"
  by (induction ps) (simp_all add: ivr_turn_def)

lemma monitor_first_page:
  "\<forall>respond \<in> set rs. serves log respond \<Longrightarrow>
   \<exists>c k cursor. monitor_run event_type rs (JInt n) = (map json_raw (map snd (take k (after log c))), Running cursor)"
proof (induction rs)
  case Nil
  have "take 0 (after log 0) = []" by simp
  then show ?case by (metis list.simps(8) monitor_run.simps(1))
next
  case (Cons respond rs)
  obtain call where call: "events (JInt n) event_type 100 = Inr call" using events_int by blast
  have "serves log respond" using Cons.prems by simp
  then show ?case
  proof (rule servesE [of _ _ call])
    fix code v
    assume "respond call = Inl (MafError code v)"
    then show ?thesis using Cons by (simp add: monitor_turn_def call)
  next
    fix c k
    assume r: "respond call = Inr (page_of log c k)"
    obtain s where s: "page_get (page_of log c k) ''next_cursor'' (JInt n) = JStr s" using page_of_parts(3) by blast
    have "monitor_turn event_type respond (JInt n) = (map json_raw (map snd (take k (after log c))), Running (JStr s))"
      by (simp add: monitor_turn_def call r page_of_parts(1) s py_ne_def)
    then have "monitor_run event_type (respond # rs) (JInt n) = (map json_raw (map snd (take k (after log c))), Running (JStr s))"
      by (simp add: monitor_stuck)
    then show ?thesis by blast
  qed
qed

lemma untyped_page:
  assumes "untyped log" and "e \<in> set (map snd (take k (after log c)))"
  obtains d where "e = JObj d" and "map_of d ''type'' = None"
proof -
  from assms(2) obtain n where "(n, e) \<in> set log"
    by (auto simp: after_def dest!: in_set_takeD)
  then show thesis using assms(1) that by (auto simp: untyped_def)
qed

lemma process_untyped:
  "\<forall>e \<in> set es. \<exists>d. e = JObj d \<and> map_of d ''type'' = None \<Longrightarrow> process_events respond fresh loads now es app = ([], None, app)"
  by (induction es) (auto simp: process_event_def page_get_def)

lemma scan_untyped:
  "\<forall>e \<in> set es. \<exists>d. e = JObj d \<and> map_of d ''type'' = None \<Longrightarrow> scan_events call_id es = None"
  by (induction es) (auto simp: page_get_def Let_def)

lemma ivr_idle:
  assumes "untyped log"
  shows "\<forall>poll \<in> set ps. serves log poll \<Longrightarrow> \<exists>cursor. ivr_run respond fresh loads now ps (JInt n) app = ([], Running cursor, app)"
proof (induction ps)
  case (Cons poll ps)
  obtain call where call: "events (JInt n) None 100 = Inr call" using events_int by blast
  have "serves log poll" using Cons.prems by simp
  then show ?case
  proof (rule servesE [of _ _ call])
    fix code v
    assume "poll call = Inl (MafError code v)"
    then show ?thesis using Cons by (simp add: ivr_turn_def call)
  next
    fix c k
    assume r: "poll call = Inr (page_of log c k)"
    obtain s where s: "page_get (page_of log c k) ''next_cursor'' (JInt n) = JStr s" using page_of_parts(3) by blast
    have "process_events respond fresh loads now (map snd (take k (after log c))) app = ([], None, app)"
      by (rule process_untyped) (metis untyped_page [OF assms])
    then have "ivr_turn respond fresh loads now poll (JInt n) app = ([], Running (JStr s), app)"
      by (simp add: ivr_turn_def call r page_of_parts(2) s py_ne_def)
    then show ?thesis by (simp add: ivr_stuck)
  qed
qed simp

lemma poll_never_decides:
  assumes "untyped log"
  shows "\<forall>respond \<in> set rs. serves log respond \<Longrightarrow> poll_outcome call_id rs (JInt n) \<in> {Exit 2, Uncaught TypeError}"
proof (induction rs)
  case (Cons respond rs)
  obtain call where call: "events (JInt n) None 100 = Inr call" using events_int by blast
  have "serves log respond" using Cons.prems by simp
  then show ?case
  proof (rule servesE [of _ _ call])
    fix code v
    assume "respond call = Inl (MafError code v)"
    then show ?thesis using Cons by (simp add: call)
  next
    fix c k
    assume r: "respond call = Inr (page_of log c k)"
    obtain s where s: "page_get (page_of log c k) ''next_cursor'' (JInt n) = JStr s" using page_of_parts(3) by blast
    have "scan_events call_id (map snd (take k (after log c))) = None"
      by (rule scan_untyped) (metis untyped_page [OF assms])
    then have "poll_outcome call_id (respond # rs) (JInt n) = poll_outcome call_id rs (JStr s)"
      by (simp add: call r page_of_parts(1) s)
    then show ?thesis by (cases rs) simp_all
  qed
qed simp

text \<open>C30: the examples do not work on the feed of the fabric, which names the kind of an event
  \<open>event_type\<close> and sends the next cursor as text. The monitor prints one page and then nothing, since
  the text cursor raises \<open>TypeError\<close> in every later poll; the voice menu makes no request and opens no
  session; and click-to-call never learns the outcome of its call: it times out or dies of the \<open>TypeError\<close>.\<close>

theorem examples_stall_on_the_feed:
  assumes "\<forall>respond \<in> set rs. serves log respond"
  shows "(\<exists>c k cursor. monitor_run event_type rs (JInt n) = (map json_raw (map snd (take k (after log c))), Running cursor))
    \<and> monitor_run event_type later (JStr s) = ([], Running (JStr s))
    \<and> (untyped log \<longrightarrow>
        (\<exists>cursor. ivr_run respond fresh loads now rs (JInt n) app = ([], Running cursor, app))
        \<and> poll_outcome call_id rs (JInt n) \<in> {Exit 2, Uncaught TypeError})"
  using monitor_first_page [OF assms] monitor_stuck ivr_idle [OF _ assms] poll_never_decides [OF _ assms] by blast

theorem examples_stall_on_the_feed_witness:
  "poll_outcome (JStr ''c'') [\<lambda>_. Inr (page_of lab_log 0 9), \<lambda>_. Inr (page_of lab_log 0 9)] (JInt 0) \<in> {Exit 2, Uncaught TypeError}"
proof -
  let ?rs = "[\<lambda>_. Inr (page_of lab_log 0 9), \<lambda>_. Inr (page_of lab_log 0 9)] :: (api_call \<Rightarrow> json maf_result) list"
  have "\<forall>respond \<in> set ?rs. serves lab_log respond" by (auto simp: serves_def)
  moreover have "untyped lab_log" by (simp add: untyped_def lab_log_def)
  ultimately show ?thesis using examples_stall_on_the_feed [of ?rs lab_log] by blast
qed

end
