(* ===== verification/Mmtel_As.thy ===== *)
theory Mmtel_As
  imports Py_Json Sip_Text
begin

section \<open>The lab telephony application server\<close>

text \<open>
  \<^verbatim>\<open>lab/mmtel_as.py\<close>: header access, \<open>build_response\<close>, \<open>identity_from_from\<close> and \<open>handle\<close>, and one turn of the
  loop of \<open>main\<close>, which prints every exception and goes on. A message is a text of code points below
  256; \<open>text\<close> is \<open>decode("utf-8", errors="replace")\<close>. The rules are the JSON object of the seed file.
\<close>

definition sip_header :: "string \<Rightarrow> string \<Rightarrow> string" where
  "sip_header msg name =
     (case List.find (\<lambda>line. starts_with (lower name @ '':'') (lower line)) (split_crlf msg) of
        None \<Rightarrow> []
      | Some line \<Rightarrow> strip (after_colon line))"

definition sip_request_uri :: "string \<Rightarrow> string" where
  "sip_request_uri msg =
     (let parts = split_words (hd (split_crlf msg)) in if length parts \<ge> 2 then parts ! 1 else [])"

definition sip_method :: "string \<Rightarrow> string" where
  "sip_method msg =
     (let first = hd (split_crlf msg) in if first = [] then [] else upper (takeWhile (\<lambda>c. c \<noteq> CHR '' '') first))"

text \<open>\<open>extra.rstrip("\r\n")\<close>\<close>

definition rstrip_crlf :: "string \<Rightarrow> string" where
  "rstrip_crlf s = rev (dropWhile (\<lambda>c. c \<in> {cr, lf}) (rev s))"

definition response_to :: "string \<Rightarrow> int \<Rightarrow> string" where
  "response_to req code =
     (let to_h = sip_header req ''To''
      in if \<not> contains '';tag='' (lower to_h) \<and> code \<ge> 180 then to_h @ '';tag=mmtel-lab'' else to_h)"

definition response_lines :: "string \<Rightarrow> int \<Rightarrow> string \<Rightarrow> string \<Rightarrow> string list" where
  "response_lines req code reason extra =
     (let via = sip_header req ''Via''
      in [''SIP/2.0 '' @ dec_str code @ '' '' @ reason,
          (if via \<noteq> [] then ''Via: '' @ via else ''Via: SIP/2.0/UDP 127.0.0.1''),
          ''From: '' @ sip_header req ''From'',
          ''To: '' @ response_to req code,
          ''Call-ID: '' @ sip_header req ''Call-ID'',
          ''CSeq: '' @ sip_header req ''CSeq'']
         @ (if extra \<noteq> [] then [rstrip_crlf extra] else [])
         @ [''Content-Length: 0'', [], []])"

definition build_response :: "string \<Rightarrow> int \<Rightarrow> string \<Rightarrow> string \<Rightarrow> bytes" where
  "build_response req code reason extra = encode_utf8 (join crlf (response_lines req code reason extra))"

text \<open>\<open>raw[raw.index("<") + 1 : raw.index(">")]\<close>, and what stands before a semicolon.\<close>

definition before :: "char \<Rightarrow> string \<Rightarrow> string" where
  "before c s = takeWhile (\<lambda>x. x \<noteq> c) s"

definition identity_from_from :: "string \<Rightarrow> string" where
  "identity_from_from msg =
     (let raw = sip_header msg ''From''
      in case (index_of CHR ''<'' raw, index_of CHR ''>'' raw) of
           (Some i, Some j) \<Rightarrow> strip (before CHR '';'' (py_slice raw (Suc i) j))
         | _ \<Rightarrow> strip (before CHR '';'' raw))"

text \<open>\<open>rules.get(caller) or rules.get(caller.lower()) or {}\<close>\<close>

definition profile_of :: "json_dict \<Rightarrow> string \<Rightarrow> json" where
  "profile_of rules caller =
     (case map_of rules caller of
        Some p \<Rightarrow> if truthy p then p
                  else (case map_of rules (lower caller) of Some q \<Rightarrow> if truthy q then q else JObj [] | None \<Rightarrow> JObj [])
      | None \<Rightarrow> (case map_of rules (lower caller) of Some q \<Rightarrow> if truthy q then q else JObj [] | None \<Rightarrow> JObj []))"

definition field :: "json_dict \<Rightarrow> string \<Rightarrow> json" where
  "field d k = (case map_of d k of None \<Rightarrow> JNull | Some v \<Rightarrow> v)"

definition handle_sip :: "string \<Rightarrow> json_dict \<Rightarrow> bytes result" where
  "handle_sip msg rules =
     (let m = sip_method msg
      in if m = ''REGISTER'' then Inr (build_response msg 200 ''OK'' ''Contact: <sip:mmtel-as@lab>;expires=3600'')
         else if m = ''OPTIONS'' then Inr (build_response msg 200 ''OK'' ''Allow: INVITE, ACK, BYE, CANCEL, OPTIONS, REGISTER'')
         else if m \<noteq> ''INVITE'' then Inr (build_response msg 405 ''Method Not Allowed'' [])
         else case profile_of rules (identity_from_from msg) of
           JObj profile \<Rightarrow>
             if truthy (field profile ''barring_mo'') then Inr (build_response msg 603 ''Decline'' [])
             else if truthy (field profile ''cfu'') then
               (case field profile ''cfu'' of
                  JStr target \<Rightarrow>
                    let cfu = strip target
                    in if cfu \<noteq> [] then Inr (build_response msg 302 ''Moved Temporarily'' (''Contact: <'' @ cfu @ ''>''))
                       else Inr (build_response msg 200 ''OK'' ''Contact: <sip:mmtel-as@lab>'')
                | _ \<Rightarrow> Inl AttributeError)
             else Inr (build_response msg 200 ''OK'' ''Contact: <sip:mmtel-as@lab>'')
         | _ \<Rightarrow> Inl AttributeError)"

text \<open>One turn of the loop: the datagram that is sent back, if any.\<close>

definition serve_datagram :: "(bytes \<Rightarrow> string) \<Rightarrow> json_dict \<Rightarrow> bytes \<Rightarrow> bytes option" where
  "serve_datagram text rules data =
     (case handle_sip (text data) rules of
        Inl _ \<Rightarrow> None
      | Inr resp \<Rightarrow> if resp = [] then None else Some resp)"

subsection \<open>Responses carry the headers of their request\<close>

lemma lower_append [simp]: "lower (s @ t) = lower s @ lower t"
  by (simp add: lower_def)

lemma find_filter: "List.find p xs = (case filter p xs of [] \<Rightarrow> None | x # _ \<Rightarrow> Some x)"
  by (induction xs) auto

text \<open>The header that is read is the first of its values.\<close>

lemma sip_header_values:
  "sip_header msg name = (case header_values lower_char is_space msg name of [] \<Rightarrow> [] | v # _ \<Rightarrow> v)"
  by (simp add: sip_header_def header_values_def find_filter lower_def strip_def split: list.splits)

lemma sip_header_no_crlf: "no_crlf (sip_header msg name)"
  using header_value_no_crlf [of _ lower_char is_space msg name] by (auto simp: sip_header_values split: list.splits)

lemma sip_header_stripped: "strip (sip_header msg name) = sip_header msg name"
  using header_value_stripped [of _ lower_char is_space msg name]
  by (auto simp: sip_header_values strip_def split: list.splits)

lemma no_crlf_tag: "no_crlf v \<Longrightarrow> no_crlf (v @ '';tag=mmtel-lab'')"
  by (induction v rule: no_crlf.induct) (simp_all add: cr_def lf_def)

text \<open>The labels of the response, in lower case.\<close>

lemma lower_labels:
  "map lower_char ''Via'' = ''via''" "map lower_char ''From'' = ''from''" "map lower_char ''To'' = ''to''"
  "map lower_char ''Call-ID'' = ''call-id''" "map lower_char ''CSeq'' = ''cseq''" "map lower_char ''Contact'' = ''contact''"
  "map lower_char ''Allow'' = ''allow''" "map lower_char ''Content-Length'' = ''content-length''"
  by (simp_all add: lower_char_def char_of_eq_iff take_bit_eq_mod)

text \<open>The extra line of a response is nothing or one more field.\<close>

definition extra_field :: "string \<Rightarrow> (string \<times> string) list \<Rightarrow> bool" where
  "extra_field extra fs \<longleftrightarrow>
     extra = [] \<and> fs = [] \<or>
     (\<exists>f. fs = [f] \<and> extra \<noteq> [] \<and> rstrip_crlf extra = labelled f \<and> field_ok f \<and> fst f \<in> {''Contact'', ''Allow''})"

definition response_fields :: "string \<Rightarrow> int \<Rightarrow> (string \<times> string) list \<Rightarrow> (string \<times> string) list" where
  "response_fields req code fs =
     [(''Via'', if sip_header req ''Via'' \<noteq> [] then sip_header req ''Via'' else ''SIP/2.0/UDP 127.0.0.1''),
      (''From'', sip_header req ''From''), (''To'', response_to req code), (''Call-ID'', sip_header req ''Call-ID''),
      (''CSeq'', sip_header req ''CSeq'')] @ fs @ [(''Content-Length'', ''0'')]"

lemma response_lines_message:
  "extra_field extra fs \<Longrightarrow> response_lines req code reason extra =
    message_lines (''SIP/2.0 '' @ dec_str code @ '' '' @ reason) (response_fields req code fs)"
  by (auto simp: extra_field_def response_lines_def message_lines_def response_fields_def Let_def labelled_def)

lemma response_fields_ok: "extra_field extra fs \<Longrightarrow> list_all field_ok (response_fields req code fs)"
proof -
  have "no_crlf (response_to req code)"
    by (simp add: response_to_def Let_def sip_header_no_crlf no_crlf_tag del: append.simps)
  moreover assume "extra_field extra fs"
  ultimately show ?thesis
    by (auto simp: response_fields_def field_ok_def extra_field_def sip_header_no_crlf cr_def)
qed

subsection \<open>The answers of the server\<close>

lemma lower_tag: "lower '';tag=mmtel-lab'' = '';tag='' @ ''mmtel-lab''"
  by (simp add: lower_def lower_char_def char_of_eq_iff take_bit_eq_mod)

lemma response_to_tagged: "code \<ge> 180 \<Longrightarrow> contains '';tag='' (lower (response_to req code))"
proof (cases "contains '';tag='' (lower (sip_header req ''To''))")
  case False
  assume "code \<ge> 180"
  with False have "response_to req code = sip_header req ''To'' @ '';tag=mmtel-lab''"
    by (simp add: response_to_def Let_def)
  then have "lower (response_to req code) = lower (sip_header req ''To'') @ '';tag='' @ ''mmtel-lab''"
    by (simp only: lower_append lower_tag)
  then show ?thesis unfolding contains_iff by blast
qed (simp add: response_to_def Let_def)

lemma strip_response_to: "strip (response_to req code) = response_to req code"
proof (cases "response_to req code = sip_header req ''To''")
  case False
  then have r: "response_to req code = sip_header req ''To'' @ '';tag=mmtel-lab''"
    by (simp add: response_to_def Let_def split: if_splits)
  have "sip_header req ''To'' \<noteq> [] \<Longrightarrow> \<not> is_space (hd (sip_header req ''To''))"
    using strip_with_ends(1) [of is_space "sip_header req ''To''"] sip_header_stripped [of req "''To''"]
    by (simp add: strip_def)
  then show ?thesis unfolding r strip_def
    by (intro strip_with_id) (cases "sip_header req ''To'' = []", simp_all add: is_space_def)
qed (simp add: sip_header_stripped)

text \<open>A response in the terms of its reader: status line, echoed headers, a tagged \<open>To\<close>.\<close>

definition answers_in_kind :: "string \<Rightarrow> string \<Rightarrow> string \<Rightarrow> bool" where
  "answers_in_kind req status resp \<longleftrightarrow>
     hd (split_crlf resp) = ''SIP/2.0 '' @ status \<and>
     sip_header resp ''From'' = sip_header req ''From'' \<and>
     sip_header resp ''Call-ID'' = sip_header req ''Call-ID'' \<and>
     sip_header resp ''CSeq'' = sip_header req ''CSeq'' \<and>
     (sip_header req ''Via'' = [] \<or> sip_header resp ''Via'' = sip_header req ''Via'') \<and>
     sip_header resp ''To'' = response_to req 200 \<and>
     contains '';tag='' (lower (sip_header resp ''To''))"

lemma response_in_kind:
  assumes "no_crlf (''SIP/2.0 '' @ dec_str code @ '' '' @ reason)" and "CHR '':'' \<notin> set (dec_str code @ '' '' @ reason)"
    and extra: "extra_field extra fs" and "code \<ge> 180"
  shows "answers_in_kind req (dec_str code @ '' '' @ reason) (join crlf (response_lines req code reason extra))"
proof -
  let ?start = "''SIP/2.0 '' @ dec_str code @ '' '' @ reason"
  let ?resp = "join crlf (response_lines req code reason extra)"
  have to: "response_to req code = response_to req 200" using assms(4) by (simp add: response_to_def)
  have status: "hd (split_crlf ?resp) = ?start"
    using split_message [OF assms(1) response_fields_ok [OF extra]]
    by (simp add: response_lines_message [OF extra] message_lines_def)
  have start: "map lower_char (before_colon ?start) = map lower_char ?start"
  proof -
    have "before_colon ?start = ?start"
      unfolding before_colon_def takeWhile_eq_all_conv using assms(2) by auto
    then show ?thesis by simp
  qed
  have read: "header_values lower_char is_space ?resp name =
      map (\<lambda>f. strip (snd f)) (filter (\<lambda>f. map lower_char (fst f) = map lower_char name) (response_fields req code fs))"
    if "name \<in> {''Via'', ''From'', ''To'', ''Call-ID'', ''CSeq''}" for name
    unfolding response_lines_message [OF extra] strip_def
    using that start
    by (intro str_header.read_back [OF assms(1) response_fields_ok [OF extra]])
      (auto simp: lower_char_def char_of_eq_iff take_bit_eq_mod)
  have contact: "\<forall>f \<in> set fs. map lower_char (fst f) \<in> {''contact'', ''allow''}"
    using extra by (auto simp: extra_field_def lower_char_def char_of_eq_iff take_bit_eq_mod)
  then have none: "filter (\<lambda>f. map lower_char (fst f) = l) fs = []" if "l \<notin> {''contact'', ''allow''}" for l
    using that by (auto simp: filter_empty_conv dest: bspec)
  have each: "header_values lower_char is_space ?resp ''From'' = [sip_header req ''From'']"
    "header_values lower_char is_space ?resp ''To'' = [response_to req code]"
    "header_values lower_char is_space ?resp ''Call-ID'' = [sip_header req ''Call-ID'']"
    "header_values lower_char is_space ?resp ''CSeq'' = [sip_header req ''CSeq'']"
    "sip_header req ''Via'' \<noteq> [] \<Longrightarrow> header_values lower_char is_space ?resp ''Via'' = [sip_header req ''Via'']"
    unfolding read [of "''From''", simplified] read [of "''To''", simplified] read [of "''Call-ID''", simplified]
      read [of "''CSeq''", simplified] read [of "''Via''", simplified]
    by (simp_all add: response_fields_def lower_char_def char_of_eq_iff take_bit_eq_mod none sip_header_stripped strip_response_to)
  then show ?thesis
    using status to response_to_tagged [OF assms(4), of req]
    by (cases "sip_header req ''Via'' = []") (simp_all add: answers_in_kind_def sip_header_values [of ?resp])
qed

text \<open>A seed whose profiles are objects and whose forwarding targets are single lines of text.\<close>

definition profile_ok :: "json \<Rightarrow> bool" where
  "profile_ok v = (\<not> truthy v \<or> (case v of
     JObj p \<Rightarrow> \<not> truthy (field p ''cfu'') \<or> (case field p ''cfu'' of JStr t \<Rightarrow> no_crlf t | _ \<Rightarrow> False)
   | _ \<Rightarrow> False))"

definition seed_ok :: "json_dict \<Rightarrow> bool" where
  "seed_ok rules = list_all (\<lambda>(k, v). profile_ok v) rules"

lemma profile_of_ok: "seed_ok rules \<Longrightarrow> profile_ok (profile_of rules caller)"
proof -
  assume ok: "seed_ok rules"
  have "map_of rules k = Some v \<Longrightarrow> profile_ok v" for k v
    using ok by (auto simp: seed_ok_def list_all_iff dest!: map_of_SomeD)
  then show ?thesis by (auto simp: profile_of_def profile_ok_def field_def split: option.splits)
qed

lemma profile_of_object: "seed_ok rules \<Longrightarrow> \<exists>p. profile_of rules caller = JObj p"
proof -
  assume ok: "seed_ok rules"
  have t: "truthy (profile_of rules caller) \<or> profile_of rules caller = JObj []"
    by (simp add: profile_of_def split: option.splits)
  with profile_of_ok [OF ok, of caller] show ?thesis
    by (auto simp: profile_ok_def split: json.splits)
qed

text \<open>The answer that the profile of the caller asks for.\<close>

definition forward_target :: "json_dict \<Rightarrow> string" where
  "forward_target p = (case field p ''cfu'' of JStr t \<Rightarrow> strip t | _ \<Rightarrow> [])"

definition status_for :: "string \<Rightarrow> json_dict \<Rightarrow> string" where
  "status_for msg rules =
     (if sip_method msg \<in> {''REGISTER'', ''OPTIONS''} then ''200 OK''
      else if sip_method msg \<noteq> ''INVITE'' then ''405 Method Not Allowed''
      else case profile_of rules (identity_from_from msg) of
        JObj p \<Rightarrow> if truthy (field p ''barring_mo'') then ''603 Decline''
                  else if forward_target p \<noteq> [] then ''302 Moved Temporarily'' else ''200 OK''
      | _ \<Rightarrow> [])"

lemma status_texts:
  "dec_str 200 @ '' '' @ ''OK'' = ''200 OK''" "dec_str 405 @ '' '' @ ''Method Not Allowed'' = ''405 Method Not Allowed''"
  "dec_str 603 @ '' '' @ ''Decline'' = ''603 Decline''" "dec_str 302 @ '' '' @ ''Moved Temporarily'' = ''302 Moved Temporarily''"
  by code_simp+

lemma target_field: "no_crlf t \<Longrightarrow> extra_field (''Contact: <'' @ strip t @ ''>'') [(''Contact'', ''<'' @ strip t @ ''>'')]"
proof -
  assume "no_crlf t"
  then have "no_crlf (''<'' @ strip t @ ''>'')"
    by (simp add: strip_def no_crlf_strip no_crlf_snoc cr_def lf_def)
  moreover have "rstrip_crlf (''Contact: <'' @ strip t @ ''>'') = ''Contact: <'' @ strip t @ ''>''"
    by (simp add: rstrip_crlf_def cr_def lf_def)
  ultimately show ?thesis by (simp add: extra_field_def labelled_def field_ok_def cr_def)
qed

lemma extra_fields:
  "extra_field [] []"
  "extra_field ''Contact: <sip:mmtel-as@lab>;expires=3600'' [(''Contact'', ''<sip:mmtel-as@lab>;expires=3600'')]"
  "extra_field ''Allow: INVITE, ACK, BYE, CANCEL, OPTIONS, REGISTER'' [(''Allow'', ''INVITE, ACK, BYE, CANCEL, OPTIONS, REGISTER'')]"
  "extra_field ''Contact: <sip:mmtel-as@lab>'' [(''Contact'', ''<sip:mmtel-as@lab>'')]"
  by (simp_all add: extra_field_def rstrip_crlf_def labelled_def field_ok_def cr_def lf_def)

lemma target_of_profile:
  assumes "seed_ok rules" and "profile_of rules caller = JObj p"
  shows "truthy (field p ''cfu'') \<Longrightarrow> \<exists>t. field p ''cfu'' = JStr t \<and> no_crlf t"
  using profile_of_ok [OF assms(1), of caller] assms(2)
  by (cases "p = []") (auto simp: profile_ok_def split: json.splits, simp_all add: field_def)

lemma build_response_in_kind:
  assumes "dec_str code @ '' '' @ reason = st" and "no_crlf (''SIP/2.0 '' @ st)" and "CHR '':'' \<notin> set st"
    and "code \<ge> 180" and "extra_field extra fs"
  shows "\<exists>resp. Inr (build_response msg code reason extra) = (Inr (encode_utf8 resp) :: bytes result) \<and> answers_in_kind msg st resp"
  using response_in_kind [of code reason extra fs msg] assms by (auto simp: build_response_def)

lemma status_lines:
  "no_crlf (''SIP/2.0 '' @ ''200 OK'')" "CHR '':'' \<notin> set ''200 OK''"
  "no_crlf (''SIP/2.0 '' @ ''405 Method Not Allowed'')" "CHR '':'' \<notin> set ''405 Method Not Allowed''"
  "no_crlf (''SIP/2.0 '' @ ''603 Decline'')" "CHR '':'' \<notin> set ''603 Decline''"
  "no_crlf (''SIP/2.0 '' @ ''302 Moved Temporarily'')" "CHR '':'' \<notin> set ''302 Moved Temporarily''"
  by (simp_all add: cr_def)

lemmas ok_in_kind = build_response_in_kind [OF status_texts(1) status_lines(1,2)]
lemmas refused_in_kind = build_response_in_kind [OF status_texts(2) status_lines(3,4) _ extra_fields(1)]
lemmas declined_in_kind = build_response_in_kind [OF status_texts(3) status_lines(5,6) _ extra_fields(1)]
lemmas moved_in_kind = build_response_in_kind [OF status_texts(4) status_lines(7,8)]

lemma other_method_answers:
  "sip_method msg \<noteq> ''INVITE'' \<Longrightarrow>
    \<exists>resp. handle_sip msg rules = Inr (encode_utf8 resp) \<and> answers_in_kind msg (status_for msg rules) resp"
  using ok_in_kind [OF _ extra_fields(2), of msg] ok_in_kind [OF _ extra_fields(3), of msg] refused_in_kind [of msg]
  by (auto simp: handle_sip_def status_for_def Let_def)

lemma invite_answers:
  assumes "seed_ok rules" and inv: "sip_method msg = ''INVITE''"
  shows "\<exists>resp. handle_sip msg rules = Inr (encode_utf8 resp) \<and> answers_in_kind msg (status_for msg rules) resp"
proof -
  obtain p where p: "profile_of rules (identity_from_from msg) = JObj p" using profile_of_object [OF assms(1)] by blast
  note target = target_of_profile [OF assms(1) p]
  let ?cfu = "field p ''cfu''"
  consider (barred) "truthy (field p ''barring_mo'')" | (plain) "\<not> truthy (field p ''barring_mo'')" "\<not> truthy ?cfu"
    | (forward) t where "\<not> truthy (field p ''barring_mo'')" "truthy ?cfu" "?cfu = JStr t" "no_crlf t"
    using target by blast
  then show ?thesis
  proof cases
    case barred
    then show ?thesis using p inv declined_in_kind [of msg] by (simp add: handle_sip_def status_for_def)
  next
    case plain
    then have "forward_target p = []"
      by (cases "field p ''cfu''") (simp_all add: forward_target_def strip_def)
    with plain show ?thesis using p inv ok_in_kind [OF _ extra_fields(4), of msg]
      by (simp add: handle_sip_def status_for_def)
  next
    case forward
    then show ?thesis
      using p inv ok_in_kind [OF _ extra_fields(4), of msg] moved_in_kind [OF _ target_field [OF forward(4)], of msg]
      by (simp add: handle_sip_def status_for_def forward_target_def Let_def)
  qed
qed



end
