(* ===== verification/Carrier.thy ===== *)
theory Carrier
  imports Maf_Api
begin

section \<open>The client of the carrier API\<close>

text \<open>
  \<^verbatim>\<open>sdk/python/madis_carrier.py\<close>: \<open>MadisCarrier\<close>, one definition per method. A method gives the request it
  asks \<open>_request\<close> for, or the exception it raises before that; \<open>carrier_send\<close> is \<open>_request\<close>.
  A document is a JSON value, \<open>JNull\<close> for \<open>None\<close>. An identifier is an integer or a text, as \<open>int()\<close> takes it.
  \<open>urlopen\<close> and \<open>loads\<close> are the parameters of \<^theory_text>\<open>Maf_Client\<close>; here their exceptions escape.
\<close>

definition CONTROL_RESOURCES :: "string list" where
  "CONTROL_RESOURCES =
     [''gateways'', ''routes'', ''dispatch-sets'', ''dispatch-members'', ''dids'',
      ''header-rules'', ''access-control'', ''security-bans'', ''ani-groups'',
      ''ani-ranges'', ''registrations'', ''registration-bindings'',
      ''cluster-nodes'', ''security-events'']"

record MadisCarrier =
  carrier_base :: string
  carrier_token :: string

definition new_carrier :: "string \<Rightarrow> string \<Rightarrow> MadisCarrier" where
  "new_carrier url tok = \<lparr>carrier_base = rstrip_slash url, carrier_token = tok\<rparr>"

subsection \<open>One request\<close>

record carrier_call =
  carrier_verb :: string
  carrier_path :: string
  carrier_body :: json

datatype carrier_exn = Raised exn | RaisedHTTPError int bytes | RaisedURLError string

definition carrier_request :: "string \<Rightarrow> string \<Rightarrow> json \<Rightarrow> carrier_call result" where
  "carrier_request m p b = Inr \<lparr>carrier_verb = m, carrier_path = p, carrier_body = b\<rparr>"

definition carrier_prepare :: "MadisCarrier \<Rightarrow> carrier_call \<Rightarrow> http_call result" where
  "carrier_prepare c call =
     (let payload = (if carrier_body call = JNull then None else Some (encode_utf8 (json_dumps (carrier_body call))))
      in if (case payload of None \<Rightarrow> False | Some p \<Rightarrow> length p > 65536)
         then Inl (ValueError ''event body exceeds Madis 64 KiB limit'')
         else Inr \<lparr>call_method = carrier_verb call, call_url = carrier_base c @ carrier_path call,
           call_headers = [(''Authorization'', ''Bearer '' @ carrier_token c), (''Accept'', ''application/json'')]
             @ (if payload = None then [] else [(''Content-Type'', ''application/json'')]),
           call_data = payload\<rparr>)"

definition carrier_send ::
  "(bytes \<Rightarrow> json result) \<Rightarrow> (http_call \<Rightarrow> outcome) \<Rightarrow> MadisCarrier \<Rightarrow> carrier_call result \<Rightarrow> carrier_exn + json" where
  "carrier_send loads urlopen c call =
     (case bindE call (carrier_prepare c) of
        Inl e \<Rightarrow> Inl (Raised e)
      | Inr request \<Rightarrow>
          (case urlopen request of
             Response status raw \<Rightarrow> (case loads raw of Inl e \<Rightarrow> Inl (Raised e) | Inr v \<Rightarrow> Inr v)
           | HTTPError code raw \<Rightarrow> Inl (RaisedHTTPError code raw)
           | URLError reason \<Rightarrow> Inl (RaisedURLError reason)
           | Failure e \<Rightarrow> Inl (Raised e)))"

subsection \<open>Arguments\<close>

datatype ident = IdInt int | IdText string

definition int_of_ident :: "ident \<Rightarrow> int result" where
  "int_of_ident i =
     (case i of
        IdInt n \<Rightarrow> Inr n
      | IdText s \<Rightarrow> (case py_int s of None \<Rightarrow> Inl (ValueError ''invalid literal for int()'') | Some n \<Rightarrow> Inr n))"

definition limit_query :: "int \<Rightarrow> json_dict" where
  "limit_query limit = [(''limit'', JInt (clamp limit 100))]"

definition enable_action :: "bool \<Rightarrow> string" where
  "enable_action enabled = (if enabled then ''enable'' else ''disable'')"

definition id_path :: "string \<Rightarrow> ident \<Rightarrow> string \<Rightarrow> string result" where
  "id_path prefix i suffix = bindE (int_of_ident i) (\<lambda>n. Inr (prefix @ ''/'' @ dec_str n @ suffix))"

subsection \<open>Billing\<close>

definition capabilities where
  "capabilities = carrier_request ''GET'' ''/api/v1/capabilities'' JNull"

definition pending_events where
  "pending_events limit =
     carrier_request ''GET'' (''/api/v1/billing/events?'' @ urlencode (limit_query limit)) JNull"

definition publish where
  "publish event = carrier_request ''POST'' ''/api/v1/billing/events'' event"

definition ack where
  "ack event_id =
     carrier_request ''POST'' (''/api/v1/billing/events/ack?'' @ urlencode [(''event_id'', JStr event_id)]) JNull"

definition carrier_cdr where
  "carrier_cdr limit call_id =
     carrier_request ''GET''
       (''/api/v1/billing/cdr?'' @ urlencode (limit_query limit
          @ (case call_id of None \<Rightarrow> [] | Some c \<Rightarrow> if c = [] then [] else [(''call_id'', JStr c)]))) JNull"

subsection \<open>Routing rules and dial plans\<close>

definition control_status where
  "control_status = carrier_request ''GET'' ''/api/v1/control/status'' JNull"

definition carrier_routing_rules where
  "carrier_routing_rules limit =
     carrier_request ''GET'' (''/api/v1/control/routing-rules?'' @ urlencode (limit_query limit)) JNull"

definition carrier_create_routing_rule where
  "carrier_create_routing_rule rule = carrier_request ''POST'' ''/api/v1/control/routing-rules'' rule"

definition enable_routing_rule where
  "enable_routing_rule rule_id =
     bindE (id_path ''/api/v1/control/routing-rules'' rule_id ''/enable'') (\<lambda>p. carrier_request ''POST'' p JNull)"

definition disable_routing_rule where
  "disable_routing_rule rule_id =
     bindE (id_path ''/api/v1/control/routing-rules'' rule_id ''/disable'') (\<lambda>p. carrier_request ''POST'' p JNull)"

definition carrier_dialplans where
  "carrier_dialplans limit =
     carrier_request ''GET'' (''/api/v1/control/dialplans?'' @ urlencode (limit_query limit)) JNull"

definition carrier_create_dialplan where
  "carrier_create_dialplan rule = carrier_request ''POST'' ''/api/v1/control/dialplans'' rule"

definition set_dialplan_enabled where
  "set_dialplan_enabled rule_id enabled =
     bindE (id_path ''/api/v1/control/dialplans'' rule_id (''/'' @ enable_action enabled))
       (\<lambda>p. carrier_request ''POST'' p JNull)"

definition update_dialplan where
  "update_dialplan rule_id rule =
     bindE (id_path ''/api/v1/control/dialplans'' rule_id []) (\<lambda>p. carrier_request ''PUT'' p rule)"

definition carrier_delete_dialplan where
  "carrier_delete_dialplan rule_id =
     bindE (id_path ''/api/v1/control/dialplans'' rule_id []) (\<lambda>p. carrier_request ''DELETE'' p JNull)"

subsection \<open>Control resources\<close>

definition resource_path :: "string \<Rightarrow> string result" where
  "resource_path resource =
     (if resource \<notin> set CONTROL_RESOURCES then Inl (ValueError ''resource is not in the Madis control allowlist'')
      else Inr (''/api/v1/control/resources/'' @ resource))"

definition control_resources where
  "control_resources resource limit =
     bindE (resource_path resource) (\<lambda>p. carrier_request ''GET'' (p @ ''?'' @ urlencode (limit_query limit)) JNull)"

definition create_control_resource where
  "create_control_resource resource document =
     bindE (resource_path resource) (\<lambda>p. carrier_request ''POST'' p document)"

definition update_control_resource where
  "update_control_resource resource resource_id document =
     bindE (resource_path resource) (\<lambda>p. bindE (id_path p resource_id []) (\<lambda>q. carrier_request ''PUT'' q document))"

definition delete_control_resource where
  "delete_control_resource resource resource_id expected_revision =
     bindE (resource_path resource) (\<lambda>p. bindE (id_path p resource_id []) (\<lambda>q.
       carrier_request ''DELETE''
         (q @ (if truthy expected_revision then ''?'' @ urlencode [(''expected_revision'', expected_revision)] else [])) JNull))"

definition set_control_resource_enabled where
  "set_control_resource_enabled resource resource_id enabled =
     bindE (resource_path resource) (\<lambda>p. bindE (id_path p resource_id (''/'' @ enable_action enabled)) (\<lambda>q.
       carrier_request ''POST'' q JNull))"

definition validate_routing_rule where
  "validate_routing_rule rule = carrier_request ''POST'' ''/api/v1/control/validate/routing-rule'' rule"

definition validate_dialplan where
  "validate_dialplan rule = carrier_request ''POST'' ''/api/v1/control/validate/dialplan'' rule"

text \<open>The five operations on a control resource.\<close>

definition resource_operations :: "string \<Rightarrow> ident \<Rightarrow> int \<Rightarrow> json \<Rightarrow> json \<Rightarrow> bool \<Rightarrow> carrier_call result list" where
  "resource_operations resource i limit document revision enabled =
     [control_resources resource limit, create_control_resource resource document,
      update_control_resource resource i document, delete_control_resource resource i revision,
      set_control_resource_enabled resource i enabled]"

lemmas carrier_defs = capabilities_def pending_events_def publish_def ack_def carrier_cdr_def control_status_def
  carrier_routing_rules_def carrier_create_routing_rule_def enable_routing_rule_def disable_routing_rule_def
  carrier_dialplans_def carrier_create_dialplan_def set_dialplan_enabled_def update_dialplan_def
  carrier_delete_dialplan_def control_resources_def create_control_resource_def update_control_resource_def
  delete_control_resource_def set_control_resource_enabled_def validate_routing_rule_def validate_dialplan_def

subsection \<open>Texts inside a query\<close>

lemma quote_plus_chars: "list_all (\<lambda>c. url_char c \<or> c = CHR ''+'') (quote_plus s)"
  using quote_byte_chars by (auto simp: quote_plus_def list_all_iff split: if_splits)

lemma quote_plus_one_value: "set (quote_plus s) \<inter> {CHR ''&'', CHR ''='', CHR ''#'', CHR ''?'', CHR ''/'', cr, lf} = {}"
  using quote_plus_chars [of s] reserved_chars by (auto simp: list_all_iff cr_def lf_def)

lemma quote_plus_limit: "quote_plus ''limit'' = ''limit''"
  by code_simp

lemma quote_plus_revision: "quote_plus ''expected_revision'' = ''expected_revision''"
  by code_simp

subsection \<open>Control requests stay in the control collection\<close>

text \<open>What may follow the resource in the path.\<close>

definition resource_suffix :: "string \<Rightarrow> bool" where
  "resource_suffix s \<longleftrightarrow>
     s = [] \<or> (\<exists>n. 1 \<le> n \<and> n \<le> 100 \<and> s = ''?limit='' @ quote_plus (dec_str n)) \<or>
     (\<exists>n t. s = ''/'' @ dec_str n @ t \<and>
        (t \<in> {[], ''/enable'', ''/disable''} \<or> (\<exists>v. t = ''?expected_revision='' @ quote_plus v)))"

lemma limit_suffix: "resource_suffix (''?'' @ urlencode (limit_query limit))"
proof -
  have "urlencode (limit_query limit) = quote_plus ''limit'' @ ''='' @ quote_plus (dec_str (clamp limit 100))"
    by (simp add: urlencode_def limit_query_def py_str_def)
  also have "\<dots> = ''limit='' @ quote_plus (dec_str (clamp limit 100))" by (simp add: quote_plus_limit)
  finally have "''?'' @ urlencode (limit_query limit) = ''?limit='' @ quote_plus (dec_str (clamp limit 100))" by simp
  moreover have "1 \<le> clamp limit 100" "clamp limit 100 \<le> 100" by (simp_all add: clamp_def)
  ultimately show ?thesis unfolding resource_suffix_def by blast
qed

lemma id_suffixes:
  "resource_suffix (''/'' @ dec_str n)" "resource_suffix (''/'' @ dec_str n @ ''/'' @ enable_action b)"
  "resource_suffix (''/'' @ dec_str n @ ''?'' @ urlencode [(''expected_revision'', v)])"
proof -
  show "resource_suffix (''/'' @ dec_str n)" unfolding resource_suffix_def by (intro disjI2 exI [of _ n] exI [of _ "[]"]) simp
  have "''/'' @ enable_action b \<in> {''/enable'', ''/disable''}" by (simp add: enable_action_def)
  then show "resource_suffix (''/'' @ dec_str n @ ''/'' @ enable_action b)" unfolding resource_suffix_def by blast
  have "''?'' @ urlencode [(''expected_revision'', v)] = ''?expected_revision='' @ quote_plus (py_str v)"
    by (simp add: urlencode_def quote_plus_revision)
  then show "resource_suffix (''/'' @ dec_str n @ ''?'' @ urlencode [(''expected_revision'', v)])"
    unfolding resource_suffix_def by blast
qed

lemma int_of_ident_cases: "(\<exists>n. int_of_ident i = Inr n) \<or> int_of_ident i = Inl (ValueError ''invalid literal for int()'')"
  by (simp add: int_of_ident_def split: ident.splits option.splits)

text \<open>An outcome of a control operation on a listed resource.\<close>

definition confined :: "string \<Rightarrow> carrier_call result \<Rightarrow> bool" where
  "confined resource r \<longleftrightarrow>
     (case r of
        Inl e \<Rightarrow> e = ValueError ''invalid literal for int()''
      | Inr call \<Rightarrow> (\<exists>s. carrier_path call = ''/api/v1/control/resources/'' @ resource @ s \<and> resource_suffix s))"

lemma confined_path: "p = ''/api/v1/control/resources/'' @ resource @ s \<Longrightarrow> resource_suffix s \<Longrightarrow> confined resource (carrier_request m p b)"
  by (auto simp: confined_def carrier_request_def)

lemma resource_operations_confined:
  assumes "resource \<in> set CONTROL_RESOURCES" and "r \<in> set (resource_operations resource i limit document revision enabled)"
  shows "confined resource r"
proof -
  have empty: "resource_suffix []" by (simp add: resource_suffix_def)
  have path: "resource_path resource = Inr (''/api/v1/control/resources/'' @ resource)"
    using assms(1) by (simp add: resource_path_def)
  note shapes = confined_path [OF _ limit_suffix] confined_path [OF _ empty] confined_path [OF _ id_suffixes(1)]
    confined_path [OF _ id_suffixes(2)] confined_path [OF _ id_suffixes(3)]
  have "confined resource (control_resources resource limit)" "confined resource (create_control_resource resource document)"
    unfolding carrier_defs path bindE_simps by (rule shapes, simp)+
  moreover have "confined resource (update_control_resource resource i document) \<and>
    confined resource (delete_control_resource resource i revision) \<and>
    confined resource (set_control_resource_enabled resource i enabled)"
  proof (cases "int_of_ident i")
    case (Inl e)
    then have "int_of_ident i = Inl (ValueError ''invalid literal for int()'')" using int_of_ident_cases [of i] by simp
    then show ?thesis unfolding carrier_defs path bindE_simps id_path_def by (simp add: confined_def)
  next
    case (Inr n)
    have "confined resource (update_control_resource resource i document)"
      unfolding carrier_defs path bindE_simps id_path_def Inr by (rule shapes(3) [of _ _ n]) simp
    moreover have "confined resource (delete_control_resource resource i revision)"
    proof (cases "truthy revision")
      case True
      then show ?thesis unfolding carrier_defs path bindE_simps id_path_def Inr
        by (intro shapes(5) [of _ _ n revision]) simp
    next
      case False
      then show ?thesis unfolding carrier_defs path bindE_simps id_path_def Inr by (intro shapes(3) [of _ _ n]) simp
    qed
    moreover have "confined resource (set_control_resource_enabled resource i enabled)"
      unfolding carrier_defs path bindE_simps id_path_def Inr by (rule shapes(4) [of _ _ n enabled]) simp
    ultimately show ?thesis by blast
  qed
  ultimately show ?thesis using assms(2) by (auto simp: resource_operations_def)
qed

lemma resource_operations_refused:
  "resource \<notin> set CONTROL_RESOURCES \<Longrightarrow> r \<in> set (resource_operations resource i limit document revision enabled) \<Longrightarrow>
    r = Inl (ValueError ''resource is not in the Madis control allowlist'')"
  by (auto simp: resource_operations_def carrier_defs resource_path_def)

text \<open>C32: the operations on control resources reach listed collections only. An operation on a resource that is
  not in the allow-list raises ValueError and makes no request, whatever its other arguments. An
  operation on a listed one raises nothing but the ValueError of \<open>int()\<close> before the request, and its
  path is the collection's, followed by nothing, a limit of 1 to 100, or an identifier in decimal with
  an action or a revision; so neither an identifier nor a revision can leave the collection.\<close>

theorem control_requests_are_confined:
  assumes "r \<in> set (resource_operations resource i limit document revision enabled)"
  shows "if resource \<in> set CONTROL_RESOURCES then confined resource r
    else carrier_send loads urlopen c r = Inl (Raised (ValueError ''resource is not in the Madis control allowlist''))"
  using resource_operations_confined [OF _ assms] resource_operations_refused [OF _ assms]
  by (simp add: carrier_send_def)

theorem control_requests_are_confined_witness:
  "confined ''gateways'' (delete_control_resource ''gateways'' (IdText ''7'') (JStr ''a/b'')) \<and>
   carrier_send (\<lambda>_. Inr JNull) (\<lambda>_. Response 200 []) (new_carrier ''http://proxy'' ''token'') (control_resources ''../calls'' 10) =
     Inl (Raised (ValueError ''resource is not in the Madis control allowlist''))"
  using control_requests_are_confined [of "delete_control_resource ''gateways'' (IdText ''7'') (JStr ''a/b'')" "''gateways''" "IdText ''7''" 1 JNull "JStr ''a/b''" True]
    control_requests_are_confined [of "control_resources ''../calls'' 10" "''../calls''" "IdInt 1" 10 JNull JNull True
      "\<lambda>_. Inr JNull" "\<lambda>_. Response 200 []" "new_carrier ''http://proxy'' ''token''"]
  by (simp add: resource_operations_def CONTROL_RESOURCES_def)

end
