(* ===== verification/Sip_Peer.thy ===== *)
theory Sip_Peer
  imports Sip_Text "HOL-Library.AList"
begin

section \<open>The SIP peers of the test matrices\<close>

text \<open>
  The far ends that the matrices put behind the proxy: \<open>FaultUas\<close> of \<^verbatim>\<open>bench/fault_matrix.py\<close>, which drops,
  delays and reorders, and \<open>WssFixture\<close> of \<^verbatim>\<open>bench/wss_outbound_matrix.py\<close>, with the functions by which they
  read requests and write responses. Packets are octets, written as characters. Sleeping and the
  sockets are left out; \<open>sha1\<close> and \<open>b64encode\<close> are parameters, and what \<open>read_text_frame\<close> of
  \<^theory_text>\<open>Ws_Frame\<close> gives is the input of the fixture.
\<close>

subsection \<open>Reading and writing\<close>

definition header_lines :: "string \<Rightarrow> string \<Rightarrow> string list" where
  "header_lines message name = header_values lower_octet octet_space message name"

text \<open>\<^verbatim>\<open>fault_matrix.py\<close>\<close>

definition fault_header :: "string \<Rightarrow> string \<Rightarrow> string" where
  "fault_header message name = (case header_lines message name of [] \<Rightarrow> [] | v # _ \<Rightarrow> v)"

definition vias :: "string \<Rightarrow> string list" where
  "vias message = header_lines message ''Via''"

definition fault_response :: "string \<Rightarrow> int \<Rightarrow> string \<Rightarrow> string \<Rightarrow> string" where
  "fault_response request code reason tag =
     (let to_h = fault_header request ''To'';
          to' = (if contains '';tag='' to_h then to_h else to_h @ '';tag='' @ tag)
      in join crlf
           ([''SIP/2.0 '' @ dec_str code @ '' '' @ reason]
            @ map (\<lambda>v. ''Via: '' @ v) (vias request)
            @ [''From: '' @ fault_header request ''From'', ''To: '' @ to',
               ''Call-ID: '' @ fault_header request ''Call-ID'', ''CSeq: '' @ fault_header request ''CSeq'',
               ''Content-Length: 0'', [], []]))"

definition fault_request :: "string \<Rightarrow> string \<Rightarrow> string \<Rightarrow> int \<Rightarrow> string" where
  "fault_request meth call_id branch cseq =
     join crlf
       [meth @ '' sip:uas@mako.local SIP/2.0'', ''Via: SIP/2.0/UDP 127.0.0.1:5099;branch=z9hG4bK-'' @ branch,
        ''From: <sip:caller@mako.local>;tag=caller-'' @ call_id, ''To: <sip:uas@mako.local>'',
        ''Call-ID: '' @ call_id, ''CSeq: '' @ dec_str cseq @ '' '' @ meth, ''Contact: <sip:caller@127.0.0.1:5099>'',
        ''Max-Forwards: 70'', ''Content-Length: 0'', [], []]"

text \<open>\<^verbatim>\<open>wss_outbound_matrix.py\<close>\<close>

definition one_header :: "string \<Rightarrow> string \<Rightarrow> string result" where
  "one_header message name =
     (case header_lines message name of
        [] \<Rightarrow> Inl (RuntimeError (''WSS INVITE missing '' @ name @ '' header''))
      | v # _ \<Rightarrow> Inr v)"

definition sip_response :: "string \<Rightarrow> int \<Rightarrow> string \<Rightarrow> string result" where
  "sip_response request status reason =
     (let vs = header_lines request ''Via''
      in if vs = [] then Inl (RuntimeError ''WSS INVITE missing Via header'')
         else bindE (one_header request ''To'') (\<lambda>to_h.
           let to' = (if contains '';tag='' (map lower_octet to_h) then to_h else to_h @ '';tag=wss-peer'')
           in bindE (one_header request ''From'') (\<lambda>from_h.
              bindE (one_header request ''Call-ID'') (\<lambda>cid.
              bindE (one_header request ''CSeq'') (\<lambda>cseq.
              Inr (''SIP/2.0 '' @ dec_str status @ '' '' @ reason @ crlf
                @ join crlf (map (\<lambda>v. ''Via: '' @ v) vs)
                @ crlf @ ''From: '' @ from_h @ crlf @ ''To: '' @ to' @ crlf @ ''Call-ID: '' @ cid
                @ crlf @ ''CSeq: '' @ cseq @ crlf @ ''Contact: <sips:uas@localhost;transport=wss>'' @ crlf
                @ ''Content-Length: 0'' @ crlf @ crlf))))))"

text \<open>\<open>int(response.split(b" ", 2)[1])\<close>, and 0 if there is none\<close>

definition response_status :: "string \<Rightarrow> int" where
  "response_status response =
     (case split_char CHR '' '' response of
        _ # code # _ \<Rightarrow> (case py_int code of Some n \<Rightarrow> n | None \<Rightarrow> 0)
      | _ \<Rightarrow> 0)"

subsection \<open>The faulty user agent\<close>

record FaultUas =
  invites :: "(string \<times> nat) list"

definition new_fault_uas :: FaultUas where "new_fault_uas = \<lparr>invites = []\<rparr>"

definition uas_packet :: "string \<Rightarrow> FaultUas \<Rightarrow> string list \<times> FaultUas" where
  "uas_packet packet u =
     (if starts_with ''ACK '' packet then ([], u)
      else if starts_with ''BYE '' packet then ([fault_response packet 200 ''OK'' ''uas''], u)
      else if \<not> starts_with ''INVITE '' packet then ([], u)
      else
        let call_id = fault_header packet ''Call-ID'';
            count = (case map_of (invites u) call_id of None \<Rightarrow> 0 | Some n \<Rightarrow> n) + 1;
            u' = u\<lparr>invites := AList.update call_id count (invites u)\<rparr>
        in if starts_with ''drop-'' call_id \<and> count = 1 then ([], u')
           else if starts_with ''reorder-'' call_id then
             ([fault_response packet 200 ''OK'' ''uas'', fault_response packet 180 ''Ringing'' ''uas'',
               fault_response packet 200 ''OK'' ''uas''], u')
           else
             ([fault_response packet 100 ''Trying'' ''uas'', fault_response packet 180 ''Ringing'' ''uas'',
               fault_response packet 200 ''OK'' ''uas''], u'))"

fun uas_run :: "string list \<Rightarrow> FaultUas \<Rightarrow> string list list \<times> FaultUas" where
  "uas_run [] u = ([], u)"
| "uas_run (p # ps) u =
     (case uas_packet p u of (out, u') \<Rightarrow> (case uas_run ps u' of (outs, u'') \<Rightarrow> (out # outs, u'')))"

subsection \<open>The WebSocket fixture\<close>

definition WS_MAGIC :: string where "WS_MAGIC = ''258EAFA5-E914-47DA-95CA-C5AB0DC85B11''"

fun handshake_headers :: "string list \<Rightarrow> (string \<times> string) list \<Rightarrow> (string \<times> string) list result" where
  "handshake_headers [] headers = Inr headers"
| "handshake_headers (line # ls) headers =
     (if CHR '':'' \<in> set line then
        if \<not> is_ascii (before_colon line) then Inl UnicodeDecodeError
        else handshake_headers ls
          (AList.update (map lower_octet (before_colon line)) (strip_with octet_space (after_colon line)) headers)
      else handshake_headers ls headers)"

definition handshake_value :: "(string \<times> string) list \<Rightarrow> string \<Rightarrow> string" where
  "handshake_value headers name = (case map_of headers name of None \<Rightarrow> [] | Some v \<Rightarrow> v)"

definition wss_handshake :: "(string \<Rightarrow> string) \<Rightarrow> (string \<Rightarrow> string) \<Rightarrow> string \<Rightarrow> string result" where
  "wss_handshake sha1 b64encode handshake =
     (let lines = split_crlf handshake
      in bindE (handshake_headers (tl lines) []) (\<lambda>headers.
         if \<not> starts_with ''GET / HTTP/1.1'' (hd lines) then Inl (RuntimeError ''WSS default path was not /'')
         else if map lower_octet (handshake_value headers ''upgrade'') \<noteq> ''websocket'' then Inl (RuntimeError ''missing WebSocket upgrade'')
         else if map lower_octet (handshake_value headers ''connection'') \<noteq> ''upgrade'' then Inl (RuntimeError ''missing upgrade connection'')
         else
           let key = handshake_value headers ''sec-websocket-key''
           in if length key = 0 then Inl (RuntimeError ''missing Sec-WebSocket-Key'')
              else Inr (''HTTP/1.1 101 Switching Protocols'' @ crlf @ ''Upgrade: websocket'' @ crlf @ ''Connection: Upgrade'' @ crlf
                @ ''Sec-WebSocket-Accept: '' @ b64encode (sha1 (key @ WS_MAGIC)) @ crlf @ crlf)))"

record WssFixture =
  payload :: string
  received :: bool
  ack_received :: bool
  bye_received :: bool
  error :: "exn option"

definition new_fixture :: WssFixture where
  "new_fixture = \<lparr>payload = [], received = False, ack_received = False, bye_received = False, error = None\<rparr>"

text \<open>Both \<open>except\<close> clauses; the only \<open>OSError\<close> of a read here is its timeout.\<close>

definition fixture_failed :: "exn \<Rightarrow> WssFixture \<Rightarrow> WssFixture" where
  "fixture_failed e f =
     f\<lparr>error := Some (if e = OSError then RuntimeError ''WSS fixture timed out waiting for ACK'' else e), received := True\<rparr>"

text \<open>The loop over what is read after the INVITE: the messages sent, and the fixture. It waits when the list ends.\<close>

fun fixture_loop :: "string result list \<Rightarrow> WssFixture \<Rightarrow> string list \<times> WssFixture" where
  "fixture_loop [] f = ([], f)"
| "fixture_loop (Inl e # rs) f = ([], fixture_failed e f)"
| "fixture_loop (Inr m # rs) f =
     (if starts_with ''ACK '' m then fixture_loop rs (f\<lparr>ack_received := True\<rparr>)
      else if starts_with ''BYE '' m then
        (let f' = f\<lparr>bye_received := True\<rparr>
         in case sip_response m 200 ''OK'' of Inl e \<Rightarrow> ([], fixture_failed e f') | Inr resp \<Rightarrow> ([resp], f'))
      else fixture_loop rs f)"

definition fixture_serve ::
  "(string \<Rightarrow> string) \<Rightarrow> (string \<Rightarrow> string) \<Rightarrow> string result \<Rightarrow> string result list \<Rightarrow> WssFixture \<Rightarrow> string list \<times> WssFixture" where
  "fixture_serve sha1 b64encode handshake reads f =
     (case bindE handshake (wss_handshake sha1 b64encode) of
        Inl e \<Rightarrow> ([], fixture_failed e f)
      | Inr upgrade \<Rightarrow>
          (case reads of
             [] \<Rightarrow> ([upgrade], f)
           | Inl e # _ \<Rightarrow> ([upgrade], fixture_failed e f)
           | Inr m # rs \<Rightarrow>
               let f1 = f\<lparr>payload := m\<rparr>
               in if \<not> starts_with ''INVITE '' m then ([upgrade], fixture_failed (RuntimeError ''WSS peer did not receive INVITE'') f1)
                  else if \<not> contains ''Content-Length:'' m
                  then ([upgrade], fixture_failed (RuntimeError ''forwarded INVITE lost Content-Length'') f1)
                  else
                    let f2 = f1\<lparr>received := True\<rparr>
                    in case sip_response m 180 ''Ringing'' of
                         Inl e \<Rightarrow> ([upgrade], fixture_failed e f2)
                       | Inr ringing \<Rightarrow>
                           (case sip_response m 200 ''OK'' of
                              Inl e \<Rightarrow> ([upgrade, ringing], fixture_failed e f2)
                            | Inr ok \<Rightarrow> (case fixture_loop rs f2 of (out, f3) \<Rightarrow> ([upgrade, ringing, ok] @ out, f3)))))"

subsection \<open>Responses, read back\<close>

text \<open>The fields of a response, and what the readers find in it.\<close>

definition peer_fields :: "string list \<Rightarrow> string \<Rightarrow> string \<Rightarrow> string \<Rightarrow> string \<Rightarrow> (string \<times> string) list \<Rightarrow> (string \<times> string) list" where
  "peer_fields vs f t c q ex = map (Pair ''Via'') vs @ [(''From'', f), (''To'', t), (''Call-ID'', c), (''CSeq'', q)] @ ex"

definition status_line :: "int \<Rightarrow> string \<Rightarrow> string" where
  "status_line code reason = ''SIP/2.0 '' @ dec_str code @ '' '' @ reason"

definition reasons :: "string list" where "reasons = [''Trying'', ''Ringing'', ''OK'']"

lemma dec_str_plain: "c \<in> set (dec_str n) \<Longrightarrow> c \<noteq> cr \<and> c \<noteq> CHR '':'' \<and> c \<noteq> CHR '' ''"
  using dec_str_chars [of n] by (auto simp: list_all_iff is_digit_def cr_def)

lemma status_line_plain:
  assumes "reason \<in> set reasons"
  shows "list_all (\<lambda>c. c \<noteq> cr \<and> c \<noteq> CHR '':'') (status_line code reason)"
proof -
  have "\<forall>c \<in> set reason. c \<noteq> cr \<and> c \<noteq> CHR '':''" using assms by (auto simp: reasons_def cr_def)
  moreover have "\<forall>c \<in> set ''SIP/2.0 ''. c \<noteq> cr \<and> c \<noteq> CHR '':''" by (simp add: cr_def)
  moreover have "cr \<noteq> CHR '' ''" by (simp add: cr_def)
  ultimately show ?thesis
    using dec_str_plain [of _ code] by (auto simp: status_line_def list_all_iff)
qed

lemma status_line_no_crlf: "reason \<in> set reasons \<Longrightarrow> no_crlf (status_line code reason)"
  using status_line_plain by (intro no_crlf_plain) (auto simp: list_all_iff)

lemma lower_octets_peer:
  "map lower_octet ''Via'' = ''via''" "map lower_octet ''From'' = ''from''" "map lower_octet ''To'' = ''to''"
  "map lower_octet ''Call-ID'' = ''call-id''" "map lower_octet ''CSeq'' = ''cseq''" "map lower_octet ''Contact'' = ''contact''"
  "map lower_octet ''Content-Length'' = ''content-length''"
  by (simp_all add: lower_octet_def char_of_eq_iff take_bit_eq_mod)

lemmas octet_lower = lower_octet_def char_of_eq_iff take_bit_eq_mod

lemma start_name:
  assumes "reason \<in> set reasons" and "name \<in> {''Via'', ''From'', ''To'', ''Call-ID'', ''CSeq''}"
  shows "map lower_octet (before_colon (status_line code reason)) \<noteq> map lower_octet name" "CHR '':'' \<notin> set name"
proof -
  have "before_colon (status_line code reason) = status_line code reason"
    using status_line_plain [OF assms(1), of code] by (auto simp: before_colon_def takeWhile_eq_all_conv list_all_iff)
  then have "hd (map lower_octet (before_colon (status_line code reason))) = CHR ''s''"
    by (simp add: status_line_def octet_lower)
  moreover have "hd (map lower_octet name) \<noteq> CHR ''s''" using assms(2) by (auto simp: octet_lower)
  ultimately show "map lower_octet (before_colon (status_line code reason)) \<noteq> map lower_octet name" by metis
  show "CHR '':'' \<notin> set name" using assms(2) by auto
qed

definition clean :: "string \<Rightarrow> bool" where
  "clean v \<longleftrightarrow> no_crlf v \<and> strip_with octet_space v = v"

lemma header_lines_clean: "v \<in> set (header_lines msg name) \<Longrightarrow> clean v"
  using header_value_no_crlf header_value_stripped by (auto simp: clean_def header_lines_def)

lemma peer_fields_read:
  fixes code :: int
  assumes "reason \<in> set reasons" and "\<forall>v \<in> set vs. clean v" and "clean f" and "clean t" and "clean c" and "clean q"
    and ex: "list_all field_ok ex" "\<forall>e \<in> set ex. fst e \<in> {''Contact'', ''Content-Length''}"
  defines "resp \<equiv> join crlf (message_lines (status_line code reason) (peer_fields vs f t c q ex))"
  shows "header_lines resp ''Via'' = vs \<and> header_lines resp ''From'' = [f] \<and> header_lines resp ''To'' = [t] \<and>
    header_lines resp ''Call-ID'' = [c] \<and> header_lines resp ''CSeq'' = [q]"
proof -
  have ok: "list_all field_ok (peer_fields vs f t c q ex)"
    using assms(2-6) ex(1) by (auto simp: peer_fields_def field_ok_def clean_def list_all_iff cr_def)
  note read = octet_header.read_back [OF status_line_no_crlf [OF assms(1)] ok start_name(2) [OF assms(1)] start_name(1) [OF assms(1)]]
  have none: "filter (\<lambda>e. map lower_octet (fst e) = l) ex = []" if "l \<notin> {''contact'', ''content-length''}" for l
    using ex(2) that by (auto simp: filter_empty_conv octet_lower dest: bspec)
  have all: "filter (\<lambda>e. map lower_octet (fst e) = l) (map (Pair n) vs) = (if map lower_octet n = l then map (Pair n) vs else [])" for n l
    by (induction vs) auto
  have same: "map (\<lambda>e. strip_with octet_space (snd e)) (map (Pair n) vs) = vs" for n
    using assms(2) by (auto simp: clean_def intro: map_idI)
  have "header_lines resp name = map (\<lambda>e. strip_with octet_space (snd e))
      (filter (\<lambda>e. map lower_octet (fst e) = map lower_octet name) (peer_fields vs f t c q ex))"
    if "name \<in> {''Via'', ''From'', ''To'', ''Call-ID'', ''CSeq''}" for name
    unfolding header_lines_def resp_def by (rule read [OF that that])
  then show ?thesis
    using assms(3-6)
    by (simp add: peer_fields_def all none lower_octets_peer same clean_def del: map_map list.map) simp
qed

lemma join_append: "xs \<noteq> [] \<Longrightarrow> ys \<noteq> [] \<Longrightarrow> join sep (xs @ ys) = join sep xs @ sep @ join sep ys"
proof (induction xs)
  case (Cons x xs)
  then show ?case by (cases xs; cases ys) auto
qed simp

definition fault_to :: "string \<Rightarrow> string \<Rightarrow> string" where
  "fault_to request tag =
     (if contains '';tag='' (fault_header request ''To'') then fault_header request ''To''
      else fault_header request ''To'' @ '';tag='' @ tag)"

lemma fault_response_form:
  "fault_response request code reason tag = join crlf (message_lines (status_line code reason)
     (peer_fields (vias request) (fault_header request ''From'') (fault_to request tag)
       (fault_header request ''Call-ID'') (fault_header request ''CSeq'') [(''Content-Length'', ''0'')]))"
  by (simp add: fault_response_def message_lines_def status_line_def peer_fields_def fault_to_def labelled_def Let_def comp_def)

lemma sip_response_form:
  "header_lines request ''Via'' \<noteq> [] \<Longrightarrow>
   ''SIP/2.0 '' @ dec_str status @ '' '' @ reason @ crlf @ join crlf (map (\<lambda>v. ''Via: '' @ v) (header_lines request ''Via''))
     @ crlf @ ''From: '' @ f @ crlf @ ''To: '' @ t @ crlf @ ''Call-ID: '' @ c @ crlf @ ''CSeq: '' @ q
     @ crlf @ ''Contact: <sips:uas@localhost;transport=wss>'' @ crlf @ ''Content-Length: 0'' @ crlf @ crlf
   = join crlf (message_lines (status_line status reason) (peer_fields (header_lines request ''Via'') f t c q
       [(''Contact'', ''<sips:uas@localhost;transport=wss>''), (''Content-Length'', ''0'')]))"
proof -
  assume vs: "header_lines request ''Via'' \<noteq> []"
  let ?vs = "map (\<lambda>v. ''Via: '' @ v) (header_lines request ''Via'')"
  let ?rest = "[''From: '' @ f, ''To: '' @ t, ''Call-ID: '' @ c, ''CSeq: '' @ q,
    ''Contact: <sips:uas@localhost;transport=wss>'', ''Content-Length: 0'', [], []]"
  have "message_lines (status_line status reason) (peer_fields (header_lines request ''Via'') f t c q
       [(''Contact'', ''<sips:uas@localhost;transport=wss>''), (''Content-Length'', ''0'')]) = [status_line status reason] @ ?vs @ ?rest"
    by (simp add: message_lines_def peer_fields_def labelled_def comp_def)
  moreover have "join crlf ([status_line status reason] @ ?vs @ ?rest) = status_line status reason @ crlf @ join crlf ?vs @ crlf @ join crlf ?rest"
    using vs by (subst join_append; simp)+
  moreover have "join crlf ?rest = ''From: '' @ f @ crlf @ ''To: '' @ t @ crlf @ ''Call-ID: '' @ c @ crlf @ ''CSeq: '' @ q
     @ crlf @ ''Contact: <sips:uas@localhost;transport=wss>'' @ crlf @ ''Content-Length: 0'' @ crlf @ crlf"
    by (simp del: append.simps)
  ultimately show ?thesis by (simp add: status_line_def del: join.simps)
qed

lemma clean_append_tag: "clean v \<Longrightarrow> clean (v @ '';tag=uas'') \<and> clean (v @ '';tag=wss-peer'')"
proof -
  assume v: "clean v"
  have "no_crlf (v @ l)" if "no_crlf v" "list_all (\<lambda>c. c \<noteq> cr \<and> c \<noteq> lf) l" for l
    using that(2) by (induction l rule: rev_induct) (use that(1) in \<open>auto simp: no_crlf_snoc simp flip: append_assoc\<close>)
  moreover have "strip_with octet_space (v @ l) = v @ l" if "l \<noteq> []" "\<not> octet_space (hd l)" "\<not> octet_space (last l)" for l
    using that v strip_with_ends(1) [of octet_space v]
    by (intro strip_with_id) (cases "v = []", auto simp: clean_def)
  ultimately show ?thesis using v by (simp add: clean_def cr_def lf_def octet_space_def)
qed

lemma fault_header_clean: "clean (fault_header msg name)"
  using header_lines_clean [of _ msg name] by (auto simp: fault_header_def clean_def split: list.splits)

text \<open>A response answers a request when its reader finds in it the status, the whole \<open>Via\<close> list, \<open>From\<close>,
  \<open>Call-ID\<close> and \<open>CSeq\<close> of the request, and a \<open>To\<close> that is the request's, with a tag.\<close>

definition answers_request :: "string \<Rightarrow> int \<Rightarrow> string \<Rightarrow> bool" where
  "answers_request request code resp \<longleftrightarrow>
     response_status resp = code \<and> header_lines resp ''Via'' = vias request
     \<and> fault_header resp ''From'' = fault_header request ''From''
     \<and> fault_header resp ''Call-ID'' = fault_header request ''Call-ID''
     \<and> fault_header resp ''CSeq'' = fault_header request ''CSeq''
     \<and> (\<exists>tag. fault_header resp ''To'' = fault_header request ''To'' @ tag)
     \<and> contains '';tag='' (map lower_octet (fault_header resp ''To''))"

lemma status_read: "\<bar>code\<bar> < 10 ^ MAX_STR_DIGITS \<Longrightarrow> response_status (join crlf (message_lines (status_line code reason) fs)) = code"
proof -
  assume code: "\<bar>code\<bar> < 10 ^ MAX_STR_DIGITS"
  have sp: "CHR '' '' \<notin> set (dec_str code)" using dec_str_plain [of _ code] by blast
  obtain rest where "join crlf (message_lines (status_line code reason) fs) = status_line code reason @ rest"
    by (simp add: message_lines_def join_Cons)
  then have "join crlf (message_lines (status_line code reason) fs) =
      ''SIP/2.0'' @ CHR '' '' # (dec_str code @ CHR '' '' # (reason @ rest))"
    by (simp add: status_line_def)
  moreover have "split_char CHR '' '' (''SIP/2.0'' @ CHR '' '' # (dec_str code @ CHR '' '' # (reason @ rest))) =
      ''SIP/2.0'' # dec_str code # split_char CHR '' '' (reason @ rest)"
    using sp by (subst split_char_append; simp add: split_char_append del: split_char.simps)
  ultimately show ?thesis
    using py_int_dec_str [OF code] by (simp add: response_status_def del: split_char.simps append.simps)
qed

lemma tag_lower: "contains '';tag='' s \<Longrightarrow> contains '';tag='' (map lower_octet s)"
proof -
  assume "contains '';tag='' s"
  then obtain a b where "s = a @ '';tag='' @ b" unfolding contains_iff by blast
  then have "map lower_octet s = map lower_octet a @ '';tag='' @ map lower_octet b"
    by (simp add: octet_lower)
  then show ?thesis unfolding contains_iff by blast
qed

lemma tag_added: "contains '';tag='' (v @ '';tag='' @ w)"
  unfolding contains_iff by blast

lemma clean_Nil [simp]: "clean []"
  by (simp add: clean_def)

lemma fault_response_answers:
  assumes "reason \<in> set reasons" and "\<bar>code\<bar> < 10 ^ MAX_STR_DIGITS"
  shows "answers_request request code (fault_response request code reason ''uas'')"
proof -
  have to: "clean (fault_to request ''uas'')"
    using fault_header_clean clean_append_tag by (simp add: fault_to_def)
  have ex: "list_all field_ok [(''Content-Length'', ''0'')]" by (simp add: field_ok_def cr_def)
  have tag: "contains '';tag='' (fault_to request ''uas'')"
    using tag_added [of "fault_header request ''To''" "''uas''"] by (simp add: fault_to_def)
  note read = peer_fields_read [OF assms(1) _ fault_header_clean to fault_header_clean fault_header_clean ex,
      of "vias request" code request "''From''" request "''Call-ID''" request "''CSeq''"]
  show ?thesis
    unfolding answers_request_def fault_response_form
    using read header_lines_clean [of _ request "''Via''"] status_read [OF assms(2)] tag_lower [OF tag]
    by (simp add: vias_def fault_header_def [of "join _ _"]) (simp add: fault_to_def)
qed

lemma one_header_cases:
  "one_header m n = (if header_lines m n = [] then Inl (RuntimeError (''WSS INVITE missing '' @ n @ '' header'')) else Inr (fault_header m n))"
  by (simp add: one_header_def fault_header_def split: list.splits)

definition complete_request :: "string \<Rightarrow> bool" where
  "complete_request m \<longleftrightarrow> (\<forall>n \<in> set [''Via'', ''To'', ''From'', ''Call-ID'', ''CSeq'']. header_lines m n \<noteq> [])"

lemma sip_response_refused:
  "\<not> complete_request m \<Longrightarrow> \<exists>n. sip_response m code reason = Inl (RuntimeError (''WSS INVITE missing '' @ n @ '' header'')) \<and> header_lines m n = []"
  by (auto simp: sip_response_def one_header_cases complete_request_def Let_def)

lemma sip_response_answers:
  assumes "reason \<in> set reasons" and "\<bar>code\<bar> < 10 ^ MAX_STR_DIGITS" and c: "complete_request request"
  shows "\<exists>resp. sip_response request code reason = Inr resp \<and> answers_request request code resp"
proof -
  let ?to = "if contains '';tag='' (map lower_octet (fault_header request ''To'')) then fault_header request ''To''
    else fault_header request ''To'' @ '';tag=wss-peer''"
  have to: "clean ?to" using fault_header_clean clean_append_tag by simp
  have ex: "list_all field_ok [(''Contact'', ''<sips:uas@localhost;transport=wss>''), (''Content-Length'', ''0'')]"
    by (simp add: field_ok_def cr_def)
  have tag: "contains '';tag='' (map lower_octet ?to)"
    using tag_lower [OF tag_added, of "fault_header request ''To''" "''wss-peer''"] by simp
  have vs: "header_lines request ''Via'' \<noteq> []" using c by (simp add: complete_request_def)
  note read = peer_fields_read [OF assms(1) _ fault_header_clean to fault_header_clean fault_header_clean ex,
      of "vias request" code request "''From''" request "''Call-ID''" request "''CSeq''"]
  let ?resp = "join crlf (message_lines (status_line code reason) (peer_fields (header_lines request ''Via'') (fault_header request ''From'') ?to
       (fault_header request ''Call-ID'') (fault_header request ''CSeq'') [(''Contact'', ''<sips:uas@localhost;transport=wss>''), (''Content-Length'', ''0'')]))"
  have "sip_response request code reason = Inr ?resp"
    unfolding sip_response_form [OF vs, symmetric] using c
    by (simp add: sip_response_def one_header_cases complete_request_def Let_def)
  moreover have "answers_request request code ?resp"
    unfolding answers_request_def
    using read header_lines_clean [of _ request "''Via''"] status_read [OF assms(2)] tag
    by (simp add: vias_def fault_header_def [of "join _ _"])
  ultimately show ?thesis by blast
qed

subsection \<open>Properties\<close>

text \<open>The peers answer so that responses find their way back. A response of \<open>FaultUas\<close>, for any packet, has the
  status asked for, the whole \<open>Via\<close> list of the packet in order, its \<open>From\<close>, \<open>Call-ID\<close> and \<open>CSeq\<close>, and its \<open>To\<close>
  with a tag, when read as headers. \<open>sip_response\<close> of the WebSocket fixture gives the same for a request
  that has these five headers, and for any other raises the error that names a missing one.\<close>

theorem peer_responses_answer_requests:
  assumes "reason \<in> set reasons" and "\<bar>code\<bar> < 10 ^ MAX_STR_DIGITS"
  shows "answers_request request code (fault_response request code reason ''uas'') \<and>
    (if complete_request request
     then \<exists>resp. sip_response request code reason = Inr resp \<and> answers_request request code resp
     else \<exists>n. sip_response request code reason = Inl (RuntimeError (''WSS INVITE missing '' @ n @ '' header'')) \<and> header_lines request n = [])"
  using fault_response_answers [OF assms] sip_response_answers [OF assms] sip_response_refused by simp

lemma lab_code: "\<bar>200 :: int\<bar> < 10 ^ MAX_STR_DIGITS"
proof -
  have "(10 :: int) ^ 3 \<le> 10 ^ MAX_STR_DIGITS" by (rule power_increasing) (simp_all add: MAX_STR_DIGITS_def)
  then show ?thesis by simp
qed

theorem peer_responses_answer_requests_witness:
  "header_lines (fault_response (fault_request ''INVITE'' ''drop-loss'' ''b'' 1) 200 ''OK'' ''uas'') ''Via'' =
     vias (fault_request ''INVITE'' ''drop-loss'' ''b'' 1)"
  using peer_responses_answer_requests [OF _ lab_code, of "''OK''" "fault_request ''INVITE'' ''drop-loss'' ''b'' 1"]
  by (simp add: reasons_def answers_request_def)

text \<open>What \<open>FaultUas\<close> is for, as a function of the call and of how many INVITEs it has seen of it.\<close>

definition is_invite :: "string \<Rightarrow> string \<Rightarrow> bool" where
  "is_invite call_id p \<longleftrightarrow> starts_with ''INVITE '' p \<and> fault_header p ''Call-ID'' = call_id"

definition invites_seen :: "string \<Rightarrow> string list \<Rightarrow> nat" where
  "invites_seen call_id ps = length (filter (is_invite call_id) ps)"

definition invite_script :: "string \<Rightarrow> nat \<Rightarrow> (int \<times> string) list" where
  "invite_script call_id earlier =
     (if starts_with ''drop-'' call_id \<and> earlier = 0 then []
      else if starts_with ''reorder-'' call_id then [(200, ''OK''), (180, ''Ringing''), (200, ''OK'')]
      else [(100, ''Trying''), (180, ''Ringing''), (200, ''OK'')])"

lemma methods_differ:
  "starts_with ''INVITE '' p \<Longrightarrow> \<not> starts_with ''ACK '' p \<and> \<not> starts_with ''BYE '' p"
  by (cases p) (auto simp: starts_with_def)

lemma uas_packet_counts:
  "(case map_of (invites (snd (uas_packet p u))) cid of None \<Rightarrow> 0 | Some n \<Rightarrow> n) =
     (case map_of (invites u) cid of None \<Rightarrow> 0 | Some n \<Rightarrow> n) + (if is_invite cid p then 1 else 0)"
proof (cases "starts_with ''INVITE '' p")
  case True
  then show ?thesis using methods_differ [OF True]
    by (simp add: uas_packet_def is_invite_def Let_def update_conv')
next
  case False
  then show ?thesis by (simp add: uas_packet_def is_invite_def)
qed

lemma uas_run_counts:
  "(case map_of (invites (snd (uas_run ps u))) cid of None \<Rightarrow> 0 | Some n \<Rightarrow> n) =
     (case map_of (invites u) cid of None \<Rightarrow> 0 | Some n \<Rightarrow> n) + invites_seen cid ps"
proof (induction ps arbitrary: u)
  case (Cons p ps)
  have "snd (uas_run (p # ps) u) = snd (uas_run ps (snd (uas_packet p u)))"
    by (simp add: case_prod_unfold)
  then show ?case using Cons.IH [of "snd (uas_packet p u)"] uas_packet_counts [of p u cid]
    by (simp add: invites_seen_def)
qed (simp add: invites_seen_def)

lemma uas_packet_script:
  assumes "starts_with ''INVITE '' p"
    and "(case map_of (invites u) (fault_header p ''Call-ID'') of None \<Rightarrow> 0 | Some n \<Rightarrow> n) = earlier"
  shows "fst (uas_packet p u) = map (\<lambda>(code, reason). fault_response p code reason ''uas'') (invite_script (fault_header p ''Call-ID'') earlier)"
  using assms methods_differ [OF assms(1)] by (auto simp: uas_packet_def invite_script_def Let_def)

text \<open>\<open>FaultUas\<close> keeps to its script whatever it has received before. After any packets, an INVITE gets the
  responses that its Call-ID and the number of earlier INVITEs with it ask for: none for the first of a
  \<open>drop-\<close> call, 200, 180, 200 for a \<open>reorder-\<close> call, else 100, 180, 200; a BYE gets 200 and an ACK nothing. So
  a dropped call is answered from its first retransmission on, whatever other calls do.\<close>

theorem fault_uas_keeps_its_script:
  shows "fst (uas_packet p (snd (uas_run ps new_fault_uas))) =
    (if starts_with ''INVITE '' p then
       map (\<lambda>(code, reason). fault_response p code reason ''uas'')
         (invite_script (fault_header p ''Call-ID'') (invites_seen (fault_header p ''Call-ID'') ps))
     else if starts_with ''BYE '' p then [fault_response p 200 ''OK'' ''uas''] else [])"
proof (cases "starts_with ''INVITE '' p")
  case True
  have "(case map_of (invites (snd (uas_run ps new_fault_uas))) (fault_header p ''Call-ID'') of None \<Rightarrow> 0 | Some n \<Rightarrow> n) =
      invites_seen (fault_header p ''Call-ID'') ps"
    using uas_run_counts [of ps new_fault_uas "fault_header p ''Call-ID''"] by (simp add: new_fault_uas_def)
  from uas_packet_script [OF True this] show ?thesis using True by simp
next
  case False
  have "starts_with ''BYE '' p \<Longrightarrow> \<not> starts_with ''ACK '' p" by (cases p) (auto simp: starts_with_def)
  with False show ?thesis by (auto simp: uas_packet_def)
qed

text \<open>The dialog that the fixture waits for, in what it reads after the INVITE.\<close>

definition dialog_ends :: "string result list \<Rightarrow> string list \<Rightarrow> string \<Rightarrow> bool" where
  "dialog_ends rs pre bye \<longleftrightarrow>
     (\<exists>post. rs = map Inr pre @ Inr bye # post) \<and> list_all (\<lambda>m. \<not> starts_with ''BYE '' m) pre
     \<and> starts_with ''BYE '' bye \<and> complete_request bye"

definition accepted_invite :: "string \<Rightarrow> bool" where
  "accepted_invite m \<longleftrightarrow> starts_with ''INVITE '' m \<and> contains ''Content-Length:'' m \<and> complete_request m"

lemma ok_reason: "''OK'' \<in> set reasons" "''Ringing'' \<in> set reasons"
  by (simp_all add: reasons_def)

lemma small_codes: "\<bar>180 :: int\<bar> < 10 ^ MAX_STR_DIGITS"
  using lab_code by simp

lemma ack_not_bye: "starts_with ''ACK '' m \<Longrightarrow> \<not> starts_with ''BYE '' m"
  by (cases m) (auto simp: starts_with_def)

lemma fixture_loop_ends:
  assumes "list_all (\<lambda>m. \<not> starts_with ''BYE '' m) pre" and "starts_with ''BYE '' bye" and "sip_response bye 200 ''OK'' = Inr resp"
  shows "fixture_loop (map Inr pre @ Inr bye # post) f =
    ([resp], f\<lparr>ack_received := ack_received f \<or> list_ex (starts_with ''ACK '') pre, bye_received := True\<rparr>)"
  using assms(1)
proof (induction pre arbitrary: f)
  case Nil
  then show ?case using assms(2,3) ack_not_bye [of bye] by auto
next
  case (Cons m pre)
  then show ?case by simp
qed

lemma fixture_loop_complete:
  assumes "\<not> bye_received f" and "bye_received (snd (fixture_loop rs f))" and "error (snd (fixture_loop rs f)) = None"
  shows "\<exists>pre bye. dialog_ends rs pre bye"
  using assms
proof (induction rs f rule: fixture_loop.induct)
  case (2 e rs f)
  then show ?case by (simp add: fixture_failed_def)
next
  case (3 m rs f)
  show ?case
  proof (cases "starts_with ''BYE '' m")
    case True
    have "complete_request m"
    proof (rule ccontr)
      assume "\<not> complete_request m"
      then obtain n where "sip_response m 200 ''OK'' = Inl (RuntimeError (''WSS INVITE missing '' @ n @ '' header''))"
        using sip_response_refused by blast
      moreover have "\<not> starts_with ''ACK '' m" using True ack_not_bye by blast
      ultimately show False using "3.prems" True by (simp add: fixture_failed_def Let_def)
    qed
    with True have "dialog_ends (Inr m # rs) [] m" by (simp add: dialog_ends_def)
    then show ?thesis by blast
  next
    case False
    have "\<exists>pre bye. dialog_ends rs pre bye"
    proof (cases "starts_with ''ACK '' m")
      case True
      then show ?thesis using "3.IH"(1) "3.prems" by simp
    next
      case no_ack: False
      then show ?thesis using "3.IH"(2) False "3.prems" by simp
    qed
    then obtain pre bye post where "rs = map Inr pre @ Inr bye # post" "list_all (\<lambda>m. \<not> starts_with ''BYE '' m) pre"
        "starts_with ''BYE '' bye" "complete_request bye"
      by (auto simp: dialog_ends_def)
    with False have "dialog_ends (Inr m # rs) (m # pre) bye" by (auto simp: dialog_ends_def)
    then show ?thesis by blast
  qed
qed simp

lemma fixture_serve_runs:
  assumes "wss_handshake sha1 b64encode hs = Inr upgrade" and "accepted_invite invite" and "dialog_ends rs pre bye"
  shows "\<exists>ringing ok done. fixture_serve sha1 b64encode (Inr hs) (Inr invite # rs) new_fixture =
      ([upgrade, ringing, ok, done],
       \<lparr>payload = invite, received = True, ack_received = list_ex (starts_with ''ACK '') pre, bye_received = True, error = None\<rparr>)
    \<and> answers_request invite 180 ringing \<and> answers_request invite 200 ok \<and> answers_request bye 200 done"
proof -
  have inv: "complete_request invite" using assms(2) by (simp add: accepted_invite_def)
  obtain ringing ok where r: "sip_response invite 180 ''Ringing'' = Inr ringing" "sip_response invite 200 ''OK'' = Inr ok"
      "answers_request invite 180 ringing" "answers_request invite 200 ok"
    using sip_response_answers [OF ok_reason(2) small_codes inv] sip_response_answers [OF ok_reason(1) lab_code inv] by blast
  obtain post where rs: "rs = map Inr pre @ Inr bye # post" "list_all (\<lambda>m. \<not> starts_with ''BYE '' m) pre"
      "starts_with ''BYE '' bye" "complete_request bye"
    using assms(3) by (auto simp: dialog_ends_def)
  obtain resp where d: "sip_response bye 200 ''OK'' = Inr resp" "answers_request bye 200 resp"
    using sip_response_answers [OF ok_reason(1) lab_code rs(4)] by blast
  show ?thesis
    using assms(1,2) r d fixture_loop_ends [OF rs(2,3) d(1), of post]
    by (simp add: fixture_serve_def accepted_invite_def Let_def rs(1) new_fixture_def)
qed

text \<open>The WebSocket fixture reports a finished dialog exactly when there was one. It has received a BYE and
  has no error if and only if the handshake was accepted, the first message was an INVITE with a
  Content-Length and the headers a response needs, and after it came a BYE with them, with nothing but
  whole messages in between. It has then sent the upgrade and the answers 180, 200 and 200, each of which answers its
  request, and has noted an ACK exactly if there was one before the BYE.\<close>

theorem wss_fixture_verdict:
  shows "(bye_received (snd (fixture_serve sha1 b64encode (Inr hs) reads new_fixture))
      \<and> error (snd (fixture_serve sha1 b64encode (Inr hs) reads new_fixture)) = None) \<longleftrightarrow>
    (\<exists>upgrade invite rs pre bye ringing ok done.
       wss_handshake sha1 b64encode hs = Inr upgrade \<and> reads = Inr invite # rs \<and> accepted_invite invite \<and> dialog_ends rs pre bye
       \<and> fixture_serve sha1 b64encode (Inr hs) reads new_fixture =
           ([upgrade, ringing, ok, done],
            \<lparr>payload = invite, received = True, ack_received = list_ex (starts_with ''ACK '') pre, bye_received = True, error = None\<rparr>)
       \<and> answers_request invite 180 ringing \<and> answers_request invite 200 ok \<and> answers_request bye 200 done)"
  (is "?done \<longleftrightarrow> ?dialog")
proof
  assume d: ?done
  obtain upgrade where u: "wss_handshake sha1 b64encode hs = Inr upgrade"
    using d by (cases "wss_handshake sha1 b64encode hs") (auto simp: fixture_serve_def fixture_failed_def new_fixture_def)
  obtain invite rs where r: "reads = Inr invite # rs"
    using d u by (cases reads; cases "hd reads") (auto simp: fixture_serve_def fixture_failed_def new_fixture_def)
  have "complete_request invite"
  proof (rule ccontr)
    assume "\<not> complete_request invite"
    then obtain n where "sip_response invite 180 ''Ringing'' = Inl (RuntimeError (''WSS INVITE missing '' @ n @ '' header''))"
      using sip_response_refused by blast
    then show False using d u r
      by (auto simp: fixture_serve_def fixture_failed_def new_fixture_def Let_def split: if_splits)
  qed
  moreover have "starts_with ''INVITE '' invite" "contains ''Content-Length:'' invite"
    using d u r by (auto simp: fixture_serve_def fixture_failed_def new_fixture_def Let_def split: if_splits)
  ultimately have inv: "accepted_invite invite" by (simp add: accepted_invite_def)
  obtain pre bye where "dialog_ends rs pre bye"
    using d u r inv fixture_loop_complete [of "new_fixture\<lparr>payload := invite, received := True\<rparr>" rs]
    by (auto simp: fixture_serve_def accepted_invite_def fixture_failed_def new_fixture_def Let_def split: sum.splits prod.splits)
  with fixture_serve_runs [OF u inv this] u r inv show ?dialog by blast
next
  assume ?dialog
  then show ?done by auto
qed

end
