(* ===== verification/Bench_Load.thy ===== *)
theory Bench_Load
  imports Sip_Text "HOL-Library.AList"
begin

section \<open>The load generators\<close>

text \<open>
  \<^verbatim>\<open>bench/transport_options_load.py\<close> (\<open>sip_options\<close>, \<open>read_until\<close>, \<open>worker\<close> and the verdict of \<open>main\<close>),
  \<^verbatim>\<open>bench/tcp_connection_soak.py\<close> (the peers, the event loop and its counters) and
  \<^verbatim>\<open>bench/check_sipp_stats.py\<close>. What the sockets do is input: the outcome of \<open>connect\<close>, of each exchange, of each
  \<open>sendall\<close> and \<open>recv\<close>. Time, printing and argument parsing are left out. Octets are characters.
\<close>

subsection \<open>One worker\<close>

definition load_options :: "nat \<Rightarrow> string \<Rightarrow> string" where
  "load_options index transport =
     (let via_transport = (if transport = ''wss'' then ''WS'' else upper transport)
      in concat (map (\<lambda>line. line @ crlf)
        [''OPTIONS sip:127.0.0.1 SIP/2.0'',
         ''Via: SIP/2.0/'' @ via_transport @ '' 127.0.0.1:5090;branch=z9hG4bK-load-'' @ dec_nat index,
         ''From: <sip:load@127.0.0.1>;tag=load'', ''To: <sip:127.0.0.1>'',
         ''Call-ID: load-'' @ dec_nat index @ ''@127.0.0.1'', ''CSeq: 1 OPTIONS'', ''Max-Forwards: 70'',
         ''Content-Length: 0'', []]))"

text \<open>The chunks that \<open>recv\<close> gives until it closes or the deadline passes.\<close>

fun read_until :: "string \<Rightarrow> string \<Rightarrow> string list \<Rightarrow> string" where
  "read_until marker data [] = data"
| "read_until marker data (chunk # chunks) =
     (if contains marker data then data else if chunk = [] then data else read_until marker (data @ chunk) chunks)"

record tally =
  ok :: nat
  failed :: nat
  attempted :: nat

text \<open>
  The loop over the messages from \<open>index\<close> on. \<open>exchange\<close> is the outcome of sending one payload and reading
  its response; the flag says that it raised, which ends the loop.
\<close>

function worker_loop :: "(string \<Rightarrow> string result) \<Rightarrow> (nat \<Rightarrow> string) \<Rightarrow> nat \<Rightarrow> nat \<Rightarrow> tally \<Rightarrow> bool \<times> tally" where
  "worker_loop exchange payload messages index t =
     (if index \<ge> messages then (False, t)
      else
        let t = t\<lparr>attempted := attempted t + 1\<rparr>
        in case exchange (payload index) of
             Inl e \<Rightarrow> (True, t)
           | Inr response \<Rightarrow>
               worker_loop exchange payload messages (index + 1)
                 (if contains ''SIP/2.0 200'' response then t\<lparr>ok := ok t + 1\<rparr> else t\<lparr>failed := failed t + 1\<rparr>))"
  by pat_completeness auto
termination
  by (relation "measure (\<lambda>(exchange, payload, messages, index, t). messages - index)") auto

declare worker_loop.simps [simp del]

definition worker :: "string \<Rightarrow> (string \<Rightarrow> string result) option \<Rightarrow> nat \<Rightarrow> nat \<Rightarrow> tally" where
  "worker transport connection messages worker_id =
     (let zero = \<lparr>ok = 0, failed = 0, attempted = 0\<rparr>
      in case connection of
           None \<Rightarrow> zero\<lparr>failed := messages\<rparr>
         | Some exchange \<Rightarrow>
             (case worker_loop exchange (\<lambda>index. load_options (worker_id * messages + index) transport) messages 0 zero of
                (raised, t) \<Rightarrow> if raised then t\<lparr>failed := failed t + (messages - attempted t)\<rparr> else t))"

text \<open>The totals over the workers, which are added under a lock, and the exit code.\<close>

definition load_run :: "string \<Rightarrow> (string \<Rightarrow> string result) option list \<Rightarrow> nat \<Rightarrow> nat \<times> nat \<times> int" where
  "load_run transport connections messages =
     (let ts = map (\<lambda>(i, c). worker transport c messages i) (enumerate 0 connections);
          oks = sum_list (map ok ts); fails = sum_list (map failed ts); total = length connections * messages
      in (oks, fails, if oks = total \<and> fails = 0 then 0 else 1))"

subsection \<open>The connection soak\<close>

definition soak_options :: "nat \<Rightarrow> string" where
  "soak_options call_id =
     concat (map (\<lambda>line. line @ crlf)
       [''OPTIONS sip:127.0.0.1 SIP/2.0'', ''Via: SIP/2.0/TCP 127.0.0.1:5090;branch=z9hG4bK-capacity-'' @ dec_nat call_id,
        ''From: <sip:capacity@127.0.0.1>;tag=capacity'', ''To: <sip:127.0.0.1>'',
        ''Call-ID: capacity-'' @ dec_nat call_id @ ''@127.0.0.1'', ''CSeq: 1 OPTIONS'', ''Max-Forwards: 70'',
        ''Content-Length: 0'', []])"

record Peer =
  peer_sent :: bool
  peer_received :: string

record Soak =
  peers :: "(nat \<times> Peer) list"
  connected :: nat
  soak_failed :: nat
  responses :: nat
  sends :: nat

text \<open>\<open>received[:end]\<close> and what follows, for the first blank line\<close>

fun cut_message :: "string \<Rightarrow> (string \<times> string) option" where
  "cut_message [] = None"
| "cut_message (c # s) =
     (if starts_with (crlf @ crlf) (c # s) then Some (crlf @ crlf, drop 4 (c # s))
      else map_option (\<lambda>(m, r). (c # m, r)) (cut_message s))"

lemma cut_message_split: "cut_message s = Some (m, r) \<Longrightarrow> s = m @ r \<and> m \<noteq> []"
proof (induction s arbitrary: m r)
  case (Cons c s)
  show ?case
  proof (cases "starts_with (crlf @ crlf) (c # s)")
    case True
    moreover have "length (crlf @ crlf) = 4" by (simp add: crlf_def)
    ultimately have "take 4 (c # s) = crlf @ crlf" by (simp only: starts_with_def)
    then have "c # s = (crlf @ crlf) @ drop 4 (c # s)" by (metis append_take_drop_id)
    then show ?thesis using True Cons.prems by (auto simp: crlf_def)
  next
    case False
    then show ?thesis using Cons by auto
  qed
qed simp

function drain :: "string \<Rightarrow> nat \<times> string" where
  "drain s =
     (case cut_message s of
        None \<Rightarrow> (0, s)
      | Some (m, r) \<Rightarrow> (case drain r of (n, b) \<Rightarrow> ((if starts_with ''SIP/2.0 '' m then 1 else 0) + n, b)))"
  by pat_completeness auto
termination
  by (relation "measure length") (auto dest!: cut_message_split)

declare drain.simps [simp del]

text \<open>
  One entry of \<open>selector.select\<close>: the peer, whether it can be read and written, whether \<open>sendall\<close> succeeds, and
  what \<open>recv\<close> gives (\<open>None\<close> for \<open>OSError\<close>). \<open>selector.unregister\<close> raises for a socket that was closed.
\<close>

record ready =
  ready_peer :: nat
  can_read :: bool
  can_write :: bool
  send_ok :: bool
  chunk :: "string option"

definition drop_peer :: "nat \<Rightarrow> Soak \<Rightarrow> Soak" where
  "drop_peer k s = s\<lparr>peers := AList.delete k (peers s)\<rparr>"

definition handle_ready :: "ready \<Rightarrow> Soak \<Rightarrow> Soak result" where
  "handle_ready ev s =
     (case map_of (peers s) (ready_peer ev) of
        None \<Rightarrow> Inr s
      | Some p \<Rightarrow>
          let k = ready_peer ev;
              attempt = can_write ev \<and> \<not> peer_sent p;
              closed = attempt \<and> \<not> send_ok ev;
              s1 = (if attempt then
                      if send_ok ev
                      then s\<lparr>peers := AList.update k (p\<lparr>peer_sent := True\<rparr>) (peers s), sends := sends s + 1, connected := connected s + 1\<rparr>
                      else (drop_peer k s)\<lparr>soak_failed := soak_failed s + 1\<rparr>
                    else s);
              p1 = p\<lparr>peer_sent := peer_sent p \<or> attempt\<rparr>
          in if \<not> can_read ev then Inr s1
             else
               let data = (if closed then [] else case chunk ev of None \<Rightarrow> [] | Some c \<Rightarrow> c)
               in if data = [] then
                    if closed then Inl (ValueError ''Invalid file descriptor: -1'') else Inr (drop_peer k s1)
                  else (case drain (peer_received p @ data) of
                          (n, rest) \<Rightarrow>
                            Inr (s1\<lparr>peers := AList.update k (p1\<lparr>peer_received := rest\<rparr>) (peers s1), responses := responses s1 + n\<rparr>)))"

fun handle_all :: "ready list \<Rightarrow> Soak \<Rightarrow> Soak result" where
  "handle_all [] s = Inr s"
| "handle_all (ev # evs) s = bindE (handle_ready ev s) (handle_all evs)"

text \<open>The periodic round over all peers, those still connecting included.\<close>

definition resend_one :: "(nat \<Rightarrow> bool) \<Rightarrow> nat \<Rightarrow> Soak \<Rightarrow> Soak" where
  "resend_one sendall k s =
     (if sendall k then s\<lparr>sends := sends s + 1\<rparr> else (drop_peer k s)\<lparr>soak_failed := soak_failed s + 1\<rparr>)"

definition resend_all :: "(nat \<Rightarrow> bool) \<Rightarrow> Soak \<Rightarrow> Soak" where
  "resend_all sendall s = fold (resend_one sendall) (map fst (peers s)) s"

definition soak_turn :: "ready list \<Rightarrow> (nat \<Rightarrow> bool) option \<Rightarrow> Soak \<Rightarrow> Soak result" where
  "soak_turn evs resend s =
     (if peers s = [] then Inr s
      else bindE (handle_all evs s) (\<lambda>s'. Inr (case resend of None \<Rightarrow> s' | Some sendall \<Rightarrow> resend_all sendall s')))"

fun soak_run :: "(ready list \<times> (nat \<Rightarrow> bool) option) list \<Rightarrow> Soak \<Rightarrow> Soak result" where
  "soak_run [] s = Inr s"
| "soak_run ((evs, resend) # ts) s = bindE (soak_turn evs resend s) (soak_run ts)"

text \<open>The sockets that are opened first; \<open>started\<close> says for each whether \<open>connect_ex\<close> went well.\<close>

definition soak_start :: "bool list \<Rightarrow> Soak" where
  "soak_start started =
     \<lparr>peers = map (\<lambda>(k, b). (k, \<lparr>peer_sent = False, peer_received = []\<rparr>)) (filter snd (enumerate 0 started)),
      connected = 0, soak_failed = length (filter Not started), responses = 0, sends = 0\<rparr>"

definition soak_exit :: "Soak \<Rightarrow> int" where
  "soak_exit s = (if connected s > 0 \<and> soak_failed s = 0 then 0 else 1)"

subsection \<open>The statistics of a run\<close>

text \<open>The rows of the file, as \<open>csv.DictReader\<close> gives them, each with a value for every column.\<close>

definition check_stats :: "(string \<times> string) list list \<Rightarrow> int \<Rightarrow> (int \<times> int) result" where
  "check_stats rows expected =
     (if expected < 1 then Inl (ValueError ''expected call count must be positive'')
      else if rows = [] then Inl (ValueError ''SIPp did not produce a statistics sample'')
      else
        let row = last rows;
            field = (\<lambda>name. case map_of row name of
                None \<Rightarrow> Inl KeyError
              | Some v \<Rightarrow> (case py_int v of None \<Rightarrow> Inl (ValueError ''invalid literal for int()'') | Some n \<Rightarrow> Inr n))
        in bindE (field ''SuccessfulCall(C)'') (\<lambda>successful. bindE (field ''FailedCall(C)'') (\<lambda>fails.
           if fails \<noteq> 0 \<or> successful \<noteq> expected
           then Inl (ValueError (''completed '' @ dec_str successful @ ''/'' @ dec_str expected @ '' dialogs; '' @ dec_str fails @ '' failed''))
           else Inr (successful, fails))))"

subsection \<open>What the totals of a load run say\<close>

definition is_200 :: "string result \<Rightarrow> bool" where
  "is_200 r = (case r of Inl _ \<Rightarrow> False | Inr response \<Rightarrow> contains ''SIP/2.0 200'' response)"

lemma worker_loop_step:
  "index < messages \<Longrightarrow> worker_loop exchange payload messages index t =
    (case exchange (payload index) of
       Inl e \<Rightarrow> (True, t\<lparr>attempted := attempted t + 1\<rparr>)
     | Inr response \<Rightarrow> worker_loop exchange payload messages (index + 1)
         (if contains ''SIP/2.0 200'' response then t\<lparr>attempted := attempted t + 1, ok := ok t + 1\<rparr>
          else t\<lparr>attempted := attempted t + 1, failed := failed t + 1\<rparr>))"
  by (subst worker_loop.simps) (simp split: sum.split)

lemma worker_loop_end: "messages \<le> index \<Longrightarrow> worker_loop exchange payload messages index t = (False, t)"
  by (subst worker_loop.simps) simp

lemma below_Suc: "index < messages \<Longrightarrow> (\<forall>i. index \<le> i \<and> i < messages \<longrightarrow> P i) \<longleftrightarrow> P index \<and> (\<forall>i. Suc index \<le> i \<and> i < messages \<longrightarrow> P i)"
  by (metis Suc_leD Suc_leI le_neq_implies_less order_refl)

lemma worker_loop_counts:
  assumes "worker_loop exchange payload messages index t = (raised, t')"
    and "ok t + failed t = attempted t" and "attempted t = index" and "index \<le> messages"
  shows "ok t' + failed t' + (if raised then 1 else 0) = attempted t' \<and> attempted t' \<le> messages
    \<and> (raised \<or> attempted t' = messages)"
  using assms
proof (induction "messages - index" arbitrary: index t)
  case 0
  then show ?case by (simp add: worker_loop_end)
next
  case (Suc k)
  then have lt: "index < messages" by simp
  show ?case
  proof (cases "exchange (payload index)")
    case (Inl e)
    then show ?thesis using Suc.prems lt by (auto simp: worker_loop_step)
  next
    case (Inr response)
    then show ?thesis
      using Suc.hyps(1) [of "index + 1"] Suc.hyps(2) Suc.prems lt
      by (cases "contains ''SIP/2.0 200'' response") (simp_all add: worker_loop_step)
  qed
qed

lemma worker_loop_raises:
  "fst (worker_loop exchange payload messages index t) \<longleftrightarrow> \<not> (\<forall>i. index \<le> i \<and> i < messages \<longrightarrow> \<not> isl (exchange (payload i)))"
proof (induction "messages - index" arbitrary: index t)
  case 0
  then show ?case by (simp add: worker_loop_end)
next
  case (Suc k)
  then have lt: "index < messages" by simp
  have "k = messages - (index + 1)" using Suc.hyps(2) by simp
  note IH = Suc.hyps(1) [OF this]
  show ?case
    unfolding below_Suc [OF lt, where P = "\<lambda>i. \<not> isl (exchange (payload i))"]
    using IH lt by (cases "exchange (payload index)") (simp_all add: worker_loop_step)
qed

lemma worker_loop_ok:
  "ok (snd (worker_loop exchange payload messages index t)) \<le> ok t + (messages - index) \<and>
   (ok (snd (worker_loop exchange payload messages index t)) = ok t + (messages - index) \<longleftrightarrow>
     (\<forall>i. index \<le> i \<and> i < messages \<longrightarrow> is_200 (exchange (payload i))))"
proof (induction "messages - index" arbitrary: index t)
  case 0
  then show ?case by (auto simp: worker_loop_end)
next
  case (Suc k)
  then have lt: "index < messages" by simp
  have k: "k = messages - (index + 1)" using Suc.hyps(2) by simp
  note IH = Suc.hyps(1) [OF k]
  have split: "(\<forall>i. index \<le> i \<and> i < messages \<longrightarrow> is_200 (exchange (payload i))) \<longleftrightarrow>
      is_200 (exchange (payload index)) \<and> (\<forall>i. index + 1 \<le> i \<and> i < messages \<longrightarrow> is_200 (exchange (payload i)))"
    using below_Suc [OF lt, where P = "\<lambda>i. is_200 (exchange (payload i))"] by simp
  show ?case
  proof (cases "exchange (payload index)")
    case (Inl e)
    then show ?thesis unfolding split using lt by (simp add: worker_loop_step is_200_def) linarith
  next
    case (Inr response)
    show ?thesis
    proof (cases "contains ''SIP/2.0 200'' response")
      case True
      then show ?thesis unfolding split using lt Inr IH [of "t\<lparr>attempted := attempted t + 1, ok := ok t + 1\<rparr>"]
        by (auto simp: worker_loop_step is_200_def)
    next
      case False
      then show ?thesis unfolding split using lt Inr IH [of "t\<lparr>attempted := attempted t + 1, failed := failed t + 1\<rparr>"]
        by (auto simp: worker_loop_step is_200_def)
    qed
  qed
qed

text \<open>A worker breaks off when an exchange raises.\<close>

definition sends_to :: "string \<Rightarrow> nat \<Rightarrow> nat \<Rightarrow> nat \<Rightarrow> string" where
  "sends_to transport messages worker_id index = load_options (worker_id * messages + index) transport"

definition breaks_off :: "string \<Rightarrow> (string \<Rightarrow> string result) option \<Rightarrow> nat \<Rightarrow> nat \<Rightarrow> bool" where
  "breaks_off transport connection messages worker_id =
     (case connection of
        None \<Rightarrow> False
      | Some exchange \<Rightarrow> list_ex (\<lambda>i. isl (exchange (sends_to transport messages worker_id i))) [0..<messages])"

definition all_200 :: "string \<Rightarrow> (string \<Rightarrow> string result) option \<Rightarrow> nat \<Rightarrow> nat \<Rightarrow> bool" where
  "all_200 transport connection messages worker_id =
     (case connection of
        None \<Rightarrow> messages = 0
      | Some exchange \<Rightarrow> list_all (\<lambda>i. is_200 (exchange (sends_to transport messages worker_id i))) [0..<messages])"

lemma worker_facts:
  fixes transport :: string and messages worker_id :: nat and connection :: "(string \<Rightarrow> string result) option"
  defines "t \<equiv> worker transport connection messages worker_id"
  shows "ok t + failed t + (if breaks_off transport connection messages worker_id then 1 else 0) = messages"
    and "ok t = messages \<longleftrightarrow> all_200 transport connection messages worker_id"
proof -
  show "ok t + failed t + (if breaks_off transport connection messages worker_id then 1 else 0) = messages"
  proof (cases connection)
    case None
    then show ?thesis by (simp add: t_def worker_def breaks_off_def)
  next
    case (Some exchange)
    obtain raised r where w: "worker_loop exchange (sends_to transport messages worker_id) messages 0 \<lparr>ok = 0, failed = 0, attempted = 0\<rparr> = (raised, r)"
      by fastforce
    then have "raised \<longleftrightarrow> breaks_off transport connection messages worker_id"
      using worker_loop_raises [of exchange "sends_to transport messages worker_id" messages 0 "\<lparr>ok = 0, failed = 0, attempted = 0\<rparr>"] Some
      by (auto simp: breaks_off_def list_ex_iff)
    moreover have "ok r + failed r + (if raised then 1 else 0) = attempted r \<and> attempted r \<le> messages \<and> (raised \<or> attempted r = messages)"
      by (rule worker_loop_counts [OF w]) simp_all
    moreover have "t = (if raised then r\<lparr>failed := failed r + (messages - attempted r)\<rparr> else r)"
      using w Some by (simp add: t_def worker_def sends_to_def [abs_def] Let_def)
    ultimately show ?thesis by auto
  qed
  show "ok t = messages \<longleftrightarrow> all_200 transport connection messages worker_id"
  proof (cases connection)
    case None
    then show ?thesis by (simp add: t_def worker_def all_200_def)
  next
    case (Some exchange)
    have "ok t = ok (snd (worker_loop exchange (sends_to transport messages worker_id) messages 0 \<lparr>ok = 0, failed = 0, attempted = 0\<rparr>))"
      using Some by (simp add: t_def worker_def sends_to_def [abs_def] Let_def split: prod.split)
    then show ?thesis
      using worker_loop_ok [of exchange "sends_to transport messages worker_id" messages 0 "\<lparr>ok = 0, failed = 0, attempted = 0\<rparr>"] Some
      by (auto simp: all_200_def list_all_iff)
  qed
qed

definition broken_workers :: "string \<Rightarrow> (string \<Rightarrow> string result) option list \<Rightarrow> nat \<Rightarrow> nat" where
  "broken_workers transport connections messages =
     length (filter (\<lambda>(i, c). breaks_off transport c messages i) (enumerate 0 connections))"

lemma all_good: "(x :: nat) + y + z = n \<Longrightarrow> c = (if x = n \<and> y = 0 then 0 else (1 :: int)) \<Longrightarrow> c = 0 \<longleftrightarrow> x = n"
  by auto

lemma totals:
  "sum_list (map (\<lambda>(i, c). ok (worker transport c messages i)) es) + sum_list (map (\<lambda>(i, c). failed (worker transport c messages i)) es)
     + length (filter (\<lambda>(i, c). breaks_off transport c messages i) es) = length es * messages"
proof (induction es)
  case (Cons e es)
  obtain i c where e: "e = (i, c)" by (cases e)
  show ?case using Cons worker_facts(1) [of transport c messages i] by (auto simp: e)
qed simp

lemma sum_of_full: "(\<forall>x \<in> set xs. f x \<le> (b :: nat)) \<Longrightarrow> sum_list (map f xs) = length xs * b \<longleftrightarrow> (\<forall>x \<in> set xs. f x = b)"
proof (induction xs)
  case (Cons x xs)
  have "sum_list (map f xs) \<le> length xs * b" using Cons.prems by (induction xs) (auto intro: add_mono)
  moreover have "f x \<le> b" using Cons.prems by simp
  ultimately show ?case using Cons by auto
qed simp

text \<open>What the totals of a load run say. The counts of good and failed messages and the number of workers that
  broke off in an exchange add up to all messages: the message that was in flight when a worker broke off
  is counted nowhere, so the failures printed are too few by one for each such worker. The exit code is
  still right: it is 0 exactly if every worker connected and every one of its messages got a 200.\<close>

theorem load_report_and_verdict:
  assumes "load_run transport connections messages = (oks, fails, code)"
  shows "oks + fails + broken_workers transport connections messages = length connections * messages
    \<and> (code = 0 \<longleftrightarrow> list_all (\<lambda>(i, c). all_200 transport c messages i) (enumerate 0 connections))"
proof -
  let ?es = "enumerate 0 connections"
  have oks: "oks = sum_list (map (\<lambda>(i, c). ok (worker transport c messages i)) ?es)"
    and fails: "fails = sum_list (map (\<lambda>(i, c). failed (worker transport c messages i)) ?es)"
    and code: "code = (if oks = length connections * messages \<and> fails = 0 then 0 else 1)"
    using assms by (auto simp: load_run_def Let_def comp_def case_prod_unfold simp del: sum_list_eq_0_iff)
  have sum: "oks + fails + broken_workers transport connections messages = length connections * messages"
    using totals [of transport messages ?es] by (simp add: oks fails broken_workers_def)
  have "ok (worker transport c messages i) \<le> messages" for i c
    using worker_facts(1) [of transport c messages i] by linarith
  then have "oks = length connections * messages \<longleftrightarrow> (\<forall>e \<in> set ?es. all_200 transport (snd e) messages (fst e))"
    using sum_of_full [of ?es "\<lambda>(i, c). ok (worker transport c messages i)" messages] worker_facts(2)
    by (simp add: oks case_prod_unfold)
  moreover have "code = 0 \<longleftrightarrow> oks = length connections * messages" by (rule all_good [OF sum code])
  ultimately show ?thesis using sum by (simp add: list_all_iff case_prod_unfold)
qed

theorem load_report_and_verdict_witness:
  "fst (load_run ''tcp'' [Some (\<lambda>_. Inl OSError)] 3) + fst (snd (load_run ''tcp'' [Some (\<lambda>_. Inl OSError)] 3)) = 2"
proof -
  obtain oks fails code where r: "load_run ''tcp'' [Some (\<lambda>_. Inl OSError)] 3 = (oks, fails, code)" by (metis prod_cases3)
  have "broken_workers ''tcp'' [Some (\<lambda>_. Inl OSError)] 3 = 1" by (simp add: broken_workers_def breaks_off_def upt_rec)
  with load_report_and_verdict [OF r] show ?thesis by (simp add: r)
qed

subsection \<open>Responses on a stream are counted once\<close>

lemma marker_length: "starts_with (crlf @ crlf) s \<longleftrightarrow> take 4 s = crlf @ crlf" "length (crlf @ crlf) = 4"
proof -
  show four: "length (crlf @ crlf) = 4" by (simp add: crlf_def)
  show "starts_with (crlf @ crlf) s \<longleftrightarrow> take 4 s = crlf @ crlf" unfolding starts_with_def four ..
qed

lemma marker_long: "starts_with (crlf @ crlf) s \<Longrightarrow> 4 \<le> length s"
proof -
  assume "starts_with (crlf @ crlf) s"
  then have "length (take 4 s) = 4" unfolding marker_length(1) by (simp only: marker_length(2))
  then show ?thesis by simp
qed

lemma cut_message_long: "cut_message s = Some (m, r) \<Longrightarrow> 4 \<le> length s"
  by (induction s arbitrary: m r) (auto dest: marker_long split: if_splits)

lemma marker_append: "4 \<le> length s \<Longrightarrow> starts_with (crlf @ crlf) (s @ t) = starts_with (crlf @ crlf) s"
  by (simp only: marker_length(1)) simp

lemma cut_message_append: "cut_message s = Some (m, r) \<Longrightarrow> cut_message (s @ t) = Some (m, r @ t)"
proof (induction s arbitrary: m r)
  case (Cons c s)
  have four: "4 \<le> length (c # s)" by (rule cut_message_long [OF Cons.prems])
  note same = marker_append [OF four, of t]
  show ?case
  proof (cases "starts_with (crlf @ crlf) (c # s)")
    case True
    then show ?thesis using Cons.prems same four by auto
  next
    case False
    then obtain m' where m': "cut_message s = Some (m', r)" "m = c # m'" using Cons.prems by auto
    then show ?thesis using Cons.IH [OF m'(1)] m'(2) same False by simp
  qed
qed simp

text \<open>Draining in two steps is draining at once.\<close>

lemma drain_append:
  "drain (s @ t) = (case drain s of (n, b) \<Rightarrow> (case drain (b @ t) of (n', b') \<Rightarrow> (n + n', b')))"
proof (induction s rule: drain.induct)
  case (1 s)
  show ?case
  proof (cases "cut_message s")
    case None
    then have "drain s = (0, s)" by (simp add: drain.simps [of s])
    then show ?thesis by simp
  next
    case (Some mr)
    then obtain m r where c: "cut_message s = Some (m, r)" by (cases mr) auto
    show ?thesis
      using 1 [OF c refl] cut_message_append [OF c, of t]
      by (simp add: drain.simps [of "s @ t"] drain.simps [of s] c split: prod.splits)
  qed
qed

definition arrives :: "nat \<Rightarrow> string \<Rightarrow> ready" where
  "arrives k c = \<lparr>ready_peer = k, can_read = True, can_write = False, send_ok = True, chunk = Some c\<rparr>"

lemma drain_rest: "drain s = (n, b) \<Longrightarrow> drain b = (0, b)"
proof (induction s arbitrary: n rule: drain.induct)
  case (1 s)
  show ?case
  proof (cases "cut_message s")
    case None
    then have "drain s = (0, s)" by (simp add: drain.simps [of s])
    then show ?thesis using 1(2) by simp
  next
    case (Some mr)
    then obtain m r where c: "cut_message s = Some (m, r)" by (cases mr) auto
    then obtain n' where "drain r = (n', b)" using 1(2) by (auto simp: drain.simps [of s] split: prod.splits)
    then show ?thesis using 1(1) [OF c refl] by blast
  qed
qed

lemma handle_arrives:
  assumes "map_of (peers s) k = Some p" and "c \<noteq> []" and "drain (peer_received p @ c) = (n, rest)"
  shows "handle_ready (arrives k c) s =
    Inr (s\<lparr>peers := AList.update k (p\<lparr>peer_received := rest\<rparr>) (peers s), responses := responses s + n\<rparr>)"
  using assms by (simp add: handle_ready_def arrives_def Let_def)

lemma handle_arrivals:
  assumes "map_of (peers s) k = Some p" and "list_all (\<lambda>c. c \<noteq> []) cs"
    and "drain (peer_received p @ concat cs) = (n, rest)" and "drain (peer_received p) = (0, peer_received p)"
  shows "\<exists>s'. handle_all (map (arrives k) cs) s = Inr s' \<and> responses s' = responses s + n
    \<and> map_option peer_received (map_of (peers s') k) = Some rest"
  using assms
proof (induction cs arbitrary: s p n)
  case Nil
  then show ?case by auto
next
  case (Cons c cs)
  obtain n1 b where d: "drain (peer_received p @ c) = (n1, b)" by fastforce
  obtain n2 b2 where d2: "drain (b @ concat cs) = (n2, b2)" by fastforce
  let ?p = "p\<lparr>peer_received := b\<rparr>"
  let ?s = "s\<lparr>peers := AList.update k ?p (peers s), responses := responses s + n1\<rparr>"
  have "n = n1 + n2 \<and> rest = b2"
    using Cons.prems(3) drain_append [of "peer_received p @ c" "concat cs"] by (simp add: d d2)
  moreover have "\<exists>s'. handle_all (map (arrives k) cs) ?s = Inr s' \<and> responses s' = responses ?s + n2
      \<and> map_option peer_received (map_of (peers s') k) = Some rest"
    by (rule Cons.IH [of ?s ?p]) (use calculation Cons.prems(2) d2 drain_rest [OF d] in \<open>simp_all add: update_conv\<close>)
  moreover have "handle_ready (arrives k c) s = Inr ?s"
    using handle_arrives [OF Cons.prems(1) _ d] Cons.prems(2) by simp
  ultimately show ?case by auto
qed

text \<open>A message head on the stream: the first blank line is its end.\<close>

definition message_head :: "string \<Rightarrow> bool" where
  "message_head m = (cut_message m = Some (m, []))"

lemma drain_heads:
  "list_all message_head ms \<Longrightarrow> drain (concat ms) = (length (filter (starts_with ''SIP/2.0 '') ms), [])"
proof (induction ms)
  case Nil
  then show ?case by (simp add: drain.simps [of "[]"])
next
  case (Cons m ms)
  then have "cut_message (m @ concat ms) = Some (m, concat ms)"
    using cut_message_append [of m m "[]" "concat ms"] by (simp add: message_head_def)
  then show ?case using Cons by (simp add: drain.simps [of "m @ concat ms"])
qed

text \<open>The soak counts each response on a connection once. However the stream is cut into chunks, \<open>responses\<close>
  grows by the number of message heads on it that are responses, and nothing stays in the buffer.\<close>

theorem soak_counts_each_response_once:
  assumes "map_of (peers s) k = Some p" and "peer_received p = []"
    and "list_all (\<lambda>c. c \<noteq> []) chunks" and "concat chunks = concat ms" and "list_all message_head ms"
  shows "\<exists>s'. handle_all (map (arrives k) chunks) s = Inr s'
    \<and> responses s' = responses s + length (filter (starts_with ''SIP/2.0 '') ms)
    \<and> map_option peer_received (map_of (peers s') k) = Some []"
proof (rule handle_arrivals [OF assms(1,3)])
  show "drain (peer_received p @ concat chunks) = (length (filter (starts_with ''SIP/2.0 '') ms), [])"
    using drain_heads [OF assms(5)] unfolding assms(2,4) by simp
  show "drain (peer_received p) = (0, peer_received p)"
    unfolding assms(2) by (simp add: drain.simps [of "[]"])
qed

theorem soak_counts_each_response_once_witness:
  "\<exists>s'. handle_all (map (arrives 4) [''SIP/2.0 200 OK'' @ [CHR 0x0D], [CHR 0x0A, CHR 0x0D], [CHR 0x0A] @ ''SI'', ''P/2.0 503'' @ crlf @ crlf])
      (soak_start [True, True, True, True, True]) = Inr s' \<and> responses s' = 2"
proof -
  let ?ms = "[''SIP/2.0 200 OK'' @ crlf @ crlf, ''SIP/2.0 503'' @ crlf @ crlf]"
  let ?cs = "[''SIP/2.0 200 OK'' @ [CHR 0x0D], [CHR 0x0A, CHR 0x0D], [CHR 0x0A] @ ''SI'', ''P/2.0 503'' @ crlf @ crlf]"
  let ?s = "soak_start [True, True, True, True, True]"
  have "map_of (peers ?s) 4 = Some \<lparr>peer_sent = False, peer_received = []\<rparr>" by code_simp
  moreover have "concat ?cs = concat ?ms" by code_simp
  moreover have "list_all message_head ?ms" by code_simp
  moreover have "responses ?s = 0" by (simp add: soak_start_def)
  moreover have "length (filter (starts_with ''SIP/2.0 '') ?ms) = 2" by code_simp
  ultimately show ?thesis
    using soak_counts_each_response_once [of ?s 4 "\<lparr>peer_sent = False, peer_received = []\<rparr>" ?cs ?ms] by auto
qed

subsection \<open>A connection that fails while it is readable\<close>

text \<open>The first payload is due, sending it fails, and the socket is reported readable as well.\<close>

definition refused :: "Soak \<Rightarrow> ready \<Rightarrow> bool" where
  "refused s ev = (can_read ev \<and> can_write ev \<and> \<not> send_ok ev \<and>
     (case map_of (peers s) (ready_peer ev) of None \<Rightarrow> False | Some p \<Rightarrow> \<not> peer_sent p))"

definition first_send :: "Soak \<Rightarrow> ready \<Rightarrow> bool" where
  "first_send s ev = (can_write ev \<and> (case map_of (peers s) (ready_peer ev) of None \<Rightarrow> False | Some p \<Rightarrow> \<not> peer_sent p))"

lemma handle_ready_refused: "handle_ready ev s = Inl e \<longleftrightarrow> refused s ev \<and> e = ValueError ''Invalid file descriptor: -1''"
  by (auto simp: handle_ready_def refused_def Let_def split: option.splits prod.splits if_splits)

lemma handle_ready_counts:
  assumes "handle_ready ev s = Inr s'"
  shows "connected s' = connected s + (if first_send s ev \<and> send_ok ev then 1 else 0)"
    and "soak_failed s' = soak_failed s + (if first_send s ev \<and> \<not> send_ok ev then 1 else 0)"
  using assms
  by (auto simp: handle_ready_def first_send_def drop_peer_def Let_def split: option.splits prod.splits if_splits)

lemma handle_ready_others:
  assumes "handle_ready ev s = Inr s'" and "k \<noteq> ready_peer ev"
  shows "map_of (peers s') k = map_of (peers s) k"
  using assms
  by (auto simp: handle_ready_def drop_peer_def Let_def update_conv delete_conv split: option.splits prod.splits if_splits)

lemma handle_ready_same:
  assumes "handle_ready ev s = Inr s'" and "ready_peer ev \<notin> ready_peer ` set evs" and "x \<in> set evs"
  shows "refused s' x = refused s x" and "first_send s' x = first_send s x"
proof -
  have "ready_peer x \<noteq> ready_peer ev" using assms(2,3) by (metis imageI)
  then have "map_of (peers s') (ready_peer x) = map_of (peers s) (ready_peer x)" by (rule handle_ready_others [OF assms(1)])
  then show "refused s' x = refused s x" and "first_send s' x = first_send s x" by (simp_all add: refused_def first_send_def)
qed

text \<open>What one round of the soak over the ready sockets counts, and when it crashes. Each peer is ready at most once
  in a round. The round raises exactly if some connection fails its first send while it is also
  readable, which is how a refused connection shows: the handler closes the socket, falls through to the
  read branch and unregisters the closed socket again. Otherwise \<open>connected\<close> and \<open>failed\<close> grow by the first sends
  that went well and that did not.\<close>

theorem soak_round_crashes_on_refused:
  assumes "distinct (map ready_peer evs)"
  shows "case handle_all evs s of
      Inl e \<Rightarrow> list_ex (refused s) evs \<and> e = ValueError ''Invalid file descriptor: -1''
    | Inr s' \<Rightarrow> \<not> list_ex (refused s) evs
        \<and> connected s' = connected s + length (filter (\<lambda>ev. first_send s ev \<and> send_ok ev) evs)
        \<and> soak_failed s' = soak_failed s + length (filter (\<lambda>ev. first_send s ev \<and> \<not> send_ok ev) evs)"
  using assms
proof (induction evs arbitrary: s)
  case (Cons ev evs)
  show ?case
  proof (cases "handle_ready ev s")
    case (Inl e)
    then have "refused s ev \<and> e = ValueError ''Invalid file descriptor: -1''" by (simp only: handle_ready_refused)
    with Inl show ?thesis by simp
  next
    case (Inr s1)
    then have "\<not> refused s ev" using handle_ready_refused [of ev s] by auto
    have fresh: "ready_peer ev \<notin> ready_peer ` set evs" using Cons.prems by simp
    note same = handle_ready_same [OF Inr fresh]
    have "list_ex (refused s1) evs = list_ex (refused s) evs" using same(1) by (auto simp: list_ex_iff)
    moreover have "filter (\<lambda>ev. first_send s1 ev \<and> send_ok ev) evs = filter (\<lambda>ev. first_send s ev \<and> send_ok ev) evs"
      "filter (\<lambda>ev. first_send s1 ev \<and> \<not> send_ok ev) evs = filter (\<lambda>ev. first_send s ev \<and> \<not> send_ok ev) evs"
      using same(2) by (auto intro: filter_cong)
    ultimately show ?thesis
      using Cons.IH [of s1] Cons.prems Inr \<open>\<not> refused s ev\<close> handle_ready_counts [OF Inr]
      by (auto split: sum.splits)
  qed
qed simp

theorem soak_round_crashes_on_refused_witness:
  "isl (handle_all [\<lparr>ready_peer = 0, can_read = True, can_write = True, send_ok = False, chunk = None\<rparr>] (soak_start [True]))"
proof -
  let ?ev = "\<lparr>ready_peer = 0, can_read = True, can_write = True, send_ok = False, chunk = None\<rparr>"
  have "refused (soak_start [True]) ?ev" by code_simp
  then show ?thesis using soak_round_crashes_on_refused [of "[?ev]" "soak_start [True]"]
    by (auto split: sum.splits)
qed

end
