(* ===== verification/Sip_Probe.thy ===== *)
theory Sip_Probe
  imports Bench_Script Sip_Peer
begin

section \<open>The probing matrices\<close>

text \<open>
  Drivers that send requests to the proxy and look at the responses: \<^verbatim>\<open>bench/transport_matrix.py\<close>,
  \<^verbatim>\<open>bench/tls_ipv6_matrix.py\<close>, \<^verbatim>\<open>bench/abnf_corpus.py\<close> and \<^verbatim>\<open>scripts/nat-transport-check.py\<close>, as scripts
  (\<^theory_text>\<open>Bench_Script\<close>) over what the sockets give. Starting and stopping the proxy, certificates and TLS
  contexts are left out. A request is written as its start line and its fields.
\<close>

definition sip_request :: "string \<Rightarrow> (string \<times> string) list \<Rightarrow> string" where
  "sip_request start fs = join crlf (message_lines start fs)"

subsection \<open>The transport matrix\<close>

definition matrix_options :: "string \<Rightarrow> string \<Rightarrow> string \<Rightarrow> string" where
  "matrix_options transport branch call_id =
     sip_request ''OPTIONS sip:127.0.0.1 SIP/2.0''
       [(''Via'', ''SIP/2.0/'' @ transport @ '' 127.0.0.1:5090;branch=z9hG4bK-'' @ branch),
        (''From'', ''<sip:test@127.0.0.1>;tag=matrix''), (''To'', ''<sip:127.0.0.1>''),
        (''Call-ID'', call_id @ ''@127.0.0.1''), (''CSeq'', ''1 OPTIONS''), (''Max-Forwards'', ''70''),
        (''Content-Length'', ''0'')]"

definition ok_200 :: "string \<Rightarrow> bool" where
  "ok_200 response = contains ''SIP/2.0 200'' response"

definition ws_upgrade :: "int \<Rightarrow> string" where
  "ws_upgrade wss_port =
     sip_request ''GET / HTTP/1.1''
       [(''Host'', ''127.0.0.1:'' @ dec_str wss_port), (''Upgrade'', ''websocket''), (''Connection'', ''Upgrade''),
        (''Sec-WebSocket-Key'', ''dGhlIHNhbXBsZSBub25jZQ==''), (''Sec-WebSocket-Version'', ''13''),
        (''Sec-WebSocket-Protocol'', ''sip'')]"

text \<open>\<open>key\<close> is the mask that \<open>os.urandom\<close> gave.\<close>

definition transport_steps :: "bytes \<Rightarrow> int \<Rightarrow> step list" where
  "transport_steps key wss_port =
     [Connect, Send (matrix_options ''UDP'' ''matrix-udp'' ''matrix-udp''),
      expect recv_datagram (\<lambda>r. require (ok_200 r) ''UDP did not return 200''),
      Connect, Send (matrix_options ''TCP'' ''matrix-tcp-1'' ''matrix-tcp-1'' @ matrix_options ''TCP'' ''matrix-tcp-2'' ''matrix-tcp-2''),
      expect (read_socket ''SIP/2.0 200'' 2 [])
        (\<lambda>r. require (2 \<le> count_of ''SIP/2.0 200'' r) ''TCP pipeline did not return two 200 responses''),
      Connect, Send (matrix_options ''TLS'' ''matrix-tls'' ''matrix-tls''),
      expect (read_socket ''SIP/2.0 200'' 1 []) (\<lambda>r. require (ok_200 r) ''TLS did not return 200''),
      Connect, Send (ws_upgrade wss_port),
      expect (read_socket ''101 Switching Protocols'' 1 [])
        (\<lambda>r. require (contains ''101 Switching Protocols'' r) ''WSS did not return 101''),
      Send (str_of (ws_frame key (bytes_of (matrix_options ''WS'' ''matrix-wss'' ''matrix-wss'')))),
      expect read_ws (\<lambda>r. require (ok_200 r) ''WSS SIP OPTIONS did not return 200'')]"

text \<open>The health check at the end; the body is what \<open>json.loads\<close> gives.\<close>

definition check_health :: "(int \<times> json) result \<Rightarrow> unit result" where
  "check_health answer =
     bindE answer (\<lambda>(status, body).
       if status \<noteq> 200 then Inl (RuntimeError ''health check failed'')
       else case body of
         JObj d \<Rightarrow> if map_of d ''ok'' = Some (JBool True) then Inr () else Inl (RuntimeError ''health check failed'')
       | _ \<Rightarrow> Inl AttributeError)"

definition transport_matrix ::
  "bytes \<Rightarrow> int \<Rightarrow> http_answer result list \<Rightarrow> chunks list \<Rightarrow> (int \<times> json) result \<Rightarrow> string list \<times> unit result" where
  "transport_matrix key wss_port polls conns health =
     (case wait_ready ready_json polls of
        Inl e \<Rightarrow> ([], Inl e)
      | Inr _ \<Rightarrow>
          (case run_steps (transport_steps key wss_port) conns [] of
             (out, r) \<Rightarrow> (out, bindE r (\<lambda>_. check_health health))))"

subsection \<open>TLS and IPv6\<close>

definition tls_options :: "string \<Rightarrow> string \<Rightarrow> string \<Rightarrow> string \<Rightarrow> string" where
  "tls_options transport branch call_id host =
     (let via_host = (if CHR '':'' \<in> set host then ''['' @ host @ '']'' else host); uri_host = via_host
      in sip_request (''OPTIONS sip:'' @ uri_host @ '' SIP/2.0'')
        [(''Via'', ''SIP/2.0/'' @ transport @ '' '' @ via_host @ '':5090;branch=z9hG4bK-'' @ branch),
         (''From'', ''<sip:test@'' @ uri_host @ ''>;tag=matrix''), (''To'', ''<sip:'' @ uri_host @ ''>''),
         (''Call-ID'', call_id @ ''@matrix''), (''CSeq'', ''1 OPTIONS''), (''Max-Forwards'', ''70''),
         (''Content-Length'', ''0'')])"

fun read_marker :: "string \<Rightarrow> string \<Rightarrow> chunks \<Rightarrow> (string \<times> chunks) result" where
  "read_marker marker data [] = Inr (data, [])"
| "read_marker marker data (r # cs) =
     (if contains marker data then Inr (data, r # cs)
      else case r of
        Inl e \<Rightarrow> Inl e
      | Inr c \<Rightarrow> if c = [] then Inr (data, cs) else read_marker marker (data @ c) cs)"

text \<open>\<open>names\<close> are the DNS names of the certificate that the TLS connection shows.\<close>

definition tls_steps :: "string list \<Rightarrow> step list" where
  "tls_steps names =
     [Connect, Send (tls_options ''UDP'' ''ipv6-udp'' ''ipv6-udp'' ''::1''),
      expect recv_datagram (\<lambda>r. require (ok_200 r) ''IPv6 UDP did not return 200''),
      Connect, Send (tls_options ''TCP'' ''ipv6-tcp'' ''ipv6-tcp'' ''::1''),
      expect (read_marker ''SIP/2.0 200'' []) (\<lambda>r. require (ok_200 r) ''IPv6 TCP did not return 200''),
      Connect, need (''alt.test'' \<in> set names) ''TLS SNI did not select the alt.test certificate'',
      Send (tls_options ''TLS'' ''ipv6-tls'' ''ipv6-tls'' ''::1''),
      expect (read_marker ''SIP/2.0 200'' []) (\<lambda>r. require (ok_200 r) ''IPv6 TLS did not return 200'')]"

text \<open>
  \<open>mismatch\<close> is the outcome of the handshake with a wrong name: \<open>None\<close> if its certificate is refused, else what else
  it raised, if anything.
\<close>

definition tls_matrix ::
  "bool \<Rightarrow> bool \<Rightarrow> http_answer result list \<Rightarrow> string list \<Rightarrow> chunks list \<Rightarrow> unit result option \<Rightarrow> string list \<times> unit result" where
  "tls_matrix openssl ipv6 polls names conns mismatch =
     (if \<not> openssl then ([], Inl (RuntimeError ''openssl is required for trusted certificate validation''))
      else if \<not> ipv6 then ([], Inl (RuntimeError ''IPv6 loopback ::1 is unavailable''))
      else case wait_ready ready_json polls of
        Inl e \<Rightarrow> ([], Inl e)
      | Inr _ \<Rightarrow>
          (case run_steps (tls_steps names) conns [] of
             (out, r) \<Rightarrow>
               (out, bindE r (\<lambda>_. case mismatch of
                  None \<Rightarrow> Inr ()
                | Some (Inl e) \<Rightarrow> Inl e
                | Some (Inr _) \<Rightarrow> Inl (RuntimeError ''TLS hostname mismatch was accepted'')))))"

subsection \<open>The grammar corpus\<close>

definition dquote :: string where "dquote = [CHR 0x22]"

definition corpus_message :: "nat \<Rightarrow> bool \<Rightarrow> bool \<Rightarrow> string \<Rightarrow> string \<Rightarrow> string \<Rightarrow> string" where
  "corpus_message index compact quoted host uri params =
     (let name = (\<lambda>short long. if compact then short else long);
          display = (if quoted then dquote @ ''Doe, Jane'' @ dquote else ''Doe Jane'');
          via_host = (if CHR '':'' \<in> set host then ''['' @ host @ '']'' else host);
          via_params = '';branch=z9hG4bK-corpus-'' @ dec_nat index @ params
      in sip_request (''OPTIONS '' @ uri @ '' SIP/2.0'')
        [(name ''v'' ''Via'', ''SIP/2.0/UDP '' @ via_host @ '':5060'' @ via_params),
         (name ''f'' ''From'', display @ '' <sip:alice@'' @ via_host @ ''>;tag=corpus'' @ dec_nat index),
         (name ''t'' ''To'', ''<sip:'' @ via_host @ ''>''),
         (name ''i'' ''Call-ID'', ''corpus-'' @ dec_nat index @ ''@example.test''),
         (''CSeq'', ''1 OPTIONS''), (''Max-Forwards'', ''70''), (name ''l'' ''Content-Length'', ''0'')])"

text \<open>\<open>itertools.product\<close>: the last factor varies fastest.\<close>

definition corpus_keys :: "(bool \<times> bool \<times> string \<times> string) list" where
  "corpus_keys =
     [(compact, quoted, host, params).
        compact \<leftarrow> [False, True], quoted \<leftarrow> [False, True], host \<leftarrow> [''127.0.0.1'', ''2001:db8::10''],
        params \<leftarrow> [[], '';rport'', '';rport=5060;received=192.0.2.20;maddr=198.51.100.8;ttl=64'']]"

definition corpus_case :: "nat \<Rightarrow> bool \<times> bool \<times> string \<times> string \<Rightarrow> string" where
  "corpus_case index key =
     (case key of (compact, quoted, host, params) \<Rightarrow>
        let uri_host = (if CHR '':'' \<in> set host then ''['' @ host @ '']'' else host)
        in corpus_message index compact quoted host
             (''sip:alice:pa%3Ass@'' @ uri_host @ '';transport=udp?subject=hello%20world'') params)"

definition valid_cases :: "string list" where
  "valid_cases = map (\<lambda>(index, key). corpus_case index key) (enumerate 0 corpus_keys)"

text \<open>\<open>bytes.replace(old, new, 1)\<close>\<close>

fun replace1 :: "string \<Rightarrow> string \<Rightarrow> string \<Rightarrow> string" where
  "replace1 old new [] = (if old = [] then new else [])"
| "replace1 old new (c # s) =
     (if starts_with old (c # s) then new @ drop (length old) (c # s) else c # replace1 old new s)"

definition corpus_base :: string where
  "corpus_base = corpus_message 999 False True ''127.0.0.1'' ''sip:127.0.0.1'' []"

definition mutations :: "(string \<times> string \<times> string) list" where
  "mutations =
     [(''bad-version'', ''SIP/2.0'', ''SIP/9.9''),
      (''cseq-method-case'', ''CSeq: 1 OPTIONS'', ''CSeq: 1 options''),
      (''duplicate-from'', ''To: <sip:127.0.0.1>'', ''From: <sip:other@127.0.0.1>;tag=other'' @ crlf @ ''To: <sip:127.0.0.1>''),
      (''duplicate-max-forwards'', ''Max-Forwards: 70'', ''Max-Forwards: 70'' @ crlf @ ''Max-Forwards: 69''),
      (''content-length-mismatch'', ''Content-Length: 0'', ''Content-Length: 4''),
      (''empty-branch'', ''branch=z9hG4bK-corpus-999'', ''branch=z9hG4bK''),
      (''bad-rport'', '';branch=z9hG4bK-corpus-999'', '';branch=z9hG4bK-corpus-999;rport=65536''),
      (''bad-via-name'', '';branch=z9hG4bK-corpus-999'', '';branch=z9hG4bK-corpus-999;bad name=value''),
      (''orphan-fold'', ''Via:'', CHR 0x09 # ''continued'' @ crlf @ ''Via:''),
      (''header-control'', ''Max-Forwards: 70'', ''Max-Forwards: 7'' @ [CHR 0x00]),
      (''unsupported-extension'', ''Max-Forwards: 70'', ''Max-Forwards: 70'' @ crlf @ ''Proxy-Require: 100rel''),
      (''bad-uri-port'', ''OPTIONS sip:127.0.0.1 SIP/2.0'', ''OPTIONS sip:127.0.0.1:65536 SIP/2.0''),
      (''bad-uri-escape'', ''sip:127.0.0.1'', ''sip:127.0.0.1%ZZ'')]"

definition invalid_cases :: "(string \<times> string) list" where
  "invalid_cases = map (\<lambda>(name, old, new). (name, replace1 old new corpus_base)) mutations"

text \<open>A timeout of \<open>recvfrom\<close> counts as no octets; \<open>status\<close> is \<open>response_status\<close>, line for line.\<close>

definition send_recv :: "chunks \<Rightarrow> (string \<times> chunks) result" where
  "send_recv cs =
     (case cs of [] \<Rightarrow> Inr ([], []) | Inl e # cs \<Rightarrow> if e = OSError then Inr ([], cs) else Inl e | Inr d # cs \<Rightarrow> Inr (d, cs))"

definition corpus_probes :: "(string \<times> (string \<Rightarrow> string option)) list" where
  "corpus_probes =
     map (\<lambda>(index, payload). (payload, \<lambda>r. require (response_status r = 200)
            (''valid corpus case '' @ dec_nat index @ '' returned '' @ dec_str (response_status r)))) (enumerate 0 valid_cases)
     @ map (\<lambda>(name, payload). (payload, \<lambda>r. require (400 \<le> response_status r \<and> response_status r < 500)
            (''invalid corpus case '' @ name @ '' returned '' @ dec_str (response_status r)))) invalid_cases"

definition corpus_steps :: "step list" where
  "corpus_steps = Connect # concat (map (exchange send_recv) corpus_probes)"

definition corpus_run :: "http_answer result list \<Rightarrow> chunks \<Rightarrow> string list \<times> unit result" where
  "corpus_run polls conn =
     (case wait_ready ready_status polls of Inl e \<Rightarrow> ([], Inl e) | Inr _ \<Rightarrow> run_steps corpus_steps [conn] [])"

subsection \<open>The check of the public transports\<close>

definition nat_options :: "string \<Rightarrow> string \<Rightarrow> string \<Rightarrow> string" where
  "nat_options host transport call_id =
     sip_request (''OPTIONS sip:'' @ host @ '' SIP/2.0'')
       [(''Via'', ''SIP/2.0/'' @ transport @ '' 127.0.0.1:5090;branch=z9hG4bK-'' @ call_id @ '';rport''),
        (''Max-Forwards'', ''70''), (''From'', ''<sip:nat-check@example.invalid>;tag=natcheck''),
        (''To'', ''<sip:'' @ host @ ''>''), (''Call-ID'', call_id @ ''@nat-check''), (''CSeq'', ''1 OPTIONS''),
        (''Contact'', ''<sip:nat-check@example.invalid>''), (''Content-Length'', ''0'')]"

text \<open>\<open>decode\<close> is \<open>decode("utf-8", "replace")\<close>.\<close>

definition nat_status :: "(string \<Rightarrow> string) \<Rightarrow> string \<Rightarrow> string" where
  "nat_status decode data = (let first = decode (hd (split_crlf data)) in if first \<noteq> [] then first else ''no-status'')"

text \<open>A check: what is sent, and the status line or the exception; \<open>conn\<close> may have failed to connect.\<close>

definition nat_check :: "(string \<Rightarrow> string) \<Rightarrow> (chunks \<Rightarrow> (string \<times> chunks) result) \<Rightarrow> string \<Rightarrow> chunks result \<Rightarrow> string list \<times> string result" where
  "nat_check decode reader packet conn =
     (case conn of
        Inl e \<Rightarrow> ([], Inl e)
      | Inr cs \<Rightarrow> ([packet], bindE (reader cs) (\<lambda>(data, _). Inr (nat_status decode data))))"

definition check_udp :: "(string \<Rightarrow> string) \<Rightarrow> string \<Rightarrow> chunks result \<Rightarrow> string list \<times> string result" where
  "check_udp decode host conn = nat_check decode recv_datagram (nat_options host ''UDP'' ''udp'') conn"

definition check_tcp :: "(string \<Rightarrow> string) \<Rightarrow> string \<Rightarrow> bool \<Rightarrow> chunks result \<Rightarrow> string list \<times> string result" where
  "check_tcp decode host use_tls conn =
     nat_check decode recv_stream
       (nat_options host (if use_tls then ''TLS'' else ''TCP'') (if use_tls then ''tls'' else ''tcp'')) conn"

definition check_wss :: "(string \<Rightarrow> string) \<Rightarrow> string \<Rightarrow> int \<Rightarrow> string \<Rightarrow> chunks result \<Rightarrow> string list \<times> string result" where
  "check_wss decode host port key conn =
     nat_check decode recv_stream
       (sip_request ''GET / HTTP/1.1''
          [(''Host'', host @ '':'' @ dec_str port), (''Upgrade'', ''websocket''), (''Connection'', ''Upgrade''),
           (''Sec-WebSocket-Version'', ''13''), (''Sec-WebSocket-Key'', key), (''Sec-WebSocket-Protocol'', ''sip'')]) conn"

definition nat_main ::
  "(string \<Rightarrow> string) \<Rightarrow> string \<Rightarrow> int \<Rightarrow> string \<Rightarrow> chunks result \<Rightarrow> chunks result \<Rightarrow> chunks result \<Rightarrow> chunks result
     \<Rightarrow> (string \<times> string result) list \<times> int" where
  "nat_main decode host wss_port key udp tcp tls wss =
     (let checks = [(''udp'', check_udp decode host udp), (''tcp'', check_tcp decode host False tcp),
                    (''tls'', check_tcp decode host True tls), (''wss'', check_wss decode host wss_port key wss)];
          ok = length (filter (\<lambda>c. \<not> isl (snd (snd c))) checks)
      in (map (\<lambda>(name, c). (name, snd c)) checks, if ok = length checks then 0 else 1))"

subsection \<open>Requests are read as they are written\<close>

lemma cleanI: "cr \<notin> set v \<Longrightarrow> v \<noteq> [] \<Longrightarrow> \<not> octet_space (hd v) \<Longrightarrow> \<not> octet_space (last v) \<Longrightarrow> clean v"
  by (auto simp: clean_def list_all_iff intro!: no_crlf_plain strip_with_id)

lemma digits_plain: "is_digit c \<Longrightarrow> c \<noteq> cr \<and> \<not> octet_space c"
  by (auto simp: is_digit_def octet_space_def cr_def)

lemma dec_nat_plain: "cr \<notin> set (dec_nat n)" "\<not> octet_space (last (dec_nat n))"
  using dec_nat_digits [of n] dec_nat_last [of n] digits_plain by (auto simp: list_all_iff)

lemma sip_request_reads:
  assumes "no_crlf start" and "list_all (\<lambda>f. list_all (\<lambda>c. c \<noteq> cr \<and> c \<noteq> CHR '':'') (fst f) \<and> clean (snd f)) fs"
    and "CHR '':'' \<notin> set name" and "map lower_octet (before_colon start) \<noteq> map lower_octet name"
  shows "header_lines (sip_request start fs) name =
    map snd (filter (\<lambda>f. map lower_octet (fst f) = map lower_octet name) fs)"
proof -
  have "list_all field_ok fs" using assms(2) by (auto simp: list_all_iff field_ok_def clean_def)
  from octet_header.read_back [OF assms(1) this assms(3,4)]
  have "header_lines (sip_request start fs) name =
      map (\<lambda>f. strip_with octet_space (snd f)) (filter (\<lambda>f. map lower_octet (fst f) = map lower_octet name) fs)"
    by (simp add: header_lines_def sip_request_def)
  moreover have "strip_with octet_space (snd f) = snd f" if "f \<in> set fs" for f
    using assms(2) that by (auto simp: list_all_iff clean_def)
  ultimately show ?thesis by (simp add: map_eq_conv)
qed

text \<open>The five fields that have a compact form.\<close>

definition compact_names :: "(string \<times> string) list" where
  "compact_names = [(''v'', ''Via''), (''f'', ''From''), (''t'', ''To''), (''i'', ''Call-ID''), (''l'', ''Content-Length'')]"

lemma options_start:
  "lower_octet c \<noteq> CHR ''o'' \<Longrightarrow> map lower_octet (before_colon (''OPTIONS '' @ r)) \<noteq> map lower_octet (c # name)"
proof
  assume c: "lower_octet c \<noteq> CHR ''o''"
  have "lower_octet CHR ''O'' = CHR ''o''" by (simp add: octet_lower)
  then have "hd (map lower_octet (before_colon (''OPTIONS '' @ r))) = CHR ''o''" by (simp add: before_colon_def)
  moreover assume "map lower_octet (before_colon (''OPTIONS '' @ r)) = map lower_octet (c # name)"
  ultimately show False using c by simp
qed

text \<open>The fields of a case, of which the reader finds one each, under the name that was written.\<close>

definition corpus_fields :: "nat \<Rightarrow> bool \<Rightarrow> bool \<Rightarrow> string \<Rightarrow> string \<Rightarrow> (string \<times> string) list" where
  "corpus_fields index compact quoted host params =
     (let name = (\<lambda>short long. if compact then short else long);
          display = (if quoted then dquote @ ''Doe, Jane'' @ dquote else ''Doe Jane'')
      in [(name ''v'' ''Via'', ''SIP/2.0/UDP '' @ host @ '':5060;branch=z9hG4bK-corpus-'' @ dec_nat index @ params),
          (name ''f'' ''From'', display @ '' <sip:alice@'' @ host @ ''>;tag=corpus'' @ dec_nat index),
          (name ''t'' ''To'', ''<sip:'' @ host @ ''>''),
          (name ''i'' ''Call-ID'', ''corpus-'' @ dec_nat index @ ''@example.test''),
          (''CSeq'', ''1 OPTIONS''), (''Max-Forwards'', ''70''), (name ''l'' ''Content-Length'', ''0'')])"

lemma corpus_message_fields:
  "corpus_message index compact quoted host uri params =
     sip_request (''OPTIONS '' @ uri @ '' SIP/2.0'')
       (corpus_fields index compact quoted (if CHR '':'' \<in> set host then ''['' @ host @ '']'' else host) params)"
  by (simp add: corpus_message_def corpus_fields_def Let_def)

definition plain_end :: "string \<Rightarrow> bool" where
  "plain_end s \<longleftrightarrow> cr \<notin> set s \<and> (s \<noteq> [] \<longrightarrow> \<not> octet_space (last s))"

lemma plain_end_append: "plain_end a \<Longrightarrow> plain_end b \<Longrightarrow> plain_end (a @ b)"
  by (cases "b = []") (auto simp: plain_end_def)

lemma plain_end_dec_nat: "plain_end (dec_nat n)"
  using dec_nat_plain [of n] by (auto simp: plain_end_def)

lemma clean_from: "plain_end b \<Longrightarrow> cr \<notin> set a \<Longrightarrow> a \<noteq> [] \<Longrightarrow> \<not> octet_space (hd a) \<Longrightarrow> b \<noteq> [] \<Longrightarrow> clean (a @ b)"
  by (intro cleanI) (auto simp: plain_end_def)

lemma corpus_fields_ok:
  assumes "plain_end host" and "plain_end params"
  shows "list_all (\<lambda>f. list_all (\<lambda>c. c \<noteq> cr \<and> c \<noteq> CHR '':'') (fst f) \<and> clean (snd f)) (corpus_fields index compact quoted host params)"
proof -
  have "clean (''SIP/2.0/UDP '' @ host @ '':5060;branch=z9hG4bK-corpus-'' @ dec_nat index @ params)"
    using plain_end_append [OF plain_end_dec_nat [of index] assms(2)] assms(1)
      clean_from [of "dec_nat index @ params" "''SIP/2.0/UDP '' @ host @ '':5060;branch=z9hG4bK-corpus-''"]
    by (auto simp: plain_end_def [of host] cr_def octet_space_def)
  moreover have "clean ((if quoted then dquote @ ''Doe, Jane'' @ dquote else ''Doe Jane'') @ '' <sip:alice@'' @ host @ ''>;tag=corpus'' @ dec_nat index)"
    using plain_end_dec_nat [of index] assms(1)
      clean_from [of "dec_nat index" "(if quoted then dquote @ ''Doe, Jane'' @ dquote else ''Doe Jane'') @ '' <sip:alice@'' @ host @ ''>;tag=corpus''"]
    by (auto simp: plain_end_def [of host] cr_def octet_space_def dquote_def)
  moreover have "clean (''<sip:'' @ host @ ''>'')"
    using assms by (intro cleanI) (auto simp: plain_end_def cr_def octet_space_def)
  moreover have "clean (''corpus-'' @ dec_nat index @ ''@example.test'')"
    using dec_nat_plain [of index] by (intro cleanI) (auto simp: cr_def octet_space_def)
  moreover have "clean ''1 OPTIONS''" "clean ''70''" "clean ''0''"
    by (intro cleanI; simp add: cr_def octet_space_def)+
  ultimately show ?thesis by (auto simp: corpus_fields_def Let_def cr_def)
qed

lemma corpus_message_reads:
  assumes "plain_end host" and "plain_end params" and "cr \<notin> set uri" and "CHR '':'' \<notin> set name" and "lower_octet (hd name) \<noteq> CHR ''o''" "name \<noteq> []"
  shows "header_lines (sip_request (''OPTIONS '' @ uri @ '' SIP/2.0'') (corpus_fields index compact quoted host params)) name =
    map snd (filter (\<lambda>f. map lower_octet (fst f) = map lower_octet name) (corpus_fields index compact quoted host params))"
proof (rule sip_request_reads [OF _ corpus_fields_ok [OF assms(1,2)] assms(4)])
  show "no_crlf (''OPTIONS '' @ uri @ '' SIP/2.0'')"
    using assms(3) by (intro no_crlf_plain) (auto simp: list_all_iff cr_def)
  show "map lower_octet (before_colon (''OPTIONS '' @ uri @ '' SIP/2.0'')) \<noteq> map lower_octet name"
    using options_start [of "hd name" "uri @ '' SIP/2.0''" "tl name"] assms(5,6) by (cases name) auto
qed

definition one_of :: "bool \<Rightarrow> string \<times> string \<Rightarrow> string" where
  "one_of compact names = (if compact then fst names else snd names)"

definition lowered :: "bool \<Rightarrow> string list" where
  "lowered compact =
     (if compact then [''v'', ''f'', ''t'', ''i'', ''cseq'', ''max-forwards'', ''l'']
      else [''via'', ''from'', ''to'', ''call-id'', ''cseq'', ''max-forwards'', ''content-length''])"

lemma corpus_fields_lowered:
  "map (map lower_octet \<circ> fst) (corpus_fields index compact quoted host params) = lowered compact"
  by (cases compact) (simp_all add: corpus_fields_def lowered_def Let_def octet_lower)

lemma length_filter_map: "length (filter (\<lambda>f. g f = k) fs) = length (filter (\<lambda>l. l = k) (map g fs))"
  by (induction fs) auto

definition one_each :: "bool \<Rightarrow> bool" where
  "one_each compact = list_all (\<lambda>ns.
     length (filter (\<lambda>l. l = map lower_octet (one_of compact ns)) (lowered compact)) = 1 \<and>
     length (filter (\<lambda>l. l = map lower_octet (one_of (\<not> compact) ns)) (lowered compact)) = 0) compact_names"

lemma one_each: "one_each compact"
  by (cases compact) (simp_all only:, code_simp+)

lemma compact_lowered:
  assumes "ns \<in> set compact_names"
  shows "length (filter (\<lambda>l. l = map lower_octet (one_of compact ns)) (lowered compact)) = 1"
    and "length (filter (\<lambda>l. l = map lower_octet (one_of (\<not> compact) ns)) (lowered compact)) = 0"
  using one_each [of compact] assms unfolding one_each_def list_all_iff by blast+

lemma corpus_fields_read:
  assumes "ns \<in> set compact_names"
  shows "length (filter (\<lambda>f. map lower_octet (fst f) = map lower_octet (one_of compact ns)) (corpus_fields index compact quoted host params)) = 1"
    and "filter (\<lambda>f. map lower_octet (fst f) = map lower_octet (one_of (\<not> compact) ns)) (corpus_fields index compact quoted host params) = []"
  using compact_lowered [OF assms, of compact]
    length_filter_map [of "map lower_octet \<circ> fst" "map lower_octet (one_of compact ns)" "corpus_fields index compact quoted host params"]
    length_filter_map [of "map lower_octet \<circ> fst" "map lower_octet (one_of (\<not> compact) ns)" "corpus_fields index compact quoted host params"]
  unfolding corpus_fields_lowered by (simp_all add: comp_def)

lemma corpus_fields_call_id:
  "(one_of compact (''i'', ''Call-ID''), ''corpus-'' @ dec_nat index @ ''@example.test'') \<in> set (corpus_fields index compact quoted host params)"
  by (simp add: corpus_fields_def one_of_def Let_def)

lemma corpus_key_plain:
  assumes "(compact, quoted, host, params) \<in> set corpus_keys"
  shows "plain_end (if CHR '':'' \<in> set host then ''['' @ host @ '']'' else host)" "plain_end params" "cr \<notin> set host"
  using assms by (auto simp: corpus_keys_def plain_end_def cr_def octet_space_def)

lemma compact_name_plain:
  assumes "ns \<in> set compact_names"
  shows "CHR '':'' \<notin> set (one_of b ns)" "lower_octet (hd (one_of b ns)) \<noteq> CHR ''o''" "one_of b ns \<noteq> []"
  using assms by (auto simp: compact_names_def one_of_def octet_lower)

lemma corpus_case_reads:
  fixes index :: nat
  assumes "(compact, quoted, host, params) \<in> set corpus_keys" and "ns \<in> set compact_names"
  defines "m \<equiv> corpus_case index (compact, quoted, host, params)"
  shows "length (header_lines m (one_of compact ns)) = 1 \<and> header_lines m (one_of (\<not> compact) ns) = [] \<and>
    header_lines m (one_of compact (''i'', ''Call-ID'')) = [''corpus-'' @ dec_nat index @ ''@example.test'']"
proof -
  let ?h = "if CHR '':'' \<in> set host then ''['' @ host @ '']'' else host"
  let ?uri = "''sip:alice:pa%3Ass@'' @ ?h @ '';transport=udp?subject=hello%20world''"
  have m: "m = sip_request (''OPTIONS '' @ ?uri @ '' SIP/2.0'') (corpus_fields index compact quoted ?h params)"
    by (simp add: m_def corpus_case_def corpus_message_fields Let_def)
  have uri: "cr \<notin> set ?uri" using corpus_key_plain(3) [OF assms(1)] by (simp add: cr_def)
  have ci: "(''i'', ''Call-ID'') \<in> set compact_names" by (simp add: compact_names_def)
  let ?fs = "corpus_fields index compact quoted ?h params"
  let ?id = "(one_of compact (''i'', ''Call-ID''), ''corpus-'' @ dec_nat index @ ''@example.test'')"
  let ?P = "\<lambda>f. map lower_octet (fst f) = map lower_octet (one_of compact (''i'', ''Call-ID''))"
  have "?id \<in> set (filter ?P ?fs)" using corpus_fields_call_id by simp
  moreover obtain x where "filter ?P ?fs = [x]"
    using corpus_fields_read(1) [OF ci, of compact index quoted ?h params] by (auto simp: length_Suc_conv)
  ultimately have one: "filter ?P ?fs = [?id]" by simp
  note reads = corpus_message_reads [OF corpus_key_plain(1,2) [OF assms(1)] uri]
  have "length (header_lines m (one_of compact ns)) = 1"
    unfolding m reads [OF compact_name_plain [OF assms(2)]] using corpus_fields_read(1) [OF assms(2)] by simp
  moreover have "header_lines m (one_of (\<not> compact) ns) = []"
    unfolding m reads [OF compact_name_plain [OF assms(2)]] corpus_fields_read(2) [OF assms(2)] by simp
  moreover have "header_lines m (one_of compact (''i'', ''Call-ID'')) = [snd ?id]"
    unfolding m reads [OF compact_name_plain [OF ci]] one by simp
  ultimately show ?thesis by simp
qed

subsection \<open>One place is changed\<close>

lemma starts_with_Cons: "starts_with (a # w) (b # s) \<longleftrightarrow> a = b \<and> starts_with w s" "starts_with [] s" "\<not> starts_with (a # w) []"
  by (auto simp: starts_with_def)

lemma replace1_once:
  assumes "contains old s"
  shows "\<exists>p q. s = p @ old @ q \<and> replace1 old new s = p @ new @ q \<and> (\<forall>p' q'. s = p' @ old @ q' \<longrightarrow> length p \<le> length p')"
  using assms
proof (induction s)
  case Nil
  then have "old = []" by (simp add: contains_iff)
  then show ?case by simp
next
  case (Cons c s)
  show ?case
  proof (cases "starts_with old (c # s)")
    case True
    then have "c # s = [] @ old @ drop (length old) (c # s)" by (metis append.left_neutral append_take_drop_id starts_with_def)
    moreover have "replace1 old new (c # s) = [] @ new @ drop (length old) (c # s)" using True by simp
    ultimately show ?thesis by (metis le0 list.size(3))
  next
    case False
    then have "contains old s" using Cons.prems by (simp add: contains_Cons)
    from Cons.IH [OF this] obtain p q where pq: "s = p @ old @ q" "replace1 old new s = p @ new @ q"
      "\<forall>p' q'. s = p' @ old @ q' \<longrightarrow> length p \<le> length p'" by blast
    have "length (c # p) \<le> length p'" if eq: "c # s = p' @ old @ q'" for p' q'
    proof (cases p')
      case Nil
      then have "starts_with old (c # s)" using eq by (simp add: starts_with_def)
      then show ?thesis using False by simp
    next
      case (Cons d p'')
      then show ?thesis using eq pq(3) by simp
    qed
    then show ?thesis using pq False by (intro exI [of _ "c # p"] exI [of _ q]) auto
  qed
qed

lemma corpus_base_text:
  "corpus_base = ''OPTIONS sip:127.0.0.1 SIP/2.0'' @ crlf @ ''Via: SIP/2.0/UDP 127.0.0.1:5060;branch=z9hG4bK-corpus-999'' @ crlf
    @ ''From: '' @ dquote @ ''Doe, Jane'' @ dquote @ '' <sip:alice@127.0.0.1>;tag=corpus999'' @ crlf @ ''To: <sip:127.0.0.1>'' @ crlf
    @ ''Call-ID: corpus-999@example.test'' @ crlf @ ''CSeq: 1 OPTIONS'' @ crlf @ ''Max-Forwards: 70'' @ crlf @ ''Content-Length: 0'' @ crlf @ crlf"
proof -
  have "dec_nat 999 = ''999''" by (simp add: dec_nat.simps digit_char_def char_of_eq_iff take_bit_eq_mod)
  then show ?thesis
    by (simp add: corpus_base_def corpus_message_def sip_request_def message_lines_def labelled_def Let_def)
qed

lemma mutations_occur: "list_all (\<lambda>(n, old, new). contains old corpus_base) mutations"
proof -
  note at = corpus_base_text crlf_def dquote_def cr_def lf_def starts_with_Cons
  have "contains ''SIP/2.0'' corpus_base"
    by (rule contains_at [where k = 22]) (simp add: at)
  moreover have "contains ''CSeq: 1 OPTIONS'' corpus_base"
    by (rule contains_at [where k = 200]) (simp add: at)
  moreover have "contains ''To: <sip:127.0.0.1>'' corpus_base"
    by (rule contains_at [where k = 145]) (simp add: at)
  moreover have "contains ''Max-Forwards: 70'' corpus_base"
    by (rule contains_at [where k = 217]) (simp add: at)
  moreover have "contains ''Content-Length: 0'' corpus_base"
    by (rule contains_at [where k = 235]) (simp add: at)
  moreover have "contains ''branch=z9hG4bK-corpus-999'' corpus_base"
    by (rule contains_at [where k = 63]) (simp add: at)
  moreover have "contains '';branch=z9hG4bK-corpus-999'' corpus_base"
    by (rule contains_at [where k = 62]) (simp add: at)
  moreover have "contains ''Via:'' corpus_base"
    by (rule contains_at [where k = 31]) (simp add: at)
  moreover have "contains ''OPTIONS sip:127.0.0.1 SIP/2.0'' corpus_base"
    by (rule contains_at [where k = 0]) (simp add: at)
  moreover have "contains ''sip:127.0.0.1'' corpus_base"
    by (rule contains_at [where k = 8]) (simp add: at)
  ultimately show ?thesis by (simp only: mutations_def list.pred_inject prod.case simp_thms)
qed

subsection \<open>Properties\<close>

text \<open>The grammar corpus is what it claims to be. It has 24 valid cases; each of them, read as headers, has every
  field with a compact form once, under the compact name exactly if the case is a compact one and under the
  other name never, and its own Call-ID. Each of the 13 invalid cases is the base message with one piece of text
  replaced, at its first occurrence, and by something else.\<close>

theorem corpus_is_what_it_claims:
  shows "length valid_cases = 24
    \<and> list_all (\<lambda>(index, compact, quoted, host, params).
          valid_cases ! index = corpus_case index (compact, quoted, host, params)
        \<and> header_lines (valid_cases ! index) (one_of compact (''i'', ''Call-ID'')) = [''corpus-'' @ dec_nat index @ ''@example.test'']
        \<and> list_all (\<lambda>ns. length (header_lines (valid_cases ! index) (one_of compact ns)) = 1
            \<and> header_lines (valid_cases ! index) (one_of (\<not> compact) ns) = []) compact_names) (enumerate 0 corpus_keys)
    \<and> length invalid_cases = 13
    \<and> list_all (\<lambda>(name, old, new). old \<noteq> new \<and> (name, replace1 old new corpus_base) \<in> set invalid_cases
        \<and> (\<exists>p q. corpus_base = p @ old @ q \<and> replace1 old new corpus_base = p @ new @ q)) mutations"
proof -
  have len: "length corpus_keys = 24" by (simp add: corpus_keys_def)
  have valid: "valid_cases ! index = corpus_case index (c, q, h, ps)
        \<and> header_lines (valid_cases ! index) (one_of c (''i'', ''Call-ID'')) = [''corpus-'' @ dec_nat index @ ''@example.test'']
        \<and> list_all (\<lambda>ns. length (header_lines (valid_cases ! index) (one_of c ns)) = 1
            \<and> header_lines (valid_cases ! index) (one_of (\<not> c) ns) = []) compact_names"
    if "(index, c, q, h, ps) \<in> set (enumerate 0 corpus_keys)" for index c q h ps
  proof -
    have k: "index < length corpus_keys" "corpus_keys ! index = (c, q, h, ps)"
      using that by (auto simp: in_set_enumerate_eq)
    then have key: "(c, q, h, ps) \<in> set corpus_keys" by (metis nth_mem)
    have v: "valid_cases ! index = corpus_case index (c, q, h, ps)"
      using k by (simp add: valid_cases_def nth_enumerate_eq)
    have ci: "(''i'', ''Call-ID'') \<in> set compact_names" by (simp add: compact_names_def)
    show ?thesis unfolding v using corpus_case_reads [OF key] ci by (auto simp: list_all_iff)
  qed
  have differ: "list_all (\<lambda>(name, old, new). old \<noteq> new) mutations" by (simp add: mutations_def crlf_def)
  have one: "list_all (\<lambda>(name, old, new). old \<noteq> new \<and> (name, replace1 old new corpus_base) \<in> set invalid_cases
        \<and> (\<exists>p q. corpus_base = p @ old @ q \<and> replace1 old new corpus_base = p @ new @ q)) mutations"
    unfolding list_all_iff
  proof (rule ballI)
    fix x assume x: "x \<in> set mutations"
    obtain n old new where m: "x = (n, old, new)" by (cases x)
    have "(n, replace1 old new corpus_base) \<in> set invalid_cases" using x by (force simp: invalid_cases_def m)
    moreover have "contains old corpus_base" "old \<noteq> new" using mutations_occur differ x by (auto simp: list_all_iff m)
    ultimately show "case x of (name, old, new) \<Rightarrow> old \<noteq> new \<and> (name, replace1 old new corpus_base) \<in> set invalid_cases
        \<and> (\<exists>p q. corpus_base = p @ old @ q \<and> replace1 old new corpus_base = p @ new @ q)"
      using replace1_once [of old corpus_base new] by (auto simp: m)
  qed
  show ?thesis
  proof (intro conjI)
    show "length valid_cases = 24" by (simp add: valid_cases_def len)
    show "length invalid_cases = 13" by (simp add: invalid_cases_def mutations_def)
    show "list_all (\<lambda>(index, compact, quoted, host, params).
          valid_cases ! index = corpus_case index (compact, quoted, host, params)
        \<and> header_lines (valid_cases ! index) (one_of compact (''i'', ''Call-ID'')) = [''corpus-'' @ dec_nat index @ ''@example.test'']
        \<and> list_all (\<lambda>ns. length (header_lines (valid_cases ! index) (one_of compact ns)) = 1
            \<and> header_lines (valid_cases ! index) (one_of (\<not> compact) ns) = []) compact_names) (enumerate 0 corpus_keys)"
      unfolding list_all_iff [of _ "enumerate 0 corpus_keys"] using valid by blast
  qed (rule one)
qed

text \<open>The verdict on the corpus. Against a proxy that is ready and answers each datagram with \<open>respond\<close>, the run
  passes exactly if every valid case gets 200 and every invalid one a 4xx. It sends the cases in order, all of
  them if it passes, and otherwise none after the first that is answered wrongly.\<close>

theorem corpus_verdict:
  assumes "wait_ready ready_status polls = Inr ()"
    and "corpus_run polls (map (\<lambda>p. Inr (respond (fst p))) corpus_probes) = (out, r)"
  shows "(r = Inr () \<longleftrightarrow>
      list_all (\<lambda>m. response_status (respond m) = 200) valid_cases
      \<and> list_all (\<lambda>(name, m). 400 \<le> response_status (respond m) \<and> response_status (respond m) < 500) invalid_cases)
    \<and> prefix out (valid_cases @ map snd invalid_cases)
    \<and> (r = Inr () \<longrightarrow> out = valid_cases @ map snd invalid_cases)"
proof -
  have run: "run_steps (concat (map (exchange send_recv) corpus_probes)) [] (map (\<lambda>p. Inr (respond (fst p))) corpus_probes) = (out, r)"
    using assms by (simp add: corpus_run_def corpus_steps_def)
  have first: "map fst corpus_probes = valid_cases @ map snd invalid_cases"
    by (simp add: corpus_probes_def comp_def case_prod_unfold)
  have sent: "prefix out (valid_cases @ map snd invalid_cases) \<and> (r = Inr () \<longrightarrow> out = valid_cases @ map snd invalid_cases)"
    using run_steps_sends [of "concat (map (exchange send_recv) corpus_probes)" "[]" "map (\<lambda>p. Inr (respond (fst p))) corpus_probes"]
    by (simp add: run payloads_exchanges first)
  have "r = (case List.find (\<lambda>p. snd p (respond (fst p)) \<noteq> None) corpus_probes of
       None \<Rightarrow> Inr () | Some p \<Rightarrow> Inl (RuntimeError (the (snd p (respond (fst p))))))"
    using run_exchanges [of send_recv corpus_probes "[]" respond] by (simp add: run send_recv_def)
  then have "r = Inr () \<longleftrightarrow> (\<forall>p \<in> set corpus_probes. snd p (respond (fst p)) = None)"
    using find_None_iff [of "\<lambda>p. snd p (respond (fst p)) \<noteq> None" corpus_probes]
    by (cases "List.find (\<lambda>p. snd p (respond (fst p)) \<noteq> None) corpus_probes") (simp_all only: option.case option.distinct sum.distinct simp_thms, metis+)
  also have "\<dots> \<longleftrightarrow> list_all (\<lambda>m. response_status (respond m) = 200) valid_cases
      \<and> list_all (\<lambda>(name, m). 400 \<le> response_status (respond m) \<and> response_status (respond m) < 500) invalid_cases"
  proof -
    have all: "(\<forall>e \<in> set (enumerate 0 xs). P (snd e)) \<longleftrightarrow> list_all P xs" for xs :: "string list" and P
    proof -
      have "list_all P (map snd (enumerate 0 xs)) \<longleftrightarrow> (\<forall>e \<in> set (enumerate 0 xs). P (snd e))"
        by (simp add: list_all_iff del: map_snd_enumerate)
      then show ?thesis by simp
    qed
    show ?thesis
      unfolding all [of valid_cases "\<lambda>m. response_status (respond m) = 200", symmetric]
      by (simp only: corpus_probes_def set_append set_map ball_Un ball_simps case_prod_unfold fst_conv snd_conv
          require_simps list_all_iff)
  qed
  finally show ?thesis using sent by blast
qed

theorem corpus_verdict_witness:
  "snd (corpus_run [Inr (200, None)] (map (\<lambda>p. Inr ''SIP/2.0 200 OK'') corpus_probes)) \<noteq> Inr ()"
proof -
  obtain out r where run: "corpus_run [Inr (200, None)] (map (\<lambda>p. Inr ''SIP/2.0 200 OK'') corpus_probes) = (out, r)" by fastforce
  have "wait_ready ready_status [Inr (200, None)] = Inr ()" by (simp add: ready_status_def)
  from corpus_verdict [OF this, of "\<lambda>_. ''SIP/2.0 200 OK''" out r] run
  have "r = Inr () \<Longrightarrow> list_all (\<lambda>(name, m). 400 \<le> response_status ''SIP/2.0 200 OK'' \<and> response_status ''SIP/2.0 200 OK'' < 500) invalid_cases"
    by simp
  moreover have "response_status ''SIP/2.0 200 OK'' = 200" by code_simp
  ultimately show ?thesis using run by (auto simp: invalid_cases_def mutations_def)
qed

lemma read_socket_hit:
  assumes "w \<noteq> []" and "n \<le> count_of w c" and "0 < n"
  shows "read_socket w n [] (Inr c # cs) = Inr (c, cs)"
proof -
  have "c \<noteq> []" using assms by auto
  then show ?thesis using assms by (cases cs) auto
qed

lemma as_socket_frame: "sock_pending (as_socket (map Inr ws)) = bytes_of (concat ws)"
  by (induction ws) (auto simp: as_socket_def)

lemma read_ws_frame:
  assumes "concat ws = str_of (send_text_frame (bytes_of m))" and "length m < 2 ^ 63"
  shows "\<exists>cs. read_ws (map Inr ws) = Inr (m, cs)"
proof -
  have "decode_frame (sock_pending (as_socket (map Inr ws))) = Some (bytes_of m, [])"
    using decode_send_text_frame(1) [of "bytes_of m" "[]"] assms by (simp add: as_socket_frame)
  then obtain s' where "read_ws_message sock_recv (as_socket (map Inr ws)) = Inr (bytes_of m, s')"
    using sock.read_ws_message_decode [of "as_socket (map Inr ws)"] by (auto simp: sock.reads_def)
  then show ?thesis by (simp add: read_ws_def)
qed

text \<open>The verdict of the transport matrix. Against a proxy that is ready, completes the WebSocket handshake and
  writes \<open>m\<close> as one frame, the matrix passes exactly if the datagram has a 200, the whole TCP stream, however it
  is cut into chunks, has two, the TLS stream and \<open>m\<close> have one, and the proxy says it is healthy.\<close>

theorem transport_matrix_verdict:
  assumes "wait_ready ready_json polls = Inr ()" and "list_all (\<lambda>c. c \<noteq> []) ts" and "list_all (\<lambda>c. c \<noteq> []) ls"
    and "contains ''101 Switching Protocols'' h"
    and "concat ws = str_of (send_text_frame (bytes_of m))" and "length m < 2 ^ 63"
  shows "snd (transport_matrix key port polls [Inr u # us, map Inr ts, map Inr ls, Inr h # map Inr ws] health) = Inr () \<longleftrightarrow>
    ok_200 u \<and> 2 \<le> count_of ''SIP/2.0 200'' (concat ts) \<and> ok_200 (concat ls) \<and> ok_200 m \<and> check_health health = Inr ()"
proof -
  obtain t ts' where t: "read_socket ''SIP/2.0 200'' 2 [] (map Inr ts) = Inr (t, ts')"
      "2 \<le> count_of ''SIP/2.0 200'' t \<longleftrightarrow> 2 \<le> count_of ''SIP/2.0 200'' (concat ts)"
    using read_socket_reads [OF assms(2), of "''SIP/2.0 200''" 2 "[]"] by auto
  obtain l ls' where l: "read_socket ''SIP/2.0 200'' (Suc 0) [] (map Inr ls) = Inr (l, ls')"
      "ok_200 l \<longleftrightarrow> ok_200 (concat ls)"
    using read_socket_reads [OF assms(3), of "''SIP/2.0 200''" "Suc 0" "[]"]
      count_of_contains [of "''SIP/2.0 200''"] by (auto simp: ok_200_def)
  have h: "read_socket ''101 Switching Protocols'' (Suc 0) [] (Inr h # map Inr ws) = Inr (h, map Inr ws)"
    using assms(4) count_of_contains [of "''101 Switching Protocols''" h] by (intro read_socket_hit) simp_all
  obtain cs where w: "read_ws (map Inr ws) = Inr (m, cs)" using read_ws_frame [OF assms(5,6)] by blast
  show ?thesis
    using assms(1,4) t l h w
    by (simp add: transport_matrix_def transport_steps_def recv_datagram_def require_def split: prod.splits)
qed

theorem transport_matrix_verdict_witness:
  "snd (transport_matrix [1, 2, 3, 4] 7443 [Inl OSError, Inr (200, Some (JObj [(''ready'', JBool True)]))]
      [[Inr ''SIP/2.0 200 OK''], [Inr ''SIP/2.0 2'', Inr ''00 SIP/2.0 200''], [Inr ''SIP/2.0 200''],
       [Inr ''HTTP/1.1 101 Switching Protocols'', Inr (str_of (send_text_frame (bytes_of ''SIP/2.0 200 OK'')))]]
      (Inr (200, JObj [(''ok'', JBool True)]))) = Inr ()"
proof -
  have ready: "wait_ready ready_json [Inl OSError, Inr (200, Some (JObj [(''ready'', JBool True)]))] = Inr ()"
    by (simp add: ready_json_def)
  have "contains ''101 Switching Protocols'' ''HTTP/1.1 101 Switching Protocols''" by code_simp
  note v = transport_matrix_verdict [OF ready _ _ this, of "[''SIP/2.0 2'', ''00 SIP/2.0 200'']" "[''SIP/2.0 200'']"
      "[str_of (send_text_frame (bytes_of ''SIP/2.0 200 OK''))]" "''SIP/2.0 200 OK''" "[1, 2, 3, 4]" 7443
      "''SIP/2.0 200 OK''" "[]" "Inr (200, JObj [(''ok'', JBool True)])"]
  have "ok_200 ''SIP/2.0 200 OK''" "ok_200 ''SIP/2.0 200''" by code_simp+
  moreover have "2 \<le> count_of ''SIP/2.0 200'' ''SIP/2.0 200 SIP/2.0 200''" by code_simp
  ultimately show ?thesis using v by (simp add: check_health_def)
qed

text \<open>The two readers of streams are one, and so the TLS matrix has the same kind of verdict.\<close>

lemma read_marker_socket: "w \<noteq> [] \<Longrightarrow> read_marker w data cs = read_socket w (Suc 0) data cs"
  by (induction w data cs rule: read_marker.induct) (auto simp: count_of_contains split: sum.splits)

theorem tls_matrix_verdict:
  assumes "wait_ready ready_json polls = Inr ()" and "list_all (\<lambda>c. c \<noteq> []) ts" and "list_all (\<lambda>c. c \<noteq> []) ls"
  shows "snd (tls_matrix True True polls names [Inr u # us, map Inr ts, map Inr ls] mismatch) = Inr () \<longleftrightarrow>
    ok_200 u \<and> ok_200 (concat ts) \<and> ''alt.test'' \<in> set names \<and> ok_200 (concat ls) \<and> mismatch = None"
proof -
  have m: "''SIP/2.0 200'' \<noteq> []" by simp
  have read: "\<exists>d cs'. read_marker ''SIP/2.0 200'' [] (map Inr cs) = Inr (d, cs') \<and> (ok_200 d \<longleftrightarrow> ok_200 (concat cs))"
    if "list_all (\<lambda>c. c \<noteq> []) cs" for cs
    using read_socket_reads [OF that, of "''SIP/2.0 200''" "Suc 0" "[]"]
    unfolding read_marker_socket [OF m] ok_200_def count_of_contains [OF m] by simp
  obtain t ts' where t: "read_marker ''SIP/2.0 200'' [] (map Inr ts) = Inr (t, ts')" "ok_200 t \<longleftrightarrow> ok_200 (concat ts)"
    using read [OF assms(2)] by auto
  obtain l ls' where l: "read_marker ''SIP/2.0 200'' [] (map Inr ls) = Inr (l, ls')" "ok_200 l \<longleftrightarrow> ok_200 (concat ls)"
    using read [OF assms(3)] by auto
  show ?thesis
    using assms(1) t l
    by (auto simp: tls_matrix_def tls_steps_def recv_datagram_def require_def split: prod.splits option.splits sum.splits)
qed

text \<open>The check of the public transports passes whenever no socket call fails: any answer counts, and so does a peer
  that accepts the connection and closes it without one, whose status is \<open>no-status\<close>.\<close>

theorem nat_check_counts_any_answer:
  "snd (nat_main decode host port key (Inr (Inr u # us)) (Inr (map Inr ts)) (Inr (map Inr ls)) (Inr (map Inr ws))) = 0"
  "decode [] = [] \<Longrightarrow> snd (check_tcp decode host tls (Inr [])) = Inr ''no-status''"
  by (cases ts; cases ls; cases ws)
    (auto simp: nat_main_def check_udp_def check_tcp_def check_wss_def nat_check_def recv_datagram_def recv_stream_def nat_status_def Let_def)

end
