(* ===== verification/Sip_Fuzz.thy ===== *)
theory Sip_Fuzz
  imports Sip_Probe
begin

section \<open>The ingress fuzzer\<close>

text \<open>
  \<^verbatim>\<open>bench/fuzz_sip.py\<close>: the cases, \<open>mutate\<close> and the loop of \<open>main\<close> with its choice of a transport. What the random
  generator gives is a record of draws. Starting and stopping the proxy is left out; its input is whether it is
  alive before each case, whether its TCP listener accepts (a refused connection or a timeout of connecting or sending
  counts as not), and an exception of the exchange that no clause catches, if there is one.
\<close>

unbundle bit_operations_syntax

definition BASE :: string where
  "BASE = sip_request ''OPTIONS sip:127.0.0.1 SIP/2.0''
     [(''Via'', ''SIP/2.0/UDP 127.0.0.1:5090;branch=z9hG4bK-fuzz''), (''From'', ''<sip:fuzz@127.0.0.1>;tag=fuzz''),
      (''To'', ''<sip:127.0.0.1>''), (''Call-ID'', ''fuzz@127.0.0.1''), (''CSeq'', ''1 OPTIONS''), (''Max-Forwards'', ''70''),
      (''Content-Length'', ''0'')]"

text \<open>\<open>noise\<close>: the octets after the fixed three, \<open>pick\<close>: the case chosen, \<open>place\<close> and \<open>which\<close>: the bit to flip.\<close>

record draws =
  noise :: bytes
  pick :: nat
  place :: nat
  which :: nat

definition fuzz_cases :: "bytes \<Rightarrow> nat \<Rightarrow> bytes list" where
  "fuzz_cases junk index =
     map bytes_of
       [take (index mod length BASE) BASE,
        replace1 ''SIP/2.0'' ''SIP/9.9'' BASE,
        replace1 ''Content-Length: 0'' ''Content-Length: 9999999'' BASE,
        replace1 ''Content-Length: 0'' (''Content-Length: 0'' @ crlf @ ''Content-Length: 1'') BASE,
        replace1 ''branch=z9hG4bK-fuzz'' ''branch=z9hG4bK'' BASE,
        replace1 ''OPTIONS'' ''BAD METHOD'' BASE,
        replace1 ''Max-Forwards: 70'' ''Max-Forwards: -1'' BASE,
        replace1 ''Via:'' (''Via'' @ CHR 0x00 # '':'') BASE,
        replace1 (crlf @ crlf) (crlf @ CHR 0x09 # '' orphan'' @ crlf @ crlf) BASE]
     @ [[0, 0xFF, 1] @ junk]"

definition mutate :: "draws \<Rightarrow> nat \<Rightarrow> bytes" where
  "mutate d index =
     (let v = fuzz_cases (noise d) index ! pick d
      in if index mod 7 = 0 then v @ replicate 65000 0x41
         else if v \<noteq> [] \<and> index mod 3 = 0 then v[place d := v ! place d XOR push_bit (which d) 1]
         else v)"

datatype delivery = Datagram bytes | Stream bytes

definition deliver :: "nat \<Rightarrow> bytes \<Rightarrow> delivery" where
  "deliver index octets = (if index mod 2 = 0 \<and> length octets \<le> 60000 then Datagram octets else Stream octets)"

record fuzz_turn =
  drawn :: draws
  alive :: bool
  listening :: bool
  broken :: "exn option"

fun fuzz_run :: "nat \<Rightarrow> fuzz_turn list \<Rightarrow> bool \<Rightarrow> delivery list \<times> unit result" where
  "fuzz_run index [] survived =
     ([], if survived then Inr () else Inl (RuntimeError ''proxy exited after fuzzing''))"
| "fuzz_run index (t # ts) survived =
     (if \<not> alive t then ([], Inl (RuntimeError (''proxy exited during fuzzing at case '' @ dec_nat index)))
      else
        let d = deliver index (mutate (drawn t) index)
        in if (case d of Datagram _ \<Rightarrow> False | Stream _ \<Rightarrow> \<not> listening t)
           then ([], Inl (RuntimeError (''TCP listener unavailable at case '' @ dec_nat index)))
           else case broken t of
             Some e \<Rightarrow> ([d], Inl e)
           | None \<Rightarrow> (case fuzz_run (index + 1) ts survived of (out, r) \<Rightarrow> (d # out, r)))"

definition fuzz_main :: "int \<Rightarrow> http_answer result list \<Rightarrow> fuzz_turn list \<Rightarrow> bool \<Rightarrow> delivery list \<times> unit result" where
  "fuzz_main iterations polls turns survived =
     (if iterations < 1 then ([], Inl (ValueError ''iterations must be positive''))
      else case wait_ready ready_status polls of
        Inl e \<Rightarrow> ([], Inl e)
      | Inr _ \<Rightarrow> fuzz_run 0 (take (nat iterations) turns) survived)"

subsection \<open>What the fuzzer sends\<close>

text \<open>Draws within the ranges that the code asks the generator for.\<close>

definition draws_ok :: "nat \<Rightarrow> draws \<Rightarrow> bool" where
  "draws_ok index d \<longleftrightarrow> 1 \<le> length (noise d) \<and> length (noise d) < 2048 \<and> pick d < 10 \<and> which d < 8 \<and>
     (fuzz_cases (noise d) index ! pick d \<noteq> [] \<longrightarrow> place d < length (fuzz_cases (noise d) index ! pick d))"

lemma length_replace1: "length (replace1 old new s) \<le> length s + length new"
  by (induction s) auto

lemma length_BASE: "length BASE < 300"
  by (simp add: BASE_def sip_request_def message_lines_def labelled_def crlf_def)

lemma fuzz_case_length:
  assumes "pick d < 10" and "length (noise d) < 2048"
  shows "length (fuzz_cases (noise d) index ! pick d) \<le> 2050"
proof -
  have r: "length (replace1 old new BASE) \<le> 2050" if "length new \<le> 100" for old new
    using length_replace1 [of old new BASE] length_BASE that by linarith
  have "length c \<le> 2050" if "c \<in> set (fuzz_cases (noise d) index)" for c
    using that assms(2) length_BASE by (auto simp: fuzz_cases_def crlf_def intro!: r)
  moreover have "length (fuzz_cases (noise d) index) = 10" by (simp add: fuzz_cases_def)
  ultimately show ?thesis using assms(1) nth_mem [of "pick d" "fuzz_cases (noise d) index"] by simp
qed

lemma flip_differs: "n < 8 \<Longrightarrow> b XOR push_bit n 1 \<noteq> (b :: byte)"
proof
  assume n: "n < 8" and "b XOR push_bit n 1 = b"
  then have "bit (b XOR push_bit n 1) n = bit b n" by simp
  then show False using n by (simp add: bit_xor_iff bit_exp_iff)
qed

text \<open>What the fuzzer sends. Every seventh payload is a case followed by 65000 letters, always over TCP; of the others
  every third is a case with exactly one bit flipped (an empty case is left alone), and the rest are cases as they
  are. No payload is longer than 67050 octets, and what goes out as a datagram is a case of at most 2050.\<close>

theorem fuzzer_payloads:
  assumes "draws_ok index d"
  shows "let v = fuzz_cases (noise d) index ! pick d; p = mutate d index in
      length p \<le> 67050
    \<and> (if index mod 7 = 0 then p = v @ replicate 65000 0x41 \<and> deliver index p = Stream p
       else (deliver index p = (if even index then Datagram p else Stream p)) \<and> length p \<le> 2050
         \<and> (if index mod 3 = 0 \<and> v \<noteq> []
            then \<exists>i k. i < length v \<and> k < 8 \<and> p = v[i := v ! i XOR push_bit k 1] \<and> p \<noteq> v
            else p = v))"
proof -
  let ?v = "fuzz_cases (noise d) index ! pick d"
  have len: "length ?v \<le> 2050" using fuzz_case_length [of d index] assms unfolding draws_ok_def by blast
  show ?thesis
  proof (cases "index mod 7 = 0")
    case True
    then have "mutate d index = ?v @ replicate 65000 0x41" by (simp add: mutate_def)
    then show ?thesis using True len by (simp add: deliver_def Let_def)
  next
    case False
    show ?thesis
    proof (cases "index mod 3 = 0 \<and> ?v \<noteq> []")
      case flip: True
      then have p: "mutate d index = ?v[place d := ?v ! place d XOR push_bit (which d) 1]"
        using False by (simp add: mutate_def Let_def)
      have i: "place d < length ?v" "which d < 8" using assms flip by (simp_all add: draws_ok_def)
      then have "mutate d index \<noteq> ?v" using flip_differs [of "which d" "?v ! place d"] unfolding p
        by (metis nth_list_update_eq)
      with p i have "\<exists>i k. i < length ?v \<and> k < 8 \<and> mutate d index = ?v[i := ?v ! i XOR push_bit k 1] \<and> mutate d index \<noteq> ?v"
        by blast
      moreover have "length (mutate d index) \<le> 2050" using len p by simp
      ultimately show ?thesis using False flip by (simp add: Let_def deliver_def even_iff_mod_2_eq_zero del: push_bit_of_1)
    next
      case same: False
      then have "mutate d index = ?v" using False by (auto simp: mutate_def Let_def)
      then show ?thesis using False same len by (auto simp: Let_def deliver_def even_iff_mod_2_eq_zero)
    qed
  qed
qed

theorem fuzzer_payloads_witness:
  "deliver 3 (mutate \<lparr>noise = [7], pick = 9, place = 1, which = 0\<rparr> 3) = Stream [0, 0xFE, 1, 7]"
proof -
  have "draws_ok 3 \<lparr>noise = [7], pick = 9, place = 1, which = 0\<rparr>"
    by (simp add: draws_ok_def fuzz_cases_def)
  from fuzzer_payloads [OF this] have "deliver 3 (mutate \<lparr>noise = [7], pick = 9, place = 1, which = 0\<rparr> 3) =
      Stream (mutate \<lparr>noise = [7], pick = 9, place = 1, which = 0\<rparr> 3)"
    by (simp add: Let_def)
  moreover have "mutate \<lparr>noise = [7], pick = 9, place = 1, which = 0\<rparr> 3 = [0, 0xFE, 1, 7]"
    by (simp add: mutate_def fuzz_cases_def)
  ultimately show ?thesis by simp
qed

subsection \<open>The verdict of the fuzzer\<close>

definition is_stream :: "delivery \<Rightarrow> bool" where
  "is_stream d = (case d of Datagram _ \<Rightarrow> False | Stream _ \<Rightarrow> True)"

definition delivery_of :: "nat \<times> fuzz_turn \<Rightarrow> delivery" where
  "delivery_of it = deliver (fst it) (mutate (drawn (snd it)) (fst it))"

lemma fuzz_run_iff:
  "snd (fuzz_run index ts survived) = Inr () \<longleftrightarrow> survived \<and>
     list_all (\<lambda>it. alive (snd it) \<and> broken (snd it) = None \<and> (is_stream (delivery_of it) \<longrightarrow> listening (snd it))) (enumerate index ts)"
proof (induction ts arbitrary: index)
  case (Cons t ts)
  obtain o1 r1 where rest: "fuzz_run (Suc index) ts survived = (o1, r1)" by fastforce
  with Cons [of "Suc index"] have "r1 = Inr () \<longleftrightarrow> survived \<and>
     list_all (\<lambda>it. alive (snd it) \<and> broken (snd it) = None \<and> (is_stream (delivery_of it) \<longrightarrow> listening (snd it))) (enumerate (Suc index) ts)"
    by simp
  then show ?case
    by (cases "broken t"; cases "deliver index (mutate (drawn t) index)") (simp_all add: rest Let_def delivery_of_def is_stream_def)
qed simp

lemma fuzz_run_sends:
  "prefix (fst (fuzz_run index ts survived)) (map delivery_of (enumerate index ts))
   \<and> (snd (fuzz_run index ts survived) = Inr () \<longrightarrow> fst (fuzz_run index ts survived) = map delivery_of (enumerate index ts))"
proof (induction ts arbitrary: index)
  case (Cons t ts)
  from Cons [of "index + 1"] show ?case
    by (auto simp: Let_def delivery_of_def split: delivery.splits option.splits prod.splits)
qed simp

text \<open>The fuzzer passes exactly if the proxy became ready, was alive before every case and in the end, accepted every stream, and
  no exchange ended with an exception that the loop does not expect; it has then sent every case, in order.\<close>

theorem fuzzer_verdict:
  assumes "fuzz_main iterations polls turns survived = (out, r)"
  shows "(r = Inr () \<longleftrightarrow> 1 \<le> iterations \<and> wait_ready ready_status polls = Inr () \<and> survived
      \<and> list_all (\<lambda>it. alive (snd it) \<and> broken (snd it) = None \<and> (is_stream (delivery_of it) \<longrightarrow> listening (snd it)))
          (enumerate 0 (take (nat iterations) turns)))
    \<and> prefix out (map delivery_of (enumerate 0 (take (nat iterations) turns)))
    \<and> (r = Inr () \<longrightarrow> out = map delivery_of (enumerate 0 (take (nat iterations) turns)))"
proof -
  let ?ts = "take (nat iterations) turns"
  show ?thesis
  proof (cases "iterations < 1 \<or> (\<exists>e. wait_ready ready_status polls = Inl e)")
    case True
    then show ?thesis using assms by (auto simp: fuzz_main_def split: if_splits)
  next
    case False
    then have w: "wait_ready ready_status polls = Inr ()" by (cases "wait_ready ready_status polls") auto
    then have "fuzz_run 0 ?ts survived = (out, r)" using False assms by (simp add: fuzz_main_def)
    then show ?thesis using fuzz_run_iff [of 0 ?ts survived] fuzz_run_sends [of 0 ?ts survived] False w by (simp only: fst_conv snd_conv) auto
  qed
qed

text \<open>A connection that the proxy resets while a long payload is being sent ends the fuzzer, though the proxy lives.\<close>

theorem fuzzer_ends_on_reset:
  "alive t \<Longrightarrow> listening t \<Longrightarrow> broken t = Some (ConnectionError m) \<Longrightarrow>
   snd (fuzz_run index (t # ts) True) = Inl (ConnectionError m)"
  by (simp add: Let_def split: delivery.splits)

end
