(* ===== verification/Bench_Certs.thy ===== *)
theory Bench_Certs
  imports Py_Text
begin

section \<open>The certificates of the TLS matrices\<close>

text \<open>
  \<open>make_certificates\<close> of \<^verbatim>\<open>bench/tls_ipv6_matrix.py\<close> and \<^verbatim>\<open>bench/wss_outbound_matrix.py\<close>: the files they write and
  the \<open>openssl\<close> commands they run, in order. What is proved of them reads the commands as \<open>openssl\<close> documents its
  options: \<open>-keyout\<close> and \<open>-out\<close> name files that a command writes, \<open>-in\<close>, \<open>-CA\<close>, \<open>-CAkey\<close> and \<open>-extfile\<close> files
  that it reads. A command that fails ends the function with an exception; the plan is what is run otherwise.
\<close>

datatype action = Write_text string string | Run "string list"

definition path :: "string \<Rightarrow> string \<Rightarrow> string" where
  "path directory name = directory @ ''/'' @ name"

definition extension_text :: "string \<Rightarrow> string" where
  "extension_text hostname =
     ''basicConstraints=critical,CA:FALSE'' @ [lf] @ ''keyUsage=critical,digitalSignature,keyEncipherment'' @ [lf]
     @ ''extendedKeyUsage=serverAuth'' @ [lf] @ ''subjectAltName=DNS:'' @ hostname @ [lf]"

definition ca_command :: "string \<Rightarrow> string \<Rightarrow> string \<Rightarrow> string list" where
  "ca_command openssl directory subject =
     [openssl, ''req'', ''-x509'', ''-new'', ''-newkey'', ''rsa:2048'', ''-nodes'', ''-keyout'', path directory ''ca.key'',
      ''-out'', path directory ''ca.crt'', ''-days'', ''2'', ''-subj'', subject, ''-addext'',
      ''basicConstraints=critical,CA:TRUE,pathlen:1'', ''-addext'', ''keyUsage=critical,keyCertSign,cRLSign'']"

definition csr_command :: "string \<Rightarrow> string \<Rightarrow> string \<Rightarrow> string \<Rightarrow> string list" where
  "csr_command openssl key csr hostname =
     [openssl, ''req'', ''-new'', ''-newkey'', ''rsa:2048'', ''-nodes'', ''-keyout'', key, ''-out'', csr,
      ''-subj'', ''/CN='' @ hostname]"

definition sign_command :: "string \<Rightarrow> string \<Rightarrow> string \<Rightarrow> string \<Rightarrow> string \<Rightarrow> string list" where
  "sign_command openssl directory csr cert ext =
     [openssl, ''x509'', ''-req'', ''-in'', csr, ''-CA'', path directory ''ca.crt'', ''-CAkey'', path directory ''ca.key'',
      ''-CAcreateserial'', ''-out'', cert, ''-days'', ''2'', ''-sha256'', ''-extfile'', ext]"

text \<open>\<open>issue\<close>: the actions, the certificate and the key\<close>

definition issue :: "string \<Rightarrow> string \<Rightarrow> string \<Rightarrow> string \<Rightarrow> action list \<times> string \<times> string" where
  "issue openssl directory name hostname =
     (let key = path directory (name @ ''.key''); csr = path directory (name @ ''.csr'');
          cert = path directory (name @ ''.crt''); ext = path directory (name @ ''.ext'')
      in ([Write_text ext (extension_text hostname), Run (csr_command openssl key csr hostname),
           Run (sign_command openssl directory csr cert ext)], cert, key))"

definition tls_certificates :: "string \<Rightarrow> string \<Rightarrow> action list \<times> string \<times> (string \<times> string) \<times> (string \<times> string)" where
  "tls_certificates openssl directory =
     (let (base, base_pair) = issue openssl directory ''base'' ''sip.test'';
          (alt, alt_pair) = issue openssl directory ''alt'' ''alt.test''
      in (Run (ca_command openssl directory ''/CN=mako test CA'') # base @ alt, path directory ''ca.crt'', base_pair, alt_pair))"

definition wss_certificates :: "string \<Rightarrow> string \<Rightarrow> action list \<times> string \<times> string \<times> string" where
  "wss_certificates openssl directory =
     (let server_key = path directory ''server.key''; server_csr = path directory ''server.csr'';
          server_cert = path directory ''server.crt''; extensions = path directory ''server.ext''
      in ([Run (ca_command openssl directory ''/CN=mako WSS test CA''),
           Write_text extensions (extension_text ''localhost''),
           Run (csr_command openssl server_key server_csr ''localhost''),
           Run (sign_command openssl directory server_csr server_cert extensions)],
          path directory ''ca.crt'', server_cert, server_key))"

subsection \<open>What the commands read and write\<close>

fun option_value :: "string \<Rightarrow> string list \<Rightarrow> string list" where
  "option_value opt (x # y # r) = (if x = opt then [y] else option_value opt (y # r))"
| "option_value opt _ = []"

fun reads :: "action \<Rightarrow> string list" where
  "reads (Write_text _ _) = []"
| "reads (Run cmd) = concat (map (\<lambda>opt. option_value opt (tl cmd)) [''-in'', ''-CA'', ''-CAkey'', ''-extfile''])"

fun writes :: "action \<Rightarrow> string list" where
  "writes (Write_text p _) = [p]"
| "writes (Run cmd) = concat (map (\<lambda>opt. option_value opt (tl cmd)) [''-keyout'', ''-out''])"

text \<open>Every file is there when it is read, and none is written over.\<close>

fun ordered :: "string list \<Rightarrow> action list \<Rightarrow> bool" where
  "ordered present [] = True"
| "ordered present (a # as) \<longleftrightarrow>
     set (reads a) \<subseteq> set present \<and> set (writes a) \<inter> set present = {} \<and> distinct (writes a) \<and> ordered (present @ writes a) as"

text \<open>
  A certificate for a host: signed with the key of the authority, from a request made with the key, with an
  extension file that names the host.
\<close>

definition issued :: "action list \<Rightarrow> string \<Rightarrow> string \<Rightarrow> string \<Rightarrow> string \<Rightarrow> bool" where
  "issued plan ca_cert cert key hostname \<longleftrightarrow>
     list_ex (\<lambda>sign. case sign of Write_text _ _ \<Rightarrow> False | Run cmd \<Rightarrow>
       option_value ''-out'' (tl cmd) = [cert] \<and> option_value ''-CA'' (tl cmd) = [ca_cert]
       \<and> list_ex (\<lambda>req. case req of Write_text _ _ \<Rightarrow> False | Run rc \<Rightarrow>
           option_value ''-keyout'' (tl rc) = [key] \<and> option_value ''-out'' (tl rc) = option_value ''-in'' (tl cmd)
           \<and> option_value ''-subj'' (tl rc) = [''/CN='' @ hostname]) plan
       \<and> list_ex (\<lambda>w. case w of Run _ \<Rightarrow> False | Write_text p t \<Rightarrow>
           option_value ''-extfile'' (tl cmd) = [p] \<and> t = extension_text hostname) plan) plan"

lemma path_inject [simp]: "path d a = path d b \<longleftrightarrow> a = b"
  by (simp add: path_def)

lemma path_not_option [simp]:
  "CHR ''/'' \<notin> set opt \<Longrightarrow> path d a \<noteq> opt" "CHR ''/'' \<notin> set opt \<Longrightarrow> opt \<noteq> path d a"
  by (auto simp: path_def)

lemma ca_options [simp]:
  assumes "subject \<in> {''/CN=mako test CA'', ''/CN=mako WSS test CA''}"
  shows "option_value ''-in'' (tl (ca_command openssl d subject)) = []"
    and "option_value ''-CA'' (tl (ca_command openssl d subject)) = []"
    and "option_value ''-CAkey'' (tl (ca_command openssl d subject)) = []"
    and "option_value ''-extfile'' (tl (ca_command openssl d subject)) = []"
    and "option_value ''-keyout'' (tl (ca_command openssl d subject)) = [path d ''ca.key'']"
    and "option_value ''-out'' (tl (ca_command openssl d subject)) = [path d ''ca.crt'']"
    and "option_value ''-subj'' (tl (ca_command openssl d subject)) = [subject]"
  using assms by (auto simp: ca_command_def)

lemma csr_options [simp]:
  "option_value ''-in'' (tl (csr_command openssl (path d k) (path d c) h)) = []"
  "option_value ''-CA'' (tl (csr_command openssl (path d k) (path d c) h)) = []"
  "option_value ''-CAkey'' (tl (csr_command openssl (path d k) (path d c) h)) = []"
  "option_value ''-extfile'' (tl (csr_command openssl (path d k) (path d c) h)) = []"
  "option_value ''-keyout'' (tl (csr_command openssl (path d k) (path d c) h)) = [path d k]"
  "option_value ''-out'' (tl (csr_command openssl (path d k) (path d c) h)) = [path d c]"
  "option_value ''-subj'' (tl (csr_command openssl (path d k) (path d c) h)) = [''/CN='' @ h]"
  by (simp_all add: csr_command_def)

lemma sign_options [simp]:
  "option_value ''-in'' (tl (sign_command openssl d (path d r) (path d c) (path d e))) = [path d r]"
  "option_value ''-CA'' (tl (sign_command openssl d (path d r) (path d c) (path d e))) = [path d ''ca.crt'']"
  "option_value ''-CAkey'' (tl (sign_command openssl d (path d r) (path d c) (path d e))) = [path d ''ca.key'']"
  "option_value ''-extfile'' (tl (sign_command openssl d (path d r) (path d c) (path d e))) = [path d e]"
  "option_value ''-keyout'' (tl (sign_command openssl d (path d r) (path d c) (path d e))) = []"
  "option_value ''-out'' (tl (sign_command openssl d (path d r) (path d c) (path d e))) = [path d c]"
  "option_value ''-subj'' (tl (sign_command openssl d (path d r) (path d c) (path d e))) = []"
  by (simp_all add: sign_command_def)

text \<open>The certificates are made in an order that works, whatever \<open>openssl\<close> and the directory are called. In both plans
  every file that a command reads has been written before, no file is written twice, and the files
  that are returned are an authority and, for each name, a certificate that it has signed, with the key of
  that certificate and the name both as its subject and as its alternative name.\<close>

theorem certificates_are_made_in_order:
  shows "(case tls_certificates openssl d of (plan, ca, (base_cert, base_key), (alt_cert, alt_key)) \<Rightarrow>
      ordered [] plan \<and> ca \<in> set (concat (map writes plan))
      \<and> issued plan ca base_cert base_key ''sip.test'' \<and> issued plan ca alt_cert alt_key ''alt.test''
      \<and> distinct [ca, base_cert, base_key, alt_cert, alt_key])
    \<and> (case wss_certificates openssl d of (plan, ca, cert, key) \<Rightarrow>
      ordered [] plan \<and> ca \<in> set (concat (map writes plan)) \<and> issued plan ca cert key ''localhost'' \<and> distinct [ca, cert, key])"
  by (simp_all add: tls_certificates_def wss_certificates_def issue_def issued_def Let_def)

end
