(* ===== verification/Bench_Dialog.thy ===== *)
theory Bench_Dialog
  imports Sip_Probe
begin

section \<open>The dialog matrices\<close>

text \<open>
  The drivers that set up a dialog through the proxy, with a test peer behind it: \<open>read_headers\<close>, \<open>recv_response\<close> and
  \<open>exercise_proxy\<close> of \<^verbatim>\<open>bench/wss_outbound_matrix.py\<close>, the scenarios of \<open>main\<close> in \<^verbatim>\<open>bench/fault_matrix.py\<close> and the
  requests and the verdict of \<^verbatim>\<open>bench/bye_retransmission.py\<close>. What the proxy delivers to each side is input;
  the peers are those of \<^theory_text>\<open>Sip_Peer\<close>.
\<close>

subsection \<open>The handshake of the WebSocket fixture\<close>

text \<open>
  \<open>read_headers\<close> extends its buffer with whatever \<open>recv\<close> gives, nothing included, and leaves the loop only with
  the blank line, an exception of \<open>recv\<close> or too many octets; \<open>None\<close> means that it does not return.
\<close>

partial_function (option) read_headers :: "chunks \<Rightarrow> string \<Rightarrow> (string \<times> chunks) result option" where
  "read_headers cs data =
     (if contains (crlf @ crlf) data then Some (Inr (data, cs))
      else case recv_stream cs of
        Inl e \<Rightarrow> Some (Inl e)
      | Inr r \<Rightarrow>
          if length (data @ fst r) > 16384 then Some (Inl (RuntimeError ''WSS handshake headers exceeded the limit''))
          else read_headers (snd r) (data @ fst r))"

subsection \<open>The call through the WebSocket association\<close>

definition wss_register :: "int \<Rightarrow> string" where
  "wss_register upstream_port =
     sip_request ''REGISTER sip:example.test SIP/2.0''
       [(''Via'', ''SIP/2.0/UDP 127.0.0.1:5090;branch=z9hG4bK-wss-register''), (''From'', ''<sip:uas@example.test>;tag=wss-register''),
        (''To'', ''<sip:uas@example.test>''), (''Call-ID'', ''wss-register@example.test''), (''CSeq'', ''1 REGISTER''),
        (''Contact'', ''<sips:uas@localhost:'' @ dec_str upstream_port @ '';transport=wss>''), (''Expires'', ''300''),
        (''Max-Forwards'', ''70''), (''Content-Length'', ''0'')]"

definition wss_invite :: string where
  "wss_invite =
     sip_request ''INVITE sip:uas@example.test SIP/2.0''
       [(''Via'', ''SIP/2.0/UDP 127.0.0.1:5090;branch=z9hG4bK-wss-invite''), (''From'', ''<sip:caller@example.test>;tag=wss-caller''),
        (''To'', ''<sip:uas@example.test>''), (''Call-ID'', ''wss-invite@example.test''), (''CSeq'', ''1 INVITE''),
        (''Contact'', ''<sip:caller@127.0.0.1:5090>''), (''Max-Forwards'', ''70''), (''Content-Length'', ''0'')]"

definition wss_ack :: string where
  "wss_ack =
     sip_request ''ACK sip:uas@example.test SIP/2.0''
       [(''Via'', ''SIP/2.0/UDP 127.0.0.1:5090;branch=z9hG4bK-wss-ack''), (''From'', ''<sip:caller@example.test>;tag=wss-caller''),
        (''To'', ''<sip:uas@example.test>;tag=wss-peer''), (''Call-ID'', ''wss-invite@example.test''), (''CSeq'', ''1 ACK''),
        (''Max-Forwards'', ''70''), (''Content-Length'', ''0'')]"

definition wss_bye :: string where
  "wss_bye =
     sip_request ''BYE sip:uas@example.test SIP/2.0''
       [(''Via'', ''SIP/2.0/UDP 127.0.0.1:5090;branch=z9hG4bK-wss-bye''), (''From'', ''<sip:caller@example.test>;tag=wss-caller''),
        (''To'', ''<sip:uas@example.test>;tag=wss-peer''), (''Call-ID'', ''wss-invite@example.test''), (''CSeq'', ''2 BYE''),
        (''Max-Forwards'', ''70''), (''Content-Length'', ''0'')]"

definition recv_response :: "string \<Rightarrow> chunks \<Rightarrow> (string \<times> chunks) result" where
  "recv_response label cs =
     (case recv_datagram cs of
        Inl e \<Rightarrow> Inl (if e = OSError then RuntimeError (''timed out waiting for '' @ label @ '' from proxy'') else e)
      | Inr r \<Rightarrow> Inr r)"

text \<open>The statuses seen, the latest first; \<open>turns\<close> is the number of times that the deadline is found not to have passed.\<close>

fun poll_statuses :: "nat \<Rightarrow> chunks \<Rightarrow> int list \<Rightarrow> (int list \<times> chunks) result" where
  "poll_statuses 0 cs statuses = Inr (statuses, cs)"
| "poll_statuses (Suc turns) cs statuses =
     (if 180 \<in> set statuses \<and> 200 \<in> set statuses then Inr (statuses, cs)
      else case recv_response ''WSS 180/200'' cs of
        Inl e \<Rightarrow> Inl e
      | Inr (r, cs') \<Rightarrow> poll_statuses turns cs' (response_status r # statuses))"

text \<open>The texts of these two failures print \<open>sorted(statuses)\<close>, which is left out.\<close>

definition see_statuses :: "nat \<Rightarrow> step" where
  "see_statuses turns =
     Act (\<lambda>cs. bindE (poll_statuses turns cs []) (\<lambda>(statuses, cs').
       if 180 \<notin> set statuses then Inl (RuntimeError ''proxy did not forward WSS 180 Ringing'')
       else if 200 \<notin> set statuses then Inl (RuntimeError ''proxy did not forward WSS 200 OK'')
       else Inr cs'))"

text \<open>
  \<open>seen\<close>: the fixture as the driver finds it when it waits for the INVITE and looks for an error, \<open>acked\<close> whether an ACK
  comes within its wait, \<open>ended\<close> whether a BYE has come at the end.
\<close>

definition exercise_steps :: "int \<Rightarrow> nat \<Rightarrow> WssFixture \<Rightarrow> bool \<Rightarrow> bool \<Rightarrow> step list" where
  "exercise_steps upstream_port turns seen acked ended =
     [Send (wss_register upstream_port),
      expect recv_datagram (\<lambda>r. require (response_status r = 200) ''WSS contact registration failed''),
      Send wss_invite,
      expect (recv_response ''100 Trying'') (\<lambda>r. require (response_status r = 100) ''proxy did not return 100 Trying for WSS route''),
      need (received seen) ''WSS upstream did not receive the INVITE'',
      Act (\<lambda>cs. case error seen of Some e \<Rightarrow> Inl e | None \<Rightarrow> Inr cs),
      see_statuses turns,
      Send wss_ack,
      need acked ''proxy did not reuse WSS association for ACK'',
      Send wss_bye,
      expect (recv_response ''200 BYE'') (\<lambda>r. require (response_status r = 200) ''proxy did not forward WSS BYE response''),
      need ended ''WSS upstream did not receive BYE'']"

subsection \<open>The fault scenarios\<close>

definition fault_register :: "int \<Rightarrow> string" where
  "fault_register uas_port =
     sip_request ''REGISTER sip:mako.local SIP/2.0''
       [(''Via'', ''SIP/2.0/UDP 127.0.0.1:5099;branch=z9hG4bK-register''), (''From'', ''<sip:uas@mako.local>;tag=register''),
        (''To'', ''<sip:uas@mako.local>''), (''Call-ID'', ''register-fault''), (''CSeq'', ''1 REGISTER''),
        (''Contact'', ''<sip:uas@127.0.0.1:'' @ dec_str uas_port @ '';transport=udp>''), (''Expires'', ''300''),
        (''Max-Forwards'', ''70''), (''Content-Length'', ''0'')]"

text \<open>
  What the proxy does: its answer to the registration, whether it is alive at the two checks, and for each scenario the
  packets that it delivers to the user agent and those that the client collects.
\<close>

record fault_world =
  registered :: "string result"
  alive_registered :: bool
  alive_lost :: bool
  loss :: "string list \<times> string list"
  reorder :: "string list \<times> string list"
  delay :: "string list \<times> string list"

definition seen_invites :: "FaultUas \<Rightarrow> string \<Rightarrow> nat" where
  "seen_invites uas call_id = (case map_of (invites uas) call_id of None \<Rightarrow> 0 | Some n \<Rightarrow> n)"

definition fault_main :: "int \<Rightarrow> fault_world \<Rightarrow> string list \<times> unit result" where
  "fault_main uas_port w =
     (let u1 = snd (uas_run (fst (loss w)) new_fault_uas);
          u2 = snd (uas_run (fst (reorder w)) u1);
          u3 = snd (uas_run (fst (delay w)) u2);
          statuses = join '' '' (snd (reorder w))
      in run_steps
        [Send (fault_register uas_port),
         expect (\<lambda>cs. bindE (registered w) (\<lambda>r. Inr (r, cs))) (\<lambda>r. require (ok_200 r) ''registration failed''),
         need (alive_registered w) ''proxy exited after registration'',
         Send (fault_request ''INVITE'' ''drop-loss'' ''drop-loss'' 1),
         need (alive_lost w) ''proxy exited during loss scenario'',
         need (\<not> seen_invites u1 ''drop-loss'' < 2) ''proxy did not retransmit after upstream loss'',
         need (list_ex ok_200 (snd (loss w))) ''lost-response scenario never completed'',
         need (\<not> length (filter ok_200 (snd (loss w))) < 2) ''server transaction did not retransmit unacknowledged 2xx'',
         Send (fault_request ''INVITE'' ''reorder-race'' ''reorder-race'' 1),
         need (ok_200 statuses \<and> contains ''SIP/2.0 180'' statuses) ''reordered/duplicated response scenario incomplete'',
         Send (fault_request ''INVITE'' ''delay-timer'' ''delay-timer'' 1),
         need (\<not> seen_invites u3 ''delay-timer'' < 2) ''timer retransmission was not observed during delay'',
         need (list_ex ok_200 (snd (delay w))) ''delayed-response scenario never completed''] [] [])"

subsection \<open>The retransmitted BYE\<close>

definition bye_request :: "int \<Rightarrow> string \<Rightarrow> string \<Rightarrow> int \<Rightarrow> bool \<Rightarrow> bool \<Rightarrow> string" where
  "bye_request base meth branch seq tagged route =
     (let uri = (if tagged then ''sip:bench@127.0.0.1:'' @ dec_str (base + 1) else ''sip:bench@mako.local'')
      in sip_request (meth @ '' '' @ uri @ '' SIP/2.0'')
        ([(''Via'', ''SIP/2.0/UDP 127.0.0.1:'' @ dec_str (base + 2) @ '';branch=z9hG4bK-'' @ branch @ '';rport''),
          (''From'', ''<sip:bench@mako.local>;tag=caller''),
          (''To'', ''<sip:bench@mako.local>'' @ (if tagged then '';tag=uas'' else [])),
          (''Call-ID'', ''bye-regression''), (''CSeq'', dec_str seq @ '' '' @ meth),
          (''Contact'', ''<sip:bench@127.0.0.1:'' @ dec_str (base + 1) @ ''>'')]
         @ (if route then [(''Route'', ''<sip:127.0.0.1:'' @ dec_str base @ '';lr>'')] else [])
         @ [(''Expires'', ''3600''), (''Max-Forwards'', ''70''), (''Content-Length'', ''0'')]))"

text \<open>\<open>int(p.split()[1])\<close> for the responses; a response without a second word or with another one raises.\<close>

fun codes :: "string list \<Rightarrow> int list result" where
  "codes [] = Inr []"
| "codes (p # ps) =
     (if starts_with ''SIP/2.0'' p then
        case split_words p of
          _ # w # _ \<Rightarrow> (case py_int w of
              None \<Rightarrow> Inl (ValueError ''invalid literal for int()'')
            | Some c \<Rightarrow> bindE (codes ps) (\<lambda>cs. Inr (c # cs)))
        | _ \<Rightarrow> Inl IndexError
      else codes ps)"

text \<open>The packets collected after each registration, and whether the proxy is still alive then: the number of
  registrations sent, and how the loop ends.\<close>

fun bye_register :: "(string list \<times> bool) list \<Rightarrow> nat \<times> unit result" where
  "bye_register [] = (0, Inl (AssertionError ''registration failed''))"
| "bye_register ((packets, running) # ts) =
     (case codes packets of
        Inl e \<Rightarrow> (1, Inl e)
      | Inr cs \<Rightarrow>
          if 200 \<in> set cs then (1, Inr ())
          else if \<not> running then (1, Inl (RuntimeError ''proxy exited''))
          else case bye_register ts of (n, r) \<Rightarrow> (Suc n, r))"

text \<open>\<open>receive\<close>: the next packet of a method that reaches the user agent\<close>

fun receive :: "string \<Rightarrow> chunks \<Rightarrow> (string \<times> chunks) result" where
  "receive meth [] = Inl OSError"
| "receive meth (Inl e # cs) = Inl e"
| "receive meth (Inr p # cs) = (if starts_with (meth @ '' '') p then Inr (p, cs) else receive meth cs)"

record bye_result =
  before_final :: "int list"
  final :: "int list"
  replay :: "int list"
  new_transaction :: "int list"
  valid :: bool

definition bye_verdict :: "int list \<Rightarrow> int list \<Rightarrow> int list \<Rightarrow> int list \<Rightarrow> bye_result" where
  "bye_verdict before fin rep new =
     \<lparr>before_final = before, final = fin, replay = rep, new_transaction = new,
      valid = \<not> list_ex (\<lambda>c. c \<ge> 200) before \<and> 200 \<in> set fin \<and> rep = [200] \<and> new = [481]\<rparr>"

text \<open>
  The run: what the proxy sends to the caller after each registration (and whether it is alive), what reaches the user
  agent, and the packets of the five later calls of \<open>collect\<close>. Every packet is taken to be UTF-8, which the trace
  of the run needs. The result has the packets that the two sides send, in order.
\<close>

datatype sent = Caller string | Uas string

record bye_world =
  registering :: "(string list \<times> bool) list"
  at_uas :: chunks
  after_reply :: "string list"
  after_second_bye :: "string list"
  after_bye_reply :: "string list"
  after_third_bye :: "string list"
  after_new_bye :: "string list"

definition bye_run :: "int \<Rightarrow> bye_world \<Rightarrow> sent list \<times> bye_result result" where
  "bye_run base w =
     (let contact = ''Contact: <sip:bench@127.0.0.1:'' @ dec_str (base + 1) @ ''>'' @ crlf;
          bye = bye_request base ''BYE'' ''bye'' 2 True True
      in case bye_register (take 20 (registering w)) of (n, loop) \<Rightarrow>
        say (replicate n (Caller (bye_request base ''REGISTER'' ''registration'' 1 False False))) (
        attempt loop (\<lambda>_.
        say [Caller (bye_request base ''INVITE'' ''invite'' 1 False False)] (
        attempt (receive ''INVITE'' (at_uas w)) (\<lambda>(invite, c1).
        say [Uas (replace_all ''Content-Length:'' (contact @ ''Content-Length:'') (fault_response invite 200 ''OK'' ''uas''))] (
        attempt (codes (after_reply w)) (\<lambda>replied.
        if 200 \<notin> set replied then ([], Inl (AssertionError ''INVITE response missing''))
        else say [Caller (bye_request base ''ACK'' ''ack'' 1 True True)] (
        attempt (receive ''ACK'' c1) (\<lambda>(_, c2).
        say [Caller bye] (
        attempt (receive ''BYE'' c2) (\<lambda>(forwarded, _).
        say [Caller bye] (
        attempt (codes (after_second_bye w)) (\<lambda>before.
        say [Uas (fault_response forwarded 200 ''OK'' ''uas'')] (
        attempt (codes (after_bye_reply w)) (\<lambda>fin.
        say [Caller bye] (
        attempt (codes (after_third_bye w)) (\<lambda>rep.
        say [Caller (bye_request base ''BYE'' ''new-bye'' 3 True True)] (
        attempt (codes (after_new_bye w)) (\<lambda>new.
        ([], Inr (bye_verdict before fin rep new)))))))))))))))))))))"

subsection \<open>The handshake is read to its end or for ever\<close>

lemma contains_append: "contains w s \<Longrightarrow> contains w (s @ t)"
  by (metis append.assoc contains_iff)

lemma read_headers_ends:
  assumes "read_headers cs data = Some y"
  shows "cs = [] \<longrightarrow> contains (crlf @ crlf) data \<or> 16384 < length data"
  by (rule read_headers.raw_induct [where P = "\<lambda>cs data y. cs = [] \<longrightarrow> contains (crlf @ crlf) data \<or> 16384 < length data", OF _ assms])
    (force simp: recv_stream_def split: if_splits)

lemma read_headers_spins: "\<not> contains (crlf @ crlf) data \<Longrightarrow> length data \<le> 16384 \<Longrightarrow> read_headers [] data = None"
  using read_headers_ends [of "[]" data] by (cases "read_headers [] data") auto

lemma read_headers_returns:
  assumes "length data \<le> 16384"
  shows "read_headers cs data = None \<longleftrightarrow>
    (\<exists>chunks. cs = map Inr chunks \<and> \<not> contains (crlf @ crlf) (data @ concat chunks) \<and> length (data @ concat chunks) \<le> 16384)"
  using assms
proof (induction cs arbitrary: data)
  case Nil
  then show ?case
    using read_headers_spins [of data] by (cases "contains (crlf @ crlf) data") (auto simp: read_headers.simps)
next
  case (Cons r cs)
  show ?case
  proof (cases "contains (crlf @ crlf) data")
    case True
    then show ?thesis using contains_append by (auto simp: read_headers.simps)
  next
    case False
    show ?thesis
    proof (cases r)
      case (Inl e)
      then show ?thesis using False by (auto simp: read_headers.simps recv_stream_def)
    next
      case r: (Inr c)
      have step: "read_headers (r # cs) data = (if length (data @ c) > 16384
          then Some (Inl (RuntimeError ''WSS handshake headers exceeded the limit'')) else read_headers cs (data @ c))"
        using False by (simp add: r read_headers.simps [of "_ # _"] recv_stream_def)
      have cut: "(\<exists>chunks. r # cs = map Inr chunks \<and> P (concat chunks)) \<longleftrightarrow> (\<exists>chunks. cs = map Inr chunks \<and> P (c @ concat chunks))" for P
        by (auto simp: r Cons_eq_map_conv)
      show ?thesis
        unfolding step cut [of "\<lambda>x. \<not> contains (crlf @ crlf) (data @ x) \<and> length (data @ x) \<le> 16384"]
        using Cons.IH [of "data @ c"] by auto
    qed
  qed
qed

text \<open>C35: reading the handshake of the WebSocket fixture does not return exactly if the proxy sends no blank line, no more
  than 16384 octets and then closes the connection: \<open>recv\<close> then gives nothing for ever, and nothing leaves
  the loop. In every other case the loop ends, whatever the chunks are and also if \<open>recv\<close> raises.\<close>

theorem read_headers_never_returns_iff:
  shows "read_headers cs [] = None \<longleftrightarrow>
    (\<exists>chunks. cs = map Inr chunks \<and> \<not> contains (crlf @ crlf) (concat chunks) \<and> length (concat chunks) \<le> 16384)"
  using read_headers_returns [of "[]" cs] by simp

subsection \<open>What the fault scenarios ask for\<close>

lemma seen_invites_run: "seen_invites (snd (uas_run ps u)) c = seen_invites u c + invites_seen c ps"
  by (simp add: seen_invites_def uas_run_counts)

lemma seen_invites_new: "seen_invites new_fault_uas c = 0"
  by (simp add: seen_invites_def new_fault_uas_def)

lemma two_is_some: "2 \<le> length (filter P xs) \<Longrightarrow> list_ex P xs"
  by (cases "filter P xs") (auto simp: list_ex_iff filter_eq_Cons_iff)


subsection \<open>The call through the WebSocket association, judged\<close>

definition answered_call :: "int set \<Rightarrow> bool" where
  "answered_call statuses \<longleftrightarrow> 180 \<in> statuses \<and> 200 \<in> statuses"

definition statuses_of :: "string list \<Rightarrow> int set" where
  "statuses_of rs = response_status ` set rs"

lemma poll_statuses_iff:
  "(\<exists>st. poll_statuses turns cs seen = Inr (st, cs') \<and> answered_call (set st)) \<longleftrightarrow>
   (\<exists>mid. cs = map Inr mid @ cs' \<and> length mid \<le> turns \<and> answered_call (set seen \<union> statuses_of mid)
      \<and> (mid = [] \<or> \<not> answered_call (set seen \<union> statuses_of (butlast mid))))"
proof (induction turns arbitrary: cs seen)
  case 0
  then show ?case by (auto simp: statuses_of_def)
next
  case (Suc turns)
  show ?case
  proof (cases "answered_call (set seen)")
    case True
    then have "answered_call (set seen \<union> statuses_of (butlast mid))" for mid by (simp add: answered_call_def)
    moreover have "180 \<in> set seen \<and> 200 \<in> set seen" using True by (simp add: answered_call_def)
    moreover have "statuses_of [] = {}" by (simp add: statuses_of_def)
    ultimately show ?thesis using True by auto
  next
    case False
    show ?thesis
    proof (cases "\<exists>r cs1. cs = Inr r # cs1")
      case none: False
      then have "\<exists>e. recv_response ''WSS 180/200'' cs = Inl e"
        by (cases cs; cases "hd cs") (auto simp: recv_response_def recv_datagram_def)
      with False have "poll_statuses (Suc turns) cs seen \<noteq> Inr (st, cs')" for st by (auto simp: answered_call_def)
      moreover have "mid = []" if "cs = map Inr mid @ cs'" for mid using none that by (cases mid) auto
      moreover have "\<not> answered_call (set seen \<union> statuses_of [])" using False by (simp add: statuses_of_def)
      ultimately show ?thesis by metis
    next
      case True
      then obtain r cs1 where cs: "cs = Inr r # cs1" by blast
      have step: "poll_statuses (Suc turns) cs seen = poll_statuses turns cs1 (response_status r # seen)"
        using False by (auto simp: cs recv_response_def recv_datagram_def answered_call_def)
      have cut: "(\<exists>mid. cs = map Inr mid @ cs' \<and> P mid) \<longleftrightarrow> (\<exists>mid. cs1 = map Inr mid @ cs' \<and> P (r # mid))" if "\<not> P []" for P
      proof
        assume "\<exists>mid. cs = map Inr mid @ cs' \<and> P mid"
        then obtain mid where m: "cs = map Inr mid @ cs'" "P mid" by blast
        with that cs show "\<exists>mid. cs1 = map Inr mid @ cs' \<and> P (r # mid)" by (cases mid) auto
      next
        assume "\<exists>mid. cs1 = map Inr mid @ cs' \<and> P (r # mid)"
        then obtain mid where "cs1 = map Inr mid @ cs'" "P (r # mid)" by blast
        then show "\<exists>mid. cs = map Inr mid @ cs' \<and> P mid" using cs by (intro exI [of _ "r # mid"]) simp
      qed
      have shift: "set (response_status r # seen) \<union> statuses_of mid = set seen \<union> statuses_of (r # mid)" for mid
        by (auto simp: statuses_of_def)
      show ?thesis
        unfolding step Suc.IH shift
      proof (subst cut)
        show "(\<exists>mid. cs1 = map Inr mid @ cs' \<and> length mid \<le> turns \<and> answered_call (set seen \<union> statuses_of (r # mid))
            \<and> (mid = [] \<or> \<not> answered_call (set seen \<union> statuses_of (r # butlast mid)))) =
          (\<exists>mid. cs1 = map Inr mid @ cs' \<and> length (r # mid) \<le> Suc turns \<and> answered_call (set seen \<union> statuses_of (r # mid))
            \<and> (r # mid = [] \<or> \<not> answered_call (set seen \<union> statuses_of (butlast (r # mid)))))"
        proof (rule ex_cong1)
          fix mid show "(cs1 = map Inr mid @ cs' \<and> length mid \<le> turns \<and> answered_call (set seen \<union> statuses_of (r # mid))
              \<and> (mid = [] \<or> \<not> answered_call (set seen \<union> statuses_of (r # butlast mid)))) =
            (cs1 = map Inr mid @ cs' \<and> length (r # mid) \<le> Suc turns \<and> answered_call (set seen \<union> statuses_of (r # mid))
              \<and> (r # mid = [] \<or> \<not> answered_call (set seen \<union> statuses_of (butlast (r # mid)))))"
            using False by (cases mid) (auto simp: statuses_of_def)
        qed
      qed (simp add: False statuses_of_def)
    qed
  qed
qed

text \<open>
  The driver passes exactly if the fixture did its part and the datagrams are a 200, a 100, then as few as have both a 180
  and a 200 (one in each turn), then a 200.
\<close>

theorem exercise_verdict:
  "snd (run_steps (exercise_steps port turns seen acked ended) [] cs) = Inr () \<longleftrightarrow>
    (\<exists>reg trying mid bye rest. cs = Inr reg # Inr trying # map Inr mid @ Inr bye # rest
       \<and> response_status reg = 200 \<and> response_status trying = 100 \<and> response_status bye = 200
       \<and> length mid \<le> turns \<and> answered_call (statuses_of mid) \<and> \<not> answered_call (statuses_of (butlast mid)))
    \<and> received seen \<and> error seen = None \<and> acked \<and> ended"
proof -
  have none: "\<not> answered_call (statuses_of [])" by (simp add: answered_call_def statuses_of_def)
  have tail: "snd (run_steps (see_statuses turns # ss) [] cs) = Inr () \<longleftrightarrow>
      (\<exists>mid cs'. cs = map Inr mid @ cs' \<and> length mid \<le> turns \<and> answered_call (statuses_of mid)
         \<and> \<not> answered_call (statuses_of (butlast mid)) \<and> snd (run_steps ss [] cs') = Inr ())" for ss cs
  proof -
    have "snd (run_steps (see_statuses turns # ss) [] cs) = Inr () \<longleftrightarrow>
        (\<exists>cs'. (\<exists>st. poll_statuses turns cs [] = Inr (st, cs') \<and> answered_call (set st)) \<and> snd (run_steps ss [] cs') = Inr ())"
      by (cases "poll_statuses turns cs []") (auto simp: see_statuses_def answered_call_def split: if_splits)
    also have "\<dots> \<longleftrightarrow> (\<exists>mid cs'. cs = map Inr mid @ cs' \<and> length mid \<le> turns \<and> answered_call (statuses_of mid)
         \<and> \<not> answered_call (statuses_of (butlast mid)) \<and> snd (run_steps ss [] cs') = Inr ())"
      unfolding poll_statuses_iff using none by (auto simp: statuses_of_def)
    finally show ?thesis .
  qed
  have last: "snd (run_steps [Send a, need acked b, Send c, expect (recv_response d) f, need ended e] [] cs') = Inr () \<longleftrightarrow>
      acked \<and> ended \<and> (\<exists>bye rest. cs' = Inr bye # rest \<and> f bye = None)" for a b c d e f cs'
    by (cases cs'; cases "hd cs'") (auto simp: recv_response_def recv_datagram_def split: prod.splits option.splits)
  have first: "snd (run_steps (Send a # expect recv_datagram f # Send b # expect (recv_response c) g # need (received seen) d
        # Act (\<lambda>cs. case error seen of Some e \<Rightarrow> Inl e | None \<Rightarrow> Inr cs) # ss) [] cs) = Inr () \<longleftrightarrow>
      (\<exists>reg trying cs'. cs = Inr reg # Inr trying # cs' \<and> f reg = None \<and> g trying = None \<and> received seen \<and> error seen = None
        \<and> snd (run_steps ss [] cs') = Inr ())" for a b c d f g ss
    by (cases cs; cases "hd cs"; cases "tl cs"; cases "hd (tl cs)")
      (auto simp: recv_response_def recv_datagram_def split: prod.splits option.splits)
  show ?thesis
    unfolding exercise_steps_def first tail last require_simps(3) by blast
qed

subsection \<open>The run with the retransmitted BYE\<close>

lemma receive_finds:
  "receive meth cs = Inr (p, cs') \<Longrightarrow> starts_with (meth @ '' '') p \<and> (\<exists>skipped. cs = map Inr skipped @ Inr p # cs'
     \<and> list_all (\<lambda>q. \<not> starts_with (meth @ '' '') q) skipped)"
proof (induction meth cs rule: receive.induct)
  case (3 meth q cs)
  show ?case
  proof (cases "starts_with (meth @ '' '') q")
    case True
    with 3 have "q = p" "cs = cs'" by auto
    with True show ?thesis by (intro conjI exI [of _ "[]"]) auto
  next
    case False
    with 3 obtain skipped where "cs = map Inr skipped @ Inr p # cs'" "list_all (\<lambda>q. \<not> starts_with (meth @ '' '') q) skipped"
        "starts_with (meth @ '' '') p"
      by auto
    with False show ?thesis by (intro conjI exI [of _ "q # skipped"]) auto
  qed
qed simp_all

lemma bye_register_tries: "bye_register ts = (n, Inr ()) \<Longrightarrow> 1 \<le> n \<and> n \<le> length ts"
  by (induction ts arbitrary: n rule: bye_register.induct) (auto split: sum.splits if_splits prod.splits)

definition bye_reply :: "int \<Rightarrow> string \<Rightarrow> string" where
  "bye_reply base invite =
     replace_all ''Content-Length:'' (''Contact: <sip:bench@127.0.0.1:'' @ dec_str (base + 1) @ ''>'' @ crlf @ ''Content-Length:'')
       (fault_response invite 200 ''OK'' ''uas'')"

text \<open>What a run of the BYE regression that gives a verdict has done. It registered at most 20 times, answered the first
  INVITE and the first BYE after it and an ACK that reached the user agent, and sent the same BYE three times, once before and
  once after the answer to it, then one of a new transaction. The verdict is that no final response preceded the answer, that
  the answer and, for the third BYE, nothing but its repetition came back, and that the new BYE was refused with 481.\<close>

theorem bye_run_script:
  assumes "bye_run base w = (out, Inr res)"
  shows "\<exists>n invite ack forwarded pre mid1 mid2 rest. 1 \<le> n \<and> n \<le> 20
    \<and> at_uas w = map Inr pre @ Inr invite # map Inr mid1 @ Inr ack # map Inr mid2 @ Inr forwarded # rest
    \<and> starts_with ''INVITE '' invite \<and> starts_with ''ACK '' ack \<and> starts_with ''BYE '' forwarded
    \<and> list_all (\<lambda>q. \<not> starts_with ''INVITE '' q) pre \<and> list_all (\<lambda>q. \<not> starts_with ''BYE '' q) mid2
    \<and> out = replicate n (Caller (bye_request base ''REGISTER'' ''registration'' 1 False False))
        @ [Caller (bye_request base ''INVITE'' ''invite'' 1 False False), Uas (bye_reply base invite),
           Caller (bye_request base ''ACK'' ''ack'' 1 True True),
           Caller (bye_request base ''BYE'' ''bye'' 2 True True), Caller (bye_request base ''BYE'' ''bye'' 2 True True),
           Uas (fault_response forwarded 200 ''OK'' ''uas''),
           Caller (bye_request base ''BYE'' ''bye'' 2 True True),
           Caller (bye_request base ''BYE'' ''new-bye'' 3 True True)]
    \<and> codes (after_second_bye w) = Inr (before_final res) \<and> codes (after_bye_reply w) = Inr (final res)
    \<and> codes (after_third_bye w) = Inr (replay res) \<and> codes (after_new_bye w) = Inr (new_transaction res)
    \<and> (valid res \<longleftrightarrow> list_all (\<lambda>c. c < 200) (before_final res) \<and> 200 \<in> set (final res) \<and> replay res = [200] \<and> new_transaction res = [481])"
proof -
  obtain n loop where reg: "bye_register (take 20 (registering w)) = (n, loop)" by fastforce
  note run = assms [unfolded bye_run_def Let_def reg prod.case say_eq attempt_Inr]
  obtain invite c1 where i: "receive ''INVITE'' (at_uas w) = Inr (invite, c1)" "loop = Inr ()"
    using run by auto
  obtain ack c2 where a: "receive ''ACK'' c1 = Inr (ack, c2)"
    using run i by (auto split: if_splits simp: say_eq attempt_Inr)
  obtain forwarded c3 where f: "receive ''BYE'' c2 = Inr (forwarded, c3)"
    using run i a by (auto split: if_splits simp: say_eq attempt_Inr)
  have n: "1 \<le> n \<and> n \<le> 20" using bye_register_tries [of "take 20 (registering w)" n] reg i(2) by simp
  have less: "\<not> list_ex (\<lambda>c. c \<ge> (200 :: int)) xs \<longleftrightarrow> list_all (\<lambda>c. c < 200) xs" for xs
    by (auto simp: list_ex_iff list_all_iff not_le)
  obtain pre mid1 mid2 where p: "at_uas w = map Inr pre @ Inr invite # c1" "list_all (\<lambda>q. \<not> starts_with ''INVITE '' q) pre"
      "c1 = map Inr mid1 @ Inr ack # c2" "c2 = map Inr mid2 @ Inr forwarded # c3" "list_all (\<lambda>q. \<not> starts_with ''BYE '' q) mid2"
      "starts_with ''INVITE '' invite" "starts_with ''ACK '' ack" "starts_with ''BYE '' forwarded"
    using receive_finds [OF i(1)] receive_finds [OF a] receive_finds [OF f] by auto
  have out: "out = replicate n (Caller (bye_request base ''REGISTER'' ''registration'' 1 False False))
        @ [Caller (bye_request base ''INVITE'' ''invite'' 1 False False), Uas (bye_reply base invite),
           Caller (bye_request base ''ACK'' ''ack'' 1 True True),
           Caller (bye_request base ''BYE'' ''bye'' 2 True True), Caller (bye_request base ''BYE'' ''bye'' 2 True True),
           Uas (fault_response forwarded 200 ''OK'' ''uas''),
           Caller (bye_request base ''BYE'' ''bye'' 2 True True),
           Caller (bye_request base ''BYE'' ''new-bye'' 3 True True)]
    \<and> codes (after_second_bye w) = Inr (before_final res) \<and> codes (after_bye_reply w) = Inr (final res)
    \<and> codes (after_third_bye w) = Inr (replay res) \<and> codes (after_new_bye w) = Inr (new_transaction res)
    \<and> (valid res \<longleftrightarrow> list_all (\<lambda>c. c < 200) (before_final res) \<and> 200 \<in> set (final res) \<and> replay res = [200] \<and> new_transaction res = [481])"
    using run i a f by (auto split: if_splits simp: say_eq attempt_Inr bye_verdict_def less bye_reply_def)
  have at: "at_uas w = map Inr pre @ Inr invite # map Inr mid1 @ Inr ack # map Inr mid2 @ Inr forwarded # c3"
    using p(1,3,4) by simp
  show ?thesis using n at p(2,5-8) out by blast
qed

theorem bye_run_script_witness:
  "\<exists>out res. bye_run 18760 \<lparr>registering = [([], True), ([''SIP/2.0 200 OK''], True)], at_uas = [Inr ''INVITE '', Inr ''INVITE '', Inr ''ACK '', Inr ''BYE ''],
      after_reply = [''SIP/2.0 100 Trying'', ''SIP/2.0 200 OK''], after_second_bye = [], after_bye_reply = [''SIP/2.0 200 OK''],
      after_third_bye = [''SIP/2.0 200 OK''], after_new_bye = [''SIP/2.0 481 Gone'']\<rparr> = (out, Inr res)
    \<and> valid res \<and> length out = 10"
proof -
  have c: "codes [''SIP/2.0 200 OK''] = Inr [200]" "codes [''SIP/2.0 481 Gone''] = Inr [481]" "codes [] = Inr []"
      "codes [''SIP/2.0 100 Trying'', ''SIP/2.0 200 OK''] = Inr [100, 200]"
    by code_simp+
  let ?w = "\<lparr>registering = [([], True), ([''SIP/2.0 200 OK''], True)], at_uas = [Inr ''INVITE '', Inr ''INVITE '', Inr ''ACK '', Inr ''BYE ''],
      after_reply = [''SIP/2.0 100 Trying'', ''SIP/2.0 200 OK''], after_second_bye = [], after_bye_reply = [''SIP/2.0 200 OK''],
      after_third_bye = [''SIP/2.0 200 OK''], after_new_bye = [''SIP/2.0 481 Gone'']\<rparr>"
  have reg: "bye_register (take 20 (registering ?w)) = (2, Inr ())" by (simp add: c del: codes.simps(2))
  have "\<exists>out res. bye_run 18760 ?w = (out, Inr res) \<and> length out = 10"
    by (simp add: bye_run_def Let_def reg c starts_with_def say_def attempt_def del: codes.simps(2))
  then obtain out res where run: "bye_run 18760 ?w = (out, Inr res)" "length out = 10" by blast
  from bye_run_script [OF run(1)] have "codes (after_second_bye ?w) = Inr (before_final res) \<and> codes (after_bye_reply ?w) = Inr (final res)
    \<and> codes (after_third_bye ?w) = Inr (replay res) \<and> codes (after_new_bye ?w) = Inr (new_transaction res)
    \<and> (valid res \<longleftrightarrow> list_all (\<lambda>c. c < 200) (before_final res) \<and> 200 \<in> set (final res) \<and> replay res = [200] \<and> new_transaction res = [481])"
    by blast
  then have "before_final res = [] \<and> final res = [200] \<and> replay res = [200] \<and> new_transaction res = [481]
    \<and> (valid res \<longleftrightarrow> list_all (\<lambda>c. c < 200) (before_final res) \<and> 200 \<in> set (final res) \<and> replay res = [200] \<and> new_transaction res = [481])"
    by (simp add: c del: codes.simps(2)) metis
  then have "valid res" by auto
  with run show ?thesis by blast
qed

end
