(* ===== verification/Ims_Lab.thy ===== *)
theory Ims_Lab
  imports Sip_Probe
begin

section \<open>The client of the container lab\<close>

text \<open>
  \<^verbatim>\<open>docker/ims-lab/docker_ims_test.py\<close>: two SIP clients that register with AKA digests and make a call with media through
  the proxy, and \<^verbatim>\<open>bench/auth_matrix.py\<close>, the digest vectors. MD5 and the other digests (as hexadecimal texts) are
  parameters, as are the random identifiers. What arrives at each socket is input, in order, with the
  address it comes from; an empty list means that nothing comes before the deadline.
\<close>

subsection \<open>Digest responses\<close>

definition qop_response ::
  "(string \<Rightarrow> string) \<Rightarrow> string \<Rightarrow> string \<Rightarrow> string \<Rightarrow> string \<Rightarrow> string \<Rightarrow> string \<Rightarrow> string \<Rightarrow> string" where
  "qop_response digest ha1 meth uri nonce nc cnonce qop =
     (let ha2 = digest (meth @ '':'' @ uri)
      in digest (ha1 @ '':'' @ nonce @ '':'' @ nc @ '':'' @ cnonce @ '':'' @ qop @ '':'' @ ha2))"

definition sess_response :: "(string \<Rightarrow> string) \<Rightarrow> string \<Rightarrow> string \<Rightarrow> string \<Rightarrow> string \<Rightarrow> string \<Rightarrow> string" where
  "sess_response digest ha1 meth uri nonce cnonce =
     (let sess_ha1 = digest (ha1 @ '':'' @ nonce @ '':'' @ cnonce); ha2 = digest (meth @ '':'' @ uri)
      in digest (sess_ha1 @ '':'' @ nonce @ '':'' @ ha2))"

text \<open>The vectors of \<open>main\<close>, by name, and the first one that is wrong, if any.\<close>

definition auth_vectors :: "(string \<Rightarrow> string) \<Rightarrow> (string \<Rightarrow> string) \<Rightarrow> (string \<times> string) list" where
  "auth_vectors md5 sha256 =
     (let nonce = ''dcd98b7102dd2f0e8b11d0f600bfb0c093''; nc = ''00000001''; cnonce = ''0a4f113b''; meth = ''GET'';
          uri = ''/dir/index.html''; md5_ha1 = ''939e7578ed9e3c518a452acee763bce9'';
          sha_ha1 = ''3ba6cd94661c5ef34598040c868f13b8775df29109986be50ad35ae537dd3aa4''
      in [(''md5-auth'', qop_response md5 md5_ha1 meth uri nonce nc cnonce ''auth''),
          (''sha256-auth'', qop_response sha256 sha_ha1 meth uri nonce nc cnonce ''auth''),
          (''md5-sess'', sess_response md5 md5_ha1 meth uri nonce cnonce),
          (''sha256-sess'', sess_response sha256 sha_ha1 meth uri nonce cnonce)])"

definition auth_expected :: "(string \<times> string) list" where
  "auth_expected =
     [(''md5-auth'', ''6629fae49393a05397450978507c4ef1''),
      (''sha256-auth'', ''5abdd07184ba512a22c53f41470e5eea7dcaa3a93a59b630c13dfe0a5dc6e38b''),
      (''md5-sess'', ''4726bc10c33fa6cb357eb27807b1cce8''),
      (''sha256-sess'', ''6f421709505a71923c950606510a113314a303e5224f5d6390e4ad42cb718479'')]"

definition auth_matrix :: "(string \<Rightarrow> string) \<Rightarrow> (string \<Rightarrow> string) \<Rightarrow> string option" where
  "auth_matrix md5 sha256 =
     map_option (\<lambda>(name, v). name @ '': got '' @ v @ '', want '' @ the (map_of auth_expected name))
       (List.find (\<lambda>(name, v). Some v \<noteq> map_of auth_expected name) (auth_vectors md5 sha256))"

subsection \<open>Reading messages\<close>

text \<open>
  \<open>raw.decode("ascii", "replace")\<close>: the replacement character is written as \<open>CHR 0xFF\<close>. It is not ASCII,
  not white space and its own lower case, as the one it stands for.
\<close>

definition decode_replace :: "string \<Rightarrow> string" where
  "decode_replace raw = map (\<lambda>c. if chr_code c < 128 then c else CHR 0xFF) raw"

definition lab_status :: "string \<Rightarrow> int result" where
  "lab_status message =
     (case split_words (hd (split_crlf message)) of
        _ # w # _ \<Rightarrow> (case py_int w of Some n \<Rightarrow> Inr n | None \<Rightarrow> Inl (ValueError ''invalid literal for int()''))
      | _ \<Rightarrow> Inl IndexError)"

text \<open>\<open>message.split("\r\n\r\n", 1)\<close>: the head, and the body if there is a blank line.\<close>

fun split_blank :: "string \<Rightarrow> string \<times> string option" where
  "split_blank [] = ([], None)"
| "split_blank (c # s) =
     (if starts_with (crlf @ crlf) (c # s) then ([], Some (drop 3 s))
      else case split_blank s of (h, b) \<Rightarrow> (c # h, b))"

definition lab_headers :: "string \<Rightarrow> (string \<times> string) list" where
  "lab_headers message =
     foldl (\<lambda>values line. if CHR '':'' \<in> set line then AList.update (lower (before_colon line)) (strip (after_colon line)) values else values)
       [] (tl (split_crlf (fst (split_blank message))))"

definition lab_value :: "(string \<times> string) list \<Rightarrow> string \<Rightarrow> string result" where
  "lab_value values name = (case map_of values name of None \<Rightarrow> Inl KeyError | Some v \<Rightarrow> Inr v)"

definition lab_header_line :: "(string \<times> string) list \<Rightarrow> string \<Rightarrow> string result" where
  "lab_header_line values name = bindE (lab_value values (lower name)) (\<lambda>v. Inr (name @ '': '' @ v @ crlf))"

definition lab_header_lines :: "string \<Rightarrow> string \<Rightarrow> string" where
  "lab_header_lines message name =
     concat (map (\<lambda>line. name @ '': '' @ strip (after_colon line) @ crlf)
       (filter (\<lambda>line. CHR '':'' \<in> set line \<and> lower (before_colon line) = lower name) (tl (split_crlf message))))"

text \<open>
  The expression of \<open>digest_params\<close>, tried at one position: a name, an equals sign, and a quoted value or (also if a
  quote is not closed) a token. No part can match shorter and let the rest match, so that there is nothing to backtrack.
\<close>

definition is_alpha :: "char \<Rightarrow> bool" where
  "is_alpha c \<longleftrightarrow> (65 \<le> chr_code c \<and> chr_code c \<le> 90) \<or> (97 \<le> chr_code c \<and> chr_code c \<le> 122)"

definition name_char :: "char \<Rightarrow> bool" where
  "name_char c \<longleftrightarrow> is_alpha c \<or> is_digit c \<or> c = CHR ''_'' \<or> c = CHR ''-''"

definition token_char :: "char \<Rightarrow> bool" where
  "token_char c \<longleftrightarrow> c \<noteq> CHR '','' \<and> \<not> is_space c"

definition match_value :: "string \<Rightarrow> (string \<times> string) option" where
  "match_value s =
     (if s \<noteq> [] \<and> hd s = CHR 0x22 \<and> CHR 0x22 \<in> set (tl s)
      then Some (takeWhile (\<lambda>c. c \<noteq> CHR 0x22) (tl s), tl (dropWhile (\<lambda>c. c \<noteq> CHR 0x22) (tl s)))
      else if takeWhile token_char s = [] then None
      else Some (takeWhile token_char s, dropWhile token_char s))"

definition match_param :: "string \<Rightarrow> ((string \<times> string) \<times> string) option" where
  "match_param s =
     (if s = [] \<or> \<not> is_alpha (hd s) then None
      else case dropWhile is_space (dropWhile name_char s) of
        [] \<Rightarrow> None
      | c # r \<Rightarrow>
          if c \<noteq> CHR ''='' then None
          else map_option (\<lambda>(v, rest). ((takeWhile name_char s, v), rest)) (match_value (dropWhile is_space r)))"

lemma match_value_shorter: "match_value s = Some (v, rest) \<Longrightarrow> length rest < length s"
proof -
  assume m: "match_value s = Some (v, rest)"
  show ?thesis
  proof (cases "s \<noteq> [] \<and> hd s = CHR 0x22 \<and> CHR 0x22 \<in> set (tl s)")
    case True
    then obtain r where s: "s = CHR 0x22 # r" by (cases s) auto
    then have "rest = tl (dropWhile (\<lambda>c. c \<noteq> CHR 0x22) r)" using m True by (simp add: match_value_def)
    then show ?thesis using length_dropWhile_le [of "\<lambda>c. c \<noteq> CHR 0x22" r] by (simp add: s)
  next
    case False
    then have t: "takeWhile token_char s \<noteq> []" "rest = dropWhile token_char s"
      using m unfolding match_value_def by (auto split: if_splits)
    have "length s = length (takeWhile token_char s) + length (dropWhile token_char s)"
      by (metis length_append takeWhile_dropWhile_id)
    then show ?thesis using t by simp
  qed
qed

lemma match_param_shorter: "match_param s = Some (p, rest) \<Longrightarrow> length rest < length s"
proof -
  assume m: "match_param s = Some (p, rest)"
  then obtain c r v where d: "dropWhile is_space (dropWhile name_char s) = c # r" "match_value (dropWhile is_space r) = Some (v, rest)"
    by (auto simp: match_param_def split: if_splits list.splits)
  have "length rest < length r" using match_value_shorter [OF d(2)] length_dropWhile_le [of is_space r] by simp
  moreover have "length (c # r) \<le> length s"
    using d(1) length_dropWhile_le [of is_space "dropWhile name_char s"] length_dropWhile_le [of name_char s] by simp
  ultimately show ?thesis by simp
qed

text \<open>\<open>re.finditer\<close>\<close>

function params_of :: "string \<Rightarrow> (string \<times> string) list" where
  "params_of s =
     (case match_param s of
        Some (p, rest) \<Rightarrow> p # params_of rest
      | None \<Rightarrow> if s = [] then [] else params_of (tl s))"
  by pat_completeness auto
termination
  by (relation "measure length") (auto dest: match_param_shorter)

declare params_of.simps [simp del]

definition digest_params :: "string \<Rightarrow> (string \<times> string) list" where
  "digest_params value = foldl (\<lambda>result (name, v). AList.update (lower name) v result) [] (params_of value)"

text \<open>\<open>message.split("\r\n\r\n", 1)[1]\<close> raises if there is no body.\<close>

definition sdp_media_port :: "string \<Rightarrow> int result" where
  "sdp_media_port message =
     (case snd (split_blank message) of
        None \<Rightarrow> Inl IndexError
      | Some body \<Rightarrow>
          (case List.find (starts_with ''m=audio '') (split_crlf body) of
             None \<Rightarrow> Inl (AssertionError ''missing audio SDP media line'')
           | Some line \<Rightarrow>
               (case split_words line of
                  _ # w # _ \<Rightarrow> (case py_int w of Some n \<Rightarrow> Inr n | None \<Rightarrow> Inl (ValueError ''invalid literal for int()''))
                | _ \<Rightarrow> Inl IndexError)))"

subsection \<open>The client\<close>

type_synonym lab_peer = "string \<times> int"

text \<open>What is sent: a datagram to the proxy, one to the source of a request, or one from a media socket to a port of the relay.\<close>

datatype lab_sent = To_proxy string | To_peer lab_peer string | To_media int string

text \<open>\<open>inbox\<close>: what \<open>recvfrom\<close> will give. \<open>port\<close> is the port of \<open>address\<close>.\<close>

record SipClient =
  port :: int
  last_peer :: "lab_peer option"
  inbox :: "(string \<times> lab_peer) list"

definition new_client :: "int \<Rightarrow> (string \<times> lab_peer) list \<Rightarrow> SipClient" where
  "new_client p datagrams = \<lparr>port = p, last_peer = None, inbox = datagrams\<rparr>"

text \<open>Both write \<open>message.encode("ascii")\<close>; \<open>respond\<close> looks for a peer first.\<close>

definition send :: "string \<Rightarrow> lab_sent list \<times> 'a result \<Rightarrow> lab_sent list \<times> 'a result" where
  "send message k = (if is_ascii message then say [To_proxy message] k else ([], Inl UnicodeEncodeError))"

definition respond :: "SipClient \<Rightarrow> string \<Rightarrow> lab_sent list \<times> 'a result \<Rightarrow> lab_sent list \<times> 'a result" where
  "respond c message k =
     (case last_peer c of
        None \<Rightarrow> ([], Inl (AssertionError ''respond() before any request was received''))
      | Some peer \<Rightarrow> if is_ascii message then say [To_peer peer message] k else ([], Inl UnicodeEncodeError))"

text \<open>\<open>receive\<close>: what the predicate refuses is dropped; what it raises ends the wait. The list of what was seen is left out
  of the message of the failure.\<close>

fun lab_receive :: "(string \<Rightarrow> bool result) \<Rightarrow> (string \<times> lab_peer) list \<Rightarrow> lab_peer option \<Rightarrow> (string \<times> lab_peer option \<times> (string \<times> lab_peer) list) result" where
  "lab_receive predicate [] peer = Inl (AssertionError ''SIP response did not arrive'')"
| "lab_receive predicate ((raw, from) # ds) peer =
     (let message = decode_replace raw
      in case predicate message of
        Inl e \<Rightarrow> Inl e
      | Inr True \<Rightarrow> Inr (message, (if \<not> starts_with ''SIP/2.0'' message then Some from else peer), ds)
      | Inr False \<Rightarrow> lab_receive predicate ds peer)"

definition client_receive :: "(string \<Rightarrow> bool result) \<Rightarrow> SipClient \<Rightarrow> (string \<times> SipClient) result" where
  "client_receive predicate c =
     bindE (lab_receive predicate (inbox c) (last_peer c)) (\<lambda>(m, peer, ds). Inr (m, c\<lparr>last_peer := peer, inbox := ds\<rparr>))"

text \<open>\<open>lambda message: status(message) in codes\<close> and \<open>lambda message: message.startswith(...)\<close>\<close>

definition status_in :: "int list \<Rightarrow> string \<Rightarrow> bool result" where
  "status_in cs message = bindE (lab_status message) (\<lambda>n. Inr (n \<in> set cs))"

definition is_request :: "string \<Rightarrow> string \<Rightarrow> bool result" where
  "is_request meth message = Inr (starts_with (meth @ '' '') message)"

subsection \<open>Registration\<close>

definition lab_param :: "(string \<times> string) list \<Rightarrow> string \<Rightarrow> string" where
  "lab_param params name = (case map_of params name of None \<Rightarrow> [] | Some v \<Rightarrow> v)"

definition make_register :: "string \<Rightarrow> int \<Rightarrow> string \<Rightarrow> string \<Rightarrow> int \<Rightarrow> string \<Rightarrow> string \<Rightarrow> string" where
  "make_register ip p user call_id cseq branch authorization =
     sip_request ''REGISTER sip:example.com SIP/2.0''
       ([(''Via'', ''SIP/2.0/UDP '' @ ip @ '':'' @ dec_str p @ '';branch='' @ branch), (''Max-Forwards'', ''70''),
         (''From'', ''<sip:'' @ user @ ''@example.com>;tag='' @ user @ ''-register''), (''To'', ''<sip:'' @ user @ ''@example.com>''),
         (''Call-ID'', call_id), (''CSeq'', dec_str cseq @ '' REGISTER''),
         (''Contact'', ''<sip:'' @ user @ ''@'' @ ip @ '':'' @ dec_str p @ ''>''), (''Expires'', ''300'')]
        @ (if authorization \<noteq> [] then [(''Authorization'', authorization)] else []) @ [(''Content-Length'', ''0'')])"

definition quoted :: "string \<Rightarrow> string" where
  "quoted v = dquote @ v @ dquote"

text \<open>The two places that write an \<open>Authorization\<close> header write it alike.\<close>

definition authorization_of :: "string \<Rightarrow> string \<Rightarrow> string \<Rightarrow> string \<Rightarrow> string \<Rightarrow> string \<Rightarrow> string" where
  "authorization_of username nonce uri response nc cnonce =
     ''Digest username='' @ quoted username @ '', realm='' @ quoted ''example.com'' @ '', nonce='' @ quoted nonce
       @ '', uri='' @ quoted uri @ '', response='' @ quoted response @ '', algorithm=AKAv1-MD5, qop=auth, nc='' @ nc
       @ '', cnonce='' @ quoted cnonce"

definition aka_response :: "(string \<Rightarrow> string) \<Rightarrow> string \<Rightarrow> string \<Rightarrow> string \<Rightarrow> string \<Rightarrow> string \<Rightarrow> string \<Rightarrow> string \<Rightarrow> string" where
  "aka_response md5 user xres meth uri nonce nc cnonce =
     (let ha1 = md5 (user @ ''@example.com:example.com:'' @ xres); ha2 = md5 (meth @ '':'' @ uri)
      in md5 (ha1 @ '':'' @ nonce @ '':'' @ nc @ '':'' @ cnonce @ '':auth:'' @ ha2))"

text \<open>\<open>u1\<close>, \<open>u2\<close>, \<open>u3\<close> are the three values of \<open>uuid4().hex\<close>.\<close>

definition register ::
  "(string \<Rightarrow> string) \<Rightarrow> string \<Rightarrow> string \<Rightarrow> string \<Rightarrow> string \<Rightarrow> string \<Rightarrow> string \<Rightarrow> SipClient \<Rightarrow> lab_sent list \<times> SipClient result" where
  "register md5 ip u1 u2 u3 user xres c =
     (let call_id = ''register-'' @ user @ ''-'' @ take 12 u1; uri = ''sip:example.com''; cnonce = ''docker-ims-cnonce''; nc = ''00000001''
      in send (make_register ip (port c) user call_id 1 (''z9hG4bK-'' @ u2) []) (
        attempt (client_receive (status_in [401, 407]) c) (\<lambda>(challenge, c1).
        attempt (lab_status challenge) (\<lambda>code.
        if code \<noteq> 401 then ([], Inl (AssertionError (''expected 401 REGISTER challenge, got '' @ dec_str code)))
        else attempt (lab_value (lab_headers challenge) ''www-authenticate'') (\<lambda>h.
        let params = digest_params h
        in if lower (lab_param params ''algorithm'') \<noteq> ''akav1-md5'' \<or> map_of params ''qop'' \<noteq> Some ''auth''
           then ([], Inl (AssertionError ''unexpected AKA challenge''))
           else attempt (lab_value params ''nonce'') (\<lambda>nonce.
             if \<not> is_ascii nonce then ([], Inl UnicodeEncodeError)
             else send (make_register ip (port c) user call_id 2 (''z9hG4bK-'' @ u3)
                    (authorization_of (user @ ''@example.com'') nonce uri (aka_response md5 user xres ''REGISTER'' uri nonce nc cnonce) nc cnonce)) (
             attempt (client_receive (status_in [200]) c1) (\<lambda>(accepted, c2).
             attempt (lab_status accepted) (\<lambda>code.
             if code \<noteq> 200 then ([], Inl (AssertionError ''REGISTER was not accepted'')) else ([], Inr c2))))))))))"

definition expect_register_rejected :: "string \<Rightarrow> string \<Rightarrow> string \<Rightarrow> string \<Rightarrow> SipClient \<Rightarrow> lab_sent list \<times> SipClient result" where
  "expect_register_rejected ip u1 u2 user c =
     send (sip_request ''REGISTER sip:example.com SIP/2.0''
       [(''Via'', ''SIP/2.0/UDP '' @ ip @ '':'' @ dec_str (port c) @ '';branch=z9hG4bK-'' @ u2), (''Max-Forwards'', ''70''),
        (''From'', ''<sip:'' @ user @ ''@example.com>;tag='' @ user @ ''-rejected''), (''To'', ''<sip:'' @ user @ ''@example.com>''),
        (''Call-ID'', ''reject-'' @ user @ ''-'' @ take 12 u1), (''CSeq'', ''1 REGISTER''),
        (''Contact'', ''<sip:'' @ user @ ''@'' @ ip @ '':'' @ dec_str (port c) @ ''>''), (''Expires'', ''300''), (''Content-Length'', ''0'')]) (
     attempt (client_receive (status_in [403, 503]) c) (\<lambda>(rejected, c1).
     attempt (lab_status rejected) (\<lambda>code.
     if code \<noteq> 503 then ([], Inl (AssertionError (''expected 503 for rejected IMS vector, got '' @ dec_str code))) else ([], Inr c1))))"

subsection \<open>The call\<close>

text \<open>\<open>offer_sdp\<close> and \<open>answer_sdp\<close>, with 1 and 2 for the session.\<close>

definition lab_sdp :: "string \<Rightarrow> string \<Rightarrow> int \<Rightarrow> string" where
  "lab_sdp ip session media_port =
     join crlf [''v=0'', ''o=- '' @ session @ '' '' @ session @ '' IN IP4 '' @ ip, ''s=-'', ''c=IN IP4 '' @ ip, ''t=0 0'',
       ''m=audio '' @ dec_str media_port @ '' RTP/AVP 0'', []]"

text \<open>\<open>b\<close> is the branch; the INVITE and what is made of it when it is sent again.\<close>

definition lab_invite :: "string \<Rightarrow> int \<Rightarrow> int \<Rightarrow> string \<Rightarrow> string \<Rightarrow> string" where
  "lab_invite ip p media_port call_id b =
     (let offer = lab_sdp ip ''1'' media_port
      in sip_request ''INVITE sip:bob@example.com SIP/2.0''
           [(''Via'', ''SIP/2.0/UDP '' @ ip @ '':'' @ dec_str p @ '';branch='' @ b), (''Max-Forwards'', ''70''),
            (''From'', ''<sip:alice@example.com>;tag=alice-call''), (''To'', ''<sip:bob@example.com>''), (''Call-ID'', call_id),
            (''CSeq'', ''1 INVITE''), (''Contact'', ''<sip:alice@'' @ ip @ '':'' @ dec_str p @ ''>''), (''Content-Type'', ''application/sdp''),
            (''Content-Length'', dec_nat (length offer))] @ offer)"

definition lab_authenticated :: "string \<Rightarrow> string \<Rightarrow> string \<Rightarrow> string" where
  "lab_authenticated invite b authorization =
     replace_all (''Content-Type: application/sdp'' @ crlf) (''Authorization: '' @ authorization @ crlf @ ''Content-Type: application/sdp'' @ crlf)
       (replace_all (''CSeq: 1 INVITE'' @ crlf) (''CSeq: 2 INVITE'' @ crlf)
         (replace_all (''branch='' @ b) (''branch='' @ b @ ''-authenticated'') invite))"

definition lab_ringing :: "string \<Rightarrow> string result" where
  "lab_ringing invite =
     (let h = lab_headers invite
      in bindE (lab_header_line h ''from'') (\<lambda>f. bindE (lab_header_line h ''call-id'') (\<lambda>i. bindE (lab_header_line h ''cseq'') (\<lambda>q.
         Inr (''SIP/2.0 180 Ringing'' @ crlf @ lab_header_lines invite ''Via'' @ f @ ''To: <sip:bob@example.com>;tag=bob-call'' @ crlf
           @ i @ q @ ''Content-Length: 0'' @ crlf @ crlf)))))"

definition lab_answer :: "string \<Rightarrow> int \<Rightarrow> int \<Rightarrow> string \<Rightarrow> string result" where
  "lab_answer ip p media_port invite =
     (let h = lab_headers invite; answer = lab_sdp ip ''2'' media_port
      in bindE (lab_header_line h ''from'') (\<lambda>f. bindE (lab_header_line h ''call-id'') (\<lambda>i. bindE (lab_header_line h ''cseq'') (\<lambda>q.
         Inr (''SIP/2.0 200 OK'' @ crlf @ lab_header_lines invite ''Via'' @ f @ ''To: <sip:bob@example.com>;tag=bob-call'' @ crlf
           @ i @ q @ ''Contact: <sip:bob@'' @ ip @ '':'' @ dec_str p @ ''>'' @ crlf @ ''Content-Type: application/sdp'' @ crlf
           @ ''Content-Length: '' @ dec_nat (length answer) @ crlf @ crlf @ answer)))))"

definition lab_bye_ok :: "string \<Rightarrow> string result" where
  "lab_bye_ok bye =
     (let h = lab_headers bye
      in bindE (lab_header_line h ''from'') (\<lambda>f. bindE (lab_header_line h ''to'') (\<lambda>t. bindE (lab_header_line h ''call-id'') (\<lambda>i.
         bindE (lab_header_line h ''cseq'') (\<lambda>q.
         Inr (''SIP/2.0 200 OK'' @ crlf @ lab_header_lines bye ''Via'' @ f @ t @ i @ q @ ''Content-Length: 0'' @ crlf @ crlf))))))"

text \<open>The ACK and the BYE.\<close>

definition lab_in_dialog :: "string \<Rightarrow> int \<Rightarrow> string \<Rightarrow> string \<Rightarrow> string \<Rightarrow> string \<Rightarrow> string" where
  "lab_in_dialog ip p call_id u meth seq =
     sip_request (meth @ '' sip:bob@example.com SIP/2.0'')
       [(''Via'', ''SIP/2.0/UDP '' @ ip @ '':'' @ dec_str p @ '';branch=z9hG4bK-'' @ u), (''Max-Forwards'', ''70''),
        (''From'', ''<sip:alice@example.com>;tag=alice-call''), (''To'', ''<sip:bob@example.com>;tag=bob-call''),
        (''Call-ID'', call_id), (''CSeq'', seq @ '' '' @ meth), (''Content-Length'', ''0'')]"

definition alice_packet :: string where
  "alice_packet = map char_of [0x80, 0, 0, 1, 0, 0, 0, 1, 0x12, 0x34, 0x56, 0x78 :: nat] @ ''docker-alice''"

definition bob_packet :: string where
  "bob_packet = map char_of [0x80, 0, 0, 2, 0, 0, 0, 2, 0x87, 0x65, 0x43, 0x21 :: nat] @ ''docker-bob''"

text \<open>\<open>media.sendto(packet, (MEDIA_HOST, port))\<close>: a port that is none raises.\<close>

definition send_media :: "string \<Rightarrow> int \<Rightarrow> lab_sent list \<times> 'a result \<Rightarrow> lab_sent list \<times> 'a result" where
  "send_media packet p k = (if 0 \<le> p \<and> p \<le> 65535 then say [To_media p packet] k else ([], Inl OverflowError))"

text \<open>The two uses of \<open>sdp_media_port\<close>: a port of the relay, and its address.\<close>

definition relayed :: "int \<Rightarrow> string \<Rightarrow> string \<Rightarrow> int result" where
  "relayed own what message =
     bindE (sdp_media_port message) (\<lambda>p.
       if p = own \<or> \<not> contains ''c=IN IP4 172.30.0.3'' message
       then Inl (AssertionError (''Madis did not rewrite the '' @ what @ '' for media'')) else Inr p)"

text \<open>The predicate of the last wait.\<close>

definition is_bye_ok :: "string \<Rightarrow> bool result" where
  "is_bye_ok message =
     bindE (lab_status message) (\<lambda>n. Inr (n = 200 \<and> starts_with ''2 BYE'' (lab_param (lab_headers message) ''cseq'')))"

text \<open>
  \<open>u1\<close> to \<open>u4\<close> are the identifiers made with \<open>uuid4().hex\<close>, \<open>pa\<close> and \<open>pb\<close> the ports of the media sockets, \<open>at_bob\<close> and
  \<open>at_alice\<close> what they receive.
\<close>

definition run_call ::
  "(string \<Rightarrow> string) \<Rightarrow> string \<Rightarrow> string \<Rightarrow> string \<Rightarrow> string \<Rightarrow> string \<Rightarrow> int \<Rightarrow> int \<Rightarrow> string result \<Rightarrow> string result
    \<Rightarrow> SipClient \<Rightarrow> SipClient \<Rightarrow> lab_sent list \<times> unit result" where
  "run_call md5 ip u1 u2 u3 u4 pa pb at_bob at_alice alice bob =
     (let call_id = ''call-'' @ take 12 u1; b = ''z9hG4bK-'' @ u2; invite = lab_invite ip (port alice) pa call_id b;
          cnonce = ''docker-ims-invite-cnonce''; nc = ''00000001''; uri = ''sip:bob@example.com''
      in send invite (
        attempt (client_receive (status_in [401]) alice) (\<lambda>(challenge, alice1).
        attempt (lab_value (lab_headers challenge) ''www-authenticate'') (\<lambda>h.
        attempt (lab_value (digest_params h) ''nonce'') (\<lambda>nonce.
        if \<not> is_ascii nonce then ([], Inl UnicodeEncodeError)
        else send (lab_authenticated invite b
               (authorization_of ''alice@example.com'' nonce uri (aka_response md5 ''alice'' ''xres-alice'' ''INVITE'' uri nonce nc cnonce) nc cnonce)) (
        attempt (client_receive (is_request ''INVITE'') bob) (\<lambda>(forwarded, bob1).
        attempt (relayed pa ''forwarded offer'' forwarded) (\<lambda>offer_port.
        attempt (lab_ringing forwarded) (\<lambda>ringing.
        respond bob1 ringing (
        attempt (client_receive (status_in [180]) alice1) (\<lambda>(_, alice2).
        attempt (lab_answer ip (port bob) pb forwarded) (\<lambda>ok.
        respond bob1 ok (
        attempt (client_receive (status_in [200]) alice2) (\<lambda>(accepted, alice3).
        attempt (relayed pb ''answer'' accepted) (\<lambda>answer_port.
        send_media alice_packet offer_port (
        attempt at_bob (\<lambda>received_by_bob.
        if received_by_bob \<noteq> alice_packet then ([], Inl (AssertionError ''Alice RTP did not reach Bob''))
        else send_media bob_packet answer_port (
        attempt at_alice (\<lambda>received_by_alice.
        if received_by_alice \<noteq> bob_packet then ([], Inl (AssertionError ''Bob RTP did not reach Alice''))
        else send (lab_in_dialog ip (port alice) call_id u3 ''ACK'' ''1'') (
        attempt (client_receive (is_request ''ACK'') bob1) (\<lambda>(_, bob2).
        send (lab_in_dialog ip (port alice) call_id u4 ''BYE'' ''2'') (
        attempt (client_receive (is_request ''BYE'') bob2) (\<lambda>(bye, bob3).
        attempt (lab_bye_ok bye) (\<lambda>bye_ok.
        respond bob3 bye_ok (
        attempt (client_receive is_bye_ok alice3) (\<lambda>_. ([], Inr ())))))))))))))))))))))))))))"

text \<open>\<open>main\<close>: two refusals, two registrations and the call. \<open>ids\<close> gives the identifiers in the order in which they are made.\<close>

definition lab_main ::
  "(string \<Rightarrow> string) \<Rightarrow> string \<Rightarrow> (nat \<Rightarrow> string) \<Rightarrow> int \<Rightarrow> int \<Rightarrow> string result \<Rightarrow> string result \<Rightarrow> SipClient \<Rightarrow> SipClient
    \<Rightarrow> lab_sent list \<times> unit result" where
  "lab_main md5 ip ids pa pb at_bob at_alice alice bob =
     andThen (expect_register_rejected ip (ids 0) (ids 1) ''missing'' alice) (\<lambda>a1.
     andThen (expect_register_rejected ip (ids 2) (ids 3) ''barred'' a1) (\<lambda>a2.
     andThen (register md5 ip (ids 4) (ids 5) (ids 6) ''alice'' ''xres-alice'' a2) (\<lambda>a3.
     andThen (register md5 ip (ids 7) (ids 8) (ids 9) ''bob'' ''xres-bob'' bob) (\<lambda>b1.
     run_call md5 ip (ids 10) (ids 11) (ids 12) (ids 13) pa pb at_bob at_alice a3 b1))))"

end
