(* ===== verification/Ims_Lab_Digest.thy ===== *)
theory Ims_Lab_Digest
  imports Ims_Lab
begin

section \<open>What the client of the container lab writes and reads\<close>

text \<open>
  The digest parameters that the client writes are the ones that it reads, the headers of a request are read back from its
  text, and a registration that passes has answered the challenge as the digest vectors of \<^verbatim>\<open>bench/auth_matrix.py\<close>
  do.
\<close>

subsection \<open>Digest parameters\<close>

definition param_text :: "string \<times> bool \<times> string \<Rightarrow> string" where
  "param_text p = (case p of (n, q, v) \<Rightarrow> n @ ''='' @ (if q then quoted v else v))"

definition param_ok :: "string \<times> bool \<times> string \<Rightarrow> bool" where
  "param_ok p \<longleftrightarrow> (case p of (n, q, v) \<Rightarrow>
     n \<noteq> [] \<and> is_alpha (hd n) \<and> list_all name_char n
     \<and> (if q then CHR 0x22 \<notin> set v else v \<noteq> [] \<and> list_all token_char v \<and> hd v \<noteq> CHR 0x22))"

lemma not_name_char: "\<not> name_char CHR ''=''" "\<not> name_char CHR '' ''" "\<not> name_char CHR '',''"
  by (simp_all add: name_char_def is_alpha_def is_digit_def)

lemma not_space: "\<not> is_space CHR ''=''" "\<not> is_space CHR 0x22" "is_space CHR '' ''" "\<not> is_space CHR '',''"
  by (simp_all add: is_space_def)

lemma token_not_space: "token_char c \<Longrightarrow> \<not> is_space c"
  by (simp add: token_char_def)

lemma name_not_space: "name_char c \<Longrightarrow> \<not> is_space c"
  by (auto simp: name_char_def is_alpha_def is_digit_def is_space_def)

lemma match_value_quoted: "CHR 0x22 \<notin> set v \<Longrightarrow> match_value (quoted v @ rest) = Some (v, rest)"
  by (simp add: match_value_def quoted_def dquote_def takeWhile_append dropWhile_append takeWhile_eq_all_conv dropWhile_eq_Nil_conv)

lemma match_value_token:
  assumes "v \<noteq> []" and "list_all token_char v" and "hd v \<noteq> CHR 0x22" and "rest = [] \<or> \<not> token_char (hd rest)"
  shows "match_value (v @ rest) = Some (v, rest)"
proof -
  have all: "\<And>c. c \<in> set v \<Longrightarrow> token_char c" using assms(2) by (simp add: list_all_iff)
  have "takeWhile token_char rest = [] \<and> dropWhile token_char rest = rest" using assms(4) by (cases rest) auto
  then have "takeWhile token_char (v @ rest) = v" "dropWhile token_char (v @ rest) = rest"
    using all by (simp_all add: takeWhile_append2 dropWhile_append2)
  then show ?thesis using assms(1,3) by (simp add: match_value_def)
qed

lemma match_param_text:
  assumes "param_ok (n, q, v)" and "rest = [] \<or> hd rest = CHR '',''"
  shows "match_param (param_text (n, q, v) @ rest) = Some ((n, v), rest)"
proof -
  obtain c m where n: "n = c # m" "is_alpha c" using assms(1) by (cases n) (auto simp: param_ok_def)
  have all: "\<And>c. c \<in> set n \<Longrightarrow> name_char c" using assms(1) by (simp add: param_ok_def list_all_iff)
  let ?v = "(if q then quoted v else v) @ rest"
  have whole: "param_text (n, q, v) @ rest = n @ CHR ''='' # ?v" by (simp add: param_text_def)
  have name: "takeWhile name_char (n @ CHR ''='' # ?v) = n" "dropWhile name_char (n @ CHR ''='' # ?v) = CHR ''='' # ?v"
    using all not_name_char by (simp_all add: takeWhile_append2 dropWhile_append2)
  have v: "dropWhile is_space ?v = ?v"
  proof (cases q)
    case True
    then show ?thesis using not_space by (simp add: quoted_def dquote_def)
  next
    case False
    then show ?thesis using assms(1) token_not_space by (cases v) (auto simp: param_ok_def)
  qed
  have m: "match_value ?v = Some (v, rest)"
  proof (cases q)
    case True
    then show ?thesis using assms(1) match_value_quoted by (simp add: param_ok_def)
  next
    case False
    have "rest = [] \<or> \<not> token_char (hd rest)" using assms(2) by (auto simp: token_char_def)
    then show ?thesis using False assms(1) match_value_token by (simp add: param_ok_def)
  qed
  show ?thesis
    unfolding whole match_param_def name using n v m not_space(1) by simp
qed

lemma params_of_text:
  "list_all param_ok ps \<Longrightarrow> params_of (join '', '' (map param_text ps)) = map (\<lambda>(n, q, v). (n, v)) ps"
proof (induction ps rule: induct_list012)
  case 1
  then show ?case by (simp add: params_of.simps match_param_def)
next
  case (2 p)
  obtain n q v where p: "p = (n, q, v)" by (cases p)
  then show ?case
    using 2 match_param_text [of n q v "[]"] by (simp add: params_of.simps [of "param_text _"] params_of.simps [of "[]"] match_param_def)
next
  case (3 p p' ps)
  obtain n q v where p: "p = (n, q, v)" by (cases p)
  let ?rest = "join '', '' (map param_text (p' # ps))"
  have "match_param (param_text p @ '', '' @ ?rest) = Some ((n, v), '', '' @ ?rest)"
    using match_param_text [of n q v "'', '' @ ?rest"] 3 by (simp add: p)
  then have "params_of (param_text p @ '', '' @ ?rest) = (n, v) # params_of ('', '' @ ?rest)"
    by (subst params_of.simps) simp
  moreover have "params_of ('', '' @ ?rest) = params_of ?rest"
    by (subst params_of.simps, simp add: match_param_def is_alpha_def, subst params_of.simps, simp add: match_param_def is_alpha_def)
  ultimately show ?case using 3 by (simp add: p)
qed

lemma params_of_scheme: "list_all name_char w \<Longrightarrow> s \<noteq> [] \<Longrightarrow> name_char (hd s) \<Longrightarrow> params_of (w @ '' '' @ s) = params_of s"
proof (induction w)
  case Nil
  then show ?case by (subst params_of.simps) (simp add: match_param_def is_alpha_def)
next
  case (Cons c w)
  have all: "\<And>x. x \<in> set (c # w) \<Longrightarrow> name_char x" using Cons.prems(1) by (auto simp: list_all_iff)
  have "dropWhile name_char ((c # w) @ '' '' @ s) = '' '' @ s"
    using all not_name_char by (subst dropWhile_append2) auto
  moreover have "dropWhile is_space ('' '' @ s) = s" using Cons.prems(2,3) name_not_space not_space by (cases s) auto
  moreover have "hd s \<noteq> CHR ''=''" using Cons.prems(3) not_name_char by metis
  ultimately have "match_param ((c # w) @ '' '' @ s) = None" using Cons.prems(2) by (cases s) (simp_all add: match_param_def)
  then have "params_of ((c # w) @ '' '' @ s) = params_of (w @ '' '' @ s)" by (subst params_of.simps) simp
  then show ?case using Cons by simp
qed

lemma update_new: "k \<notin> fst ` set acc \<Longrightarrow> AList.update k v acc = acc @ [(k, v)]"
  by (induction acc) auto

lemma update_distinct:
  "distinct (map (\<lambda>(n, v). lower n) ps @ map fst acc) \<Longrightarrow>
   foldl (\<lambda>result (name, v). AList.update (lower name) v result) acc ps = acc @ map (\<lambda>(n, v). (lower n, v)) ps"
proof (induction ps arbitrary: acc)
  case (Cons p ps)
  obtain n v where p: "p = (n, v)" by (cases p)
  have "lower n \<notin> fst ` set acc" using Cons.prems by (auto simp: p)
  then have "AList.update (lower n) v acc = acc @ [(lower n, v)]" by (rule update_new)
  then show ?case using Cons by (auto simp: p)
qed simp

definition authorization_params :: "string \<Rightarrow> string \<Rightarrow> string \<Rightarrow> string \<Rightarrow> string \<Rightarrow> string \<Rightarrow> (string \<times> bool \<times> string) list" where
  "authorization_params username nonce uri response nc cnonce =
     [(''username'', True, username), (''realm'', True, ''example.com''), (''nonce'', True, nonce), (''uri'', True, uri),
      (''response'', True, response), (''algorithm'', False, ''AKAv1-MD5''), (''qop'', False, ''auth''), (''nc'', False, nc),
      (''cnonce'', True, cnonce)]"

lemma authorization_text:
  "authorization_of username nonce uri response nc cnonce =
     ''Digest'' @ '' '' @ join '', '' (map param_text (authorization_params username nonce uri response nc cnonce))"
  by (simp add: authorization_of_def authorization_params_def param_text_def)

text \<open>The digest parameters that the lab client writes are the ones that its reader finds: reading an
  \<open>Authorization\<close> value gives back its nine parameters, in order and whatever the values, as long as no quoted value
  has a quote in it and the count is a token.\<close>

theorem digest_parameters_roundtrip:
  assumes "list_all (\<lambda>v. CHR 0x22 \<notin> set v) [username, nonce, uri, response, cnonce]"
    and "nc \<noteq> []" and "list_all token_char nc" and "hd nc \<noteq> CHR 0x22"
  shows "digest_params (authorization_of username nonce uri response nc cnonce) =
    [(''username'', username), (''realm'', ''example.com''), (''nonce'', nonce), (''uri'', uri), (''response'', response),
     (''algorithm'', ''AKAv1-MD5''), (''qop'', ''auth''), (''nc'', nc), (''cnonce'', cnonce)]"
proof -
  let ?ps = "authorization_params username nonce uri response nc cnonce"
  have names: "list_all (\<lambda>n. n \<noteq> [] \<and> is_alpha (hd n) \<and> list_all name_char n)
      [''username'', ''realm'', ''nonce'', ''uri'', ''response'', ''algorithm'', ''qop'', ''nc'', ''cnonce'']"
    by (simp add: name_char_def is_alpha_def)
  have tokens: "list_all token_char ''AKAv1-MD5''" "list_all token_char ''auth''"
    by (simp_all add: token_char_def is_space_def)
  have ok: "list_all param_ok ?ps"
    using assms names tokens by (simp add: authorization_params_def param_ok_def)
  have "params_of (authorization_of username nonce uri response nc cnonce) = params_of (join '', '' (map param_text ?ps))"
    unfolding authorization_text
    by (rule params_of_scheme) (simp_all add: name_char_def is_alpha_def authorization_params_def param_text_def)
  also have "\<dots> = map (\<lambda>(n, q, v). (n, v)) ?ps" by (rule params_of_text [OF ok])
  finally have p: "params_of (authorization_of username nonce uri response nc cnonce) = map (\<lambda>(n, q, v). (n, v)) ?ps" .
  have low: "map lower [''username'', ''realm'', ''nonce'', ''uri'', ''response'', ''algorithm'', ''qop'', ''nc'', ''cnonce''] =
      [''username'', ''realm'', ''nonce'', ''uri'', ''response'', ''algorithm'', ''qop'', ''nc'', ''cnonce'']"
    by (simp add: lower_def lower_char_def)
  show ?thesis
    unfolding digest_params_def p
    by (subst update_distinct) (use low in \<open>simp_all add: authorization_params_def\<close>)
qed

theorem digest_parameters_roundtrip_witness:
  "map_of (digest_params (authorization_of ''bob@example.com'' ''n=1, x'' ''sip:example.com'' ''f00'' ''00000001'' ''c''))
     ''nonce'' = Some ''n=1, x''"
proof -
  have "list_all token_char ''00000001''" by (simp add: token_char_def is_space_def)
  from digest_parameters_roundtrip [OF _ _ this, of "''bob@example.com''" "''n=1, x''" "''sip:example.com''" "''f00''" "''c''"]
  show ?thesis by simp
qed

subsection \<open>Headers\<close>

lemma starts_with_self [simp]: "starts_with w (w @ s)"
  by (simp add: starts_with_def)

lemma starts_with_Nil [simp]: "starts_with [] s"
  by (simp add: starts_with_def)

lemma starts_with_step [simp]: "starts_with (a # w) (c # s) \<longleftrightarrow> a = c \<and> starts_with w s" "\<not> starts_with (a # w) []"
  by (auto simp: starts_with_def)

lemma cr_lf [simp]: "cr \<noteq> lf" "lf \<noteq> cr"
  by (simp_all add: cr_def lf_def)

lemma split_blank_line: "no_crlf w \<Longrightarrow> split_blank (w @ crlf @ s) = (w @ fst (split_blank (crlf @ s)), snd (split_blank (crlf @ s)))"
proof (induction w rule: no_crlf.induct)
  case 1
  then show ?case by simp
next
  case (2 x)
  have "\<not> starts_with (crlf @ crlf) ([x] @ crlf @ s)" by (auto simp: crlf_def)
  then show ?case by (simp add: case_prod_unfold)
next
  case (3 x y w)
  then have "\<not> starts_with (crlf @ crlf) ((x # y # w) @ crlf @ s)" by (auto simp: crlf_def)
  moreover have "no_crlf (y # w)" using 3 by auto
  ultimately show ?case using 3 by (simp add: case_prod_unfold)
qed

lemma split_blank_next:
  assumes "no_crlf w" and "w \<noteq> []"
  shows "split_blank (crlf @ w @ crlf @ s) = (crlf @ fst (split_blank (w @ crlf @ s)), snd (split_blank (w @ crlf @ s)))"
proof -
  have "\<not> starts_with (crlf @ crlf) (crlf @ w @ crlf @ s)"
    using assms by (cases w; cases "tl w") (auto simp: crlf_def)
  moreover have "\<not> starts_with (crlf @ crlf) (lf # w @ crlf @ s)" by (simp add: crlf_def)
  ultimately show ?thesis by (simp add: crlf_def case_prod_unfold)
qed

lemma split_blank_lines:
  "list_all (\<lambda>w. no_crlf w \<and> w \<noteq> []) ws \<Longrightarrow> no_crlf w \<Longrightarrow>
   split_blank (join crlf (w # ws) @ crlf @ crlf @ body) = (join crlf (w # ws), Some body)"
proof (induction ws arbitrary: w)
  case Nil
  then show ?case using split_blank_line [of w "crlf @ body"] by (simp add: crlf_def numeral_3_eq_3)
next
  case (Cons v ws)
  let ?t = "join crlf (v # ws) @ crlf @ crlf @ body"
  obtain s where t: "?t = v @ crlf @ s" by (cases ws) auto
  have "split_blank (w @ crlf @ ?t) = (w @ crlf @ join crlf (v # ws), Some body)"
    using Cons split_blank_line [of w ?t] split_blank_next [of v s] by (simp add: t [symmetric])
  then show ?case by simp
qed

text \<open>A message with fields and a body, read by the client.\<close>

lemma lab_headers_message:
  assumes "no_crlf start" and "list_all field_ok fs"
  shows "split_blank (sip_request start fs @ body) = (join crlf (start # map labelled fs), Some body)"
    and "lab_headers (sip_request start fs @ body) =
      foldl (\<lambda>values f. AList.update (lower (fst f)) (strip (snd f)) values) [] fs"
proof -
  have lines: "list_all no_crlf (start # map labelled fs)"
    using message_lines_no_crlf [OF assms] by (simp add: message_lines_def)
  have full: "sip_request start fs @ body = join crlf (start # map labelled fs) @ crlf @ crlf @ body"
    using join_append [of "start # map labelled fs" "[[], []]" crlf] by (simp add: sip_request_def message_lines_def)
  have ne: "list_all (\<lambda>w. no_crlf w \<and> w \<noteq> []) (map labelled fs)"
    using lines by (auto simp: list_all_iff labelled_def)
  show split: "split_blank (sip_request start fs @ body) = (join crlf (start # map labelled fs), Some body)"
    unfolding full by (rule split_blank_lines [OF ne assms(1)])
  have "split_crlf (join crlf (start # map labelled fs)) = start # map labelled fs"
    by (rule split_crlf_join [OF _ lines]) simp
  then have "lab_headers (sip_request start fs @ body) =
      foldl (\<lambda>values line. if CHR '':'' \<in> set line then AList.update (lower (before_colon line)) (strip (after_colon line)) values else values)
        [] (map labelled fs)"
    by (simp add: lab_headers_def split)
  also have "\<dots> = foldl (\<lambda>values f. AList.update (lower (fst f)) (strip (snd f)) values) vs fs" if "vs = []" for vs
  proof -
    have "foldl (\<lambda>values line. if CHR '':'' \<in> set line then AList.update (lower (before_colon line)) (strip (after_colon line)) values else values)
        vs (map labelled fs) = foldl (\<lambda>values f. AList.update (lower (fst f)) (strip (snd f)) values) vs fs"
      using assms(2)
      by (induction fs arbitrary: vs) (simp_all add: str_header.labelled_parts strip_def)
    then show ?thesis using that by simp
  qed
  finally show "lab_headers (sip_request start fs @ body) =
      foldl (\<lambda>values f. AList.update (lower (fst f)) (strip (snd f)) values) [] fs"
    by simp
qed

end
