(* ===== verification/Ims_Lab_Call.thy ===== *)
theory Ims_Lab_Call
  imports Ims_Lab_Digest
begin

section \<open>Registrations and calls of the container lab\<close>

text \<open>
  What a registration and a call of \<^theory_text>\<open>Ims_Lab\<close> that pass have sent and required, and the sequence numbers of the
  call.
\<close>

subsection \<open>Waiting\<close>

lemma lab_receive_finds:
  "lab_receive P ds peer = Inr (m, peer', ds') \<Longrightarrow>
   P m = Inr True \<and> (\<exists>pre raw from. ds = pre @ (raw, from) # ds' \<and> m = decode_replace raw
     \<and> peer' = (if \<not> starts_with ''SIP/2.0'' m then Some from else peer)
     \<and> list_all (\<lambda>d. P (decode_replace (fst d)) = Inr False) pre)"
proof (induction P ds peer rule: lab_receive.induct)
  case (2 P raw src ds peer)
  show ?case
  proof (cases "P (decode_replace raw)")
    case (Inr b)
    show ?thesis
    proof (cases b)
      case True
      then show ?thesis using 2 Inr by (auto simp: Let_def intro!: exI [of _ "[]"])
    next
      case False
      have rest: "lab_receive P ds peer = Inr (m, peer', ds')" using "2.prems" Inr False by (simp add: Let_def)
      have fresh: "decode_replace raw = decode_replace raw" by simp
      have "\<not> b" using False by simp
      then obtain pre r f where "P m = Inr True" "ds = pre @ (r, f) # ds'" "m = decode_replace r"
          "peer' = (if \<not> starts_with ''SIP/2.0'' m then Some f else peer)" "list_all (\<lambda>d. P (decode_replace (fst d)) = Inr False) pre"
        using "2.IH" [OF fresh Inr _ rest] by auto
      then show ?thesis using Inr False by (intro conjI exI [of _ "(raw, src) # pre"] exI [of _ r] exI [of _ f]) auto
    qed
  qed (use 2 in \<open>simp add: Let_def\<close>)
qed simp

lemma client_receive_finds:
  assumes "client_receive P c = Inr (m, c')"
  shows "P m = Inr True \<and> (\<exists>pre raw from. inbox c = pre @ (raw, from) # inbox c' \<and> m = decode_replace raw
     \<and> last_peer c' = (if \<not> starts_with ''SIP/2.0'' m then Some from else last_peer c)
     \<and> list_all (\<lambda>d. P (decode_replace (fst d)) = Inr False) pre) \<and> port c' = port c"
proof -
  obtain peer ds where r: "lab_receive P (inbox c) (last_peer c) = Inr (m, peer, ds)" "c' = c\<lparr>last_peer := peer, inbox := ds\<rparr>"
    using assms by (cases "lab_receive P (inbox c) (last_peer c)") (auto simp: client_receive_def)
  show ?thesis using lab_receive_finds [OF r(1)] r(2) by auto
qed

subsection \<open>Registration\<close>

lemma send_Inr: "send m k = (out, Inr y) \<longleftrightarrow> is_ascii m \<and> (\<exists>rest. out = To_proxy m # rest \<and> k = (rest, Inr y))"
  by (auto simp: send_def say_eq)

lemma respond_Inr:
  "respond c m k = (out, Inr y) \<longleftrightarrow> is_ascii m \<and> (\<exists>peer rest. last_peer c = Some peer \<and> out = To_peer peer m # rest \<and> k = (rest, Inr y))"
  by (auto simp: respond_def say_eq split: option.splits)

lemma send_media_Inr:
  "send_media m p k = (out, Inr y) \<longleftrightarrow> 0 \<le> p \<and> p \<le> 65535 \<and> (\<exists>rest. out = To_media p m # rest \<and> k = (rest, Inr y))"
  by (auto simp: send_media_def say_eq)

lemma refuse_Inr: "(if b then ([], Inl e) else k) = (out, Inr y) \<longleftrightarrow> \<not> b \<and> k = (out, Inr y)"
  by simp

lemmas script_Inr = send_Inr respond_Inr send_media_Inr attempt_Inr refuse_Inr say_eq

lemma aka_is_qop:
  "aka_response md5 user xres meth uri nonce nc cnonce =
   qop_response md5 (md5 (user @ ''@example.com:example.com:'' @ xres)) meth uri nonce nc cnonce ''auth''"
  by (simp add: aka_response_def qop_response_def Let_def)

text \<open>What a challenge asks for, if the client takes it: the nonce.\<close>

definition aka_challenge :: "string \<Rightarrow> string option" where
  "aka_challenge message =
     (case map_of (lab_headers message) ''www-authenticate'' of
        None \<Rightarrow> None
      | Some h \<Rightarrow>
          if lower (lab_param (digest_params h) ''algorithm'') = ''akav1-md5'' \<and> map_of (digest_params h) ''qop'' = Some ''auth''
          then map_of (digest_params h) ''nonce'' else None)"

text \<open>C36: a registration of the lab that passes was challenged and answered the challenge. The first 401 or 407 that came was a
  401 with an AKAv1-MD5 challenge for \<open>auth\<close> and a nonce, a 200 came later, and exactly two requests were sent: a REGISTER without
  credentials, and one with the next number whose \<open>Authorization\<close> names that nonce and has as its response the one that
  the reference of the digest vectors computes from the user's secret.\<close>

theorem registration_answers_challenge:
  assumes "register md5 ip u1 u2 u3 user xres c = (out, Inr c')"
  shows "\<exists>pre raw from mid okay rest nonce a.
    inbox c = pre @ (raw, from) # mid @ okay # rest
    \<and> list_all (\<lambda>d. status_in [401, 407] (decode_replace (fst d)) = Inr False) pre
    \<and> lab_status (decode_replace raw) = Inr 401 \<and> aka_challenge (decode_replace raw) = Some nonce
    \<and> lab_status (decode_replace (fst okay)) = Inr 200
    \<and> a = authorization_of (user @ ''@example.com'') nonce ''sip:example.com''
        (qop_response md5 (md5 (user @ ''@example.com:example.com:'' @ xres)) ''REGISTER'' ''sip:example.com'' nonce
          ''00000001'' ''docker-ims-cnonce'' ''auth'') ''00000001'' ''docker-ims-cnonce''
    \<and> out = [To_proxy (make_register ip (port c) user (''register-'' @ user @ ''-'' @ take 12 u1) 1 (''z9hG4bK-'' @ u2) []),
             To_proxy (make_register ip (port c) user (''register-'' @ user @ ''-'' @ take 12 u1) 2 (''z9hG4bK-'' @ u3) a)]
    \<and> inbox c' = rest"
proof -
  note run = assms [unfolded register_def Let_def script_Inr]
  obtain challenge c1 h nonce where k: "client_receive (status_in [401, 407]) c = Inr (challenge, c1)"
      "lab_status challenge = Inr 401" "lab_value (lab_headers challenge) ''www-authenticate'' = Inr h"
      "lower (lab_param (digest_params h) ''algorithm'') = ''akav1-md5''" "map_of (digest_params h) ''qop'' = Some ''auth''"
      "lab_value (digest_params h) ''nonce'' = Inr nonce"
    using run by (auto simp: script_Inr)
  obtain accepted where a: "client_receive (status_in [200]) c1 = Inr (accepted, c')" "lab_status accepted = Inr 200"
    using run k by (auto simp: script_Inr)
  have out: "out = [To_proxy (make_register ip (port c) user (''register-'' @ user @ ''-'' @ take 12 u1) 1 (''z9hG4bK-'' @ u2) []),
      To_proxy (make_register ip (port c) user (''register-'' @ user @ ''-'' @ take 12 u1) 2 (''z9hG4bK-'' @ u3)
        (authorization_of (user @ ''@example.com'') nonce ''sip:example.com''
          (aka_response md5 user xres ''REGISTER'' ''sip:example.com'' nonce ''00000001'' ''docker-ims-cnonce'') ''00000001'' ''docker-ims-cnonce''))]"
    using run k a by (auto simp: script_Inr)
  have "aka_challenge challenge = Some nonce"
    using k by (auto simp: aka_challenge_def lab_value_def split: option.splits)
  moreover obtain pre raw from' where p: "inbox c = pre @ (raw, from') # inbox c1" "challenge = decode_replace raw"
      "list_all (\<lambda>d. status_in [401, 407] (decode_replace (fst d)) = Inr False) pre"
    using client_receive_finds [OF k(1)] by auto
  moreover obtain mid raw2 from2 where q: "inbox c1 = mid @ (raw2, from2) # inbox c'" "accepted = decode_replace raw2"
    using client_receive_finds [OF a(1)] by auto
  ultimately show ?thesis
    using k(2) a(2) out unfolding aka_is_qop
    by (intro exI [of _ pre] exI [of _ raw] exI [of _ from'] exI [of _ mid] exI [of _ "(raw2, from2)"] exI [of _ "inbox c'"]
        exI [of _ nonce] exI conjI) (assumption | simp)+
qed

text \<open>A challenge to try it on.\<close>

definition lab_challenge :: string where
  "lab_challenge = sip_request ''SIP/2.0 401 Unauthorized''
     [(''CSeq'', ''1 REGISTER''), (''WWW-Authenticate'', ''Digest nonce='' @ quoted ''n0'' @ '', algorithm=AKAv1-MD5, qop=auth'')]"

lemma lab_challenge_reads:
  "lab_status lab_challenge = Inr 401" "lab_status ''SIP/2.0 200 OK'' = Inr 200" "decode_replace lab_challenge = lab_challenge"
  "decode_replace ''SIP/2.0 200 OK'' = ''SIP/2.0 200 OK''"
  "map_of (lab_headers lab_challenge) ''www-authenticate'' = Some (''Digest nonce='' @ quoted ''n0'' @ '', algorithm=AKAv1-MD5, qop=auth'')"
  "digest_params (''Digest nonce='' @ quoted ''n0'' @ '', algorithm=AKAv1-MD5, qop=auth'') =
     [(''nonce'', ''n0''), (''algorithm'', ''AKAv1-MD5''), (''qop'', ''auth'')]"
  "starts_with ''SIP/2.0'' lab_challenge"
  by code_simp+

lemma is_ascii_dec_str: "is_ascii (dec_str n)"
  using dec_str_chars [of n] by (auto simp: is_ascii_def list_all_iff is_digit_def)

lemma is_ascii_join: "list_all is_ascii ws \<Longrightarrow> is_ascii (join crlf ws)"
  by (induction ws rule: induct_list012) (simp_all add: crlf_def cr_def lf_def)

lemma is_ascii_sip_request:
  assumes "is_ascii start" and "list_all (\<lambda>f. is_ascii (fst f) \<and> is_ascii (snd f)) fs"
  shows "is_ascii (sip_request start fs)"
proof -
  have "is_ascii (labelled f)" if "f \<in> set fs" for f using assms(2) that by (simp add: labelled_def list_all_iff)
  then show ?thesis
    unfolding sip_request_def using assms(1) by (intro is_ascii_join) (auto simp: message_lines_def list_all_iff)
qed

lemma is_ascii_make_register:
  assumes "is_ascii ip" and "is_ascii user" and "is_ascii call_id" and "is_ascii branch" and "is_ascii auth"
  shows "is_ascii (make_register ip p user call_id cseq branch auth)"
  unfolding make_register_def
  by (rule is_ascii_sip_request) (use assms in \<open>simp_all add: is_ascii_dec_str\<close>)

theorem registration_answers_challenge_witness:
  "\<exists>out c'. register (\<lambda>s. ''f0'') ''10.0.0.1'' ''aa'' ''bb'' ''cc'' ''al'' ''s''
      (new_client 5060 [(lab_challenge, (''10.0.0.2'', 5060)), (''SIP/2.0 200 OK'', (''10.0.0.2'', 5060))]) = (out, Inr c')
    \<and> length out = 2 \<and> inbox c' = []"
proof -
  let ?c = "new_client 5060 [(lab_challenge, (''10.0.0.2'', 5060)), (''SIP/2.0 200 OK'', (''10.0.0.2'', 5060))]"
  have low: "lower ''AKAv1-MD5'' = ''akav1-md5''" by code_simp
  have auth: "is_ascii (authorization_of ''al@example.com'' ''n0'' ''sip:example.com'' ''f0'' ''00000001'' ''docker-ims-cnonce'')"
    by (simp add: authorization_of_def quoted_def dquote_def)
  have aka: "aka_response (\<lambda>s. ''f0'') ''al'' ''s'' m u ''n0'' nc cn = ''f0''" for m u nc cn
    by (simp add: aka_response_def Let_def)
  have first: "client_receive (status_in [401, 407]) ?c = Inr (lab_challenge, ?c\<lparr>inbox := tl (inbox ?c)\<rparr>)"
    using lab_challenge_reads by (simp add: client_receive_def new_client_def status_in_def Let_def)
  have second: "client_receive (status_in [200]) (?c\<lparr>inbox := tl (inbox ?c)\<rparr>) = Inr (''SIP/2.0 200 OK'', ?c\<lparr>inbox := []\<rparr>)"
    using lab_challenge_reads by (simp add: client_receive_def new_client_def status_in_def Let_def)
  have "port ?c = 5060" by (simp add: new_client_def)
  then have "\<exists>out c'. register (\<lambda>s. ''f0'') ''10.0.0.1'' ''aa'' ''bb'' ''cc'' ''al'' ''s'' ?c = (out, Inr c')"
    using lab_challenge_reads low auth
    by (simp add: is_ascii_make_register register_def Let_def send_def attempt_def say_def first second lab_value_def lab_param_def aka)
  then obtain out c' where run: "register (\<lambda>s. ''f0'') ''10.0.0.1'' ''aa'' ''bb'' ''cc'' ''al'' ''s'' ?c = (out, Inr c')" by blast
  have "length (inbox ?c) = 2" by (simp add: new_client_def)
  with registration_answers_challenge [OF run] have "length out = 2 \<and> inbox c' = []" by auto
  with run show ?thesis by blast
qed

subsection \<open>The INVITE with credentials\<close>

text \<open>Texts in which none of the replaced pieces can begin: addresses, numbers and hexadecimal identifiers.\<close>

definition hexish :: "string \<Rightarrow> bool" where
  "hexish s \<longleftrightarrow> list_all (\<lambda>c. is_digit c \<or> c \<in> set ''abcdef.:-'') s"

lemma replace_all_Cons:
  "old \<noteq> [] \<Longrightarrow> replace_all old new (c # s) =
     (if starts_with old (c # s) then new @ replace_all old new (drop (length old) (c # s)) else c # replace_all old new s)"
  by (simp add: replace_all.simps [of old new "c # s"])

lemma replace_all_Nil [simp]: "replace_all old new [] = []"
  by (simp add: replace_all.simps)

lemma replace_all_hit: "old \<noteq> [] \<Longrightarrow> replace_all old new (old @ s) = new @ replace_all old new s"
  by (simp add: replace_all.simps [of old new "old @ s"])

lemma replace_all_skip: "y \<notin> set p \<Longrightarrow> s = [] \<or> hd s \<noteq> y \<Longrightarrow> replace_all (x # y # w) new (p @ s) = p @ replace_all (x # y # w) new s"
proof (induction p)
  case (Cons c p)
  have "\<not> starts_with (x # y # w) (c # p @ s)" using Cons.prems by (cases p; cases s) auto
  then have "replace_all (x # y # w) new (c # p @ s) = c # replace_all (x # y # w) new (p @ s)"
    by (simp add: replace_all_Cons del: starts_with_step)
  then show ?case using Cons by simp
qed simp

lemma hexish_dec_str: "hexish (dec_str n)"
  using dec_str_chars [of n] by (auto simp: hexish_def list_all_iff)

lemma hexish_dec_nat: "hexish (dec_nat k)"
  using hexish_dec_str [of "int k"] by (simp add: dec_str_def)

lemma hexish_absent: "hexish s \<Longrightarrow> CHR ''r'' \<notin> set s" "hexish s \<Longrightarrow> CHR ''S'' \<notin> set s" "hexish s \<Longrightarrow> CHR ''o'' \<notin> set s"
  by (auto simp: hexish_def list_all_iff is_digit_def)

text \<open>No occurrence of \<open>old\<close> begins in \<open>A\<close>, whatever follows.\<close>

fun clear :: "string \<Rightarrow> string \<Rightarrow> bool" where
  "clear old [] = True"
| "clear old (c # A) \<longleftrightarrow> take (length (c # A)) old \<noteq> take (length old) (c # A) \<and> clear old A"

lemma clear_skip: "clear old A \<Longrightarrow> replace_all (old @ w) new (A @ s) = A @ replace_all (old @ w) new s"
proof (induction A)
  case (Cons c A)
  have "\<not> starts_with (old @ w) (c # A @ s)"
  proof
    assume "starts_with (old @ w) (c # A @ s)"
    then obtain r where "(c # A) @ s = old @ w @ r" by (auto simp: starts_with_iff)
    then have "take (length (c # A)) old = take (length old) (c # A)"
      by (metis (no_types, lifting) append_eq_append_conv_if append_take_drop_id take_all_iff take_append nat_le_linear append_eq_conv_conj)
    then show False using Cons.prems by simp
  qed
  moreover have "old @ w \<noteq> []" using Cons.prems by (cases old) auto
  ultimately have "replace_all (old @ w) new (c # A @ s) = c # replace_all (old @ w) new (A @ s)"
    by (simp add: replace_all_Cons del: starts_with_step)
  then show ?case using Cons by simp
qed simp

lemma skip_hexish:
  "hexish p \<Longrightarrow> s = [] \<or> hd s \<noteq> CHR ''r'' \<Longrightarrow> replace_all (''branch='' @ w) new (p @ s) = p @ replace_all (''branch='' @ w) new s"
  "hexish p \<Longrightarrow> s = [] \<or> hd s \<noteq> CHR ''S'' \<Longrightarrow> replace_all (''CSeq: 1 INVITE'' @ w) new (p @ s) = p @ replace_all (''CSeq: 1 INVITE'' @ w) new s"
  "hexish p \<Longrightarrow> s = [] \<or> hd s \<noteq> CHR ''o'' \<Longrightarrow> replace_all (''Content-Type'' @ w) new (p @ s) = p @ replace_all (''Content-Type'' @ w) new s"
  using replace_all_skip [OF hexish_absent(1)] replace_all_skip [OF hexish_absent(2)] replace_all_skip [OF hexish_absent(3)]
  by simp_all


definition invite_fields :: "string \<Rightarrow> int \<Rightarrow> string \<Rightarrow> string \<Rightarrow> string \<Rightarrow> (string \<times> string) list \<Rightarrow> nat \<Rightarrow> (string \<times> string) list" where
  "invite_fields ip p call_id b n auth len =
     [(''Via'', ''SIP/2.0/UDP '' @ ip @ '':'' @ dec_str p @ '';branch='' @ b), (''Max-Forwards'', ''70''),
      (''From'', ''<sip:alice@example.com>;tag=alice-call''), (''To'', ''<sip:bob@example.com>''), (''Call-ID'', call_id),
      (''CSeq'', n @ '' INVITE''), (''Contact'', ''<sip:alice@'' @ ip @ '':'' @ dec_str p @ ''>'')] @ auth
     @ [(''Content-Type'', ''application/sdp''), (''Content-Length'', dec_nat len)]"

definition invite_text :: "string \<Rightarrow> int \<Rightarrow> string \<Rightarrow> string \<Rightarrow> string \<Rightarrow> (string \<times> string) list \<Rightarrow> int \<Rightarrow> string" where
  "invite_text ip p call_id b n auth m =
     sip_request ''INVITE sip:bob@example.com SIP/2.0'' (invite_fields ip p call_id b n auth (length (lab_sdp ip ''1'' m))) @ lab_sdp ip ''1'' m"

lemma lab_invite_text: "lab_invite ip p m call_id b = invite_text ip p call_id b ''1'' [] m"
  by (simp add: lab_invite_def invite_text_def invite_fields_def Let_def)

text \<open>The INVITE in pieces: \<open>b\<close> follows the start of the branch, \<open>cs\<close> is the line of its number and \<open>auth\<close> what stands before
  the content type.\<close>

definition piece_via :: string where "piece_via = ''INVITE sip:bob@example.com SIP/2.0'' @ crlf @ ''Via: SIP/2.0/UDP ''"
definition piece_ids :: string where
  "piece_ids = crlf @ ''Max-Forwards: 70'' @ crlf @ ''From: <sip:alice@example.com>;tag=alice-call'' @ crlf @ ''To: <sip:bob@example.com>'' @ crlf @ ''Call-ID: call-''"
definition piece_contact :: string where "piece_contact = ''Contact: <sip:alice@''"
definition piece_end :: string where "piece_end = ''>'' @ crlf"
definition piece_type :: string where "piece_type = ''Content-Type: application/sdp'' @ crlf"
definition piece_length :: string where "piece_length = ''Content-Length: ''"
definition piece_origin :: string where "piece_origin = crlf @ crlf @ ''v=0'' @ crlf @ ''o=- 1 1 IN IP4 ''"
definition piece_session :: string where "piece_session = crlf @ ''s=-'' @ crlf @ ''c=IN IP4 ''"
definition piece_media :: string where "piece_media = crlf @ ''t=0 0'' @ crlf @ ''m=audio ''"
definition piece_last :: string where "piece_last = '' RTP/AVP 0'' @ crlf"

definition invite_pieces :: "string \<Rightarrow> int \<Rightarrow> string \<Rightarrow> string \<Rightarrow> string \<Rightarrow> string \<Rightarrow> nat \<Rightarrow> int \<Rightarrow> string" where
  "invite_pieces ip p h b cs auth len m =
     piece_via @ ip @ '':'' @ dec_str p @ '';'' @ (''branch='' @ ''z9hG4bK-'' @ b) @ piece_ids @ h @ crlf @ cs @ piece_contact @ ip
       @ '':'' @ dec_str p @ piece_end @ auth @ piece_type @ piece_length @ dec_nat len @ piece_origin @ ip @ piece_session @ ip
       @ piece_media @ dec_str m @ piece_last @ []"

lemmas piece_defs = piece_via_def piece_ids_def piece_contact_def piece_end_def piece_type_def piece_length_def piece_origin_def
  piece_session_def piece_media_def piece_last_def

definition number_line :: "string \<Rightarrow> string" where "number_line n = ''CSeq: '' @ n @ '' INVITE'' @ crlf"

lemma invite_text_pieces:
  "invite_text ip p (''call-'' @ h) (''z9hG4bK-'' @ b) n [] m =
     invite_pieces ip p h b (number_line n) [] (length (lab_sdp ip ''1'' m)) m"
  "invite_text ip p (''call-'' @ h) (''z9hG4bK-'' @ b) n [(''Authorization'', a)] m =
     invite_pieces ip p h b (number_line n) (''Authorization: '' @ a @ crlf) (length (lab_sdp ip ''1'' m)) m"
  unfolding invite_text_def invite_fields_def invite_pieces_def piece_defs number_line_def
  by (simp_all add: sip_request_def message_lines_def labelled_def lab_sdp_def)

lemma clear_branch:
  "clear ''branch='' piece_via"
  "clear ''branch='' '':''"
  "clear ''branch='' '';''"
  "clear ''branch='' piece_ids"
  "clear ''branch='' crlf"
  "clear ''branch='' piece_contact"
  "clear ''branch='' piece_end"
  "clear ''branch='' piece_length"
  "clear ''branch='' piece_origin"
  "clear ''branch='' piece_session"
  "clear ''branch='' piece_media"
  "clear ''branch='' piece_last"
  "clear ''branch='' piece_type"
  "clear ''branch='' (number_line ''1'')"
  by code_simp+

lemma clear_number:
  "clear ''CSeq: 1 INVITE'' piece_via"
  "clear ''CSeq: 1 INVITE'' '':''"
  "clear ''CSeq: 1 INVITE'' '';''"
  "clear ''CSeq: 1 INVITE'' piece_ids"
  "clear ''CSeq: 1 INVITE'' crlf"
  "clear ''CSeq: 1 INVITE'' piece_contact"
  "clear ''CSeq: 1 INVITE'' piece_end"
  "clear ''CSeq: 1 INVITE'' piece_length"
  "clear ''CSeq: 1 INVITE'' piece_origin"
  "clear ''CSeq: 1 INVITE'' piece_session"
  "clear ''CSeq: 1 INVITE'' piece_media"
  "clear ''CSeq: 1 INVITE'' piece_last"
  "clear ''CSeq: 1 INVITE'' piece_type"
  "clear ''CSeq: 1 INVITE'' ''branch=''"
  "clear ''CSeq: 1 INVITE'' ''z9hG4bK-''"
  "clear ''CSeq: 1 INVITE'' ''-authenticated''"
  by code_simp+

lemma clear_type:
  "clear ''Content-Type'' piece_via"
  "clear ''Content-Type'' '':''"
  "clear ''Content-Type'' '';''"
  "clear ''Content-Type'' piece_ids"
  "clear ''Content-Type'' crlf"
  "clear ''Content-Type'' piece_contact"
  "clear ''Content-Type'' piece_end"
  "clear ''Content-Type'' piece_length"
  "clear ''Content-Type'' piece_origin"
  "clear ''Content-Type'' piece_session"
  "clear ''Content-Type'' piece_media"
  "clear ''Content-Type'' piece_last"
  "clear ''Content-Type'' (number_line ''2'')"
  "clear ''Content-Type'' ''branch=''"
  "clear ''Content-Type'' ''z9hG4bK-''"
  "clear ''Content-Type'' ''-authenticated''"
  by code_simp+

definition follower :: "string \<Rightarrow> bool" where
  "follower F \<longleftrightarrow> F \<noteq> [] \<and> hd F \<notin> set ''rSo''"

lemma followers:
  "follower crlf" "follower '':''" "follower '';''" "follower piece_ids" "follower piece_end" "follower piece_origin"
  "follower piece_session" "follower piece_media" "follower piece_last" "follower ''-authenticated''"
  by code_simp+

lemma skip_then:
  assumes "hexish p" and "follower F"
  shows "replace_all (''branch='' @ w) new (p @ F @ s) = p @ replace_all (''branch='' @ w) new (F @ s)"
    and "replace_all (''CSeq: 1 INVITE'' @ w) new (p @ F @ s) = p @ replace_all (''CSeq: 1 INVITE'' @ w) new (F @ s)"
    and "replace_all (''Content-Type'' @ w) new (p @ F @ s) = p @ replace_all (''Content-Type'' @ w) new (F @ s)"
  by (intro skip_hexish assms(1), use assms(2) in \<open>simp add: follower_def\<close>)+

lemma replace_hits:
  "a \<noteq> [] \<Longrightarrow> replace_all (a @ b) new (a @ b @ s) = new @ replace_all (a @ b) new s"
  "a \<noteq> [] \<Longrightarrow> replace_all (a @ b @ c) new (a @ b @ c @ s) = new @ replace_all (a @ b @ c) new s"
  using replace_all_hit [of "a @ b" new s] replace_all_hit [of "a @ b @ c" new s] by simp_all

lemmas replace_rules = skip_then followers hexish_dec_str hexish_dec_nat replace_all_Nil append_assoc append_Nil replace_hits list.distinct simp_thms

lemma replace_branch:
  assumes "hexish ip" and "hexish u" and "hexish h"
  shows "replace_all (''branch='' @ ''z9hG4bK-'' @ u) (''branch='' @ ''z9hG4bK-'' @ u @ ''-authenticated'')
      (invite_pieces ip p h u (number_line ''1'') [] len m) =
    invite_pieces ip p h (u @ ''-authenticated'') (number_line ''1'') [] len m"
  unfolding invite_pieces_def
  by (simp only: assms clear_branch [THEN clear_skip] replace_rules)

lemma replace_number:
  assumes "hexish ip" and "hexish u" and "hexish h"
  shows "replace_all (''CSeq: 1 INVITE'' @ crlf) new
      (invite_pieces ip p h (u @ ''-authenticated'') (''CSeq: 1 INVITE'' @ crlf) [] len m) =
    invite_pieces ip p h (u @ ''-authenticated'') new [] len m"
  unfolding invite_pieces_def
  by (simp only: assms clear_number [THEN clear_skip] replace_rules)

lemma replace_type:
  assumes "hexish ip" and "hexish u" and "hexish h"
  shows "replace_all (''Content-Type: application/sdp'' @ crlf) (auth @ ''Content-Type: application/sdp'' @ crlf)
      (invite_pieces ip p h (u @ ''-authenticated'') (number_line ''2'') [] len m) =
    invite_pieces ip p h (u @ ''-authenticated'') (number_line ''2'') auth len m"
proof -
  have split: "''Content-Type: application/sdp'' = ''Content-Type'' @ '': application/sdp''" by simp
  show ?thesis
    unfolding invite_pieces_def piece_type_def split
    by (simp only: assms clear_type [THEN clear_skip] replace_rules)
qed

text \<open>So what is sent again is the INVITE with another branch, the next number and the credentials.\<close>

lemma lab_authenticated_text:
  assumes "hexish ip" and "hexish u" and "hexish h"
  shows "lab_authenticated (lab_invite ip p m (''call-'' @ h) (''z9hG4bK-'' @ u)) (''z9hG4bK-'' @ u) a =
    invite_text ip p (''call-'' @ h) (''z9hG4bK-'' @ u @ ''-authenticated'') ''2'' [(''Authorization'', a)] m"
proof -
  have n: "number_line ''1'' = ''CSeq: 1 INVITE'' @ crlf" "number_line ''2'' = ''CSeq: 2 INVITE'' @ crlf" by (simp_all add: number_line_def)
  note r = replace_branch [OF assms] replace_number [OF assms] replace_type [OF assms, of "''Authorization: '' @ a @ crlf", unfolded append_assoc]
  show ?thesis
    by (simp only: lab_authenticated_def lab_invite_text invite_text_pieces append_assoc r [unfolded n] n)
qed

subsection \<open>The call\<close>

lemma client_receive_peer:
  assumes "client_receive P c = Inr (m, c')"
  shows "P m = Inr True" "set (inbox c') \<subseteq> set (inbox c)"
    "last_peer c' = Some peer \<Longrightarrow> \<not> starts_with ''SIP/2.0'' m \<Longrightarrow> (m, peer) \<in> apfst decode_replace ` set (inbox c)"
  using client_receive_finds [OF assms] by (auto simp: image_iff intro!: bexI)

lemma relayed_Inr: "relayed own what m = Inr p \<longleftrightarrow> sdp_media_port m = Inr p \<and> p \<noteq> own \<and> contains ''c=IN IP4 172.30.0.3'' m"
  by (cases "sdp_media_port m") (auto simp: relayed_def)


text \<open>The messages of a call that passes, made as short as they can be.\<close>

definition lab_forwarded :: string where
  "lab_forwarded = join crlf [''INVITE x'', ''From: f'', ''Call-ID: i'', ''CSeq: q'', [], ''c=IN IP4 172.30.0.3'', ''m=audio 4000'']"

definition lab_accepted :: string where
  "lab_accepted = join crlf [''SIP/2.0 200 OK'', [], ''c=IN IP4 172.30.0.3'', ''m=audio 4002'']"

definition lab_bye :: string where
  "lab_bye = join crlf [''BYE x'', ''From: f'', ''To: t'', ''Call-ID: i'', ''CSeq: q'']"

definition lab_bye_answer :: string where
  "lab_bye_answer = join crlf [''SIP/2.0 200 OK'', ''CSeq: 2 BYE'']"

lemma lab_messages:
  "sdp_media_port lab_forwarded = Inr 4000" "sdp_media_port lab_accepted = Inr 4002"
  "contains ''c=IN IP4 172.30.0.3'' lab_forwarded" "contains ''c=IN IP4 172.30.0.3'' lab_accepted"
  "is_bye_ok lab_bye_answer = Inr True" "lab_status lab_accepted = Inr 200" "lab_status ''SIP/2.0 180 R'' = Inr 180"
  "map_of (lab_headers lab_forwarded) ''from'' = Some ''f''" "map_of (lab_headers lab_forwarded) ''call-id'' = Some ''i''"
  "map_of (lab_headers lab_forwarded) ''cseq'' = Some ''q''" "lab_header_lines lab_forwarded ''Via'' = []"
  "starts_with ''INVITE '' lab_forwarded" "starts_with ''BYE '' lab_bye"
  "decode_replace lab_forwarded = lab_forwarded" "decode_replace lab_accepted = lab_accepted" "decode_replace lab_bye = lab_bye"
  "decode_replace lab_bye_answer = lab_bye_answer" "decode_replace ''SIP/2.0 180 R'' = ''SIP/2.0 180 R''" "decode_replace ''ACK x'' = ''ACK x''"
  "lower ''from'' = ''from''" "lower ''call-id'' = ''call-id''" "lower ''cseq'' = ''cseq''"
  by code_simp+

lemma lab_starts:
  "starts_with ''SIP/2.0'' lab_accepted" "starts_with ''SIP/2.0'' lab_bye_answer" "\<not> starts_with ''SIP/2.0'' lab_forwarded"
  "\<not> starts_with ''SIP/2.0'' lab_bye"
  by (simp_all add: lab_accepted_def lab_bye_answer_def lab_forwarded_def lab_bye_def)

lemma lab_bye_ok_ascii: "case lab_bye_ok lab_bye of Inr m \<Rightarrow> is_ascii m | Inl _ \<Rightarrow> False"
  by code_simp

lemma is_ascii_sdp: "is_ascii ip \<Longrightarrow> is_ascii n \<Longrightarrow> is_ascii (lab_sdp ip n m)"
  unfolding lab_sdp_def by (rule is_ascii_join) (simp add: is_ascii_dec_str)

lemma is_ascii_dec_nat: "is_ascii (dec_nat n)"
  using is_ascii_dec_str [of "int n"] by (simp add: dec_str_def)

lemma is_ascii_crlf: "is_ascii crlf"
  by (simp add: crlf_def cr_def lf_def)

lemma lab_responses_ascii:
  "\<exists>m. lab_ringing lab_forwarded = Inr m \<and> is_ascii m" "\<exists>m. lab_answer ''10.0.0.1'' p pb lab_forwarded = Inr m \<and> is_ascii m"
  "\<exists>m. lab_bye_ok lab_bye = Inr m \<and> is_ascii m"
  using lab_bye_ok_ascii
  by (simp_all add: lab_ringing_def lab_answer_def lab_header_line_def lab_value_def lab_messages Let_def is_ascii_dec_str is_ascii_dec_nat
      is_ascii_sdp is_ascii_crlf split: sum.splits)

lemma lab_requests_ascii:
  "is_ascii (lab_invite ''10.0.0.1'' p m ''call-aa'' ''z9hG4bK-bb'')"
  "is_ascii (invite_text ''10.0.0.1'' p ''call-aa'' ''z9hG4bK-bb-authenticated'' ''2'' [(''Authorization'',
     authorization_of ''alice@example.com'' ''n0'' ''sip:bob@example.com'' ''f0'' ''00000001'' ''docker-ims-invite-cnonce'')] m)"
  "is_ascii (lab_in_dialog ''10.0.0.1'' p ''call-aa'' ''cc'' ''ACK'' ''1'')" "is_ascii (lab_in_dialog ''10.0.0.1'' p ''call-aa'' ''dd'' ''BYE'' ''2'')"
  unfolding lab_invite_text invite_text_def lab_in_dialog_def invite_fields_def is_ascii_simps
  by (intro conjI is_ascii_sip_request is_ascii_sdp;
      simp add: is_ascii_dec_str is_ascii_dec_nat authorization_of_def quoted_def dquote_def)+

definition lab_alice :: SipClient where
  "lab_alice = new_client 5060 (map (\<lambda>m. (m, (''10.0.0.2'', 5060))) [lab_challenge, ''SIP/2.0 180 R'', lab_accepted, lab_bye_answer])"

definition lab_bob :: SipClient where
  "lab_bob = new_client 5062 (map (\<lambda>m. (m, (''10.0.0.3'', 5060))) [lab_forwarded, ''ACK x'', lab_bye])"

lemma lab_waits:
  "client_receive (status_in [401]) lab_alice = Inr (lab_challenge, lab_alice\<lparr>inbox := drop (Suc 0) (inbox lab_alice)\<rparr>)"
  "client_receive (status_in [180]) (lab_alice\<lparr>inbox := drop (Suc 0) (inbox lab_alice)\<rparr>) =
     Inr (''SIP/2.0 180 R'', lab_alice\<lparr>inbox := drop 2 (inbox lab_alice)\<rparr>)"
  "client_receive (status_in [200]) (lab_alice\<lparr>inbox := drop 2 (inbox lab_alice)\<rparr>) =
     Inr (lab_accepted, lab_alice\<lparr>inbox := drop 3 (inbox lab_alice)\<rparr>)"
  "client_receive is_bye_ok (lab_alice\<lparr>inbox := drop 3 (inbox lab_alice)\<rparr>) = Inr (lab_bye_answer, lab_alice\<lparr>inbox := []\<rparr>)"
  "client_receive (is_request ''INVITE'') lab_bob =
     Inr (lab_forwarded, lab_bob\<lparr>last_peer := Some (''10.0.0.3'', 5060), inbox := drop (Suc 0) (inbox lab_bob)\<rparr>)"
  "client_receive (is_request ''ACK'') (lab_bob\<lparr>last_peer := Some (''10.0.0.3'', 5060), inbox := drop (Suc 0) (inbox lab_bob)\<rparr>) =
     Inr (''ACK x'', lab_bob\<lparr>last_peer := Some (''10.0.0.3'', 5060), inbox := drop 2 (inbox lab_bob)\<rparr>)"
  "client_receive (is_request ''BYE'') (lab_bob\<lparr>last_peer := Some (''10.0.0.3'', 5060), inbox := drop 2 (inbox lab_bob)\<rparr>) =
     Inr (lab_bye, lab_bob\<lparr>last_peer := Some (''10.0.0.3'', 5060), inbox := []\<rparr>)"
  using lab_challenge_reads(1,2,3,4,7) lab_messages(5,6,7,12-19) lab_starts
  by (simp_all add: client_receive_def lab_alice_def lab_bob_def new_client_def status_in_def is_request_def Let_def)


subsection \<open>Sequence numbers\<close>

lemma hexish_no_cr: "hexish s \<Longrightarrow> list_all (\<lambda>c. c \<noteq> cr) s"
  by (auto simp: hexish_def list_all_iff cr_def is_digit_def)

lemma invite_fields_ok:
  assumes "hexish ip" and "hexish h" and "hexish u" and "list_all field_ok auth"
  shows "list_all field_ok (invite_fields ip p (''call-'' @ h) (''z9hG4bK-'' @ u @ ''-authenticated'') ''2'' auth len)"
  using assms(4) hexish_no_cr [OF assms(1)] hexish_no_cr [OF assms(2)] hexish_no_cr [OF assms(3)] hexish_no_cr [OF hexish_dec_str]
    hexish_no_cr [OF hexish_dec_nat]
  by (simp add: invite_fields_def field_ok_def no_crlf_plain) (simp add: cr_def no_crlf_plain)

lemma dialog_fields:
  assumes "hexish ip" and "hexish h" and "hexish u" and "meth \<in> {''ACK'', ''BYE''}" and "hexish seq"
  shows "map_of (lab_headers (lab_in_dialog ip p (''call-'' @ h) u meth seq)) ''cseq'' = Some (strip (seq @ '' '' @ meth))"
proof -
  have m: "list_all (\<lambda>c. c \<noteq> cr) meth" using assms(4) by (auto simp: cr_def)
  have start: "no_crlf (meth @ '' sip:bob@example.com SIP/2.0'')"
    using m by (intro no_crlf_plain) (simp add: cr_def)
  have low: "map lower [''Via'', ''Max-Forwards'', ''From'', ''To'', ''Call-ID'', ''CSeq'', ''Content-Length''] =
      [''via'', ''max-forwards'', ''from'', ''to'', ''call-id'', ''cseq'', ''content-length'']"
    by code_simp
  have ok: "list_all field_ok [(''Via'', ''SIP/2.0/UDP '' @ ip @ '':'' @ dec_str p @ '';branch=z9hG4bK-'' @ u), (''Max-Forwards'', ''70''),
        (''From'', ''<sip:alice@example.com>;tag=alice-call''), (''To'', ''<sip:bob@example.com>;tag=bob-call''),
        (''Call-ID'', ''call-'' @ h), (''CSeq'', seq @ '' '' @ meth), (''Content-Length'', ''0'')]"
    using m hexish_no_cr [OF assms(1)] hexish_no_cr [OF assms(2)] hexish_no_cr [OF assms(3)] hexish_no_cr [OF assms(5)]
      hexish_no_cr [OF hexish_dec_str]
    by (simp add: field_ok_def no_crlf_plain) (simp add: cr_def no_crlf_plain)
  show ?thesis
    using lab_headers_message(2) [OF start ok, of "[]"] low by (simp add: lab_in_dialog_def)
qed

text \<open>The ACK of the lab's call acknowledges another request than the one that was accepted. Read from the messages themselves,
  the INVITE that is accepted (the one with credentials) has CSeq 2 and the ACK has CSeq 1, where an ACK must carry the number of
  its INVITE; the BYE then has CSeq 2, the number of that INVITE, and no higher one.\<close>

theorem lab_sequence_numbers:
  assumes "hexish ip" and "hexish h" and "hexish u" and "hexish v" and "hexish w" and "no_crlf a"
  shows "map_of (lab_headers (lab_authenticated (lab_invite ip p m (''call-'' @ h) (''z9hG4bK-'' @ u)) (''z9hG4bK-'' @ u) a)) ''cseq''
      = Some ''2 INVITE''
    \<and> map_of (lab_headers (lab_in_dialog ip p (''call-'' @ h) v ''ACK'' ''1'')) ''cseq'' = Some ''1 ACK''
    \<and> map_of (lab_headers (lab_in_dialog ip p (''call-'' @ h) w ''BYE'' ''2'')) ''cseq'' = Some ''2 BYE''"
proof -
  have start: "no_crlf ''INVITE sip:bob@example.com SIP/2.0''" by (simp add: cr_def no_crlf_plain)
  have f: "list_all field_ok [(''Authorization'', a)]" using assms(6) by (simp add: field_ok_def cr_def)
  have low: "map lower [''Via'', ''Max-Forwards'', ''From'', ''To'', ''Call-ID'', ''CSeq'', ''Contact'', ''Authorization'', ''Content-Type'', ''Content-Length''] =
      [''via'', ''max-forwards'', ''from'', ''to'', ''call-id'', ''cseq'', ''contact'', ''authorization'', ''content-type'', ''content-length'']"
    by code_simp
  have v: "strip ''2 INVITE'' = ''2 INVITE''" "strip ''1 ACK'' = ''1 ACK''" "strip ''2 BYE'' = ''2 BYE''"
    by code_simp+
  have invite: "map_of (lab_headers (lab_authenticated (lab_invite ip p m (''call-'' @ h) (''z9hG4bK-'' @ u)) (''z9hG4bK-'' @ u) a)) ''cseq''
      = Some (strip ''2 INVITE'')"
    unfolding lab_authenticated_text [OF assms(1,3,2)] invite_text_def
    using low by (subst lab_headers_message(2) [OF start invite_fields_ok [OF assms(1,2,3) f]]) (simp add: invite_fields_def)
  have d: "hexish ''1''" "hexish ''2''" by (simp_all add: hexish_def is_digit_def)
  have "map_of (lab_headers (lab_in_dialog ip p (''call-'' @ h) v ''ACK'' ''1'')) ''cseq'' = Some (strip ''1 ACK'')"
    using dialog_fields [OF assms(1,2,4) _ d(1), of "''ACK''" p] by simp
  moreover have "map_of (lab_headers (lab_in_dialog ip p (''call-'' @ h) w ''BYE'' ''2'')) ''cseq'' = Some (strip ''2 BYE'')"
    using dialog_fields [OF assms(1,2,5) _ d(2), of "''BYE''" p] by simp
  ultimately show ?thesis using invite v by simp
qed

theorem lab_sequence_numbers_witness:
  "map_of (lab_headers (lab_in_dialog ''10.0.0.1'' 5060 ''call-aa'' ''cc'' ''ACK'' ''1'')) ''cseq'' = Some ''1 ACK''"
proof -
  have "hexish ''10.0.0.1''" "hexish ''aa''" "hexish ''bb''" "hexish ''cc''" "no_crlf []" by (simp_all add: hexish_def is_digit_def)
  with lab_sequence_numbers [of "''10.0.0.1''" "''aa''" "''bb''" "''cc''" "''cc''" "[]" 5060 1] show ?thesis by simp
qed

end
