(* ===== verification/Bench_Measure.thy ===== *)
theory Bench_Measure
  imports Complex_Main Sip_Probe Py_Ip "HOL-Library.AList"
begin

section \<open>Measuring drivers\<close>

text \<open>
  What \<^verbatim>\<open>bench/compare_opensips.py\<close> computes from the statistics of SIPp, from \<^verbatim>\<open>/proc\<close> and from the replies to its
  registration, and the plan of \<^verbatim>\<open>bench/perf_matrix.py\<close>: which commands it runs, with which environment, and when it stops.
  Starting and stopping processes, the clock and the report are left out. Fractions are exact.
\<close>

subsection \<open>Statistics\<close>

text \<open>The rows as \<open>csv.DictReader\<close> gives them; a column that a short row lacks has the value \<open>None\<close>.\<close>

definition stat_int :: "(string \<times> string option) list \<Rightarrow> string \<Rightarrow> int result" where
  "stat_int row key =
     (case map_of row key of
        None \<Rightarrow> Inl KeyError
      | Some None \<Rightarrow> Inl TypeError
      | Some (Some v) \<Rightarrow> (case py_int v of Some n \<Rightarrow> Inr n | None \<Rightarrow> Inl (ValueError ''invalid literal for int()'')))"

record sipp_stats =
  SuccessfulCall :: int
  FailedCall :: int
  Retransmissions :: int
  WatchdogMajor :: int

definition stats :: "(string \<times> string option) list list \<Rightarrow> sipp_stats result" where
  "stats rows =
     (if rows = [] then Inl IndexError
      else let row = last rows in
        bindE (stat_int row ''SuccessfulCall(C)'') (\<lambda>s. bindE (stat_int row ''FailedCall(C)'') (\<lambda>f.
        bindE (stat_int row ''Retransmissions(C)'') (\<lambda>r. bindE (stat_int row ''WatchdogMajor(C)'') (\<lambda>w.
          Inr \<lparr>SuccessfulCall = s, FailedCall = f, Retransmissions = r, WatchdogMajor = w\<rparr>)))))"

text \<open>\<open>int(s, 16)\<close>\<close>

fun scan_hex :: "bool \<Rightarrow> nat \<Rightarrow> string \<Rightarrow> nat option" where
  "scan_hex after_digit acc [] = (if after_digit then Some acc else None)"
| "scan_hex after_digit acc (c # s) =
     (case hex_value c of
        Some d \<Rightarrow> scan_hex True (16 * acc + d) s
      | None \<Rightarrow> if c = CHR ''_'' \<and> after_digit then scan_hex False acc s else None)"

definition unsigned_hex :: "string \<Rightarrow> nat option" where
  "unsigned_hex s =
     (case s of
        a # b # c # r \<Rightarrow>
          if a = CHR ''0'' \<and> (b = CHR ''x'' \<or> b = CHR ''X'')
          then (if c = CHR ''_'' then scan_hex False 0 r else scan_hex False 0 (c # r)) else scan_hex False 0 s
      | _ \<Rightarrow> scan_hex False 0 s)"

definition py_hex :: "string \<Rightarrow> int result" where
  "py_hex s =
     (let t = strip_with is_int_space s;
          r = (case t of
             c # u \<Rightarrow>
               if c = CHR ''-'' then map_option (\<lambda>n. - int n) (unsigned_hex u)
               else if c = CHR ''+'' then map_option int (unsigned_hex u) else map_option int (unsigned_hex t)
           | [] \<Rightarrow> None)
      in case r of Some n \<Rightarrow> Inr n | None \<Rightarrow> Inl (ValueError ''invalid literal for int()''))"

record udp_peak =
  sampled_max_rx_bytes :: int
  drops :: int

definition item :: "'a list \<Rightarrow> nat \<Rightarrow> 'a result" where
  "item xs i = (if i < length xs then Inr (xs ! i) else Inl IndexError)"

text \<open>What one line of \<^verbatim>\<open>/proc/net/udp\<close> says: nothing of interest, or the port, the octets that wait and the drops.\<close>

definition udp_line :: "string \<Rightarrow> (int \<times> int \<times> int) option result" where
  "udp_line line =
     (let fields = split_words line in
      bindE (item fields 1) (\<lambda>local.
        case split_char CHR '':'' local of
          [address, port_hex] \<Rightarrow>
            bindE (py_hex port_hex) (\<lambda>port.
              if address \<noteq> ''0100007F'' \<or> port \<notin> {15060, 15070, 15071} then Inr None
              else bindE (item fields 4) (\<lambda>queues. bindE (item (split_char CHR '':'' queues) 1) (\<lambda>rx.
                bindE (py_hex rx) (\<lambda>rx_bytes.
                case py_int (last fields) of
                  None \<Rightarrow> Inl (ValueError ''invalid literal for int()'')
                | Some d \<Rightarrow> Inr (Some (port, rx_bytes, d))))))
        | _ \<Rightarrow> Inl (ValueError ''wrong number of values to unpack'')))"

definition peak_of :: "(string \<times> udp_peak) list \<Rightarrow> string \<Rightarrow> udp_peak" where
  "peak_of peaks key = (case map_of peaks key of None \<Rightarrow> \<lparr>sampled_max_rx_bytes = 0, drops = 0\<rparr> | Some p \<Rightarrow> p)"

definition raise_peak :: "(string \<times> udp_peak) list \<Rightarrow> int \<times> int \<times> int \<Rightarrow> (string \<times> udp_peak) list" where
  "raise_peak peaks reading =
     (case reading of (port, rx_bytes, d) \<Rightarrow>
        let p = peak_of peaks (dec_str port)
        in AList.update (dec_str port) \<lparr>sampled_max_rx_bytes = max (sampled_max_rx_bytes p) rx_bytes, drops = max (drops p) d\<rparr> peaks)"

text \<open>The lines after the heading, in order; the first one that cannot be read raises.\<close>

fun sample_lines :: "string list \<Rightarrow> (string \<times> udp_peak) list \<Rightarrow> (string \<times> udp_peak) list result" where
  "sample_lines [] peaks = Inr peaks"
| "sample_lines (line # ls) peaks =
     bindE (udp_line line) (\<lambda>r. sample_lines ls (case r of None \<Rightarrow> peaks | Some reading \<Rightarrow> raise_peak peaks reading))"

definition sample_udp :: "string list \<Rightarrow> (string \<times> udp_peak) list \<Rightarrow> (string \<times> udp_peak) list result" where
  "sample_udp lines peaks = sample_lines (tl lines) peaks"

fun sample_all :: "string list list \<Rightarrow> (string \<times> udp_peak) list \<Rightarrow> (string \<times> udp_peak) list result" where
  "sample_all [] peaks = Inr peaks"
| "sample_all (lines # rest) peaks = bindE (sample_udp lines peaks) (sample_all rest)"

subsection \<open>Processor time\<close>

fun ints_of :: "string list \<Rightarrow> int list result" where
  "ints_of [] = Inr []"
| "ints_of (w # ws) =
     (case py_int w of
        None \<Rightarrow> Inl (ValueError ''invalid literal for int()'')
      | Some n \<Rightarrow> bindE (ints_of ws) (\<lambda>ns. Inr (n # ns)))"

fun cpu_snapshot :: "string list \<Rightarrow> (string \<times> int list) list \<Rightarrow> (string \<times> int list) list result" where
  "cpu_snapshot [] snap = Inr snap"
| "cpu_snapshot (line # ls) snap =
     (let fields = split_words line
      in if fields \<noteq> [] \<and> hd fields \<in> {''cpu2'', ''cpu3'', ''cpu4''}
         then bindE (ints_of (take 8 (tl fields))) (\<lambda>ns. cpu_snapshot ls (AList.update (hd fields) ns snap))
         else cpu_snapshot ls snap)"

record cpu_share =
  busy_fraction :: rat
  steal_fraction :: rat

fun cpu_usage :: "(string \<times> int list) list \<Rightarrow> (string \<times> int list) list \<Rightarrow> (string \<times> cpu_share) list result" where
  "cpu_usage [] after = Inr []"
| "cpu_usage ((name, start) # before) after =
     (case map_of after name of
        None \<Rightarrow> Inl KeyError
      | Some end_ \<Rightarrow>
          let delta = map (\<lambda>(initial, e). e - initial) (zip start end_); total = sum_list delta
          in if total = 0 then cpu_usage before after
             else bindE (item delta 3) (\<lambda>idle. bindE (item delta 4) (\<lambda>iowait. bindE (item delta 7) (\<lambda>steal.
               bindE (cpu_usage before after) (\<lambda>rest.
                 Inr ((name, \<lparr>busy_fraction = of_int (total - idle - iowait - steal) / of_int total,
                              steal_fraction = of_int steal / of_int total\<rparr>) # rest))))))"

subsection \<open>Registration\<close>

text \<open>\<open>str.splitlines()[0]\<close>\<close>

definition line_break :: "char \<Rightarrow> bool" where
  "line_break c \<longleftrightarrow> (10 \<le> chr_code c \<and> chr_code c \<le> 13) \<or> (28 \<le> chr_code c \<and> chr_code c \<le> 30) \<or> chr_code c = 0x85"

definition first_line :: "string \<Rightarrow> string result" where
  "first_line s = (if s = [] then Inl IndexError else Inr (takeWhile (\<lambda>c. \<not> line_break c) s))"

text \<open>The outcome of each \<open>recv\<close>, decoded: the number of requests sent, and how the loop ends. The caller gives the first 20.\<close>

fun register_tries :: "string result list \<Rightarrow> nat \<times> unit result" where
  "register_tries [] = (0, Inl (RuntimeError ''Registration timed out''))"
| "register_tries (Inl e # rs) =
     (if e = OSError then (case register_tries rs of (n, r) \<Rightarrow> (Suc n, r)) else (1, Inl e))"
| "register_tries (Inr reply # rs) =
     (if starts_with ''SIP/2.0 100'' reply then (case register_tries rs of (n, r) \<Rightarrow> (Suc n, r))
      else if \<not> starts_with ''SIP/2.0 200'' reply
      then (1, bindE (first_line reply) (\<lambda>l. Inl (RuntimeError (''Registration rejected: '' @ l))))
      else (1, Inr ()))"

definition compare_register :: "string result list \<Rightarrow> nat \<times> unit result" where
  "compare_register replies = register_tries (take 20 replies)"

subsection \<open>The verdict\<close>

text \<open>The index \<open>min(len(rtts) - 1, int(p * len(rtts)))\<close> for \<open>p\<close> in hundredths.\<close>

definition rtt_at :: "nat \<Rightarrow> rat list \<Rightarrow> rat" where
  "rtt_at p rtts = rtts ! min (length rtts - 1) (p * length rtts div 100)"

record opensips_run =
  uac_rc :: int
  uas_rc :: int
  proxy_alive :: bool
  rtt_samples :: "rat list"
  socket_samples :: "(string \<times> udp_peak) list"
  caller :: sipp_stats
  callee :: sipp_stats
  alive_after_idle :: bool

definition generator_drops :: "(string \<times> udp_peak) list \<Rightarrow> int" where
  "generator_drops peaks = (\<Sum>p \<leftarrow> [15070, 15071]. drops (peak_of peaks (dec_str p)))"

definition calls_complete :: "int \<Rightarrow> sipp_stats \<Rightarrow> bool" where
  "calls_complete count s \<longleftrightarrow> SuccessfulCall s = count \<and> FailedCall s = 0 \<and> WatchdogMajor s = 0"

definition run_valid :: "int \<Rightarrow> opensips_run \<Rightarrow> bool" where
  "run_valid count r \<longleftrightarrow>
     (uac_rc r = uas_rc r \<and> uas_rc r = 0) \<and> proxy_alive r \<and> int (length (rtt_samples r)) = count
     \<and> generator_drops (socket_samples r) = 0 \<and> length (socket_samples r) = 3
     \<and> calls_complete count (caller r) \<and> calls_complete count (callee r)"

definition invite_rtt_ms :: "opensips_run \<Rightarrow> (string \<times> rat) list" where
  "invite_rtt_ms r =
     (let rtts = sort (rtt_samples r)
      in if rtts = [] then [] else [(''0.5'', rtt_at 50 rtts), (''0.95'', rtt_at 95 rtts), (''0.99'', rtt_at 99 rtts)])"

definition result_valid :: "int \<Rightarrow> opensips_run \<Rightarrow> bool" where
  "result_valid count r \<longleftrightarrow> run_valid count r \<and> alive_after_idle r"

subsection \<open>The plan of the performance matrix\<close>

record perf_args =
  binary :: string
  out_dir :: string
  base_port :: int
  udp_workers :: int
  udp_rate :: int
  udp_calls :: int
  udp_concurrency :: int
  observe_seconds :: int
  long_hold_ms :: int
  long_calls :: int
  long_rate :: int
  long_concurrency :: int
  stream_connections :: int
  stream_messages :: int
  tcp_soak_connections :: int
  tcp_soak_duration :: int

type_synonym env = "(string \<times> string) list"

definition udp_env :: "perf_args \<Rightarrow> env" where
  "udp_env a =
     [(''BENCH_BUILD'', ''0''), (''BENCH_PROXY_BIN'', binary a), (''BENCH_UDP_WORKERS'', dec_str (udp_workers a)),
      (''BENCH_TARGET_CPS'', dec_str (udp_rate a)), (''BENCH_CALLS'', dec_str (udp_calls a)),
      (''BENCH_CONCURRENCY'', dec_str (udp_concurrency a)), (''BENCH_POST_RUN_SLEEP'', dec_str (observe_seconds a)),
      (''BENCH_SAMPLE_STATE'', ''1''), (''STATS'', out_dir a @ ''/udp_sipp_stat.csv''),
      (''METRICS'', out_dir a @ ''/udp_sipp_stat.csv.metrics''), (''STATE_METRICS'', out_dir a @ ''/udp_sipp_stat.csv.state''),
      (''PROXY_PORT'', dec_str (base_port a)), (''UAS_PORT'', dec_str (base_port a + 10)), (''TLS_PORT'', dec_str (base_port a + 1)),
      (''WSS_PORT'', dec_str (base_port a + 2)), (''ADMIN_PORT'', dec_str (base_port a + 20)),
      (''REGISTER_SOURCE_PORT'', dec_str (base_port a + 30)), (''UAC_SOURCE_PORT'', dec_str (base_port a + 31))]"

definition long_scenario_name :: "perf_args \<Rightarrow> string" where
  "long_scenario_name a = out_dir a @ ''/invite_hold_'' @ dec_str (long_hold_ms a) @ ''.xml''"

definition long_scenario :: "string \<Rightarrow> int \<Rightarrow> string" where
  "long_scenario xml hold_ms =
     replace_all (''<pause milliseconds='' @ dquote @ ''1000'' @ dquote @ '' />'') (''<pause milliseconds='' @ dquote @ dec_str hold_ms @ dquote @ '' />'') xml"

definition long_env :: "perf_args \<Rightarrow> env" where
  "long_env a =
     [(''BENCH_BUILD'', ''0''), (''BENCH_PROXY_BIN'', binary a), (''BENCH_UDP_WORKERS'', dec_str (udp_workers a)),
      (''BENCH_TARGET_CPS'', dec_str (long_rate a)), (''BENCH_CALLS'', dec_str (long_calls a)),
      (''BENCH_CONCURRENCY'', dec_str (long_concurrency a)), (''BENCH_POST_RUN_SLEEP'', dec_str (max 5 (long_hold_ms a div 1000))),
      (''BENCH_SAMPLE_STATE'', ''1''), (''BENCH_INVITE_SCENARIO'', long_scenario_name a),
      (''STATS'', out_dir a @ ''/long_udp_sipp_stat.csv''), (''METRICS'', out_dir a @ ''/long_udp_sipp_stat.csv.metrics''),
      (''STATE_METRICS'', out_dir a @ ''/long_udp_sipp_stat.csv.state''),
      (''PROXY_PORT'', dec_str (base_port a + 100)), (''UAS_PORT'', dec_str (base_port a + 110)), (''TLS_PORT'', dec_str (base_port a + 101)),
      (''WSS_PORT'', dec_str (base_port a + 102)), (''ADMIN_PORT'', dec_str (base_port a + 120)),
      (''REGISTER_SOURCE_PORT'', dec_str (base_port a + 130)), (''UAC_SOURCE_PORT'', dec_str (base_port a + 131))]"

definition stream_env :: "perf_args \<Rightarrow> env" where
  "stream_env a =
     [(''SIP_UDP_PORT'', dec_str (base_port a)), (''SIP_TLS_PORT'', dec_str (base_port a + 1)), (''SIP_WSS_PORT'', dec_str (base_port a + 2)),
      (''SIP_ADMIN_PORT'', dec_str (base_port a + 20)), (''SIP_ADMIN_TOKEN'', ''perf-matrix-admin-token''), (''SIP_STATELESS_OPTIONS'', ''1''),
      (''SIP_UDP_WORKERS'', dec_str (udp_workers a)), (''SIP_TCP_WORKERS'', ''1''),
      (''SIP_PER_IP_CONN_LIMIT'', dec_str (max (max (tcp_soak_connections a) (stream_connections a)) 100))]"

text \<open>\<open>python\<close> is \<open>sys.executable\<close>.\<close>

definition load_command :: "string \<Rightarrow> perf_args \<Rightarrow> string \<Rightarrow> int \<Rightarrow> string list" where
  "load_command python a transport p =
     [python, ''bench/transport_options_load.py'', ''--transport'', transport, ''--port'', dec_str p, ''--connections'',
      dec_str (stream_connections a), ''--messages'', dec_str (stream_messages a), ''--verbose'']"

definition soak_command :: "string \<Rightarrow> perf_args \<Rightarrow> string list" where
  "soak_command python a =
     [python, ''bench/tcp_connection_soak.py'', ''--port'', dec_str (base_port a), ''--connections'', dec_str (tcp_soak_connections a),
      ''--duration'', dec_str (tcp_soak_duration a), ''--interval'', ''5'']"

text \<open>
  What happens, in order: commands, the start of the proxy for the streams (with its environment), rows of the metrics. The
  world gives the exit code of each command, the answers to \<open>wait_ready\<close> and what \<open>read_status\<close> reads.
\<close>

datatype perf_event = Command "string list" env | Proxy env | Row string "int \<times> int \<times> int" | Stop

definition perf_do :: "(string list \<Rightarrow> int) \<Rightarrow> string list \<Rightarrow> env \<Rightarrow> string \<Rightarrow> perf_event list \<times> unit result \<Rightarrow> perf_event list \<times> unit result" where
  "perf_do code cmd env output k =
     say [Command cmd env]
       (if code cmd \<noteq> 0 then ([], Inl (RuntimeError (''command failed: '' @ join '' '' cmd @ ''; see '' @ output))) else k)"

text \<open>\<open>read_status\<close>: the lines of the status file and the number of descriptors, or \<open>None\<close> for the part that raises
  \<open>OSError\<close>. What was read before that stays. A line without a number raises.\<close>

fun status_lines :: "string list \<Rightarrow> int \<times> int \<Rightarrow> (int \<times> int) result" where
  "status_lines [] v = Inr v"
| "status_lines (line # ls) v =
     (if starts_with ''VmRSS:'' line then
        bindE (item (split_words line) 1) (\<lambda>w. case py_int w of
          None \<Rightarrow> Inl (ValueError ''invalid literal for int()'') | Some n \<Rightarrow> status_lines ls (n, snd v))
      else if starts_with ''VmSize:'' line then
        bindE (item (split_words line) 1) (\<lambda>w. case py_int w of
          None \<Rightarrow> Inl (ValueError ''invalid literal for int()'') | Some n \<Rightarrow> status_lines ls (fst v, n))
      else status_lines ls v)"

definition read_status :: "string list option \<Rightarrow> nat option \<Rightarrow> (int \<times> int \<times> int) result" where
  "read_status status fds =
     (case status of
        None \<Rightarrow> Inr (0, 0, 0)
      | Some lines \<Rightarrow> bindE (status_lines lines (0, 0)) (\<lambda>(rss, vsz).
          Inr (rss, vsz, case fds of None \<Rightarrow> 0 | Some n \<Rightarrow> int n)))"

definition perf_row :: "string \<Rightarrow> (string \<Rightarrow> (int \<times> int \<times> int) result) \<Rightarrow> perf_event list \<times> unit result \<Rightarrow> perf_event list \<times> unit result" where
  "perf_row phase status k = attempt (status phase) (\<lambda>v. say [Row phase v] k)"

fun perf_loads ::
  "string \<Rightarrow> perf_args \<Rightarrow> (string list \<Rightarrow> int) \<Rightarrow> (string \<Rightarrow> (int \<times> int \<times> int) result) \<Rightarrow> (string \<times> int) list
    \<Rightarrow> perf_event list \<times> unit result \<Rightarrow> perf_event list \<times> unit result" where
  "perf_loads python a code status [] k = k"
| "perf_loads python a code status ((transport, p) # ts) k =
     perf_do code (load_command python a transport p) [] (out_dir a @ ''/'' @ transport @ ''_options_load.log'')
       (perf_row transport status (perf_loads python a code status ts k))"

text \<open>This \<open>wait_ready\<close> swallows only \<open>OSError\<close>.\<close>

fun perf_wait_ready :: "http_answer result list \<Rightarrow> unit result" where
  "perf_wait_ready [] = Inl (RuntimeError ''proxy did not become ready'')"
| "perf_wait_ready (Inl e # as) = (if e = OSError then perf_wait_ready as else Inl e)"
| "perf_wait_ready (Inr a # as) = (if ready_status a then Inr () else perf_wait_ready as)"

text \<open>The proxy is stopped in every case, as \<open>finally\<close> does.\<close>

definition run_stream_matrix ::
  "string \<Rightarrow> perf_args \<Rightarrow> (string list \<Rightarrow> int) \<Rightarrow> http_answer result list \<Rightarrow> (string \<Rightarrow> (int \<times> int \<times> int) result) \<Rightarrow> perf_event list \<times> unit result" where
  "run_stream_matrix python a code polls status =
     (case attempt (perf_wait_ready polls) (\<lambda>_.
        perf_row ''before'' status (
        perf_loads python a code status [(''tcp'', base_port a), (''tls'', base_port a + 1), (''wss'', base_port a + 2)] (
        perf_do code (soak_command python a) [] (out_dir a @ ''/tcp_connection_soak.log'') (
        perf_row ''tcp_soak'' status ([], Inr ()))))) of
      (out, r) \<Rightarrow> (Proxy (stream_env a) # out @ [Stop], r))"

definition perf_main ::
  "string \<Rightarrow> perf_args \<Rightarrow> (string list \<Rightarrow> int) \<Rightarrow> (string list \<Rightarrow> int) \<Rightarrow> (string list \<Rightarrow> int) \<Rightarrow> http_answer result list
    \<Rightarrow> (string \<Rightarrow> (int \<times> int \<times> int) result) \<Rightarrow> perf_event list \<times> unit result" where
  "perf_main python a code1 code2 code polls status =
     perf_do code1 [''sh'', ''bench/benchmark.sh''] (udp_env a) (out_dir a @ ''/udp_benchmark.log'') (
     perf_do code2 [''sh'', ''bench/benchmark.sh''] (long_env a) (out_dir a @ ''/long_udp_benchmark.log'') (
     run_stream_matrix python a code polls status))"

subsection \<open>Fractions and peaks\<close>

lemma item_Inr: "item xs i = Inr x \<longleftrightarrow> i < length xs \<and> x = xs ! i"
  by (auto simp: item_def)

lemma sum_list_parts:
  fixes xs :: "int list"
  assumes "list_all (\<lambda>d. 0 \<le> d) xs" and "7 < length xs"
  shows "xs ! 3 + xs ! 4 + xs ! 7 \<le> sum_list xs" "0 \<le> xs ! 3" "0 \<le> xs ! 4" "0 \<le> xs ! 7"
proof -
  show nn: "0 \<le> xs ! 3" "0 \<le> xs ! 4" "0 \<le> xs ! 7" using assms by (simp_all add: list_all_length)
  have "(\<Sum>i \<in> {3, 4, 7}. xs ! i) \<le> (\<Sum>i \<in> {0..<length xs}. xs ! i)"
    using assms by (intro sum_mono2) (auto simp: list_all_length)
  then show "xs ! 3 + xs ! 4 + xs ! 7 \<le> sum_list xs" by (simp add: sum_list_sum_nth)
qed

lemma total_pos:
  fixes xs :: "int list"
  assumes "list_all (\<lambda>d. 0 \<le> d) xs" and "sum_list xs \<noteq> 0"
  shows "0 < sum_list xs"
  using assms sum_list_nonneg [of xs] by (simp add: list_all_iff)

definition counters_grow :: "(string \<times> int list) list \<Rightarrow> (string \<times> int list) list \<Rightarrow> bool" where
  "counters_grow before after \<longleftrightarrow>
     list_all (\<lambda>(name, start). case map_of after name of None \<Rightarrow> True | Some e \<Rightarrow> list_all (\<lambda>(b, a). b \<le> a) (zip start e)) before"

text \<open>The processor shares of a comparison run are fractions. If no counter went back between the two snapshots, the busy and
  the stolen share of each processor that is reported lie between 0 and 1, and so does their sum.\<close>

theorem cpu_usage_bounds:
  assumes "counters_grow before after" and "cpu_usage before after = Inr usage"
  shows "list_all (\<lambda>(name, s). 0 \<le> busy_fraction s \<and> 0 \<le> steal_fraction s \<and> busy_fraction s + steal_fraction s \<le> 1) usage"
  using assms
proof (induction before arbitrary: usage)
  case (Cons b before)
  obtain name start where b: "b = (name, start)" by (cases b)
  note prems = Cons.prems [unfolded b]
  obtain e where e: "map_of after name = Some e" using prems(2) by (auto split: option.splits)
  let ?d = "map (\<lambda>(initial, e). e - initial) (zip start e)"
  have nn: "list_all (\<lambda>d. 0 \<le> d) ?d" using prems(1) e by (auto simp: counters_grow_def list_all_iff)
  have grow: "counters_grow before after" using prems(1) by (simp add: counters_grow_def)
  show ?case
  proof (cases "sum_list ?d = 0")
    case True
    then show ?thesis using Cons.IH prems(2) e grow by (simp add: Let_def)
  next
    case False
    then obtain idle iowait steal rest where i: "item ?d 3 = Inr idle" "item ?d 4 = Inr iowait" "item ?d 7 = Inr steal"
        "cpu_usage before after = Inr rest"
        "usage = (name, \<lparr>busy_fraction = of_int (sum_list ?d - idle - iowait - steal) / of_int (sum_list ?d),
                        steal_fraction = of_int steal / of_int (sum_list ?d)\<rparr>) # rest"
      using prems(2) e by (auto simp: Let_def bindE_def split: sum.splits)
    have len: "7 < length ?d" using i(3) by (simp only: item_Inr)
    have v: "idle = ?d ! 3" "iowait = ?d ! 4" "steal = ?d ! 7" using i(1-3) by (simp_all only: item_Inr)
    note parts = sum_list_parts [OF nn len, folded v]
    have pos: "0 < sum_list ?d" by (rule total_pos [OF nn False])
    have one: "(of_int (sum_list ?d - idle - iowait - steal) / of_int (sum_list ?d) + of_int steal / of_int (sum_list ?d) :: rat) \<le> 1"
      using pos parts by (simp add: add_divide_distrib [symmetric] divide_le_eq del: of_int_diff)
    have "list_all (\<lambda>(name, s). 0 \<le> busy_fraction s \<and> 0 \<le> steal_fraction s \<and> busy_fraction s + steal_fraction s \<le> 1) rest"
      by (rule Cons.IH [OF grow i(4)])
    moreover have "0 \<le> (of_int (sum_list ?d - idle - iowait - steal) / of_int (sum_list ?d) :: rat)"
      using pos parts by (intro divide_nonneg_pos) (simp_all del: of_int_diff)
    moreover have "0 \<le> (of_int steal / of_int (sum_list ?d) :: rat)"
      using pos parts by (intro divide_nonneg_pos) simp_all
    ultimately show ?thesis using one by (simp add: i(5))
  qed
qed simp

subsection \<open>Peaks\<close>

text \<open>What the lines of some samples say, in order.\<close>

definition line_readings :: "string list \<Rightarrow> (int \<times> int \<times> int) list" where
  "line_readings ls = concat (map (\<lambda>l. case udp_line l of Inr (Some r) \<Rightarrow> [r] | _ \<Rightarrow> []) ls)"

definition readings :: "string list list \<Rightarrow> (int \<times> int \<times> int) list" where
  "readings samples = concat (map (\<lambda>lines. line_readings (tl lines)) samples)"

lemma sample_lines_fold: "sample_lines ls peaks = Inr peaks' \<Longrightarrow> peaks' = foldl raise_peak peaks (line_readings ls)"
  by (induction ls arbitrary: peaks) (auto simp: line_readings_def bindE_def split: sum.splits option.splits)

lemma sample_all_fold: "sample_all samples peaks = Inr peaks' \<Longrightarrow> peaks' = foldl raise_peak peaks (readings samples)"
proof (induction samples arbitrary: peaks)
  case (Cons lines samples)
  then obtain mid where "sample_udp lines peaks = Inr mid" "sample_all samples mid = Inr peaks'"
    by (auto simp: bindE_def split: sum.splits)
  then show ?case using Cons.IH sample_lines_fold by (auto simp: sample_udp_def readings_def)
qed (simp add: readings_def)

definition watched :: "int list" where "watched = [15060, 15070, 15071]"

lemma watched_ports: "udp_line l = Inr (Some (p, rx, d)) \<Longrightarrow> p \<in> set watched"
  by (auto simp: udp_line_def Let_def bindE_def watched_def split: sum.splits list.splits if_splits option.splits)

lemma readings_watched: "(p, rx, d) \<in> set (readings samples) \<Longrightarrow> p \<in> set watched"
  by (auto simp: readings_def line_readings_def split: sum.splits option.splits dest: watched_ports watched_ports [OF sym])

lemma port_keys: "p \<in> set watched \<Longrightarrow> q \<in> set watched \<Longrightarrow> dec_str p = dec_str q \<longleftrightarrow> p = q"
proof -
  assume "p \<in> set watched" "q \<in> set watched"
  then have "\<bar>p\<bar> < 10 ^ 5" "\<bar>q\<bar> < 10 ^ 5" by (auto simp: watched_def)
  moreover have "(10 :: int) ^ 5 \<le> 10 ^ MAX_STR_DIGITS" by (rule power_increasing) (simp_all add: MAX_STR_DIGITS_def)
  ultimately have "\<bar>p\<bar> < 10 ^ MAX_STR_DIGITS" "\<bar>q\<bar> < 10 ^ MAX_STR_DIGITS" by (simp_all only: less_le_trans)
  then show ?thesis using py_int_dec_str by (metis option.inject)
qed

definition values_at :: "int \<Rightarrow> (int \<times> int \<times> int) list \<Rightarrow> (int \<times> int) list" where
  "values_at p rs = map snd (filter (\<lambda>r. fst r = p) rs)"

definition largest :: "int \<Rightarrow> int list \<Rightarrow> int" where
  "largest start vs = foldl max start vs"

lemma update_keys: "fst ` set (AList.update k v al) = insert k (fst ` set al)"
  by (induction al) auto

lemma raise_peaks:
  "list_all (\<lambda>r. fst r \<in> set watched) rs \<Longrightarrow> p \<in> set watched \<Longrightarrow>
   drops (peak_of (foldl raise_peak peaks rs) (dec_str p)) = largest (drops (peak_of peaks (dec_str p))) (map snd (values_at p rs))
   \<and> sampled_max_rx_bytes (peak_of (foldl raise_peak peaks rs) (dec_str p)) =
       largest (sampled_max_rx_bytes (peak_of peaks (dec_str p))) (map fst (values_at p rs))
   \<and> (dec_str p \<in> fst ` set (foldl raise_peak peaks rs) \<longleftrightarrow> dec_str p \<in> fst ` set peaks \<or> values_at p rs \<noteq> [])"
proof (induction rs arbitrary: peaks)
  case (Cons r rs)
  obtain q rx d where r: "r = (q, rx, d)" by (cases r)
  have key: "dec_str q = dec_str p \<longleftrightarrow> q = p" using port_keys Cons.prems by (simp add: r)
  show ?case
    using Cons.IH [of "raise_peak peaks r"] Cons.prems key
    by (auto simp: r raise_peak_def Let_def values_at_def largest_def peak_of_def update_conv' update_keys)
qed (simp_all add: values_at_def largest_def)

lemma largest_start: "start \<le> largest start vs"
  unfolding largest_def by (induction vs arbitrary: start) (simp_all, metis max.boundedE)

lemma largest_upper: "v \<in> set vs \<Longrightarrow> v \<le> largest start vs"
proof (induction vs arbitrary: start)
  case (Cons w vs)
  then show ?case using largest_start [of "max start w" vs] by (auto simp: largest_def)
qed simp

lemma largest_attained: "largest start vs \<in> insert start (set vs)"
  unfolding largest_def by (induction vs arbitrary: start) (auto simp: max_def split: if_splits)

text \<open>The peaks of a comparison run are the largest values of all its samples. For each of the three watched ports, the
  recorded drops and the recorded octets bound every line that the samples had for it and are among them, unless there was none
  above zero, and a port has an entry exactly if a line was seen.\<close>

theorem peaks_are_maxima:
  assumes "sample_all samples [] = Inr peaks"
  shows "list_all (\<lambda>p. let seen = values_at p (readings samples); peak = peak_of peaks (dec_str p)
    in (dec_str p \<in> fst ` set peaks \<longleftrightarrow> seen \<noteq> [])
      \<and> list_all (\<lambda>(rx, d). rx \<le> sampled_max_rx_bytes peak \<and> d \<le> drops peak) seen
      \<and> drops peak \<in> insert 0 (set (map snd seen)) \<and> sampled_max_rx_bytes peak \<in> insert 0 (set (map fst seen))) watched"
proof -
  have w: "list_all (\<lambda>r. fst r \<in> set watched) (readings samples)"
    using readings_watched by (fastforce simp: list_all_iff)
  have "(dec_str p \<in> fst ` set peaks \<longleftrightarrow> values_at p (readings samples) \<noteq> [])
      \<and> list_all (\<lambda>(rx, d). rx \<le> sampled_max_rx_bytes (peak_of peaks (dec_str p)) \<and> d \<le> drops (peak_of peaks (dec_str p))) (values_at p (readings samples))
      \<and> drops (peak_of peaks (dec_str p)) \<in> insert 0 (set (map snd (values_at p (readings samples))))
      \<and> sampled_max_rx_bytes (peak_of peaks (dec_str p)) \<in> insert 0 (set (map fst (values_at p (readings samples))))" if "p \<in> set watched" for p
  proof -
    have v: "drops (peak_of peaks (dec_str p)) = largest 0 (map snd (values_at p (readings samples)))"
        "sampled_max_rx_bytes (peak_of peaks (dec_str p)) = largest 0 (map fst (values_at p (readings samples)))"
        "dec_str p \<in> fst ` set peaks \<longleftrightarrow> values_at p (readings samples) \<noteq> []"
      using raise_peaks [OF w that, of "[]"] sample_all_fold [OF assms] by (simp_all add: peak_of_def)
    show ?thesis
      unfolding v
      using largest_attained [of 0 "map snd (values_at p (readings samples))"] largest_attained [of 0 "map fst (values_at p (readings samples))"]
        largest_upper [of _ "map snd (values_at p (readings samples))" 0] largest_upper [of _ "map fst (values_at p (readings samples))" 0]
      by (force simp: list_all_iff)
  qed
  then show ?thesis by (simp add: list_all_iff Let_def)
qed

theorem cpu_usage_bounds_witness:
  "\<exists>usage. cpu_usage [(''cpu2'', [1, 0, 1, 5, 0, 0, 0, 0])] [(''cpu2'', [4, 0, 2, 10, 0, 0, 0, 1])] = Inr usage
    \<and> list_all (\<lambda>(name, s). busy_fraction s + steal_fraction s \<le> 1) usage \<and> usage \<noteq> []"
proof -
  have grow: "counters_grow [(''cpu2'', [1, 0, 1, 5, 0, 0, 0, 0])] [(''cpu2'', [4, 0, 2, 10, 0, 0, 0, 1])]"
    by (simp add: counters_grow_def)
  obtain usage where u: "cpu_usage [(''cpu2'', [1, 0, 1, 5, 0, 0, 0, 0])] [(''cpu2'', [4, 0, 2, 10, 0, 0, 0, 1])] = Inr usage" "usage \<noteq> []"
    by (simp add: item_def Let_def)
  from cpu_usage_bounds [OF grow u(1)] u show ?thesis by (auto simp: list_all_iff)
qed

theorem peaks_are_maxima_witness:
  "\<exists>peaks. sample_all [[''sl'', ''1: 0100007F:3AD4 0:0 07 0:2A 0 0 0 9 2 0 3''], [''sl'', ''1: 0100007F:3AD4 0:0 07 0:10 0 0 0 9 2 0 5'']] [] = Inr peaks
    \<and> dec_str 15060 \<in> fst ` set peaks"
proof -
  let ?s = "[[''sl'', ''1: 0100007F:3AD4 0:0 07 0:2A 0 0 0 9 2 0 3''], [''sl'', ''1: 0100007F:3AD4 0:0 07 0:10 0 0 0 9 2 0 5'']]"
  have words: "split_words ''1: 0100007F:3AD4 0:0 07 0:2A 0 0 0 9 2 0 3'' =
        [''1:'', ''0100007F:3AD4'', ''0:0'', ''07'', ''0:2A'', ''0'', ''0'', ''0'', ''9'', ''2'', ''0'', ''3'']"
      "split_words ''1: 0100007F:3AD4 0:0 07 0:10 0 0 0 9 2 0 5'' =
        [''1:'', ''0100007F:3AD4'', ''0:0'', ''07'', ''0:10'', ''0'', ''0'', ''0'', ''9'', ''2'', ''0'', ''5'']"
    by code_simp+
  have int: "py_int ''3'' = Some 3" "py_int ''5'' = Some 5" by code_simp+
  have strip: "strip_with is_int_space ''3AD4'' = ''3AD4''" "strip_with is_int_space ''2A'' = ''2A''" "strip_with is_int_space ''10'' = ''10''"
    by code_simp+
  have hex: "py_hex ''3AD4'' = Inr 15060" "py_hex ''2A'' = Inr 42" "py_hex ''10'' = Inr 16"
    by (simp_all add: py_hex_def strip unsigned_hex_def hex_value_def Let_def)
  have l: "udp_line ''1: 0100007F:3AD4 0:0 07 0:2A 0 0 0 9 2 0 3'' = Inr (Some (15060, 42, 3))"
      "udp_line ''1: 0100007F:3AD4 0:0 07 0:10 0 0 0 9 2 0 5'' = Inr (Some (15060, 16, 5))"
    by (simp_all add: udp_line_def item_def words hex Let_def int)
  obtain peaks where r: "sample_all ?s [] = Inr peaks" by (simp add: sample_udp_def l)
  have "values_at 15060 (readings ?s) \<noteq> []" by (simp add: values_at_def readings_def line_readings_def l)
  with peaks_are_maxima [OF r] r show ?thesis by (auto simp: watched_def Let_def)
qed

subsection \<open>Verdicts\<close>

lemma rtt_index: "rtts \<noteq> [] \<Longrightarrow> min (length rtts - 1) (p * length rtts div 100) < length rtts"
  by (cases rtts) auto

text \<open>The percentiles of a run are samples of it, in order.\<close>

theorem percentiles_ordered:
  assumes "rtt_samples r \<noteq> []"
  shows "\<exists>a b c. invite_rtt_ms r = [(''0.5'', a), (''0.95'', b), (''0.99'', c)] \<and> a \<le> b \<and> b \<le> c
    \<and> {a, b, c} \<subseteq> set (rtt_samples r)"
proof -
  let ?rtts = "sort (rtt_samples r)"
  have ne: "?rtts \<noteq> []" using assms by (metis length_0_conv length_sort)
  have mono: "rtt_at p ?rtts \<le> rtt_at q ?rtts" if "p \<le> q" for p q
    unfolding rtt_at_def using rtt_index [OF ne, of q] that
    by (intro sorted_nth_mono min.mono div_le_mono mult_le_mono1) simp_all
  have "rtt_at p ?rtts \<in> set (rtt_samples r)" for p
    using nth_mem [OF rtt_index [OF ne, of p]] by (simp add: rtt_at_def)
  then show ?thesis using mono [of 50 95] mono [of 95 99] ne by (simp add: invite_rtt_ms_def Let_def)
qed

text \<open>A comparison run that is valid lost nothing that it could see. If the peaks are those of the samples that were taken, then
  both SIPp processes ended well, every expected call succeeded on both sides without a failed one, there is one round-trip time
  for each call, the proxy outlived the run and the idle time, all three sockets were seen, and no sample showed a drop at a
  socket of the generator.\<close>

theorem valid_run_lost_nothing:
  assumes "sample_all samples [] = Inr (socket_samples r)" and "result_valid count r"
  shows "uac_rc r = 0 \<and> uas_rc r = 0 \<and> proxy_alive r \<and> alive_after_idle r \<and> int (length (rtt_samples r)) = count
    \<and> SuccessfulCall (caller r) = count \<and> FailedCall (caller r) = 0 \<and> SuccessfulCall (callee r) = count \<and> FailedCall (callee r) = 0
    \<and> list_all (\<lambda>p. values_at p (readings samples) \<noteq> []) watched
    \<and> list_all (\<lambda>(p, rx, d). p \<in> {15070, 15071} \<longrightarrow> d \<le> 0) (readings samples)"
proof -
  have v: "(uac_rc r = uas_rc r \<and> uas_rc r = 0) \<and> proxy_alive r \<and> int (length (rtt_samples r)) = count"
      "generator_drops (socket_samples r) = 0" "length (socket_samples r) = 3"
      "calls_complete count (caller r) \<and> calls_complete count (callee r)" "alive_after_idle r"
    using assms(2) by (simp_all add: result_valid_def run_valid_def)
  have w: "list_all (\<lambda>r. fst r \<in> set watched) (readings samples)"
    using readings_watched by (fastforce simp: list_all_iff)
  note fold = sample_all_fold [OF assms(1)]
  have at: "drops (peak_of (socket_samples r) (dec_str p)) = largest 0 (map snd (values_at p (readings samples)))"
      "dec_str p \<in> fst ` set (socket_samples r) \<longleftrightarrow> values_at p (readings samples) \<noteq> []" if "p \<in> set watched" for p
    using raise_peaks [OF w that, of "[]"] by (simp_all add: fold peak_of_def)
  have nn: "0 \<le> drops (peak_of (socket_samples r) (dec_str p))" if "p \<in> set watched" for p
    using largest_start by (simp add: at(1) [OF that])
  have zero: "drops (peak_of (socket_samples r) (dec_str 15070)) = 0" "drops (peak_of (socket_samples r) (dec_str 15071)) = 0"
    using v(2) nn [of 15070] nn [of 15071] by (simp_all add: generator_drops_def watched_def)
  have none: "d \<le> 0" if "(p, rx, d) \<in> set (readings samples)" "p \<in> {15070, 15071}" for p rx d
  proof -
    have p: "p \<in> set watched" using that(2) by (auto simp: watched_def)
    have "d \<in> set (map snd (values_at p (readings samples)))" using that(1) by (force simp: values_at_def)
    then have "d \<le> drops (peak_of (socket_samples r) (dec_str p))" unfolding at(1) [OF p] by (rule largest_upper)
    then show ?thesis using zero that(2) by auto
  qed
  have keys: "distinct (map fst (foldl raise_peak [] rs))" for rs
  proof -
    have "distinct (map fst peaks) \<Longrightarrow> distinct (map fst (foldl raise_peak peaks rs))" for peaks
    proof (induction rs arbitrary: peaks)
      case (Cons x rs)
      then show ?case by (simp add: raise_peak_def Let_def case_prod_unfold distinct_update)
    qed simp
    then show ?thesis by simp
  qed
  have sub: "fst ` set (foldl raise_peak peaks rs) \<subseteq> fst ` set peaks \<union> dec_str ` fst ` set rs" for peaks rs
  proof (induction rs arbitrary: peaks)
    case (Cons x rs)
    have "fst ` set (raise_peak peaks x) \<subseteq> fst ` set peaks \<union> {dec_str (fst x)}"
      by (auto simp: raise_peak_def Let_def case_prod_unfold update_keys)
    with Cons [of "raise_peak peaks x"] show ?case by auto
  qed simp
  have "card (fst ` set (socket_samples r)) = 3"
    using keys [of "readings samples"] v(3) distinct_card [of "map fst (socket_samples r)"] by (simp add: fold [symmetric])
  moreover have "fst ` set (socket_samples r) \<subseteq> dec_str ` set watched"
    using sub [of "[]" "readings samples"] w by (auto simp: fold [symmetric] list_all_iff)
  moreover have "card (dec_str ` set watched) \<le> 3" using card_image_le [of "set watched" dec_str] by (simp add: watched_def)
  ultimately have "fst ` set (socket_samples r) = dec_str ` set watched"
    by (intro card_seteq) simp_all
  then have "list_all (\<lambda>p. values_at p (readings samples) \<noteq> []) watched" using at(2) by (auto simp: list_all_iff)
  moreover have "list_all (\<lambda>(p, rx, d). p \<in> {15070, 15071} \<longrightarrow> d \<le> 0) (readings samples)"
    using none by (auto simp: list_all_iff)
  ultimately show ?thesis using v by (simp add: calls_complete_def)
qed

text \<open>A sample in which each of the three sockets has a line, and the generator no drops.\<close>

definition clean_lines :: "string list" where
  "clean_lines = [''sl'', ''a 0100007F:3AD4 0 0 0:0 3'', ''b 0100007F:3ADE 0 0 0:0 0'', ''c 0100007F:3ADF 0 0 0:0 0'']"

lemma clean_sample: "\<exists>peaks. sample_udp clean_lines [] = Inr peaks \<and> length peaks = 3 \<and> generator_drops peaks = 0"
proof -
  have words: "split_words ''a 0100007F:3AD4 0 0 0:0 3'' = [''a'', ''0100007F:3AD4'', ''0'', ''0'', ''0:0'', ''3'']"
      "split_words ''b 0100007F:3ADE 0 0 0:0 0'' = [''b'', ''0100007F:3ADE'', ''0'', ''0'', ''0:0'', ''0'']"
      "split_words ''c 0100007F:3ADF 0 0 0:0 0'' = [''c'', ''0100007F:3ADF'', ''0'', ''0'', ''0:0'', ''0'']"
    by code_simp+
  have int: "py_int ''3'' = Some 3" "py_int ''0'' = Some 0" by code_simp+
  have strip: "strip_with is_int_space ''3AD4'' = ''3AD4''" "strip_with is_int_space ''3ADE'' = ''3ADE''"
      "strip_with is_int_space ''3ADF'' = ''3ADF''" "strip_with is_int_space ''0'' = ''0''"
    by code_simp+
  have hex: "py_hex ''3AD4'' = Inr 15060" "py_hex ''3ADE'' = Inr 15070" "py_hex ''3ADF'' = Inr 15071" "py_hex ''0'' = Inr 0"
    by (simp_all add: py_hex_def strip unsigned_hex_def hex_value_def Let_def)
  have l: "udp_line ''a 0100007F:3AD4 0 0 0:0 3'' = Inr (Some (15060, 0, 3))" "udp_line ''b 0100007F:3ADE 0 0 0:0 0'' = Inr (Some (15070, 0, 0))"
      "udp_line ''c 0100007F:3ADF 0 0 0:0 0'' = Inr (Some (15071, 0, 0))"
    by (simp_all add: udp_line_def item_def words hex Let_def int)
  have keys: "dec_str 15060 \<noteq> dec_str 15070" "dec_str 15060 \<noteq> dec_str 15071" "dec_str 15070 \<noteq> dec_str 15071"
    by (simp_all add: port_keys watched_def)
  show ?thesis
    using keys by (auto simp: clean_lines_def sample_udp_def l raise_peak_def peak_of_def generator_drops_def Let_def)
qed

theorem valid_run_lost_nothing_witness:
  "\<exists>peaks. sample_all [clean_lines] [] = Inr peaks \<and> list_all (\<lambda>p. values_at p (readings [clean_lines]) \<noteq> []) watched \<and> length peaks = 3"
proof -
  obtain peaks where r: "sample_all [clean_lines] [] = Inr peaks" "length peaks = 3" "generator_drops peaks = 0"
    using clean_sample by auto
  let ?st = "\<lparr>SuccessfulCall = 1, FailedCall = 0, Retransmissions = 0, WatchdogMajor = 0\<rparr>"
  let ?r = "\<lparr>uac_rc = 0, uas_rc = 0, proxy_alive = True, rtt_samples = [2], socket_samples = peaks, caller = ?st, callee = ?st, alive_after_idle = True\<rparr>"
  have "result_valid 1 ?r" using r by (simp add: result_valid_def run_valid_def calls_complete_def)
  with valid_run_lost_nothing [of "[clean_lines]" ?r 1] r show ?thesis by auto
qed

subsection \<open>The plan is carried out or stops\<close>

lemma perf_do_Inr: "snd (perf_do code cmd env output k) = Inr () \<longleftrightarrow> code cmd = 0 \<and> snd k = Inr ()"
  by (auto simp: perf_do_def say_def)

lemma perf_row_Inr: "snd (perf_row phase status k) = Inr () \<longleftrightarrow> (\<exists>v. status phase = Inr v) \<and> snd k = Inr ()"
  by (cases "status phase") (auto simp: perf_row_def attempt_def say_def)

lemma attempt_done: "snd (attempt r (\<lambda>_. k)) = Inr () \<longleftrightarrow> (\<exists>v. r = Inr v) \<and> snd k = Inr ()"
  by (cases r) (auto simp: attempt_def)

text \<open>The matrix succeeds exactly if both UDP runs, the three loads and the soak exit with 0, the proxy of the streams becomes ready
  and its status can be read five times. A proxy that was started is stopped, whatever happens.\<close>

theorem perf_matrix_verdict:
  "snd (perf_main python a code1 code2 code polls status) = Inr () \<longleftrightarrow>
     code1 [''sh'', ''bench/benchmark.sh''] = 0 \<and> code2 [''sh'', ''bench/benchmark.sh''] = 0 \<and> perf_wait_ready polls = Inr ()
     \<and> list_all (\<lambda>phase. \<exists>v. status phase = Inr v) [''before'', ''tcp'', ''tls'', ''wss'', ''tcp_soak'']
     \<and> list_all (\<lambda>cmd. code cmd = 0) [load_command python a ''tcp'' (base_port a), load_command python a ''tls'' (base_port a + 1),
         load_command python a ''wss'' (base_port a + 2), soak_command python a]"
  by (auto simp: perf_main_def run_stream_matrix_def perf_do_Inr perf_row_Inr attempt_done case_prod_unfold)

theorem perf_matrix_stops_the_proxy:
  "fst (run_stream_matrix python a code polls status) \<noteq> [] \<and> last (fst (run_stream_matrix python a code polls status)) = Stop"
  by (simp add: run_stream_matrix_def case_prod_unfold)

text \<open>No two sockets of a run get the same port, also not between the two UDP runs.\<close>

definition perf_ports :: "env \<Rightarrow> string list" where
  "perf_ports e = map snd (filter (\<lambda>kv. fst kv \<in> {''PROXY_PORT'', ''UAS_PORT'', ''TLS_PORT'', ''WSS_PORT'', ''ADMIN_PORT'', ''REGISTER_SOURCE_PORT'', ''UAC_SOURCE_PORT''}) e)"

theorem perf_ports_distinct:
  assumes "0 \<le> base_port a" and "base_port a \<le> 65404"
  shows "distinct (perf_ports (udp_env a) @ perf_ports (long_env a))"
proof -
  have key: "dec_str p = dec_str q \<longleftrightarrow> p = q" if "0 \<le> p" "p \<le> 65535" "0 \<le> q" "q \<le> 65535" for p q
  proof -
    have "\<bar>p\<bar> < 10 ^ 5" "\<bar>q\<bar> < 10 ^ 5" using that by simp_all
    moreover have "(10 :: int) ^ 5 \<le> 10 ^ MAX_STR_DIGITS" by (rule power_increasing) (simp_all add: MAX_STR_DIGITS_def)
    ultimately have "\<bar>p\<bar> < 10 ^ MAX_STR_DIGITS" "\<bar>q\<bar> < 10 ^ MAX_STR_DIGITS" by (simp_all only: less_le_trans)
    then show ?thesis using py_int_dec_str by (metis option.inject)
  qed
  show ?thesis
    using assms by (simp add: perf_ports_def udp_env_def long_env_def key)
qed

subsection \<open>A server that gets SIGPIPE\<close>

text \<open>
  \<^verbatim>\<open>scripts/check-broken-pipe.py\<close>: at each turn of \<open>wait_http\<close> the exit status of the server, if it has ended, and
  else the status of the answer or the exception.
\<close>

fun wait_http :: "(int option \<times> int result) list \<Rightarrow> unit result" where
  "wait_http [] = Inl (RuntimeError ''server did not return HTTP 200 within 15 seconds'')"
| "wait_http ((Some code, _) # ps) = Inl (RuntimeError (''server exited with status '' @ dec_str code))"
| "wait_http ((None, Inl e) # ps) = (if e = OSError then wait_http ps else Inl e)"
| "wait_http ((None, Inr status) # ps) = (if status = 200 then Inr () else wait_http ps)"

datatype pipe_event = Started | Signalled | Ended

text \<open>\<open>running\<close>: whether the server still runs in the end, so that \<open>finally\<close> has to end it.\<close>

definition pipe_path :: "bool \<Rightarrow> string" where
  "pipe_path admin = (if admin then ''/admin/login'' else ''/healthz'')"

definition pipe_check :: "(int option \<times> int result) list \<Rightarrow> (int option \<times> int result) list \<Rightarrow> bool \<Rightarrow> pipe_event list \<times> unit result" where
  "pipe_check before after running =
     (case attempt (wait_http before) (\<lambda>_. say [Signalled] (attempt (wait_http after) (\<lambda>_. ([], Inr ())))) of
        (out, r) \<Rightarrow> (Started # out @ (if running then [Ended] else []), r))"

text \<open>The turns that are passed over.\<close>

definition not_yet :: "int option \<times> int result \<Rightarrow> bool" where
  "not_yet p \<longleftrightarrow> fst p = None \<and> (case snd p of Inl e \<Rightarrow> e = OSError | Inr status \<Rightarrow> status \<noteq> 200)"

definition answers_200 :: "(int option \<times> int result) list \<Rightarrow> bool" where
  "answers_200 ps \<longleftrightarrow> (case dropWhile not_yet ps of [] \<Rightarrow> False | p # _ \<Rightarrow> p = (None, Inr 200))"

lemma wait_http_iff: "wait_http ps = Inr () \<longleftrightarrow> answers_200 ps"
  by (induction ps rule: wait_http.induct) (auto simp: answers_200_def not_yet_def)

text \<open>The check passes exactly if the server answers 200 before and after the signal and does not end in between.\<close>

theorem pipe_check_verdict:
  "snd (pipe_check before after running) = Inr () \<longleftrightarrow> answers_200 before \<and> answers_200 after"
proof -
  have "snd (pipe_check before after running) = Inr () \<longleftrightarrow> wait_http before = Inr () \<and> wait_http after = Inr ()"
    by (cases "wait_http before"; cases "wait_http after") (auto simp: pipe_check_def attempt_def say_def)
  then show ?thesis unfolding wait_http_iff .
qed

end
