(* ===== verification/Maf_Security.thy ===== *)
theory Maf_Security
  imports Bench_Script Py_Url
begin

section \<open>The security matrix of the MAF endpoint\<close>

text \<open>
  \<^verbatim>\<open>bench/maf_security_matrix.py\<close>: \<open>request\<close> and \<open>main\<close>. The endpoint is input: what \<open>urlopen\<close> gives for each request. \<open>loads\<close> is
  \<open>json.loads\<close> on the octets of a body, with the exception it raises, and \<open>decode\<close> the replacing UTF-8 decoder, both parameters; the messages of
  \<open>require\<close> leave out what was received.
\<close>

text \<open>A request: its method, path, token, body and idempotency key.\<close>

record maf_request =
  meth :: string
  req_path :: string
  token :: string
  body :: "json option"
  idempotency_key :: "string option"

text \<open>What \<open>urlopen\<close> does: an answer, the exception \<open>HTTPError\<close> with a code and a body, or another exception.\<close>

datatype urlopen = Answer int string | HTTPError int string | Fails exn

text \<open>The payload is JSON, or the text of an error that is none.\<close>

datatype payload = Json json | Text string

definition json_or_empty :: "(string \<Rightarrow> json result) \<Rightarrow> string \<Rightarrow> json result" where
  "json_or_empty loads raw = (if raw = [] then Inr (JObj []) else loads raw)"

text \<open>For an error answer only a \<open>JSONDecodeError\<close> is caught.\<close>

definition request_result :: "(string \<Rightarrow> json result) \<Rightarrow> (string \<Rightarrow> string) \<Rightarrow> urlopen \<Rightarrow> (int \<times> payload) result" where
  "request_result loads decode u =
     (case u of
        Fails e \<Rightarrow> Inl e
      | Answer status raw \<Rightarrow> bindE (json_or_empty loads raw) (\<lambda>j. Inr (status, Json j))
      | HTTPError code raw \<Rightarrow>
          (case json_or_empty loads raw of
             Inl e \<Rightarrow> if e = JSONDecodeError then Inr (code, Text (decode raw)) else Inl e
           | Inr j \<Rightarrow> Inr (code, Json j)))"

text \<open>\<open>headers\<close> and the encoded body: whether the call has a content type, and its idempotency key.\<close>

definition request_headers :: "maf_request \<Rightarrow> (string \<times> string) list" where
  "request_headers r =
     [(''Authorization'', ''Bearer '' @ token r), (''Accept'', ''application/json'')]
     @ (case body r of None \<Rightarrow> [] | Some _ \<Rightarrow> [(''Content-Type'', ''application/json'')])
     @ (case idempotency_key r of None \<Rightarrow> [] | Some k \<Rightarrow> [(''Idempotency-Key'', k)])"

text \<open>The settings, as the environment gives them: \<open>READ\<close> is \<open>WRITE\<close> if it is not set.\<close>

record matrix_env =
  enabled :: "string option"
  base_url :: string
  write_token :: string
  read_token :: "string option"
  test_key :: string
  from_uri :: string
  to_uri :: string

definition READ :: "matrix_env \<Rightarrow> string" where
  "READ e = (case read_token e of None \<Rightarrow> write_token e | Some t \<Rightarrow> t)"

definition calls_path :: string where "calls_path = ''/api/v1/maf/calls''"

definition create_body :: "matrix_env \<Rightarrow> json" where
  "create_body e =
     JObj [(''from'', JStr (from_uri e)), (''to'', JStr (to_uri e)), (''application_data'', JObj [(''test'', JStr ''security-matrix'')])]"

definition changed_body :: "matrix_env \<Rightarrow> json" where
  "changed_body e = JObj [(''from'', JStr (from_uri e)), (''to'', JStr ''sip:changed@example.invalid'')]"

text \<open>A request, its answer (the next of those that the endpoint gives), and a check of it.\<close>

definition ask ::
  "maf_request \<Rightarrow> (int \<Rightarrow> bool) \<Rightarrow> string \<Rightarrow> (int \<times> payload) result list
    \<Rightarrow> (int \<times> payload \<Rightarrow> (int \<times> payload) result list \<Rightarrow> maf_request list \<times> 'a result) \<Rightarrow> maf_request list \<times> 'a result" where
  "ask r good complaint answers k =
     say [r] (case answers of
         [] \<Rightarrow> ([], Inl OSError)
       | a # as \<Rightarrow> attempt a (\<lambda>p. if good (fst p) then k p as else ([], Inl (AssertionError complaint))))"

definition post_req :: "string \<Rightarrow> string \<Rightarrow> json \<Rightarrow> string \<Rightarrow> maf_request" where
  "post_req p t b k = \<lparr>meth = ''POST'', req_path = p, token = t, body = Some b, idempotency_key = Some k\<rparr>"

definition get_req :: "string \<Rightarrow> string \<Rightarrow> maf_request" where
  "get_req p t = \<lparr>meth = ''GET'', req_path = p, token = t, body = None, idempotency_key = None\<rparr>"

text \<open>\<open>receipt.get("resource_id", "")\<close>: only an object has a \<open>get\<close>.\<close>

definition resource_id :: "payload \<Rightarrow> json result" where
  "resource_id p =
     (case p of
        Json (JObj d) \<Rightarrow> Inr (case map_of d ''resource_id'' of None \<Rightarrow> JStr [] | Some v \<Rightarrow> v)
      | _ \<Rightarrow> Inl AttributeError)"

definition call_id_of :: "payload \<Rightarrow> string result" where
  "call_id_of p =
     bindE (resource_id p) (\<lambda>v. case v of
       JStr s \<Rightarrow> if length s \<ge> 8 then Inr s else Inl (AssertionError ''missing resource_id'')
     | _ \<Rightarrow> Inl (AssertionError ''missing resource_id''))"

text \<open>The two last requests are both sent before their answers are looked at.\<close>

definition matrix_checks :: "(int \<times> payload) result list \<Rightarrow> matrix_env \<Rightarrow> maf_request list \<times> string result" where
  "matrix_checks answers e =
     ask (post_req calls_path (write_token e) (create_body e) (test_key e)) (\<lambda>s. s = 202) ''create expected 202'' answers (\<lambda>receipt as1.
     attempt (call_id_of (snd receipt)) (\<lambda>call_id.
     ask (post_req calls_path (write_token e) (create_body e) (test_key e)) (\<lambda>s. s \<in> {200, 202}) ''idempotent replay failed'' as1 (\<lambda>_ as2.
     ask (post_req calls_path (write_token e) (changed_body e) (test_key e)) (\<lambda>s. s = 409) ''changed idempotency body was not rejected'' as2 (\<lambda>_ as3.
     ask (get_req (calls_path @ ''/'' @ quote call_id) (READ e)) (\<lambda>s. s = 200) ''read token could not read call'' as3 (\<lambda>_ as4.
     ask (post_req calls_path (READ e) (create_body e) ''read-only-0000001'') (\<lambda>s. s \<in> {401, 403}) ''read token mutated a call'' as4 (\<lambda>_ as5.
     ask (get_req ''/api/v1/maf/events?cursor=0&limit=1'' (READ e)) (\<lambda>s. s = 200) ''read token could not read events'' as5 (\<lambda>_ as6.
     ask (get_req (calls_path @ ''/'' @ call_id @ ''/extra'') (READ e)) (\<lambda>s. s \<in> {401, 404}) ''unsafe path was accepted'' as6 (\<lambda>_ as7.
     ask (post_req (calls_path @ ''/'' @ call_id @ ''/bridges'') (write_token e) (JObj [(''channel_ids'', JList [JStr ''a'', JStr ''b''])]) ''bridge-security-0001'')
       (\<lambda>_. True) [] as7 (\<lambda>bridge as8.
     ask (post_req (calls_path @ ''/'' @ call_id @ ''/media'') (write_token e) (JObj [(''operation'', JStr ''play''), (''resource'', JStr ''test'')]) ''media-security-0001'')
       (\<lambda>s. fst bridge = 202 \<and> s = 202) ''bridge/media command acceptance changed'' as8 (\<lambda>_ _.
     ([], Inr call_id)))))))))))"

text \<open>The exit code; the base of the URLs loses its slashes at the end.\<close>

definition base_of :: "matrix_env \<Rightarrow> string" where
  "base_of e = rev (dropWhile (\<lambda>c. c = CHR ''/'') (rev (base_url e)))"

definition security_main :: "(string \<Rightarrow> json result) \<Rightarrow> (string \<Rightarrow> string) \<Rightarrow> urlopen list \<Rightarrow> matrix_env \<Rightarrow> maf_request list \<times> int result" where
  "security_main loads decode answers e =
     (if enabled e \<noteq> Some ''1'' then ([], Inr 0)
      else if base_of e = [] \<or> length (write_token e) < 16 \<or> length (READ e) < 16 then ([], Inr 2)
      else case matrix_checks (map (request_result loads decode) answers) e of (out, r) \<Rightarrow> (out, bindE r (\<lambda>_. Inr 0)))"

subsection \<open>What a run that passes has seen\<close>

text \<open>The requests and what each may be answered with, as a table.\<close>

definition matrix_table :: "matrix_env \<Rightarrow> string \<Rightarrow> (maf_request \<times> int list) list" where
  "matrix_table e call_id =
     [(post_req calls_path (write_token e) (create_body e) (test_key e), [202]),
      (post_req calls_path (write_token e) (create_body e) (test_key e), [200, 202]),
      (post_req calls_path (write_token e) (changed_body e) (test_key e), [409]),
      (get_req (calls_path @ ''/'' @ quote call_id) (READ e), [200]),
      (post_req calls_path (READ e) (create_body e) ''read-only-0000001'', [401, 403]),
      (get_req ''/api/v1/maf/events?cursor=0&limit=1'' (READ e), [200]),
      (get_req (calls_path @ ''/'' @ call_id @ ''/extra'') (READ e), [401, 404]),
      (post_req (calls_path @ ''/'' @ call_id @ ''/bridges'') (write_token e) (JObj [(''channel_ids'', JList [JStr ''a'', JStr ''b''])]) ''bridge-security-0001'', [202]),
      (post_req (calls_path @ ''/'' @ call_id @ ''/media'') (write_token e) (JObj [(''operation'', JStr ''play''), (''resource'', JStr ''test'')]) ''media-security-0001'', [202])]"

lemma ask_Inr:
  "ask r good complaint answers k = (out, Inr y) \<longleftrightarrow>
     (\<exists>s p as rest. answers = Inr (s, p) # as \<and> good s \<and> k (s, p) as = (rest, Inr y) \<and> out = r # rest)"
proof (cases answers)
  case (Cons a as)
  then show ?thesis by (cases a) (auto simp: ask_def say_eq attempt_def)
qed (simp add: ask_def say_def)

lemma ask_step: "good (fst p) \<Longrightarrow> ask r good complaint (Inr p # as) k = (r # fst (k p as), snd (k p as))"
  by (simp add: ask_def say_def attempt_def)

lemma attempt_Ok: "attempt (Inr x) k = k x"
  by (simp add: attempt_def)

lemma call_id_of_Inr: "attempt (call_id_of p) k = (out, Inr y) \<longleftrightarrow> (\<exists>c. call_id_of p = Inr c \<and> k c = (out, Inr y))"
  by (rule attempt_Inr)

lemma matrix_checks_passes:
  "matrix_checks answers e = (out, Inr call_id) \<longleftrightarrow>
     (\<exists>results rest. answers = map Inr results @ rest \<and> out = map fst (matrix_table e call_id)
        \<and> list_all2 (\<lambda>t r. fst r \<in> set (snd t)) (matrix_table e call_id) results
        \<and> call_id_of (snd (hd results)) = Inr call_id)"
  (is "_ \<longleftrightarrow> ?table")
proof
  assume m: "matrix_checks answers e = (out, Inr call_id)"
  show ?table
    apply (rule exI [of _ "map projr (take 9 answers)"])
    apply (rule exI [of _ "drop 9 answers"])
    using m [unfolded matrix_checks_def ask_Inr call_id_of_Inr]
    apply (elim exE conjE)
    apply (simp only: fst_conv snd_conv prod.inject sum.inject)
    apply (elim conjE)
    apply hypsubst_thin
    apply (intro conjI)
    subgoal by (simp add: numeral_eq_Suc)
    subgoal by (simp add: matrix_table_def)
    subgoal by (simp add: matrix_table_def numeral_eq_Suc)
    subgoal by (simp add: numeral_eq_Suc)
    done
next
  assume ?table
  then obtain results rest where t: "answers = map Inr results @ rest" "out = map fst (matrix_table e call_id)"
      "list_all2 (\<lambda>t r. fst r \<in> set (snd t)) (matrix_table e call_id) results" "call_id_of (snd (hd results)) = Inr call_id"
    by blast
  have len: "length results = 9" using list_all2_lengthD [OF t(3)] by (simp add: matrix_table_def)
  have "\<exists>a b c d f g h i j. results = [a, b, c, d, f, g, h, i, j]"
    using len by (simp add: numeral_eq_Suc length_Suc_conv) blast
  then obtain a b c d f g h i j where r: "results = [a, b, c, d, f, g, h, i, j]" by blast
  have goods: "fst a = 202" "fst b \<in> {200, 202}" "fst c = 409" "fst d = 200" "fst f \<in> {401, 403}" "fst g = 200" "fst h \<in> {401, 404}"
      "fst i = 202" "fst j = 202"
    using t(3) by (simp_all add: r matrix_table_def)
  have id: "call_id_of (snd a) = Inr call_id" using t(4) by (simp add: r)
  show "matrix_checks answers e = (out, Inr call_id)"
    unfolding matrix_checks_def t(1,2) r
    by (simp only: ask_step goods id attempt_Ok fst_conv snd_conv matrix_table_def list.map append_Cons append_Nil simp_thms)
qed

lemma security_matrix_answers:
  assumes "enabled e = Some ''1''" and "snd (security_main loads decode answers e) = Inr 0"
  shows "\<exists>call_id results rest. map (request_result loads decode) answers = map Inr results @ rest
    \<and> list_all2 (\<lambda>t r. fst r \<in> set (snd t)) (matrix_table e call_id) results"
proof -
  obtain out r where m: "matrix_checks (map (request_result loads decode) answers) e = (out, r)" by fastforce
  obtain call_id where "r = Inr call_id" using assms m by (cases r) (auto simp: security_main_def split: if_splits)
  with m matrix_checks_passes show ?thesis by blast
qed

text \<open>C38: the verdict of the security matrix. Enabled, it ends with 0 exactly if its settings are complete and the endpoint answered its
  nine requests as the table says: the command and its repetition are accepted, the repetition with another body is refused with
  409, the read token may read the call and the events and is refused a command, a longer path is refused, and the two media
  commands are accepted. It has then sent exactly these requests.\<close>

theorem security_matrix_verdict:
  assumes "enabled e = Some ''1''"
  shows "snd (security_main loads decode answers e) = Inr 0 \<longleftrightarrow>
    base_of e \<noteq> [] \<and> 16 \<le> length (write_token e) \<and> 16 \<le> length (READ e)
    \<and> (\<exists>call_id results rest. map (request_result loads decode) answers = map Inr results @ rest
        \<and> list_all2 (\<lambda>t r. fst r \<in> set (snd t)) (matrix_table e call_id) results \<and> call_id_of (snd (hd results)) = Inr call_id
        \<and> fst (security_main loads decode answers e) = map fst (matrix_table e call_id))"
proof (cases "base_of e = [] \<or> length (write_token e) < 16 \<or> length (READ e) < 16")
  case True
  then show ?thesis using assms by (auto simp: security_main_def)
next
  case False
  obtain out r where m: "matrix_checks (map (request_result loads decode) answers) e = (out, r)" by fastforce
  have main: "security_main loads decode answers e = (out, bindE r (\<lambda>_. Inr 0))" using False assms m by (simp add: security_main_def)
  have "snd (security_main loads decode answers e) = Inr 0 \<longleftrightarrow> (\<exists>call_id. r = Inr call_id)"
    unfolding main by (cases r) auto
  also have "\<dots> \<longleftrightarrow> (\<exists>call_id. matrix_checks (map (request_result loads decode) answers) e = (out, Inr call_id))" by (simp add: m)
  also have "\<dots> \<longleftrightarrow> (\<exists>call_id results rest. map (request_result loads decode) answers = map Inr results @ rest \<and> out = map fst (matrix_table e call_id)
        \<and> list_all2 (\<lambda>t r. fst r \<in> set (snd t)) (matrix_table e call_id) results \<and> call_id_of (snd (hd results)) = Inr call_id)"
    unfolding matrix_checks_passes by blast
  finally show ?thesis using False unfolding main by (simp only: fst_conv) (auto simp: not_less)
qed

text \<open>A run that passes: the created call has the identifier \<open>call-0001\<close>.\<close>

definition sample_env :: matrix_env where
  "sample_env = \<lparr>enabled = Some ''1'', base_url = ''http://maf/'', write_token = ''0123456789abcdef'',
     read_token = Some ''fedcba9876543210'', test_key = ''k'', from_uri = ''f'', to_uri = ''t''\<rparr>"

definition sample_answers :: "urlopen list" where
  "sample_answers = [Answer 202 ''{}'', Answer 200 ''{}'', HTTPError 409 ''conflict'', Answer 200 [], HTTPError 403 [], Answer 200 [],
     HTTPError 404 [], Answer 202 [], Answer 202 []]"

definition sample_loads :: "string \<Rightarrow> json result" where
  "sample_loads raw = (if raw = ''{}'' then Inr (JObj [(''resource_id'', JStr ''call-0001'')]) else Inl JSONDecodeError)"

theorem security_matrix_verdict_witness:
  "snd (security_main sample_loads (\<lambda>raw. raw) sample_answers sample_env) = Inr 0"
proof -
  let ?results = "[(202, Json (JObj [(''resource_id'', JStr ''call-0001'')])), (200, Json (JObj [(''resource_id'', JStr ''call-0001'')])),
    (409, Text ''conflict''), (200, Json (JObj [])), (403, Json (JObj [])), (200, Json (JObj [])), (404, Json (JObj [])),
    (202, Json (JObj [])), (202, Json (JObj []))] :: (int \<times> payload) list"
  have e: "enabled sample_env = Some ''1''" "base_of sample_env \<noteq> []" "16 \<le> length (write_token sample_env)"
      "16 \<le> length (READ sample_env)"
    by (simp_all add: sample_env_def base_of_def READ_def)
  have r: "map (request_result sample_loads (\<lambda>raw. raw)) sample_answers = map Inr ?results @ []"
    by (simp add: sample_answers_def sample_loads_def request_result_def json_or_empty_def)
  have t: "list_all2 (\<lambda>t r. fst r \<in> set (snd t)) (matrix_table sample_env ''call-0001'') ?results"
    by (simp add: matrix_table_def)
  have c: "call_id_of (snd (hd ?results)) = Inr ''call-0001''"
    by (simp add: call_id_of_def resource_id_def)
  have "matrix_checks (map (request_result sample_loads (\<lambda>raw. raw)) sample_answers) sample_env
      = (map fst (matrix_table sample_env ''call-0001''), Inr ''call-0001'')"
    unfolding matrix_checks_passes using r t c by blast
  then have "fst (security_main sample_loads (\<lambda>raw. raw) sample_answers sample_env) = map fst (matrix_table sample_env ''call-0001'')"
    using e by (auto simp: security_main_def)
  with security_matrix_verdict [OF e(1), of sample_loads "\<lambda>raw. raw" sample_answers] e(2-4) r t c show ?thesis by blast
qed

text \<open>The read token is the write token if it is not set, and then the matrix cannot pass: all its requests carry one token, so an
  endpoint that accepts it never answers 401 or 403, which the fifth request has to get.\<close>

theorem one_token_never_passes:
  assumes "enabled e = Some ''1''" and "read_token e = None"
    and "list_all (\<lambda>a. case request_result loads decode a of Inr (status, _) \<Rightarrow> status \<notin> {401, 403} | Inl _ \<Rightarrow> True) answers"
  shows "snd (security_main loads decode answers e) \<noteq> Inr 0"
    and "list_all (\<lambda>r. token r = write_token e) (map fst (matrix_table e call_id))"
proof -
  show "list_all (\<lambda>r. token r = write_token e) (map fst (matrix_table e call_id))"
    using assms(2) by (simp add: matrix_table_def post_req_def get_req_def READ_def)
  show "snd (security_main loads decode answers e) \<noteq> Inr 0"
  proof
    assume "snd (security_main loads decode answers e) = Inr 0"
    with security_matrix_answers [OF assms(1)] obtain call_id results rest where
        t: "map (request_result loads decode) answers = map Inr results @ rest"
        "list_all2 (\<lambda>t r. fst r \<in> set (snd t)) (matrix_table e call_id) results"
      by blast
    have len: "length results = 9" using list_all2_lengthD [OF t(2)] by (simp add: matrix_table_def)
    then have "fst (results ! 4) \<in> set (snd (matrix_table e call_id ! 4))" using list_all2_nthD2 [OF t(2), of 4] by simp
    then have four: "fst (results ! 4) \<in> {401, 403}" by (simp add: matrix_table_def)
    have "length results \<le> length answers" using arg_cong [OF t(1), of length] by simp
    then have a: "4 < length answers" using len by simp
    have "request_result loads decode (answers ! 4) = Inr (results ! 4)"
      using arg_cong [OF t(1), of "\<lambda>xs. xs ! 4"] a len by (simp add: nth_append)
    moreover have "answers ! 4 \<in> set answers" using a by simp
    ultimately show False using assms(3) four by (cases "results ! 4") (auto simp: list_all_iff)
  qed
qed

end
