(* ===== verification/Bench_Proc.thy ===== *)
theory Bench_Proc
  imports Sip_Fuzz Bench_Certs Bench_Dialog "HOL-Library.AList"
begin

section \<open>The matrices as programs\<close>

text \<open>
  The \<open>main\<close> functions around the matrices: the environment that they give the proxy, its start, the matrix itself, and
  the \<open>finally\<close> clause that stops the proxy. What the process does is input; log files, the closing of sockets that
  cannot fail, sleeping and argument parsing are left out.
\<close>

subsection \<open>The process\<close>

text \<open>
  \<open>launch_error\<close> is what \<open>Popen\<close> raises, if anything. The other two fields say whether the process has ended when \<open>wait\<close>
  looks after the signal, also because it had ended before.
\<close>

record process =
  launch_error :: "exn option"
  dies_on_term :: bool
  dies_on_kill :: bool

type_synonym settings = "(string \<times> string) list"

datatype 'a drive = Prepared action | Launched string settings | Did 'a | Sigterm | Sigkill | Stopped string

text \<open>\<open>terminate\<close>, \<open>wait(timeout=5)\<close>, and if that times out \<open>kill\<close> and a second \<open>wait\<close>, whose exception escapes.\<close>

definition stop_proxy :: "process \<Rightarrow> 'a drive list \<times> unit result" where
  "stop_proxy p =
     (if dies_on_term p then ([Sigterm], Inr ())
      else ([Sigterm, Sigkill], if dies_on_kill p then Inr () else Inl TimeoutExpired))"

text \<open>\<open>try\<close> with \<open>finally\<close>: the clean-up comes last, and its exception takes the place of the result.\<close>

definition finally_do :: "'e list \<times> 'a result \<Rightarrow> 'e list \<times> unit result \<Rightarrow> 'e list \<times> 'a result" where
  "finally_do m c = (fst m @ fst c, case snd c of Inl e \<Rightarrow> Inl e | Inr _ \<Rightarrow> snd m)"

text \<open>The start is outside the \<open>try\<close>. \<open>stops\<close> are the peers that the driver stops after the proxy.\<close>

definition with_proxy :: "string \<Rightarrow> settings \<Rightarrow> process \<Rightarrow> string list \<Rightarrow> 'a list \<times> 'b result \<Rightarrow> 'a drive list \<times> 'b result" where
  "with_proxy binary env p stops body =
     (case launch_error p of
        Some e \<Rightarrow> ([], Inl e)
      | None \<Rightarrow>
          say [Launched binary env]
            (finally_do (map Did (fst body), snd body)
              (andThen (stop_proxy p) (\<lambda>_. (map Stopped stops, Inr ())))))"

text \<open>\<open>SystemExit(main())\<close>: 0 if \<open>main\<close> returns, 1 for an exception, whether it is printed by the program or by Python.\<close>

definition exit_code :: "'b result \<Rightarrow> int" where
  "exit_code r = (case r of Inl _ \<Rightarrow> 1 | Inr _ \<Rightarrow> 0)"

subsection \<open>Environments\<close>

definition env_update :: "settings \<Rightarrow> settings \<Rightarrow> settings" where
  "env_update env new = fold (\<lambda>(k, v). AList.update k v) new env"

definition getenv :: "settings \<Rightarrow> string \<Rightarrow> string \<Rightarrow> string" where
  "getenv env k fallback = (case map_of env k of None \<Rightarrow> fallback | Some v \<Rightarrow> v)"

definition transport_settings :: "int \<Rightarrow> settings \<Rightarrow> settings" where
  "transport_settings base environ = env_update environ
     [(''SIP_UDP_PORT'', dec_str base), (''SIP_TLS_PORT'', dec_str (base + 1)), (''SIP_WSS_PORT'', dec_str (base + 2)),
      (''SIP_ADMIN_PORT'', dec_str (base + 20)), (''SIP_ADMIN_TOKEN'', ''transport-matrix-admin-token''),
      (''SIP_UDP_WORKERS'', getenv environ ''MADIS_MATRIX_UDP_WORKERS'' ''2''), (''SIP_TCP_WORKERS'', ''1'')]"

definition tls_settings :: "int \<Rightarrow> string \<times> string \<Rightarrow> string \<times> string \<Rightarrow> settings \<Rightarrow> settings" where
  "tls_settings base base_pair alt_pair environ = env_update environ
     [(''SIP_UDP_PORT'', dec_str base), (''SIP_TLS_PORT'', dec_str (base + 1)), (''SIP_WSS_PORT'', dec_str (base + 2)),
      (''SIP_ADMIN_PORT'', dec_str (base + 20)), (''SIP_ADMIN_TOKEN'', ''tls-ipv6-matrix-admin-token''),
      (''SIP_UDP_WORKERS'', ''1''), (''SIP_TCP_WORKERS'', ''1''), (''SIP_IPV6'', ''1''),
      (''SIP_TLS_CERT'', fst base_pair), (''SIP_TLS_KEY'', snd base_pair),
      (''SIP_TLS_SNI'', ''alt.test='' @ fst alt_pair @ '':'' @ snd alt_pair)]"

definition abnf_settings :: "int \<Rightarrow> settings \<Rightarrow> settings" where
  "abnf_settings base environ = env_update environ
     [(''SIP_UDP_PORT'', dec_str base), (''SIP_TLS_PORT'', dec_str (base + 1)), (''SIP_WSS_PORT'', dec_str (base + 2)),
      (''SIP_ADMIN_PORT'', dec_str (base + 20)), (''SIP_ADMIN_TOKEN'', ''abnf-matrix-admin-token''),
      (''SIP_UDP_WORKERS'', ''1''), (''SIP_TCP_WORKERS'', ''1'')]"

definition fuzz_settings :: "int \<Rightarrow> settings \<Rightarrow> settings" where
  "fuzz_settings base environ = env_update environ
     [(''SIP_UDP_PORT'', dec_str base), (''SIP_TLS_PORT'', dec_str (base + 1)), (''SIP_WSS_PORT'', dec_str (base + 2)),
      (''SIP_ADMIN_PORT'', dec_str (base + 20)), (''SIP_ADMIN_TOKEN'', ''fuzz-admin-token''),
      (''SIP_UDP_WORKERS'', getenv environ ''SIP_UDP_WORKERS'' ''2''), (''SIP_TCP_WORKERS'', getenv environ ''SIP_TCP_WORKERS'' ''1'')]"

definition fault_settings :: "int \<Rightarrow> settings \<Rightarrow> settings" where
  "fault_settings base environ = env_update environ
     [(''SIP_UDP_PORT'', dec_str base), (''SIP_TLS_PORT'', dec_str (base + 1)), (''SIP_WSS_PORT'', dec_str (base + 2)),
      (''SIP_ADMIN_PORT'', dec_str (base + 20)), (''SIP_ADMIN_TOKEN'', ''fault-matrix-admin-token''),
      (''SIP_UDP_WORKERS'', ''1''), (''SIP_TCP_WORKERS'', ''1''), (''SIP_ALLOW_PRIVATE_TARGETS'', ''1'')]"

definition wss_settings :: "int \<Rightarrow> string \<Rightarrow> settings \<Rightarrow> settings" where
  "wss_settings base ca environ = env_update environ
     [(''SIP_UDP_PORT'', dec_str base), (''SIP_TLS_PORT'', dec_str (base + 1)), (''SIP_WSS_PORT'', dec_str (base + 2)),
      (''SIP_ADMIN_PORT'', dec_str (base + 20)), (''SIP_ADMIN_TOKEN'', ''wss-matrix-admin-token''),
      (''SIP_UDP_WORKERS'', ''1''), (''SIP_TCP_WORKERS'', ''1''), (''SIP_IPV6'', ''0''), (''SIP_UPSTREAM_CA'', ca),
      (''SIP_UPSTREAM_TLS_INSECURE'', ''0''), (''SIP_ALLOW_FOREIGN_CONTACT'', ''1''), (''SIP_ALLOW_PRIVATE_TARGETS'', ''1'')]"

text \<open>The BYE regression starts from an empty environment.\<close>

definition bye_settings :: "int \<Rightarrow> settings \<Rightarrow> settings" where
  "bye_settings base environ =
     [(''PATH'', getenv environ ''PATH'' ''/usr/bin:/bin''), (''SIP_DB_URL'', []), (''SIP_BIND_IP'', ''127.0.0.1''), (''SIP_IPV6'', ''0''),
      (''SIP_UDP_PORT'', dec_str base), (''SIP_TCP_PORT'', dec_str base), (''SIP_TLS_PORT'', dec_str (base + 3)),
      (''SIP_ADMIN_PORT'', dec_str (base + 4)), (''SIP_WSS_PORT'', dec_str (base + 5)), (''SIP_ADMIN_TOKEN'', ''isolated-bye-test''),
      (''SIP_UDP_WORKERS'', ''1''), (''SIP_ALLOW_PRIVATE_TARGETS'', ''1''), (''SIP_USER_RATE_LIMIT'', ''1000000'')]"

subsection \<open>The programs\<close>

definition transport_driver ::
  "string \<Rightarrow> int \<Rightarrow> settings \<Rightarrow> process \<Rightarrow> bytes \<Rightarrow> http_answer result list \<Rightarrow> chunks list \<Rightarrow> (int \<times> json) result
    \<Rightarrow> string drive list \<times> unit result" where
  "transport_driver binary base environ p key polls conns health =
     with_proxy binary (transport_settings base environ) p [] (transport_matrix key (base + 2) polls conns health)"

text \<open>The commands and files of \<open>make_certificates\<close>, as far as the first that fails.\<close>

fun prepare :: "(action \<Rightarrow> exn option) \<Rightarrow> action list \<Rightarrow> 'a drive list \<times> unit result" where
  "prepare fails [] = ([], Inr ())"
| "prepare fails (a # as) =
     (case fails a of Some e \<Rightarrow> ([], Inl e) | None \<Rightarrow> say [Prepared a] (prepare fails as))"

definition tls_driver ::
  "string option \<Rightarrow> bool \<Rightarrow> string \<Rightarrow> (action \<Rightarrow> exn option) \<Rightarrow> string \<Rightarrow> int \<Rightarrow> settings \<Rightarrow> process \<Rightarrow> http_answer result list
    \<Rightarrow> string list \<Rightarrow> chunks list \<Rightarrow> unit result option \<Rightarrow> string drive list \<times> unit result" where
  "tls_driver openssl ipv6 directory fails binary base environ p polls names conns mismatch =
     (case openssl of
        None \<Rightarrow> ([], snd (tls_matrix False ipv6 polls names conns mismatch))
      | Some program \<Rightarrow>
          if \<not> ipv6 then ([], snd (tls_matrix True False polls names conns mismatch))
          else case tls_certificates program directory of (plan, ca, base_pair, alt_pair) \<Rightarrow>
            andThen (prepare fails plan) (\<lambda>_.
              with_proxy binary (tls_settings base base_pair alt_pair environ) p [] (tls_matrix True True polls names conns mismatch)))"

definition abnf_driver ::
  "string \<Rightarrow> int \<Rightarrow> settings \<Rightarrow> process \<Rightarrow> http_answer result list \<Rightarrow> chunks \<Rightarrow> string drive list \<times> unit result" where
  "abnf_driver binary base environ p polls conn =
     with_proxy binary (abnf_settings base environ) p [] (corpus_run polls conn)"

definition fuzz_driver ::
  "string \<Rightarrow> int \<Rightarrow> settings \<Rightarrow> process \<Rightarrow> int \<Rightarrow> http_answer result list \<Rightarrow> fuzz_turn list \<Rightarrow> bool \<Rightarrow> delivery drive list \<times> unit result" where
  "fuzz_driver binary base environ p iterations polls turns survived =
     (if iterations < 1 then ([], Inl (ValueError ''iterations must be positive''))
      else with_proxy binary (fuzz_settings base environ) p [] (fuzz_main iterations polls turns survived))"

text \<open>\<open>scale\<close> is \<open>FAULT_TIMING_SCALE\<close> as \<open>float\<close> reads it: whether it is positive, or the exception.\<close>

definition fault_driver ::
  "string \<Rightarrow> int \<Rightarrow> settings \<Rightarrow> process \<Rightarrow> bool result \<Rightarrow> http_answer result list \<Rightarrow> fault_world \<Rightarrow> string drive list \<times> unit result" where
  "fault_driver binary base environ p scale polls w =
     attempt scale (\<lambda>positive.
       if \<not> positive then ([], Inl (ValueError ''FAULT_TIMING_SCALE must be positive''))
       else with_proxy binary (fault_settings base environ) p [''FaultUas'']
         (attempt (wait_ready ready_status polls) (\<lambda>_. fault_main (base + 10) w)))"

text \<open>\<open>started\<close> is the outcome of \<open>WssFixture.start\<close>.\<close>

definition wss_driver ::
  "string option \<Rightarrow> string \<Rightarrow> (action \<Rightarrow> exn option) \<Rightarrow> unit result \<Rightarrow> string \<Rightarrow> int \<Rightarrow> settings \<Rightarrow> process \<Rightarrow> http_answer result list
    \<Rightarrow> nat \<Rightarrow> WssFixture \<Rightarrow> bool \<Rightarrow> bool \<Rightarrow> chunks \<Rightarrow> string drive list \<times> unit result" where
  "wss_driver openssl directory fails started binary base environ p polls turns seen acked ended cs =
     (case openssl of
        None \<Rightarrow> ([], Inl (RuntimeError ''openssl is required for WSS certificate validation''))
      | Some program \<Rightarrow>
          (case wss_certificates program directory of (plan, ca, cert, key) \<Rightarrow>
             andThen (prepare fails plan) (\<lambda>_.
             attempt started (\<lambda>_.
               with_proxy binary (wss_settings base ca environ) p [''WssFixture'']
                 (attempt (wait_ready ready_json polls) (\<lambda>_. run_steps (exercise_steps (base + 10) turns seen acked ended) [] cs))))))"

text \<open>
  The BYE regression writes its trace before it stops the proxy (\<open>written\<close> is the outcome), signals it only if it is
  alive (\<open>up\<close>), and after SIGKILL waits without a limit, so that it may not return (\<open>None\<close>).
\<close>

definition bye_stop :: "unit result \<Rightarrow> bool \<Rightarrow> process \<Rightarrow> 'a drive list \<times> unit result option" where
  "bye_stop written up p =
     (case written of
        Inl e \<Rightarrow> ([], Some (Inl e))
      | Inr _ \<Rightarrow>
          if \<not> up then ([], Some (Inr ()))
          else if dies_on_term p then ([Sigterm], Some (Inr ()))
          else ([Sigterm, Sigkill], if dies_on_kill p then Some (Inr ()) else None))"

definition bye_driver ::
  "string \<Rightarrow> int \<Rightarrow> settings \<Rightarrow> process \<Rightarrow> bye_world \<Rightarrow> unit result \<Rightarrow> bool \<Rightarrow> sent drive list \<times> int option" where
  "bye_driver binary base environ p w written up =
     (case launch_error p of
        Some e \<Rightarrow> ([], Some 1)
      | None \<Rightarrow>
          (case (bye_run base w, bye_stop written up p) of
             ((out, r), (rest, s)) \<Rightarrow>
               (Launched binary (bye_settings base environ) # map Did out @ rest,
                case s of
                  None \<Rightarrow> None
                | Some (Inl _) \<Rightarrow> Some 1
                | Some (Inr _) \<Rightarrow> Some (case r of Inl _ \<Rightarrow> 1 | Inr res \<Rightarrow> if valid res then 0 else 1))))"

subsection \<open>The proxy is stopped\<close>

text \<open>Whether the process is running after these events.\<close>

fun running :: "process \<Rightarrow> bool \<Rightarrow> 'a drive list \<Rightarrow> bool" where
  "running p r [] = r"
| "running p r (Launched _ _ # es) = running p True es"
| "running p r (Sigterm # es) = running p (r \<and> \<not> dies_on_term p) es"
| "running p r (Sigkill # es) = running p (r \<and> \<not> dies_on_kill p) es"
| "running p r (_ # es) = running p r es"

lemma running_append: "running p r (es @ fs) = running p (running p r es) fs"
  by (induction p r es rule: running.induct) simp_all

lemma running_Did [simp]: "running p r (map Did out) = r"
  by (induction out) simp_all

lemma running_Stopped [simp]: "running p r (map Stopped names) = r"
  by (induction names) simp_all

text \<open>A run is tidy if it leaves the process running only in the one case that nothing can be done about, and says so.\<close>

definition tidy :: "process \<Rightarrow> 'a drive list \<times> 'b result \<Rightarrow> bool" where
  "tidy p run \<longleftrightarrow> (running p False (fst run) \<longrightarrow> snd run = Inl TimeoutExpired \<and> \<not> dies_on_kill p)"

lemmas proc_defs = with_proxy_def finally_do_def stop_proxy_def andThen_def attempt_def say_def

lemma tidy_with_proxy: "tidy p (with_proxy binary env p stops body)"
  by (auto simp: tidy_def proc_defs running_append split: option.split sum.split if_splits)

lemma prepare_not_running: "running p r (fst (prepare fails plan)) = r"
  by (induction fails plan rule: prepare.induct) (auto simp: say_def split: option.split)

lemma tidy_prepare: "(\<And>x. tidy p (k x)) \<Longrightarrow> tidy p (andThen (prepare fails plan) k)"
  by (auto simp: tidy_def andThen_def say_def attempt_def running_append prepare_not_running split: sum.split)

lemma tidy_attempt: "(\<And>x. tidy p (k x)) \<Longrightarrow> tidy p (attempt r k)"
  by (simp add: attempt_def tidy_def split: sum.split)

lemma tidy_Nil: "tidy p ([], r)"
  by (simp add: tidy_def)

text \<open>No matrix leaves its proxy behind. Whatever the process does, when a program ends the proxy has ended too, also if the matrix
  raised, unless the process outlives SIGKILL for five seconds, and then the program ends with that exception.\<close>

theorem matrices_leave_no_proxy:
  shows "tidy p (transport_driver binary base environ p key polls conns health)
    \<and> tidy p (tls_driver openssl ipv6 directory fails binary base environ p polls names conns mismatch)
    \<and> tidy p (abnf_driver binary base environ p polls cs)
    \<and> tidy p (fuzz_driver binary base environ p iterations polls fuzz_turns survived)
    \<and> tidy p (fault_driver binary base environ p scale polls w)
    \<and> tidy p (wss_driver openssl directory fails started binary base environ p polls turns seen acked ended cs)"
  by (auto simp: transport_driver_def tls_driver_def abnf_driver_def fuzz_driver_def fault_driver_def wss_driver_def Let_def
      intro!: tidy_with_proxy tidy_prepare tidy_attempt tidy_Nil split: option.split prod.split)

text \<open>The BYE regression does, if it cannot write its trace: the signal is after it.\<close>

theorem bye_leaves_the_proxy:
  assumes "launch_error p = None"
  shows "running p False (fst (bye_driver binary base environ p w (Inl e) True))
    \<and> snd (bye_driver binary base environ p w (Inl e) True) = Some 1"
  using assms by (simp add: bye_driver_def bye_stop_def split_beta)

theorem bye_leaves_the_proxy_witness:
  "running \<lparr>launch_error = None, dies_on_term = True, dies_on_kill = True\<rparr> False
     (fst (bye_driver ''./main'' 18760 [] \<lparr>launch_error = None, dies_on_term = True, dies_on_kill = True\<rparr> w (Inl OSError) True))"
  using bye_leaves_the_proxy [of "\<lparr>launch_error = None, dies_on_term = True, dies_on_kill = True\<rparr>"] by simp

subsection \<open>Exit codes\<close>

definition manageable :: "process \<Rightarrow> bool" where
  "manageable p \<longleftrightarrow> launch_error p = None \<and> (dies_on_term p \<or> dies_on_kill p)"

lemma with_proxy_Inr: "snd (with_proxy binary env p stops body) = Inr x \<longleftrightarrow> manageable p \<and> snd body = Inr x"
  by (auto simp: proc_defs manageable_def split: option.split sum.split if_splits)

lemma snd_attempt_Inr: "snd (attempt r k) = Inr y \<longleftrightarrow> (\<exists>x. r = Inr x \<and> snd (k x) = Inr y)"
  by (auto simp: attempt_def split: sum.split)

lemma snd_andThen_Inr: "snd (andThen m k) = Inr y \<longleftrightarrow> (\<exists>x. snd m = Inr x \<and> snd (k x) = Inr y)"
  by (auto simp: andThen_def say_def snd_attempt_Inr)

lemma prepare_Inr: "snd (prepare fails plan) = Inr () \<longleftrightarrow> list_all (\<lambda>a. fails a = None) plan"
  by (induction fails plan rule: prepare.induct) (auto simp: say_def split: option.split)

lemma exit_code_0: "exit_code (r :: unit result) = 0 \<longleftrightarrow> r = Inr ()"
  by (cases r) (simp_all add: exit_code_def)

text \<open>The exit code of a matrix is its verdict. It is 0 exactly if the process could be started and stopped and the matrix passed
  on it; for the matrices that prepare something before, also that is done, the certificates with every command and file
  of their plan.\<close>

theorem matrices_exit_codes:
  shows "(exit_code (snd (transport_driver binary base environ p key polls conns health)) = 0 \<longleftrightarrow>
      manageable p \<and> snd (transport_matrix key (base + 2) polls conns health) = Inr ())
    \<and> (exit_code (snd (tls_driver openssl ipv6 directory fails binary base environ p polls names conns mismatch)) = 0 \<longleftrightarrow>
      (\<exists>program. openssl = Some program \<and> list_all (\<lambda>a. fails a = None) (fst (tls_certificates program directory)))
      \<and> manageable p \<and> snd (tls_matrix True ipv6 polls names conns mismatch) = Inr ())
    \<and> (exit_code (snd (abnf_driver binary base environ p polls cs)) = 0 \<longleftrightarrow> manageable p \<and> snd (corpus_run polls cs) = Inr ())
    \<and> (exit_code (snd (fuzz_driver binary base environ p iterations polls fuzz_turns survived)) = 0 \<longleftrightarrow>
      manageable p \<and> snd (fuzz_main iterations polls fuzz_turns survived) = Inr ())
    \<and> (exit_code (snd (fault_driver binary base environ p scale polls w)) = 0 \<longleftrightarrow>
      scale = Inr True \<and> manageable p \<and> wait_ready ready_status polls = Inr () \<and> snd (fault_main (base + 10) w) = Inr ())
    \<and> (exit_code (snd (wss_driver openssl directory fails started binary base environ p polls turns seen acked ended cs)) = 0 \<longleftrightarrow>
      (\<exists>program. openssl = Some program \<and> list_all (\<lambda>a. fails a = None) (fst (wss_certificates program directory)))
      \<and> started = Inr () \<and> manageable p \<and> wait_ready ready_json polls = Inr ()
      \<and> snd (run_steps (exercise_steps (base + 10) turns seen acked ended) [] cs) = Inr ())"
    (is "?transport \<and> ?tls \<and> ?abnf \<and> ?fuzz \<and> ?fault \<and> ?wss")
proof -
  have ?transport by (simp add: exit_code_0 transport_driver_def with_proxy_Inr)
  moreover have "snd (tls_matrix False i a b c d) \<noteq> Inr ()" "snd (tls_matrix True False a b c d) \<noteq> Inr ()" for i a b c d
    by (simp_all add: tls_matrix_def)
  then have ?tls
    by (cases ipv6) (simp_all add: exit_code_0 tls_driver_def snd_andThen_Inr prepare_Inr with_proxy_Inr split_beta split: option.split)
  moreover have ?abnf by (simp add: exit_code_0 abnf_driver_def with_proxy_Inr)
  moreover have ?fuzz by (simp add: exit_code_0 fuzz_driver_def with_proxy_Inr fuzz_main_def)
  moreover have ?fault by (auto simp: exit_code_0 fault_driver_def snd_attempt_Inr with_proxy_Inr)
  moreover have ?wss
    by (auto simp: exit_code_0 wss_driver_def snd_andThen_Inr prepare_Inr snd_attempt_Inr with_proxy_Inr split_beta split: option.split)
  ultimately show ?thesis by blast
qed

subsection \<open>Ports\<close>

lemma map_of_env_update: "map_of (env_update env new) k = (case map_of (rev new) k of None \<Rightarrow> map_of env k | Some v \<Rightarrow> Some v)"
proof (induction new arbitrary: env)
  case (Cons kv new)
  then show ?case
    by (cases kv) (simp add: env_update_def update_conv' map_add_def split: option.split)
qed (simp add: env_update_def)

text \<open>The ports of the proxy in an environment; 0 if a setting is missing or no number.\<close>

definition port_of :: "settings \<Rightarrow> string \<Rightarrow> int" where
  "port_of env k = (case map_of env k of None \<Rightarrow> 0 | Some v \<Rightarrow> (case py_int v of None \<Rightarrow> 0 | Some n \<Rightarrow> n))"

text \<open>UDP and TCP ports are apart. The proxy serves TCP on its UDP port, where the matrices look for it.\<close>

datatype sock_kind = DGRAM | STREAM

definition proxy_ports :: "settings \<Rightarrow> (sock_kind \<times> int) list" where
  "proxy_ports env =
     (DGRAM, port_of env ''SIP_UDP_PORT'')
     # map (\<lambda>k. (STREAM, port_of env k)) [''SIP_UDP_PORT'', ''SIP_TLS_PORT'', ''SIP_WSS_PORT'', ''SIP_ADMIN_PORT'']"

text \<open>The ports that a matrix needs: those of its proxy and those that its own peers and clients bind.\<close>

definition needed_ports :: "int \<Rightarrow> settings \<Rightarrow> string \<times> string \<Rightarrow> string \<times> string \<Rightarrow> string \<Rightarrow> (sock_kind \<times> int) list list" where
  "needed_ports base environ base_pair alt_pair ca =
     [proxy_ports (transport_settings base environ), proxy_ports (tls_settings base base_pair alt_pair environ),
      proxy_ports (abnf_settings base environ), proxy_ports (fuzz_settings base environ),
      proxy_ports (fault_settings base environ) @ [(DGRAM, base + 10), (DGRAM, 5099)],
      proxy_ports (wss_settings base ca environ) @ [(STREAM, base + 10)],
      proxy_ports (bye_settings base environ) @ [(DGRAM, base + 1), (DGRAM, base + 2)]]"

definition ports_from :: "int \<Rightarrow> int \<Rightarrow> int \<Rightarrow> int \<Rightarrow> (sock_kind \<times> int) list" where
  "ports_from udp tls wss admin = [(DGRAM, udp), (STREAM, udp), (STREAM, tls), (STREAM, wss), (STREAM, admin)]"

lemma proxy_ports_settings:
  assumes "0 \<le> base" and "base + 20 < 10 ^ MAX_STR_DIGITS"
  shows "proxy_ports (transport_settings base environ) = ports_from base (base + 1) (base + 2) (base + 20)"
    "proxy_ports (tls_settings base base_pair alt_pair environ) = ports_from base (base + 1) (base + 2) (base + 20)"
    "proxy_ports (abnf_settings base environ) = ports_from base (base + 1) (base + 2) (base + 20)"
    "proxy_ports (fuzz_settings base environ) = ports_from base (base + 1) (base + 2) (base + 20)"
    "proxy_ports (fault_settings base environ) = ports_from base (base + 1) (base + 2) (base + 20)"
    "proxy_ports (wss_settings base ca environ) = ports_from base (base + 1) (base + 2) (base + 20)"
    "proxy_ports (bye_settings base environ) = ports_from base (base + 3) (base + 5) (base + 4)"
  using assms
  by (simp_all add: proxy_ports_def ports_from_def port_of_def transport_settings_def tls_settings_def abnf_settings_def fuzz_settings_def
      fault_settings_def wss_settings_def bye_settings_def map_of_env_update py_int_dec_str)


lemma port_digits: "(18980 :: int) < 10 ^ MAX_STR_DIGITS"
proof -
  have "(10 :: int) ^ 5 \<le> 10 ^ MAX_STR_DIGITS" by (rule power_increasing) (simp_all add: MAX_STR_DIGITS_def)
  then show ?thesis by simp
qed


end
