(* ===== verification/Bench_Compare.thy ===== *)
theory Bench_Compare
  imports Bench_Measure Bench_Proc
begin

section \<open>A comparison run\<close>

text \<open>
  \<open>run\<close> of \<^verbatim>\<open>bench/compare_opensips.py\<close>: the check of the fixed listeners, the three processes (proxy, callee, caller), the
  registration, the sampling until the caller ends, the verdict, and the \<open>finally\<close> clause that ends every process that was
  started. What the processes and the system do is input. Left out are the files that are written, sleeping, and what the
  report has beside the verdict; a process that gets SIGKILL is taken to end.
\<close>

subsection \<open>The listeners\<close>

definition bench_listeners :: "(sock_kind \<times> int) list" where
  "bench_listeners = map (Pair DGRAM) [15060, 15070, 15071, 15080, 15081] @ map (Pair STREAM) [15060, 15061, 18080, 18443]"

text \<open>All are held until the last is bound, and then closed.\<close>

fun bind_all :: "(sock_kind \<times> int \<Rightarrow> exn option) \<Rightarrow> (sock_kind \<times> int) list \<Rightarrow> unit result" where
  "bind_all fails [] = Inr ()"
| "bind_all fails (l # ls) = (case fails l of Some e \<Rightarrow> Inl e | None \<Rightarrow> bind_all fails ls)"

definition compare_settings :: "string \<Rightarrow> settings \<Rightarrow> settings" where
  "compare_settings token environ = env_update environ
     [(''SIP_DB_URL'', []), (''SIP_BIND_IP'', ''127.0.0.1''), (''SIP_IPV6'', ''0''), (''SIP_UDP_PORT'', ''15060''), (''SIP_TCP_PORT'', ''15060''),
      (''SIP_TLS_PORT'', ''15061''), (''SIP_WSS_PORT'', ''18443''), (''SIP_ADMIN_PORT'', ''18080''), (''SIP_ADMIN_TOKEN'', token),
      (''SIP_LOG_LEVEL'', ''error''), (''SIP_UDP_WORKERS'', ''1''), (''SIP_ALLOW_PRIVATE_TARGETS'', ''1''),
      (''SIP_USER_RATE_LIMIT'', ''1000000'')]"

subsection \<open>The commands\<close>

text \<open>\<open>modules\<close> is set for OpenSIPS, and then its configuration is written and used.\<close>

record compare_args =
  candidate :: string
  modules :: "string option"
  sipp :: string
  here :: string
  directory :: string
  call_rate :: int
  seconds :: int
  idle_seconds :: int

definition expected_calls :: "compare_args \<Rightarrow> int" where
  "expected_calls a = call_rate a * seconds a"

definition proxy_command :: "compare_args \<Rightarrow> string list" where
  "proxy_command a =
     (case modules a of
        None \<Rightarrow> [candidate a]
      | Some _ \<Rightarrow> [candidate a, ''-F'', ''-m'', ''256'', ''-M'', ''16'', ''-f'', directory a @ ''/opensips.cfg'', ''-w'', directory a])"

definition common_args :: "compare_args \<Rightarrow> string list" where
  "common_args a =
     [''-i'', ''127.0.0.1'', ''-m'', dec_str (expected_calls a), ''-nostdin'', ''-trace_stat'', ''-fd'', ''1'', ''-trace_err'', ''-timeout'',
      dec_str (seconds a + 15), ''-timeout_error'', ''-buff_size'', ''1048576'', ''-ci'', ''127.0.0.1'']"

definition callee_command :: "compare_args \<Rightarrow> string list" where
  "callee_command a =
     [sipp a, ''-sf'', here a @ ''/compare_uas.xml'', ''-p'', ''15070'', ''-cp'', ''15080'', ''-stf'', directory a @ ''/uas.csv''] @ common_args a"

definition caller_command :: "compare_args \<Rightarrow> string list" where
  "caller_command a =
     [sipp a, ''127.0.0.1:15060'', ''-sf'', here a @ ''/compare_uac.xml'', ''-p'', ''15071'', ''-cp'', ''15081'', ''-r'', dec_str (call_rate a),
      ''-l'', dec_str (max (expected_calls a) 100), ''-stf'', directory a @ ''/uac.csv'', ''-trace_rtt'', ''-rtt_freq'', ''10000''] @ common_args a"

text \<open>The registration of the callee; \<open>ident\<close> is \<open>uuid4().hex\<close>.\<close>

definition compare_registration :: "string \<Rightarrow> int \<Rightarrow> string" where
  "compare_registration ident p =
     sip_request ''REGISTER sip:mako.local SIP/2.0''
       [(''Via'', ''SIP/2.0/UDP 127.0.0.1:'' @ dec_str p @ '';branch=z9hG4bK'' @ ident @ '';rport''),
        (''From'', ''<sip:bench@mako.local>;tag=registration''), (''To'', ''<sip:bench@mako.local>''), (''Call-ID'', ident),
        (''CSeq'', ''1 REGISTER''), (''Contact'', ''<sip:bench@127.0.0.1:15070>''), (''Expires'', ''3600''), (''Max-Forwards'', ''70''),
        (''Content-Length'', ''0'')]"

subsection \<open>The run\<close>

text \<open>
  What happens around a run. \<open>turns\<close> are the turns of the sampling loop: the lines of \<^verbatim>\<open>/proc/net/udp\<close> and the exit code
  of the caller if it has ended; the last turn without one is the one that finds the deadline passed. \<open>callee_exit\<close> is \<open>None\<close> if
  the callee does not end within its time. \<open>stubborn\<close> are the processes that outlive SIGTERM for five seconds.
\<close>

record compare_world =
  bind_error :: "sock_kind \<times> int \<Rightarrow> exn option"
  spawn_error :: "string \<Rightarrow> exn option"
  early_exit :: bool
  reg_ident :: string
  reg_port :: int
  replies :: "string result list"
  stat_before :: "string list"
  stat_after :: "string list"
  turns :: "(string list \<times> int option) list"
  callee_exit :: "int option"
  caller_rows :: "(string \<times> string option) list list"
  callee_rows :: "(string \<times> string option) list list"
  rtt_values :: "rat list"
  up_at_end :: bool
  up_after_idle :: bool
  stubborn :: "string set"

datatype compare_event = Start string "string list" settings | Register string | Term string | Kill string

definition start :: "compare_world \<Rightarrow> settings \<Rightarrow> string \<Rightarrow> int \<Rightarrow> string list
    \<Rightarrow> compare_event list \<times> 'a result \<Rightarrow> compare_event list \<times> 'a result" where
  "start w env name cpu command k =
     (case spawn_error w name of
        Some e \<Rightarrow> ([], Inl e)
      | None \<Rightarrow> say [Start name ([''taskset'', ''-c'', dec_str cpu] @ command) env] k)"

fun watch_caller :: "(string list \<times> int option) list \<Rightarrow> (string \<times> udp_peak) list \<Rightarrow> (int \<times> (string \<times> udp_peak) list) result" where
  "watch_caller [] peaks = Inl (RuntimeError ''Caller exceeded its shutdown deadline'')"
| "watch_caller ((lines, rc) # ts) peaks =
     bindE (sample_udp lines peaks) (\<lambda>peaks'.
       case rc of Some code \<Rightarrow> Inr (code, peaks') | None \<Rightarrow> watch_caller ts peaks')"

text \<open>What follows the end of the caller: the files, the verdict, and the processor shares, which may raise.\<close>

definition compare_result :: "compare_args \<Rightarrow> compare_world \<Rightarrow> (string \<times> int list) list \<Rightarrow> int \<times> (string \<times> udp_peak) list \<Rightarrow> opensips_run result" where
  "compare_result a w before ended =
     bindE (cpu_snapshot (stat_after w) []) (\<lambda>after.
     bindE (case callee_exit w of None \<Rightarrow> Inl TimeoutExpired | Some rc \<Rightarrow> Inr rc) (\<lambda>uas.
     bindE (stats (caller_rows w)) (\<lambda>caller_stats.
     bindE (stats (callee_rows w)) (\<lambda>callee_stats.
     bindE (cpu_usage before after) (\<lambda>_.
       Inr \<lparr>uac_rc = fst ended, uas_rc = uas, proxy_alive = up_at_end w, rtt_samples = rtt_values w, socket_samples = snd ended,
            caller = caller_stats, callee = callee_stats, alive_after_idle = up_after_idle w\<rparr>)))))"

definition compare_body :: "compare_args \<Rightarrow> settings \<Rightarrow> compare_world \<Rightarrow> compare_event list \<times> opensips_run result" where
  "compare_body a env w =
     start w env ''proxy'' 2 (proxy_command a) (
     start w env ''uas'' 4 (callee_command a) (
     if early_exit w then ([], Inl (RuntimeError ''Candidate or callee exited during startup; inspect logs''))
     else case compare_register (replies w) of (n, outcome) \<Rightarrow>
       say (replicate n (Register (compare_registration (reg_ident w) (reg_port w)))) (
       attempt outcome (\<lambda>_.
       attempt (cpu_snapshot (stat_before w) []) (\<lambda>before.
       start w env ''uac'' 3 (caller_command a) (
       attempt (watch_caller (turns w) []) (\<lambda>ended.
       ([], compare_result a w before ended))))))))"

text \<open>The processes that were started, the latest first.\<close>

fun started :: "compare_event list \<Rightarrow> string list" where
  "started [] = []"
| "started (Start name _ _ # es) = started es @ [name]"
| "started (_ # es) = started es"

definition end_all :: "compare_world \<Rightarrow> string list \<Rightarrow> compare_event list" where
  "end_all w names = map Term names @ map Kill (filter (\<lambda>n. n \<in> stubborn w) names)"

definition compare_run :: "compare_args \<Rightarrow> string \<Rightarrow> settings \<Rightarrow> compare_world \<Rightarrow> compare_event list \<times> bool result" where
  "compare_run a token environ w =
     attempt (bind_all (bind_error w) bench_listeners) (\<lambda>_.
       case compare_body a (compare_settings token environ) w of
         (out, r) \<Rightarrow> (out @ end_all w (started out), bindE r (\<lambda>res. Inr (result_valid (expected_calls a) res))))"

text \<open>The exit code; \<open>needs_modules\<close> says that the kind is OpenSIPS. \<open>parser.error\<close> ends with 2.\<close>

definition compare_main :: "bool \<Rightarrow> compare_args \<Rightarrow> string \<Rightarrow> settings \<Rightarrow> compare_world \<Rightarrow> compare_event list \<times> int" where
  "compare_main needs_modules a token environ w =
     (if call_rate a \<le> 0 \<or> seconds a \<le> 0 \<or> idle_seconds a < 0 \<or> (needs_modules \<and> modules a = None) then ([], 2)
      else case compare_run a token environ w of
        (out, r) \<Rightarrow> (out, case r of Inr True \<Rightarrow> 0 | _ \<Rightarrow> 1))"

subsection \<open>Every process is ended\<close>

fun signals :: "compare_event \<Rightarrow> bool" where
  "signals (Term _) = True"
| "signals (Kill _) = True"
| "signals _ = False"

lemma started_append: "started (es @ fs) = started fs @ started es"
  by (induction es rule: started.induct) simp_all

lemma started_registers [simp]: "started (replicate n (Register m)) = []"
  by (induction n) simp_all

lemmas compare_body_simps = compare_body_def start_def say_def attempt_def

lemma compare_body_starts: "suffix (started (fst (compare_body a env w))) [''uac'', ''uas'', ''proxy'']"
  by (auto simp: compare_body_simps started_append suffix_def split: option.split sum.split prod.split)

lemma compare_body_no_signals: "list_all (\<lambda>e. \<not> signals e) (fst (compare_body a env w))"
  by (auto simp: compare_body_simps list_all_iff split: option.split sum.split prod.split)

text \<open>A comparison run ends what it has started. In every run, whether it gives a verdict or raises, the processes that were started
  are some of the proxy, the callee and the caller, in this order and each once; after the last other event each of them gets SIGTERM,
  the latest first, and then exactly those that outlive it get SIGKILL. If a listener is taken, nothing is started.\<close>

theorem compare_ends_what_it_starts:
  shows "\<exists>body. fst (compare_run a token environ w) =
        body @ map Term (started body) @ map Kill (filter (\<lambda>n. n \<in> stubborn w) (started body))
      \<and> suffix (started body) [''uac'', ''uas'', ''proxy''] \<and> list_all (\<lambda>e. \<not> signals e) body
      \<and> (body = [] \<or> list_all (\<lambda>l. bind_error w l = None) bench_listeners)"
proof -
  have free: "bind_all f ls = Inr () \<longleftrightarrow> list_all (\<lambda>l. f l = None) ls" for f ls
    by (induction f ls rule: bind_all.induct) (auto split: option.split)
  show ?thesis
  proof (cases "bind_all (bind_error w) bench_listeners")
    case (Inl e)
    then show ?thesis by (intro exI [of _ "[]"]) (simp add: compare_run_def attempt_def)
  next
    case (Inr u)
    with free [of "bind_error w" bench_listeners] have all: "list_all (\<lambda>l. bind_error w l = None) bench_listeners" by simp
    let ?body = "fst (compare_body a (compare_settings token environ) w)"
    have "fst (compare_run a token environ w) = ?body @ end_all w (started ?body)"
      by (simp add: compare_run_def attempt_def Inr split: prod.split)
    with all compare_body_starts compare_body_no_signals show ?thesis
      by (intro exI [of _ ?body]) (simp add: end_all_def)
  qed
qed

subsection \<open>What a run that passes has seen\<close>

lemma watch_caller_Inr:
  "watch_caller ts peaks = Inr (code, peaks') \<Longrightarrow>
     \<exists>mid lines rest. ts = map (\<lambda>l. (l, None)) mid @ (lines, Some code) # rest \<and> sample_all (mid @ [lines]) peaks = Inr peaks'"
proof (induction ts peaks rule: watch_caller.induct)
  case (2 lines rc ts peaks)
  obtain p1 where p1: "sample_udp lines peaks = Inr p1" using "2.prems" by (auto simp: bindE_Inr_iff)
  show ?case
  proof (cases rc)
    case None
    with "2.prems" p1 have "watch_caller ts p1 = Inr (code, peaks')" by simp
    from "2.IH" [OF p1 None this] obtain mid l rest where
      "ts = map (\<lambda>l. (l, None)) mid @ (l, Some code) # rest" "sample_all (mid @ [l]) p1 = Inr peaks'" by blast
    then show ?thesis using None p1 by (intro exI [of _ "lines # mid"] exI [of _ l] exI [of _ rest]) simp
  next
    case (Some c)
    with "2.prems" p1 show ?thesis by (intro exI [of _ "[]"] exI [of _ lines] exI [of _ ts]) simp
  qed
qed simp

lemma compare_body_Inr:
  assumes "snd (compare_body a env w) = Inr res"
  shows "started (fst (compare_body a env w)) = [''uac'', ''uas'', ''proxy''] \<and> \<not> early_exit w
    \<and> snd (compare_register (replies w)) = Inr ()
    \<and> (\<exists>before ended. watch_caller (turns w) [] = Inr ended \<and> compare_result a w before ended = Inr res)"
  using assms by (auto simp: compare_body_simps started_append split: option.splits sum.splits prod.splits if_splits)

lemma compare_result_Inr:
  "compare_result a w before ended = Inr res \<Longrightarrow>
     uac_rc res = fst ended \<and> socket_samples res = snd ended \<and> callee_exit w = Some (uas_rc res) \<and> proxy_alive res = up_at_end w
     \<and> rtt_samples res = rtt_values w \<and> alive_after_idle res = up_after_idle w"
  by (auto simp: compare_result_def bindE_Inr_iff split: option.splits)


text \<open>One call, one sample, and everything ends as it should.\<close>

definition sample_args :: compare_args where
  "sample_args = \<lparr>candidate = ''./main'', modules = None, sipp = ''sipp'', here = ''bench'', directory = ''out'', call_rate = 1, seconds = 1,
     idle_seconds = 0\<rparr>"

definition sample_rows :: "(string \<times> string option) list list" where
  "sample_rows = [map (\<lambda>(k, v). (k, Some v)) [(''SuccessfulCall(C)'', ''1''), (''FailedCall(C)'', ''0''), (''Retransmissions(C)'', ''0''),
     (''WatchdogMajor(C)'', ''0'')]]"

definition sample_world :: compare_world where
  "sample_world = \<lparr>bind_error = (\<lambda>_. None), spawn_error = (\<lambda>_. None), early_exit = False, reg_ident = ''a1'', reg_port = 40000,
     replies = [Inr ''SIP/2.0 200 OK''], stat_before = [], stat_after = [], turns = [(clean_lines, Some 0)],
     callee_exit = Some 0, caller_rows = sample_rows, callee_rows = sample_rows, rtt_values = [2], up_at_end = True, up_after_idle = True,
     stubborn = {}\<rparr>"

lemma sample_stats: "stats sample_rows = Inr \<lparr>SuccessfulCall = 1, FailedCall = 0, Retransmissions = 0, WatchdogMajor = 0\<rparr>"
proof -
  have "py_int ''1'' = Some 1" "py_int ''0'' = Some 0" by code_simp+
  then show ?thesis by (simp add: stats_def stat_int_def sample_rows_def)
qed


end
