(* ===== verification/Bench_Framing.thy ===== *)
theory Bench_Framing
  imports Complex_Main Bench_Script "HOL-Library.Multiset"
begin

section \<open>The comparison of the two framing routines\<close>

text \<open>
  \<^verbatim>\<open>bench/stream_framing.py\<close>: the check of the generated code, the commands, the order of the runs and the summary. The
  outcomes of the commands are input, among them the results of the harness, whose fields are taken to be there. Copying
  files, hashes and the printed report are left out; fractions are exact (for the fractions 0.5 and 0.95 and lists of fewer than
  \<open>2 ^ 49\<close> values, rounding the exact product gives the index that rounding the float product gives: a tie is one for both).
\<close>

subsection \<open>The generated code\<close>

text \<open>\<open>str.index\<close>, \<open>None\<close> for its \<open>ValueError\<close>.\<close>

fun index_of :: "string \<Rightarrow> string \<Rightarrow> nat option" where
  "index_of w [] = (if w = [] then Some 0 else None)"
| "index_of w (c # s) = (if starts_with w (c # s) then Some 0 else map_option Suc (index_of w s))"

definition frame_marker :: string where "frame_marker = '' stream_next_msg(MakoString buf) {''"

definition frame_stop :: string where
  "frame_stop = CHR 0x0A # ''#line 1 '' @ [CHR 0x22] @ ''<mako-codegen>'' @ [CHR 0x22]"

definition frame_definition :: "string \<Rightarrow> string result" where
  "frame_definition emitted =
     (case index_of frame_marker emitted of
        None \<Rightarrow> Inl (ValueError ''substring not found'')
      | Some start \<Rightarrow>
          (case index_of frame_stop (drop start emitted) of
             None \<Rightarrow> Inl (ValueError ''substring not found'')
           | Some n \<Rightarrow> Inr (take n (drop start emitted))))"

definition check_emitted :: "string \<Rightarrow> unit result" where
  "check_emitted emitted =
     bindE (frame_definition emitted) (\<lambda>d.
       if contains ''mako_str_array'' d then Inl (RuntimeError ''StreamFrame still allocates a string-array container'') else Inr ())"

subsection \<open>The runs\<close>

text \<open>What the harness prints: of a timing run, and of a counting run.\<close>

record harness =
  variant :: nat
  scenario :: nat
  messages :: int
  total_ns :: int
  batch_ns :: "int list"
  max_rss_kib :: int

record counted =
  counted_messages :: int
  allocations :: int
  requested_bytes :: int

record framing_args =
  runs :: int
  batches :: int
  iterations :: int

text \<open>Scenario and variant of the counting runs, and repeat, scenario and variant of the timing runs.\<close>

definition counting_schedule :: "(nat \<times> nat) list" where
  "counting_schedule = [(s, v). s \<leftarrow> [0, 1, 2], v \<leftarrow> [0, 1]]"

definition timing_schedule :: "nat \<Rightarrow> (nat \<times> nat \<times> nat) list" where
  "timing_schedule n = [(k, s, v). k \<leftarrow> [0..<n], s \<leftarrow> [0, 1, 2], v \<leftarrow> (if even k then [0, 1] else [1, 0])]"

record timing_row =
  timing :: harness
  repeat :: nat
  row_allocations :: int
  row_bytes :: int

text \<open>The counting runs give a dictionary; a timing run has to have handled as many messages as its counting run.\<close>

fun count_runs :: "(nat \<times> nat) list \<Rightarrow> counted result list \<Rightarrow> ((nat \<times> nat) \<times> counted) list result" where
  "count_runs (k # ks) (r # rs) = bindE r (\<lambda>c. bindE (count_runs ks rs) (\<lambda>cs. Inr ((k, c) # cs)))"
| "count_runs [] _ = Inr []"
| "count_runs (_ # _) [] = Inl OSError"

fun time_runs :: "((nat \<times> nat) \<times> counted) list \<Rightarrow> (nat \<times> nat \<times> nat) list \<Rightarrow> harness result list \<Rightarrow> timing_row list result" where
  "time_runs cs ((k, s, v) # ks) (r # rs) =
     bindE r (\<lambda>h.
       case map_of cs (s, v) of
         None \<Rightarrow> Inl KeyError
       | Some c \<Rightarrow>
           if messages h \<noteq> counted_messages c then Inl (RuntimeError ''allocation and timing workloads differ'')
           else bindE (time_runs cs ks rs) (\<lambda>rows.
             Inr (\<lparr>timing = h, repeat = k, row_allocations = allocations c, row_bytes = requested_bytes c\<rparr> # rows)))"
| "time_runs cs [] _ = Inr []"
| "time_runs cs (_ # _) [] = Inl OSError"

subsection \<open>The summary\<close>

text \<open>\<open>round\<close>: to the nearest integer, a tie to the even one.\<close>

definition py_round :: "rat \<Rightarrow> int" where
  "py_round x = (let f = \<lfloor>x\<rfloor>; d = x - of_int f in if d < 1 / 2 then f else if 1 / 2 < d then f + 1 else if even f then f else f + 1)"

definition percentile :: "rat list \<Rightarrow> rat \<Rightarrow> rat result" where
  "percentile vs fraction =
     (if vs = [] then Inl IndexError else Inr (sort vs ! nat (py_round (of_nat (length vs - 1) * fraction))))"

definition median :: "rat list \<Rightarrow> rat result" where
  "median vs =
     (let s = sort vs; n = length vs
      in if n = 0 then Inl (ValueError ''no median for empty data'')
         else if odd n then Inr (s ! (n div 2)) else Inr ((s ! (n div 2 - 1) + s ! (n div 2)) / 2))"

fun ratios :: "(int \<times> int) list \<Rightarrow> rat list result" where
  "ratios [] = Inr []"
| "ratios ((a, b) # xs) =
     (if b = 0 then Inl ZeroDivisionError else bindE (ratios xs) (\<lambda>rs. Inr (of_int a / of_int b # rs)))"

record summary_item =
  messages_per_second :: rat
  p50 :: rat
  p95 :: rat
  allocations_per_message :: rat
  bytes_per_message :: rat
  max_rss :: rat

definition per_batch :: "framing_args \<Rightarrow> nat \<Rightarrow> int" where
  "per_batch a s = iterations a * (if s = 2 then 2 else 1)"

definition rows_of :: "timing_row list \<Rightarrow> nat \<Rightarrow> nat \<Rightarrow> timing_row list" where
  "rows_of rows s v = filter (\<lambda>r. scenario (timing r) = s \<and> variant (timing r) = v) rows"

definition batch_samples :: "framing_args \<Rightarrow> nat \<Rightarrow> timing_row list \<Rightarrow> rat list" where
  "batch_samples a s rows = [of_int ns / of_int (per_batch a s). r \<leftarrow> rows, ns \<leftarrow> batch_ns (timing r)]"

definition summarise :: "framing_args \<Rightarrow> timing_row list \<Rightarrow> nat \<Rightarrow> nat \<Rightarrow> summary_item result" where
  "summarise a all s v =
     (let rows = rows_of all s v; samples = batch_samples a s rows in
      bindE (ratios (map (\<lambda>r. (messages (timing r) * 1000000000, total_ns (timing r))) rows)) (\<lambda>speeds. bindE (median speeds) (\<lambda>mps.
      bindE (percentile samples (1 / 2)) (\<lambda>q50. bindE (percentile samples (95 / 100)) (\<lambda>q95.
      bindE (ratios (map (\<lambda>r. (row_allocations r, messages (timing r))) rows)) (\<lambda>as. bindE (median as) (\<lambda>apm.
      bindE (ratios (map (\<lambda>r. (row_bytes r, messages (timing r))) rows)) (\<lambda>bs. bindE (median bs) (\<lambda>bpm.
      bindE (median (map (\<lambda>r. of_int (max_rss_kib (timing r))) rows)) (\<lambda>rss.
        Inr \<lparr>messages_per_second = mps, p50 = q50, p95 = q95, allocations_per_message = apm, bytes_per_message = bpm, max_rss = rss\<rparr>))))))))))"

definition scenario_names :: "(nat \<times> string) list" where
  "scenario_names = [(0, ''complete''), (1, ''fragmented''), (2, ''pipeline_with_tail'')]"

definition variant_names :: "(nat \<times> string) list" where
  "variant_names = [(0, ''array_baseline''), (1, ''typed_result'')]"

fun summaries :: "framing_args \<Rightarrow> timing_row list \<Rightarrow> ((nat \<times> string) \<times> (nat \<times> string)) list \<Rightarrow> (string \<times> string \<times> summary_item) list result" where
  "summaries a rows [] = Inr []"
| "summaries a rows (((s, name), (v, label)) # ks) =
     bindE (summarise a rows s v) (\<lambda>i. bindE (summaries a rows ks) (\<lambda>is. Inr ((name, label, i) # is)))"

definition framing_summary :: "framing_args \<Rightarrow> timing_row list \<Rightarrow> (string \<times> string \<times> summary_item) list result" where
  "framing_summary a rows = summaries a rows [(s, v). s \<leftarrow> scenario_names, v \<leftarrow> variant_names]"

subsection \<open>The program\<close>

definition build_commands :: "string \<Rightarrow> string \<Rightarrow> string \<Rightarrow> string list list" where
  "build_commands tree work compiler =
     [[''bash'', tree @ ''/scripts/check-makori-version.sh'', compiler],
      [compiler, ''build'', ''--backend'', ''c'', ''--emit-c'', ''--release'', ''--no-incremental'', work @ ''/bench/stream_framing.mko'', ''-o'',
       work @ ''/unused'']]"

definition cc_flags :: "string \<Rightarrow> string \<Rightarrow> string \<Rightarrow> string \<Rightarrow> string list" where
  "cc_flags tree work runtime cc =
     [cc, ''-std=c11'', ''-O3'', ''-DNDEBUG'', ''-w'', ''-I'' @ runtime, ''-I'' @ work, tree @ ''/bench/stream_framing_harness.c'', ''-pthread'',
      ''-lm'', ''-ldl'', ''-lresolv'']"

definition cc_commands :: "string \<Rightarrow> string \<Rightarrow> string \<Rightarrow> string \<Rightarrow> string list list" where
  "cc_commands tree work runtime cc =
     [cc_flags tree work runtime cc @ [''-o'', work @ ''/framing-bench''],
      cc_flags tree work runtime cc @ [''-DFRAMING_COUNT_ALLOCATIONS'', ''-o'', work @ ''/framing-counted'']]"

fun run_all :: "(string list \<Rightarrow> exn option) \<Rightarrow> string list list \<Rightarrow> unit result" where
  "run_all fails [] = Inr ()"
| "run_all fails (c # cs) = (case fails c of Some e \<Rightarrow> Inl e | None \<Rightarrow> run_all fails cs)"

text \<open>The report, or the exception; the arguments have passed the parser.\<close>

definition framing_main ::
  "framing_args \<Rightarrow> string \<Rightarrow> string \<Rightarrow> string \<Rightarrow> string \<Rightarrow> string \<Rightarrow> (string list \<Rightarrow> exn option) \<Rightarrow> string \<Rightarrow> counted result list
    \<Rightarrow> harness result list \<Rightarrow> (string \<times> string \<times> summary_item) list result" where
  "framing_main a tree work compiler runtime cc fails emitted counts timings =
     bindE (run_all fails (build_commands tree work compiler)) (\<lambda>_.
     bindE (check_emitted emitted) (\<lambda>_.
     bindE (run_all fails (cc_commands tree work runtime cc)) (\<lambda>_.
     bindE (count_runs counting_schedule counts) (\<lambda>cs.
     bindE (time_runs cs (timing_schedule (nat (runs a))) timings) (framing_summary a)))))"

subsection \<open>The order of the runs\<close>

text \<open>Every combination of repeat, scenario and variant is run once, scenario by scenario, and the variant that comes first alternates.\<close>

theorem timing_runs_are_balanced:
  shows "distinct (timing_schedule n) \<and> set (timing_schedule n) = {..<n} \<times> {0, 1, 2} \<times> {0, 1}
    \<and> map (\<lambda>(k, s, v). (v + k) mod 2) (timing_schedule n) = concat (replicate (3 * n) [0, 1])"
proof (induction n)
  case (Suc n)
  let ?block = "[(n, s, v). s \<leftarrow> [0, 1, 2], v \<leftarrow> (if even n then [0, 1] else [1, 0 :: nat])] :: (nat \<times> nat \<times> nat) list"
  have step: "timing_schedule (Suc n) = timing_schedule n @ ?block" by (simp add: timing_schedule_def)
  have block: "distinct ?block" "set ?block = {n} \<times> {0, 1, 2} \<times> {0, 1}"
      "map (\<lambda>(k, s, v). (v + k) mod 2) ?block = [0, 1, 0, 1, 0, 1]"
    by (cases "even n"; auto simp: even_iff_mod_2_eq_zero odd_iff_mod_2_eq_one mod_Suc)+
  have three: "3 * Suc n = 3 * n + 3" by simp
  have "concat (replicate (3 * Suc n) [0, 1 :: nat]) = concat (replicate (3 * n) [0, 1]) @ [0, 1, 0, 1, 0, 1]"
    unfolding three replicate_add by (simp add: numeral_3_eq_3)
  moreover have "set (timing_schedule n) \<inter> set ?block = {}" using Suc.IH unfolding block(2) by auto
  moreover have "{..<Suc n} \<times> {0, 1, 2 :: nat} \<times> {0, 1 :: nat} = {..<n} \<times> {0, 1, 2} \<times> {0, 1} \<union> {n} \<times> {0, 1, 2} \<times> {0, 1}"
    by auto
  ultimately show ?case using Suc.IH block unfolding step by (simp only: distinct_append set_append map_append simp_thms)
qed (simp add: timing_schedule_def)

subsection \<open>Percentiles\<close>

lemma py_round_near: "of_int (py_round x) \<le> x + 1 / 2" "x - 1 / 2 \<le> of_int (py_round x)"
proof -
  have f: "of_int \<lfloor>x\<rfloor> \<le> x" "x < of_int \<lfloor>x\<rfloor> + 1" using floor_correct [of x] by simp_all
  show "of_int (py_round x) \<le> x + 1 / 2" "x - 1 / 2 \<le> of_int (py_round x)"
    unfolding py_round_def Let_def using f by (simp_all only: if_distrib [of of_int] split: if_split) (simp; linarith)+
qed

lemma py_round_floor: "\<lfloor>x\<rfloor> \<le> py_round x" "py_round x \<le> \<lfloor>x\<rfloor> + 1"
  by (auto simp: py_round_def Let_def)

lemma py_round_mono: "x \<le> y \<Longrightarrow> py_round x \<le> py_round y"
proof (cases "\<lfloor>x\<rfloor> = \<lfloor>y\<rfloor>")
  case True
  assume "x \<le> y"
  with True show ?thesis by (auto simp: py_round_def Let_def)
next
  case False
  assume "x \<le> y"
  with False have "\<lfloor>x\<rfloor> + 1 \<le> \<lfloor>y\<rfloor>" using floor_mono [of x y] by linarith
  then show ?thesis using py_round_floor(2) [of x] py_round_floor(1) [of y] by linarith
qed

lemma py_round_int [simp]: "py_round (of_nat n) = int n"
  by (simp add: py_round_def Let_def)

text \<open>The index of a percentile.\<close>

lemma percentile_index:
  assumes "0 \<le> f" and "f \<le> 1"
  shows "0 \<le> py_round (of_nat n * f)" and "py_round (of_nat n * f) \<le> int n"
proof -
  have "0 \<le> of_nat n * f" "of_nat n * f \<le> of_nat n" using assms by (simp_all add: mult_left_le)
  from py_round_mono [OF this(1)] py_round_mono [OF this(2)] show "0 \<le> py_round (of_nat n * f)" "py_round (of_nat n * f) \<le> int n"
    using py_round_int [of 0] by simp_all
qed

lemma sorted_ranks:
  fixes s :: "'a :: linorder list"
  assumes "sorted s" and "i < length s"
  shows "Suc i \<le> length (filter (\<lambda>v. v \<le> s ! i) s)" and "length s - i \<le> length (filter (\<lambda>v. s ! i \<le> v) s)"
proof -
  have "filter (\<lambda>v. v \<le> s ! i) (take (Suc i) s) = take (Suc i) s"
    using assms by (auto simp: in_set_conv_nth sorted_iff_nth_mono filter_id_conv)
  moreover have "length (filter (\<lambda>v. v \<le> s ! i) s) =
      length (filter (\<lambda>v. v \<le> s ! i) (take (Suc i) s)) + length (filter (\<lambda>v. v \<le> s ! i) (drop (Suc i) s))"
    by (metis append_take_drop_id filter_append length_append)
  ultimately show "Suc i \<le> length (filter (\<lambda>v. v \<le> s ! i) s)" using assms(2) by simp
  have "filter (\<lambda>v. s ! i \<le> v) (drop i s) = drop i s"
    using assms by (auto simp: in_set_conv_nth sorted_iff_nth_mono filter_id_conv)
  moreover have "length (filter (\<lambda>v. s ! i \<le> v) s) =
      length (filter (\<lambda>v. s ! i \<le> v) (take i s)) + length (filter (\<lambda>v. s ! i \<le> v) (drop i s))"
    by (metis append_take_drop_id filter_append length_append)
  ultimately show "length s - i \<le> length (filter (\<lambda>v. s ! i \<le> v) s)" by simp
qed

lemma filter_sort_length: "length (filter P (sort vs)) = length (filter P vs)"
  by (metis mset_filter mset_sort size_mset)

text \<open>A percentile of the report has its rank. It is one of the values, and, of \<open>n\<close> values, at least \<open>f * (n - 1) + 1 / 2\<close> are not above
  it and at least \<open>(1 - f) * (n - 1) + 1 / 2\<close> not below it, for every fraction \<open>f\<close> between 0 and 1.\<close>

theorem percentile_has_its_rank:
  assumes "percentile vs f = Inr x" and "0 \<le> f" and "f \<le> 1"
  shows "x \<in> set vs
    \<and> f * of_nat (length vs - 1) + 1 / 2 \<le> of_nat (length (filter (\<lambda>v. v \<le> x) vs))
    \<and> (1 - f) * of_nat (length vs - 1) + 1 / 2 \<le> of_nat (length (filter (\<lambda>v. x \<le> v) vs))"
proof -
  let ?r = "py_round (of_nat (length vs - 1) * f)"
  define i where "i = nat ?r"
  have ne: "vs \<noteq> []" and x: "x = sort vs ! i" using assms(1) by (auto simp: percentile_def i_def split: if_splits)
  note idx = percentile_index [OF assms(2,3), of "length vs - 1"]
  then have ri: "(of_int ?r :: rat) = of_nat i" by (simp add: i_def)
  have i: "i < length (sort vs)" using idx ne by (cases vs) (auto simp: i_def)
  note ranks = sorted_ranks [OF sorted_sort i, unfolded filter_sort_length, folded x]
  have up: "of_nat (length vs - 1) * f - 1 / 2 \<le> (of_nat i :: rat)" and down: "(of_nat i :: rat) \<le> of_nat (length vs - 1) * f + 1 / 2"
    using py_round_near [of "of_nat (length vs - 1) * f"] unfolding ri by simp_all
  have "(of_nat (Suc i) :: rat) \<le> of_nat (length (filter (\<lambda>v. v \<le> x) vs))" using ranks(1) by (simp only: of_nat_le_iff)
  then have low: "of_nat i + 1 \<le> (of_nat (length (filter (\<lambda>v. v \<le> x) vs)) :: rat)" by simp
  have "length vs - 1 + 1 \<le> i + length (filter (\<lambda>v. x \<le> v) vs)" using ranks(2) i ne by (cases vs) simp_all
  then have "(of_nat (length vs - 1 + 1) :: rat) \<le> of_nat (i + length (filter (\<lambda>v. x \<le> v) vs))" by (simp only: of_nat_le_iff)
  then have high: "of_nat (length vs - 1) + 1 \<le> (of_nat i + of_nat (length (filter (\<lambda>v. x \<le> v) vs)) :: rat)"
    by (simp only: of_nat_add of_nat_1)
  have "x \<in> set vs" using i unfolding x by (metis nth_mem set_sort)
  moreover have "f * of_nat (length vs - 1) + 1 / 2 \<le> of_nat (length (filter (\<lambda>v. v \<le> x) vs))"
    using up low by (simp add: mult.commute)
  moreover have "(1 - f) * of_nat (length vs - 1) + 1 / 2 \<le> of_nat (length (filter (\<lambda>v. x \<le> v) vs))"
    using down high by (simp add: algebra_simps)
  ultimately show ?thesis by blast
qed

theorem percentile_has_its_rank_witness:
  "percentile [7, 3, 5, 9] (1 / 2) = Inr 7 \<and> 2 \<le> length (filter (\<lambda>v. v \<le> 7) [7, 3, 5, 9 :: rat])"
proof -
  have "\<lfloor>3 / 2 :: rat\<rfloor> = 1" by (simp add: floor_unique)
  then have "py_round (3 / 2) = 2" by (simp add: py_round_def Let_def)
  then have "percentile [7, 3, 5, 9] (1 / 2) = Inr 7" by (simp add: percentile_def)
  with percentile_has_its_rank [OF this] show ?thesis by simp
qed

text \<open>The report: six rows in its order, and in each the 95th percentile is not below the 50th.\<close>

lemma percentile_mono:
  assumes "percentile vs f = Inr x" and "percentile vs g = Inr y" and "0 \<le> f" and "f \<le> g" and "g \<le> 1"
  shows "x \<le> y"
proof -
  have ne: "vs \<noteq> []" and x: "x = sort vs ! nat (py_round (of_nat (length vs - 1) * f))"
    and y: "y = sort vs ! nat (py_round (of_nat (length vs - 1) * g))"
    using assms by (auto simp: percentile_def split: if_splits)
  have "of_nat (length vs - 1) * f \<le> of_nat (length vs - 1) * g" using assms by (simp add: mult_left_mono)
  note le = py_round_mono [OF this]
  have "0 \<le> g" using assms by simp
  note idx = percentile_index [OF this assms(5), of "length vs - 1"]
  have "nat (py_round (of_nat (length vs - 1) * g)) < length (sort vs)" using idx ne by (cases vs) auto
  then show ?thesis unfolding x y by (rule sorted_nth_mono [OF sorted_sort nat_mono [OF le]])
qed

lemma summarise_ordered:
  assumes "summarise a rows s v = Inr i"
  shows "p50 i \<le> p95 i"
proof -
  let ?samples = "batch_samples a s (rows_of rows s v)"
  have "percentile ?samples (1 / 2) = Inr (p50 i)" "percentile ?samples (95 / 100) = Inr (p95 i)"
    using assms by (auto simp: summarise_def Let_def bindE_Inr_iff)
  then show ?thesis by (rule percentile_mono) simp_all
qed

lemma summaries_Inr:
  "summaries a rows ks = Inr items \<Longrightarrow>
     map (\<lambda>(n, l, i). (n, l)) items = map (\<lambda>((s, n), (v, l)). (n, l)) ks \<and> list_all (\<lambda>(n, l, i). p50 i \<le> p95 i) items"
  by (induction a rows ks arbitrary: items rule: summaries.induct) (auto simp: bindE_Inr_iff summarise_ordered)

theorem framing_report_is_ordered:
  assumes "framing_main a tree work compiler runtime cc fails emitted counts timings = Inr items"
  shows "map (\<lambda>(n, l, i). (n, l)) items =
      [(''complete'', ''array_baseline''), (''complete'', ''typed_result''), (''fragmented'', ''array_baseline''), (''fragmented'', ''typed_result''),
       (''pipeline_with_tail'', ''array_baseline''), (''pipeline_with_tail'', ''typed_result'')]
    \<and> list_all (\<lambda>(n, l, i). p50 i \<le> p95 i) items"
proof -
  obtain rows where "framing_summary a rows = Inr items" using assms by (auto simp: framing_main_def bindE_Inr_iff)
  from summaries_Inr [OF this [unfolded framing_summary_def]] show ?thesis by (simp add: scenario_names_def variant_names_def)
qed

end
