(* ===== verification/Spec2Isabelle.thy ===== *)
theory Spec2Isabelle
  imports Hss_Properties Hss_System Hss_Main Relay_Properties Relay_Main Maf_Properties Mmtel_As Carrier
    Ws_Frame Sip_Peer Bench_Load Sip_Fuzz Bench_Certs Bench_Dialog Ims_Lab_Call Bench_Measure Maf_Security
    Bench_Proc Bench_Compare Bench_Framing
begin

text \<open>
  Verification of the Python components of madis.

  madis is a SIP proxy written in Mako. Around it stand Python programs, which this development models:
  a lab HSS that serves subscribers to the proxy over Diameter and HTTP, a media relay that the proxy
  controls over UDP, the client library of the application fabric with three example applications, a
  lab telephony application server, the client of the carrier API, the client of the container lab, and the
  drivers, far ends and load generators of its test matrices and measurements.

  \<^bold>\<open>Common ground.\<close> \<^theory_text>\<open>Py_Prelude\<close> has octets, exceptions (\<open>exn\<close>) and results (\<open>Inl\<close> an exception, \<open>Inr\<close> a
  value, sequenced by \<open>bindE\<close>), the dictionary locale, and integers in octets. \<^theory_text>\<open>Py_Text\<close> has the string
  operations of Python that the programs use (\<open>int\<close>, \<open>strip\<close>, \<open>split\<close>, lower case, UTF-8), \<^theory_text>\<open>Py_Json\<close> JSON values and
  \<open>json.dumps\<close>, \<^theory_text>\<open>Py_Url\<close> percent encoding, \<^theory_text>\<open>Py_Ip\<close> the \<open>ipaddress\<close> module, \<^theory_text>\<open>Py_Socket\<close> what \<open>recv\<close> promises
  (the locale \<open>byte_source\<close>) with the loop that reads a number of octets, and \<^theory_text>\<open>Sip_Text\<close> header fields: the locale
  \<open>header_text\<close> says when a reader gets back the fields that a writer put into a message. Text is a list of code
  points below 256, except where UTF-8 input is decoded, where the code points are kept as numbers.

  \<^bold>\<open>The HSS\<close> (\<^verbatim>\<open>lab/ims_hss.py\<close>).
  \<^item> \<^theory_text>\<open>Diameter_Codec\<close>: AVPs and messages, building and parsing (lines 70 to 199). The parser accepts exactly
    the encodings of well-formed messages.
  \<^item> \<^theory_text>\<open>Diameter_Stream\<close>: \<open>_read_exact\<close> and \<open>_frame_read\<close> on any byte source; framing does not depend on
    how the stream is cut into segments.
  \<^item> \<^theory_text>\<open>Hss_Store\<close>: validators, \<open>Subscriber\<close> and \<open>HssStore\<close>, with the invariant of every reachable store.
  \<^item> \<^theory_text>\<open>Hss_Application\<close>: \<open>HssApplication\<close>, every handler of Cx and Sh. \<^theory_text>\<open>Hss_Answers\<close> says what answers are made
    of, \<^theory_text>\<open>Hss_Totality\<close> when handling raises, \<^theory_text>\<open>Hss_Confidentiality\<close> that XRES values influence MAR
    answers only, \<^theory_text>\<open>Hss_Cx\<close> the decision of each Cx command; \<^theory_text>\<open>Hss_Properties\<close> has the properties.
  \<^item> \<^theory_text>\<open>Hss_Server\<close>: \<open>DiameterServer\<close>, the connection loop and the pushes. \<^theory_text>\<open>Hss_Http\<close>: \<open>SubscriberHandler\<close>.
    \<^theory_text>\<open>Hss_System\<close>: the running process as a step relation over Diameter turns, HTTP requests, pushes and
    connections, with its invariant by rule induction. \<^theory_text>\<open>Hss_Main\<close>: the accept loop and \<open>main\<close>, when the program serves.

  \<^bold>\<open>The media relay\<close> (\<^verbatim>\<open>media/rtp_module.py\<close>).
  \<^item> \<^theory_text>\<open>Bencode\<close> (control protocol, with the depth bound of the code as its own recursion bound), \<^theory_text>\<open>Sdp\<close>
    (\<open>parse_sdp\<close> and \<open>rewrite_sdp\<close>), \<^theory_text>\<open>Media_Relay\<close> (\<open>MediaRelay\<close>, one definition per method, and the turn of
    \<open>serve\<close>).
  \<^item> \<^theory_text>\<open>Relay_Pool\<close>: the socket pool as a locale and its interpretation on the relay. \<^theory_text>\<open>Relay_Invariant\<close>: every
    operation keeps the accounting of sockets, and the step relation. \<^theory_text>\<open>Relay_Replies\<close>: every command
    gets a reply. \<^theory_text>\<open>Relay_Flow\<close>: latching, relaying, expiry and offers. \<^theory_text>\<open>Relay_Properties\<close>: the properties. \<^theory_text>\<open>Relay_Main\<close>: \<open>serve\<close> as a
    whole and \<open>main\<close>, which run until they are stopped and leave nothing open.

  \<^bold>\<open>The application fabric client\<close> (\<^verbatim>\<open>sdk/maf/\<close>).
  \<^item> \<^theory_text>\<open>Maf_Client\<close> (one request and its outcomes), \<^theory_text>\<open>Maf_Api\<close> (every method of \<open>MadisMaf\<close>), \<^theory_text>\<open>Maf_Stream\<close>
    (\<open>subscribe\<close> over the list of the outcomes of its polls, and the contract of the feed), \<^theory_text>\<open>Maf_Apps\<close>
    (event monitor, click-to-call, voice menu), \<^theory_text>\<open>Maf_Properties\<close>.

  \<^bold>\<open>The small programs.\<close> \<^theory_text>\<open>Mmtel_As\<close> models \<^verbatim>\<open>lab/mmtel_as.py\<close> and \<^theory_text>\<open>Carrier\<close> models \<^verbatim>\<open>sdk/python/madis_carrier.py\<close>.

  \<^bold>\<open>The test programs\<close> (\<^verbatim>\<open>bench/\<close>). \<^theory_text>\<open>Ws_Frame\<close>: WebSocket framing, the writers and readers of the three programs
  that speak it, against one decoder. \<^theory_text>\<open>Sip_Peer\<close>: the user agents \<open>FaultUas\<close> (\<^verbatim>\<open>fault_matrix.py\<close>) and
  \<open>WssFixture\<close> (\<^verbatim>\<open>wss_outbound_matrix.py\<close>). \<^theory_text>\<open>Bench_Load\<close>: \<^verbatim>\<open>transport_options_load.py\<close>,
  \<^verbatim>\<open>tcp_connection_soak.py\<close> and \<^verbatim>\<open>check_sipp_stats.py\<close>, with what their counters and exit codes say.

  \<^bold>\<open>The matrices\<close> (\<^verbatim>\<open>bench/\<close>, \<^verbatim>\<open>scripts/\<close>). A matrix starts the compiled proxy, exchanges messages with it and gives a verdict; what
  the proxy does is input, and the properties say what a verdict means.
  \<^item> \<^theory_text>\<open>Bench_Script\<close>: scripts of sends, reads and requirements, and waiting for the proxy. \<^theory_text>\<open>Sip_Probe\<close>: \<^verbatim>\<open>transport_matrix.py\<close>,
    \<^verbatim>\<open>tls_ipv6_matrix.py\<close>, \<^verbatim>\<open>abnf_corpus.py\<close> and \<^verbatim>\<open>nat-transport-check.py\<close>. \<^theory_text>\<open>Sip_Fuzz\<close>: \<^verbatim>\<open>fuzz_sip.py\<close>. \<^theory_text>\<open>Bench_Certs\<close>: the test
    certificates. \<^theory_text>\<open>Bench_Dialog\<close>: the scenarios of \<^verbatim>\<open>fault_matrix.py\<close>, \<^verbatim>\<open>bye_retransmission.py\<close> and
    \<^verbatim>\<open>wss_outbound_matrix.py\<close>, on the peers of \<^theory_text>\<open>Sip_Peer\<close>. \<^theory_text>\<open>Maf_Security\<close>: \<^verbatim>\<open>maf_security_matrix.py\<close>.
  \<^item> \<^theory_text>\<open>Bench_Proc\<close>: the programs around these matrices, with the environment of the proxy, its start, the \<open>finally\<close> clauses and
    the exit codes; they compose the matrices above.
  \<^item> \<^theory_text>\<open>Bench_Measure\<close>: what \<^verbatim>\<open>compare_opensips.py\<close> computes, the plan of \<^verbatim>\<open>perf_matrix.py\<close>, and
    \<^verbatim>\<open>check-broken-pipe.py\<close>. \<^theory_text>\<open>Bench_Compare\<close>: a comparison run as a whole. \<^theory_text>\<open>Bench_Framing\<close>: \<^verbatim>\<open>stream_framing.py\<close>, with its
    percentiles and medians.

  \<^bold>\<open>The container lab\<close> (\<^verbatim>\<open>docker/ims-lab/docker_ims_test.py\<close> and \<^verbatim>\<open>bench/auth_matrix.py\<close>). \<^theory_text>\<open>Ims_Lab\<close>: the client, its readers, the
  registration, the call and the digest vectors. \<^theory_text>\<open>Ims_Lab_Digest\<close>: reading the digest parameters gives back what was written.
  \<^theory_text>\<open>Ims_Lab_Call\<close>: what a registration and a call that pass have done.

  \<^bold>\<open>Bounds and loops.\<close> Loops over data are recursion on it. Loops over a stream of requests or connections
  run over a list of them, or over the octets of the stream as a measure; the reading of a frame
  takes at most as many turns as octets are asked for, since an empty \<open>recv\<close> ends it. \<open>bdecode\<close> recurses
  to the depth of 32 that the code sets. No fuel is used where the code could run out of it.

  \<^bold>\<open>Parameters.\<close> Not defined here, but arguments of the definitions: random octets and identifiers,
  the clock, \<open>sha256\<close>, \<open>json.loads\<close>, \<open>urlopen\<close>, sockets of the operating system, and decoding with replacement
  characters. What is assumed of them stands in the statements or in locales with interpretations.

  \<^bold>\<open>Not modelled.\<close> The proxy itself (Mako), ports of the client to other languages, argument parsing, signal
  handlers, sleeping, printing and the writing of reports, TLS handshakes, thread scheduling inside a handler (each
  runs under its lock), the archived scripts of single measurements (\<^verbatim>\<open>bench/results/\<close>), and tests.
\<close>

end
